(* ===== verification/Sepp_Prelude.thy ===== *)
theory Sepp_Prelude
  imports Main "HOL-Library.Word" "HOL-Library.Finite_Map" "HOL-Library.Char_ord"
    "HOL-Library.List_Lexorder" "HOL-Library.Sublist"
begin

text \<open>
  Shared vocabulary of the development: bytes and byte strings with Rust's lexicographic
  order on \<open>Vec<u8>\<close>, big-endian fixed-width integers, UTF-8 validity, saturating 64-bit
  arithmetic, gRPC statuses, and the ordered finite maps that stand for \<open>BTreeMap\<close> and
  \<open>HashMap\<close>.

  A byte is a \<^typ>\<open>char\<close>. A Rust \<open>&[u8]\<close> or \<open>Vec<u8>\<close> is a list of bytes; a Rust \<open>String\<close>
  or \<open>&str\<close> is the same list, its UTF-8 bytes, so \<open>as_bytes\<close> is the identity and
  \<open>from_utf8\<close> is the validity test. An \<open>i64\<close> is an \<^typ>\<open>int\<close> whose range is the predicate
  \<open>i64_ok\<close>; a \<open>u32\<close> is a \<^typ>\<open>32 word\<close>; \<open>u64\<close> and \<open>usize\<close> quantities that are only
  compared, counted or saturated are \<^typ>\<open>nat\<close>.
\<close>

section \<open>Types\<close>

type_synonym bytes = "char list"
type_synonym str = "char list"
type_synonym i64 = int
type_synonym u32 = "32 word"
type_synonym u64 = nat
type_synonym usize = nat

named_theorems byte_simps \<open>rewriting of encoders and decoders of byte strings\<close>
named_theorems view_simps \<open>how each storage write changes the view of a transaction\<close>
named_theorems index_simps \<open>how each index operation changes keys and counters\<close>

section \<open>gRPC statuses\<close>

text \<open>The \<open>tonic::Status\<close> values the code builds: a code and a message.\<close>

datatype code = Internal | NotFound | FailedPrecondition | InvalidArgument | Unauthenticated
  | ResourceExhausted | Unknown | DataLoss

datatype status = Status (st_code: code) (st_message: string)

section \<open>Machine integers\<close>

definition i64_max :: int where "i64_max = 9223372036854775807"
definition i64_min :: int where "i64_min = - 9223372036854775808"
definition u64_max :: nat where "u64_max = 18446744073709551615"

definition i64_ok :: "int \<Rightarrow> bool" where
  "i64_ok x \<longleftrightarrow> i64_min \<le> x \<and> x \<le> i64_max"

definition i64_sat :: "int \<Rightarrow> i64" where
  "i64_sat x = max i64_min (min i64_max x)"

definition i64_saturating_add :: "i64 \<Rightarrow> i64 \<Rightarrow> i64" where
  "i64_saturating_add a b = i64_sat (a + b)"

definition i64_saturating_sub :: "i64 \<Rightarrow> i64 \<Rightarrow> i64" where
  "i64_saturating_sub a b = i64_sat (a - b)"

definition i64_saturating_mul :: "i64 \<Rightarrow> i64 \<Rightarrow> i64" where
  "i64_saturating_mul a b = i64_sat (a * b)"

text \<open>\<open>i64::try_from(n).unwrap_or(i64::MAX)\<close> on a \<open>u64\<close>.\<close>

definition i64_of_u64 :: "u64 \<Rightarrow> i64" where
  "i64_of_u64 n = (if int n \<le> i64_max then int n else i64_max)"

definition u64_sat :: "nat \<Rightarrow> u64" where
  "u64_sat n = min u64_max n"

lemma i64_sat_ok [simp]: "i64_ok (i64_sat x)"
  by (auto simp: i64_ok_def i64_sat_def i64_max_def i64_min_def)

lemma i64_sat_id [simp]: "i64_ok x \<Longrightarrow> i64_sat x = x"
  by (auto simp: i64_ok_def i64_sat_def)

lemma i64_saturating_add_ok [simp]: "i64_ok (i64_saturating_add a b)"
  by (simp add: i64_saturating_add_def)

lemma i64_of_u64_nonneg [simp]: "0 \<le> i64_of_u64 n"
  by (auto simp: i64_of_u64_def i64_max_def)

lemma i64_of_u64_ok [simp]: "i64_ok (i64_of_u64 n)"
  by (auto simp: i64_of_u64_def i64_max_def i64_ok_def i64_min_def)

lemma i64_saturating_add_le:
  "a \<le> b \<Longrightarrow> i64_saturating_add a c \<le> i64_saturating_add b c"
  by (simp add: i64_saturating_add_def i64_sat_def)

lemma i64_saturating_add_nonneg [simp]:
  "0 \<le> a \<Longrightarrow> 0 \<le> b \<Longrightarrow> 0 \<le> i64_saturating_add a b"
  by (auto simp: i64_saturating_add_def i64_sat_def i64_max_def)

lemma i64_ok_small [simp]: "0 \<le> x \<Longrightarrow> x \<le> 9223372036854775807 \<Longrightarrow> i64_ok x"
  by (auto simp: i64_ok_def i64_max_def i64_min_def)

section \<open>Big-endian bytes\<close>

text \<open>\<open>be w n\<close> are the \<open>w\<close> big-endian bytes of \<open>n\<close>, as \<open>to_be_bytes\<close> lays them out.\<close>

fun be :: "nat \<Rightarrow> nat \<Rightarrow> bytes" where
  "be 0 n = []"
| "be (Suc w) n = char_of (n div 256 ^ w) # be w (n mod 256 ^ w)"

fun from_be :: "bytes \<Rightarrow> nat" where
  "from_be [] = 0"
| "from_be (c # cs) = of_char c * 256 ^ length cs + from_be cs"

lemma length_be [simp]: "length (be w n) = w"
  by (induction w arbitrary: n) auto

lemma of_char_less_256 [simp]: "(of_char c :: nat) < 256"
  by (metis char_of_char of_char_of mod_less_divisor zero_less_numeral)

lemma from_be_less: "from_be cs < 256 ^ length cs"
proof (induction cs)
  case (Cons c cs)
  have "(of_char c :: nat) \<le> 255" using of_char_less_256 [of c] by linarith
  then have "of_char c * 256 ^ length cs \<le> (255 :: nat) * 256 ^ length cs"
    by (rule mult_le_mono1)
  with Cons show ?case unfolding from_be.simps length_Cons power_Suc by linarith
qed simp

lemma from_be_be [simp]: "n < 256 ^ w \<Longrightarrow> from_be (be w n) = n"
proof (induction w arbitrary: n)
  case (Suc w)
  from Suc.prems have "n div 256 ^ w < 256"
    by (simp add: less_mult_imp_div_less mult.commute)
  moreover have "from_be (be w (n mod 256 ^ w)) = n mod 256 ^ w"
    by (rule Suc.IH) simp
  ultimately show ?case by (simp add: of_char_of) (metis div_mult_mod_eq)
qed simp

lemma be_from_be [simp]: "length cs = w \<Longrightarrow> be w (from_be cs) = cs"
proof (induction cs arbitrary: w)
  case (Cons c cs)
  have less: "from_be cs < 256 ^ length cs" by (rule from_be_less)
  then have "(of_char c * 256 ^ length cs + from_be cs) div 256 ^ length cs = (of_char c :: nat)"
    by simp
  moreover from less have "(of_char c * 256 ^ length cs + from_be cs) mod 256 ^ length cs = from_be cs"
    by simp
  ultimately show ?case using Cons by (auto simp: char_of_char)
qed simp

lemma be_inject: "n < 256 ^ w \<Longrightarrow> m < 256 ^ w \<Longrightarrow> be w n = be w m \<longleftrightarrow> n = m"
  by (metis from_be_be)

lemma char_of_less: "a < b \<Longrightarrow> b < 256 \<Longrightarrow> (char_of (a :: nat) :: char) < char_of b"
  by (simp add: less_char_def of_char_of)

text \<open>Byte order is numeric order, whatever follows.\<close>

lemma be_append_less:
  "n < m \<Longrightarrow> m < 256 ^ w \<Longrightarrow> be w n @ xs < be w m @ ys"
proof (induction w arbitrary: n m)
  case (Suc w)
  have dm: "m div 256 ^ w < 256"
    using Suc.prems(2) by (simp add: less_mult_imp_div_less mult.commute)
  have le: "n div 256 ^ w \<le> m div 256 ^ w"
    using Suc.prems(1) by (simp add: div_le_mono)
  show ?case
  proof (cases "n div 256 ^ w = m div 256 ^ w")
    case True
    then have "n mod 256 ^ w < m mod 256 ^ w"
      using Suc.prems(1) by (metis div_mult_mod_eq add_less_cancel_left)
    then have "be w (n mod 256 ^ w) @ xs < be w (m mod 256 ^ w) @ ys"
      by (rule Suc.IH) simp
    with True show ?thesis by simp
  next
    case False
    with le dm have "(char_of (n div 256 ^ w) :: char) < char_of (m div 256 ^ w)"
      by (intro char_of_less) auto
    then show ?thesis by simp
  qed
qed simp

lemma append_less_same [simp]: "(zs :: bytes) @ xs < zs @ ys \<longleftrightarrow> xs < ys"
  by (induction zs) auto

lemma append_le_same [simp]: "(zs :: bytes) @ xs \<le> zs @ ys \<longleftrightarrow> xs \<le> ys"
  by (induction zs) auto

section \<open>UTF-8\<close>

definition cont :: "char \<Rightarrow> bool" where
  "cont c \<longleftrightarrow> 0x80 \<le> (of_char c :: nat) \<and> (of_char c :: nat) \<le> 0xBF"

definition between :: "nat \<Rightarrow> nat \<Rightarrow> char \<Rightarrow> bool" where
  "between lo hi c \<longleftrightarrow> lo \<le> of_char c \<and> of_char c \<le> hi"

text \<open>Well-formed UTF-8: shortest forms only, no surrogates, nothing beyond U+10FFFF.\<close>

fun utf8_valid :: "bytes \<Rightarrow> bool" where
  "utf8_valid [] = True"
| "utf8_valid (a # bs) =
     (if between 0 0x7F a then utf8_valid bs
      else case bs of
        [] \<Rightarrow> False
      | b # cs \<Rightarrow>
          if between 0xC2 0xDF a then cont b \<and> utf8_valid cs
          else case cs of
            [] \<Rightarrow> False
          | c # ds \<Rightarrow>
              if between 0xE0 0xE0 a then between 0xA0 0xBF b \<and> cont c \<and> utf8_valid ds
              else if between 0xE1 0xEC a \<or> between 0xEE 0xEF a then cont b \<and> cont c \<and> utf8_valid ds
              else if between 0xED 0xED a then between 0x80 0x9F b \<and> cont c \<and> utf8_valid ds
              else case ds of
                [] \<Rightarrow> False
              | d # es \<Rightarrow>
                  if between 0xF0 0xF0 a
                  then between 0x90 0xBF b \<and> cont c \<and> cont d \<and> utf8_valid es
                  else if between 0xF1 0xF3 a
                  then cont b \<and> cont c \<and> cont d \<and> utf8_valid es
                  else if between 0xF4 0xF4 a
                  then between 0x80 0x8F b \<and> cont c \<and> cont d \<and> utf8_valid es
                  else False)"

declare utf8_valid.simps(2) [simp del]

definition from_utf8 :: "bytes \<Rightarrow> str option" where
  "from_utf8 bs = (if utf8_valid bs then Some bs else None)"

lemma from_utf8_Some: "from_utf8 bs = Some s \<longleftrightarrow> s = bs \<and> utf8_valid bs"
  by (auto simp: from_utf8_def)

lemma from_utf8_valid [simp]: "utf8_valid s \<Longrightarrow> from_utf8 s = Some s"
  by (simp add: from_utf8_def)

definition ascii :: "bytes \<Rightarrow> bool" where
  "ascii bs \<longleftrightarrow> list_all (\<lambda>c. (of_char c :: nat) < 128) bs"

lemma ascii_utf8: "ascii bs \<Longrightarrow> utf8_valid bs"
  by (induction bs) (auto simp: ascii_def between_def utf8_valid.simps(2))

section \<open>Ordered finite maps\<close>

text \<open>
  \<open>BTreeMap\<close> and \<open>HashMap\<close> are finite maps. A \<open>BTreeMap\<close> is walked in key order, which is
  \<^const>\<open>sorted_list_of_fmap\<close>; the code never depends on the order in which a \<open>HashMap\<close> is
  walked, so the same list serves for it.
\<close>

definition first_from :: "'k::linorder \<Rightarrow> ('k, 'v) fmap \<Rightarrow> ('k \<times> 'v) option" where
  "first_from p m = List.find (\<lambda>(k, _). p \<le> k) (sorted_list_of_fmap m)"

definition first_entry :: "('k::linorder, 'v) fmap \<Rightarrow> ('k \<times> 'v) option" where
  "first_entry m = (case sorted_list_of_fmap m of [] \<Rightarrow> None | e # _ \<Rightarrow> Some e)"

lemma map_fst_sorted_list_of_fmap [simp]:
  "map fst (sorted_list_of_fmap m) = sorted_list_of_fset (fmdom m)"
  by (simp add: sorted_list_of_fmap_def comp_def)

lemma sorted_fst_sorted_list_of_fmap: "sorted (map fst (sorted_list_of_fmap m))"
  by (simp add: sorted_list_of_fset.rep_eq)

lemma distinct_fst_sorted_list_of_fmap: "distinct (map fst (sorted_list_of_fmap m))"
  by (simp add: sorted_list_of_fset.rep_eq)

lemma set_sorted_list_of_fmap:
  "(k, v) \<in> set (sorted_list_of_fmap m) \<longleftrightarrow> fmlookup m k = Some v"
  by (metis distinct_fst_sorted_list_of_fmap map_of_eq_Some_iff map_of_sorted_list)

lemma map_filter_mem: "y \<in> set (List.map_filter g xs) \<longleftrightarrow> (\<exists>x \<in> set xs. g x = Some y)"
  by (induction xs) (auto simp: List.map_filter_simps split: option.splits)

lemma map_filter_enumerate_Nil:
  "List.map_filter (\<lambda>(i, x). map_option (h i x) (g x)) (enumerate n xs) = [] \<longleftrightarrow> (\<forall>x \<in> set xs. g x = None)"
  by (induction xs arbitrary: n) (auto simp: List.map_filter_simps split: option.splits)

lemma filter_enumerate_Nil: "filter (\<lambda>(i, x). p x) (enumerate n xs) = [] \<longleftrightarrow> (\<forall>x \<in> set xs. \<not> p x)"
  by (induction xs arbitrary: n) auto

lemma map_of_sorted_list: "map_of (sorted_list_of_fmap M) k = fmlookup M k"
proof (cases "fmlookup M k")
  case None
  then have "k \<notin> fst ` set (sorted_list_of_fmap M)" by (auto simp: set_sorted_list_of_fmap)
  with None show ?thesis by (simp add: map_of_eq_None_iff)
next
  case (Some v)
  then have "(k, v) \<in> set (sorted_list_of_fmap M)" by (simp add: set_sorted_list_of_fmap)
  with Some show ?thesis by (simp add: map_of_is_SomeI [OF distinct_fst_sorted_list_of_fmap])
qed

lemma fmap_of_sorted_list [simp]: "fmap_of_list (sorted_list_of_fmap M) = M"
  by (intro fmap_ext) (simp add: fmlookup_of_list map_of_sorted_list)

lemma length_sorted_list_of_fmap: "length (sorted_list_of_fmap m) = card (fmdom' m)"
  by (metis length_map map_fst_sorted_list_of_fmap fmdom'_alt_def
      sorted_list_of_fset.rep_eq length_sorted_list_of_set)

lemma find_sorted_min:
  assumes "sorted (map fst xs)" and "List.find (\<lambda>(k, _). P k) xs = Some (k, v)"
  shows "(k, v) \<in> set xs \<and> P k \<and> (\<forall>k' v'. (k', v') \<in> set xs \<longrightarrow> P k' \<longrightarrow> k \<le> k')"
  using assms by (induction xs) (fastforce split: if_splits prod.splits)+

lemma first_from_Some:
  assumes "first_from p m = Some (k, v)"
  shows "fmlookup m k = Some v" and "p \<le> k"
    and "fmlookup m k' = Some v' \<Longrightarrow> p \<le> k' \<Longrightarrow> k \<le> k'"
  using find_sorted_min [OF sorted_fst_sorted_list_of_fmap, of "\<lambda>k. p \<le> k" m k v] assms
  by (auto simp: first_from_def set_sorted_list_of_fmap)

lemma first_from_None:
  "first_from p m = None \<longleftrightarrow> (\<forall>k v. fmlookup m k = Some v \<longrightarrow> \<not> p \<le> k)"
  by (auto simp: first_from_def find_None_iff set_sorted_list_of_fmap dest: option.discI)

lemma first_entry_Some:
  assumes "first_entry m = Some (k, v)"
  shows "fmlookup m k = Some v" and "fmlookup m k' = Some v' \<Longrightarrow> k \<le> k'"
proof -
  obtain xs where xs: "sorted_list_of_fmap m = (k, v) # xs"
    using assms by (auto simp: first_entry_def split: list.splits)
  then show "fmlookup m k = Some v"
    by (metis list.set_intros(1) set_sorted_list_of_fmap)
  assume "fmlookup m k' = Some v'"
  then have "(k', v') \<in> set ((k, v) # xs)"
    by (simp add: set_sorted_list_of_fmap flip: xs)
  moreover have "sorted (map fst ((k, v) # xs))"
    using sorted_fst_sorted_list_of_fmap [of m] unfolding xs .
  ultimately show "k \<le> k'" by auto
qed

lemma first_entry_None: "first_entry m = None \<longleftrightarrow> m = fmempty"
proof
  assume "first_entry m = None"
  then have "sorted_list_of_fmap m = []" by (auto simp: first_entry_def split: list.splits)
  then have "fmlookup m k = None" for k by (metis map_of_sorted_list map_of.simps(1))
  then show "m = fmempty" by (intro fmap_ext) simp
next
  assume "m = fmempty"
  then show "first_entry m = None"
    by (simp add: first_entry_def sorted_list_of_fmap_def sorted_list_of_fset.rep_eq)
qed

text \<open>The number of entries of a map that satisfy a predicate.\<close>

definition fmcount :: "('k \<Rightarrow> 'v \<Rightarrow> bool) \<Rightarrow> ('k, 'v) fmap \<Rightarrow> nat" where
  "fmcount P m = card {k. \<exists>v. fmlookup m k = Some v \<and> P k v}"

lemma finite_fmcount [simp]: "finite {k. \<exists>v. fmlookup m k = Some v \<and> P k v}"
  by (rule finite_subset [OF _ finite_fmdom' [of m]]) (auto simp: fmlookup_dom'_iff)

lemma fmcount_empty [simp]: "fmcount P fmempty = 0"
  by (simp add: fmcount_def)

lemma fmcount_upd_new:
  assumes "fmlookup m k = None"
  shows "fmcount P (fmupd k v m) = fmcount P m + (if P k v then 1 else 0)"
proof -
  have "{k'. \<exists>v'. fmlookup (fmupd k v m) k' = Some v' \<and> P k' v'} =
      (if P k v then insert k {k'. \<exists>v'. fmlookup m k' = Some v' \<and> P k' v'}
       else {k'. \<exists>v'. fmlookup m k' = Some v' \<and> P k' v'})"
    using assms by (auto split: if_splits)
  then show ?thesis using assms by (simp add: fmcount_def)
qed

lemma fmcount_drop:
  assumes "fmlookup m k = Some v"
  shows "fmcount P m = fmcount P (fmdrop k m) + (if P k v then 1 else 0)"
proof -
  have "m = fmupd k v (fmdrop k m)" using assms by (intro fmap_ext) auto
  then have "fmcount P m = fmcount P (fmupd k v (fmdrop k m))" by simp
  also have "\<dots> = fmcount P (fmdrop k m) + (if P k v then 1 else 0)"
    by (rule fmcount_upd_new) simp
  finally show ?thesis .
qed

lemma fmcount_0: "fmcount P m = 0 \<longleftrightarrow> (\<forall>k v. fmlookup m k = Some v \<longrightarrow> \<not> P k v)"
  by (auto simp: fmcount_def)

lemma fmcount_cong:
  "(\<And>k v. fmlookup m k = Some v \<Longrightarrow> P k v = Q k v) \<Longrightarrow> fmcount P m = fmcount Q m"
  by (auto simp: fmcount_def intro!: arg_cong [where f = card])

section \<open>Early returns and number formatting\<close>

text \<open>
  The \<open>?\<close> operator on a check that returns \<open>Result<(), E>\<close>: the first failure wins. A loop
  of checks runs over a list and stops at the first failure.
\<close>

definition and_then :: "'e + unit \<Rightarrow> 'e + unit \<Rightarrow> 'e + unit" where
  "and_then a b = (case a of Inl e \<Rightarrow> Inl e | Inr _ \<Rightarrow> b)"

fun check_all :: "('a \<Rightarrow> 'e + unit) \<Rightarrow> 'a list \<Rightarrow> 'e + unit" where
  "check_all f [] = Inr ()"
| "check_all f (x # xs) = and_then (f x) (check_all f xs)"

definition check_opt :: "('a \<Rightarrow> 'e + unit) \<Rightarrow> 'a option \<Rightarrow> 'e + unit" where
  "check_opt f x = (case x of None \<Rightarrow> Inr () | Some v \<Rightarrow> f v)"

definition check_if :: "bool \<Rightarrow> 'e \<Rightarrow> 'e + unit" where
  "check_if bad e = (if bad then Inl e else Inr ())"

lemma and_then_Inr [simp]: "and_then a b = Inr u \<longleftrightarrow> a = Inr () \<and> b = Inr ()"
  by (auto simp: and_then_def split: sum.splits)

lemma check_all_Inr [simp]: "check_all f xs = Inr u \<longleftrightarrow> (\<forall>x \<in> set xs. f x = Inr ())"
  by (induction xs) auto

lemma check_opt_Inr [simp]: "check_opt f x = Inr u \<longleftrightarrow> (\<forall>v. x = Some v \<longrightarrow> f v = Inr ())"
  by (auto simp: check_opt_def split: option.splits)

lemma check_if_Inr [simp]: "check_if bad e = Inr u \<longleftrightarrow> \<not> bad"
  by (auto simp: check_if_def)

text \<open>Decimal formatting, as \<open>format!("{n}")\<close> prints an unsigned integer.\<close>

fun show_nat :: "nat \<Rightarrow> string" where
  "show_nat n =
     (if n < 10 then [char_of (48 + n)] else show_nat (n div 10) @ [char_of (48 + n mod 10)])"

declare show_nat.simps [simp del]

end
