(* ===== verification/Pb.thy ===== *)
theory Pb
  imports Sepp_Prelude
begin

text \<open>
  The protobuf messages of \<open>proto/sepp/v1/queue.proto\<close> that reach storage, the audit record of
  \<open>proto/sepp/storage/v1/op.proto\<close>, and the time conversions of \<open>src/pb.rs\<close>.

  The message encoders and decoders are generated by prost, and the canonical form of
  timestamps and durations is computed by \<open>prost_types\<close>. Neither is in the repository, so both
  are a parameter of the model: a value of the record \<open>prost\<close>. The locale \<open>prost_laws\<close> states
  what the code relies on. \<open>Prost_Ref\<close> shows that the laws can be met.
\<close>

section \<open>Messages\<close>

record timestamp =
  ts_seconds :: int
  ts_nanos :: int

record duration =
  dur_seconds :: int
  dur_nanos :: int

datatype prim = StringValue str | DoubleValue "64 word" | IntValue int | BoolValue bool

datatype primitive_value = PrimitiveValue (pv_value: "prim option")

record trace_context =
  tc_traceparent :: str
  tc_tracestate :: "str option"

record payload =
  pl_data :: bytes
  pl_encoding :: str

record job =
  j_id :: str
  j_type :: str
  j_payload :: "payload option"
  j_priority :: u32
  j_trace_context :: "trace_context option"
  j_enqueued_at :: "timestamp option"
  j_attempt :: u32
  j_max_attempts :: u32
  j_lease_expires_at :: "timestamp option"
  j_custom :: "(str, primitive_value) fmap"
  j_scheduled_at :: "timestamp option"
  j_queue :: str

record enqueue_request =
  er_queue :: str
  er_job_type :: str
  er_payload :: "payload option"
  er_idempotency_key :: "str option"
  er_priority :: "u32 option"
  er_max_attempts :: "u32 option"
  er_trace_context :: "trace_context option"
  er_custom :: "(str, primitive_value) fmap"
  er_scheduled_at :: "timestamp option"

record enqueue_response =
  resp_job_id :: str
  resp_deduplicated :: bool

datatype reason =
    UnknownQueue str
  | PayloadTooLarge u64 u64
  | EncodingNotAllowed str "str list"
  | JobTypeNotAllowed str "str list"
  | CustomEntriesTooMany u32 u32
  | CustomMapTooLarge u64 u64
  | CustomKeyTooLong str u32 u64
  | QueueNameTooLong u32 u64
  | JobTypeNameTooLong u32 u64
  | IdempotencyKeyTooLong u32 u64
  | ScheduledTooFar "duration option" "timestamp option"
  | InvalidRequest string
  | QueueFull str u64
  | QueueClosing str

datatype job_rejection = JobRejection (rej_reason: "reason option")

datatype strategy = StrategyDefault | StrategyDelay duration | StrategyDeadLetter

datatype nack_retry = NackRetry (nr_strategy: "strategy option")

record nack_request =
  nack_job_id :: str
  nack_attempt :: u32
  nack_reason :: "str option"
  nack_retry_field :: "nack_retry option"
  nack_worker_id :: "str option"

record extend_request =
  ext_job_id :: str
  ext_attempt :: u32
  ext_lease_duration :: "duration option"
  ext_worker_id :: "str option"

datatype dead_letter_cause =
  CauseUnspecified | CauseAttemptsExhausted | CauseRejected | CauseLeaseExpired | CauseAdmin

definition cause_i32 :: "dead_letter_cause \<Rightarrow> int" where
  "cause_i32 c = (case c of CauseUnspecified \<Rightarrow> 0 | CauseAttemptsExhausted \<Rightarrow> 1
     | CauseRejected \<Rightarrow> 2 | CauseLeaseExpired \<Rightarrow> 3 | CauseAdmin \<Rightarrow> 4)"

record dead_letter_record =
  dl_job :: "job option"
  dl_cause :: int
  dl_failed_at :: "timestamp option"
  dl_final_attempt :: u32
  dl_last_reason :: "str option"

record audit_record =
  au_actor :: str
  au_role :: str
  au_action :: str
  au_details_json :: str

section \<open>The prost parameter\<close>

record prost =
  ts_normalize :: "timestamp \<Rightarrow> timestamp"
  dur_normalize :: "duration \<Rightarrow> duration"
  job_encode :: "job \<Rightarrow> bytes"
  job_decode :: "bytes \<Rightarrow> job option"
  payload_encode :: "payload \<Rightarrow> bytes"
  payload_decode :: "bytes \<Rightarrow> payload option"
  dlr_encode :: "dead_letter_record \<Rightarrow> bytes"
  dlr_decode :: "bytes \<Rightarrow> dead_letter_record option"
  audit_encode :: "audit_record \<Rightarrow> bytes"
  audit_decode :: "bytes \<Rightarrow> audit_record option"
  tc_encode :: "trace_context \<Rightarrow> bytes"
  tc_decode :: "bytes \<Rightarrow> trace_context option"

text \<open>The values the Rust types of the messages can hold: UTF-8 strings, integers in range.\<close>

definition i32_ok :: "int \<Rightarrow> bool" where
  "i32_ok x \<longleftrightarrow> - 2147483648 \<le> x \<and> x \<le> 2147483647"

definition ts_ok :: "timestamp \<Rightarrow> bool" where
  "ts_ok t \<longleftrightarrow> i64_ok (ts_seconds t) \<and> i32_ok (ts_nanos t)"

definition prim_ok :: "prim \<Rightarrow> bool" where
  "prim_ok v = (case v of StringValue s \<Rightarrow> utf8_valid s | IntValue i \<Rightarrow> i64_ok i | _ \<Rightarrow> True)"

definition pv_ok :: "primitive_value \<Rightarrow> bool" where
  "pv_ok v = pred_option prim_ok (pv_value v)"

definition custom_ok :: "(str, primitive_value) fmap \<Rightarrow> bool" where
  "custom_ok m = fmpred (\<lambda>k v. utf8_valid k \<and> pv_ok v) m"

definition tc_ok :: "trace_context \<Rightarrow> bool" where
  "tc_ok t \<longleftrightarrow> utf8_valid (tc_traceparent t) \<and> pred_option utf8_valid (tc_tracestate t)"

definition payload_ok :: "payload \<Rightarrow> bool" where
  "payload_ok p = utf8_valid (pl_encoding p)"

definition job_ok :: "job \<Rightarrow> bool" where
  "job_ok j \<longleftrightarrow> utf8_valid (j_id j) \<and> utf8_valid (j_type j) \<and> pred_option payload_ok (j_payload j)
     \<and> pred_option tc_ok (j_trace_context j) \<and> pred_option ts_ok (j_enqueued_at j)
     \<and> pred_option ts_ok (j_lease_expires_at j) \<and> custom_ok (j_custom j)
     \<and> pred_option ts_ok (j_scheduled_at j) \<and> utf8_valid (j_queue j)"

definition dlr_ok :: "dead_letter_record \<Rightarrow> bool" where
  "dlr_ok r \<longleftrightarrow> pred_option job_ok (dl_job r) \<and> i32_ok (dl_cause r)
     \<and> pred_option ts_ok (dl_failed_at r) \<and> pred_option utf8_valid (dl_last_reason r)"

definition audit_ok :: "audit_record \<Rightarrow> bool" where
  "audit_ok r \<longleftrightarrow> utf8_valid (au_actor r) \<and> utf8_valid (au_role r) \<and> utf8_valid (au_action r)
     \<and> utf8_valid (au_details_json r)"

text \<open>The protobuf default of a trace context: the empty message.\<close>

definition tc_default :: trace_context where
  "tc_default = \<lparr>tc_traceparent = [], tc_tracestate = None\<rparr>"

text \<open>Canonical timestamps and durations, which \<open>normalize\<close> leaves alone.\<close>

definition ts_canonical :: "timestamp \<Rightarrow> bool" where
  "ts_canonical t \<longleftrightarrow> i64_ok (ts_seconds t) \<and> 0 \<le> ts_nanos t \<and> ts_nanos t < 1000000000"

definition dur_canonical :: "duration \<Rightarrow> bool" where
  "dur_canonical d \<longleftrightarrow> i64_ok (dur_seconds d) \<and> 0 \<le> dur_seconds d
     \<and> 0 \<le> dur_nanos d \<and> dur_nanos d < 1000000000"

text \<open>
  One message type: what is encoded decodes to itself, and a decoded message is a value of its
  Rust type.
\<close>

locale message_codec =
  fixes ok :: "'m \<Rightarrow> bool"
    and enc :: "'m \<Rightarrow> bytes"
    and dec :: "bytes \<Rightarrow> 'm option"
  assumes dec_enc: "ok m \<Longrightarrow> dec (enc m) = Some m"
    and dec_ok: "dec b = Some m \<Longrightarrow> ok m"
begin

lemma enc_inject: "ok m \<Longrightarrow> ok n \<Longrightarrow> enc m = enc n \<longleftrightarrow> m = n"
  by (metis dec_enc option.inject)

end

locale prost_laws =
  job: message_codec job_ok "job_encode P" "job_decode P" +
  payload: message_codec payload_ok "payload_encode P" "payload_decode P" +
  dlr: message_codec dlr_ok "dlr_encode P" "dlr_decode P" +
  audit: message_codec audit_ok "audit_encode P" "audit_decode P" +
  tc: message_codec tc_ok "tc_encode P" "tc_decode P"
  for P :: prost +
  assumes ts_canonical_id: "ts_canonical t \<Longrightarrow> ts_normalize P t = t"
    and dur_canonical_id: "dur_canonical d \<Longrightarrow> dur_normalize P d = d"
    and tc_encode_empty: "tc_ok c \<Longrightarrow> tc_encode P c = [] \<longleftrightarrow> c = tc_default"

section \<open>src/pb.rs: millisecond conversions\<close>

text \<open>Rust's integer division truncates towards zero.\<close>

definition trunc_div :: "int \<Rightarrow> int \<Rightarrow> int" where
  "trunc_div a b =
     (let q = nat \<bar>a\<bar> div nat \<bar>b\<bar> in if (a < 0) = (b < 0) then int q else - int q)"

definition millis_to_timestamp :: "prost \<Rightarrow> i64 \<Rightarrow> timestamp" where
  "millis_to_timestamp P ms =
     ts_normalize P \<lparr>ts_seconds = ms div 1000, ts_nanos = (ms mod 1000) * 1000000\<rparr>"

definition timestamp_to_millis :: "prost \<Rightarrow> timestamp \<Rightarrow> i64" where
  "timestamp_to_millis P ts =
     (let norm = ts_normalize P ts
      in i64_saturating_add (i64_saturating_mul (ts_seconds norm) 1000)
           (trunc_div (ts_nanos norm) 1000000))"

definition millis_to_duration :: "u64 \<Rightarrow> duration" where
  "millis_to_duration ms =
     \<lparr>dur_seconds = int (ms div 1000), dur_nanos = int ((ms mod 1000) * 1000000)\<rparr>"

definition duration_to_millis :: "prost \<Rightarrow> duration \<Rightarrow> u64" where
  "duration_to_millis P d =
     (let norm = dur_normalize P d;
          secs = nat (max (dur_seconds norm) 0);
          nanos_ms = nat (max (dur_nanos norm) 0 div 1000000)
      in u64_sat (u64_sat (secs * 1000) + nanos_ms))"

lemma ts_canonical_millis:
  "i64_ok ms \<Longrightarrow> ts_canonical \<lparr>ts_seconds = ms div 1000, ts_nanos = (ms mod 1000) * 1000000\<rparr>"
  by (auto simp: ts_canonical_def i64_ok_def i64_min_def i64_max_def)

context prost_laws
begin

lemma millis_to_timestamp_eq:
  "i64_ok ms \<Longrightarrow> millis_to_timestamp P ms =
     \<lparr>ts_seconds = ms div 1000, ts_nanos = (ms mod 1000) * 1000000\<rparr>"
  by (simp add: millis_to_timestamp_def ts_canonical_id ts_canonical_millis)

lemma millis_to_timestamp_ok [simp]: "i64_ok ms \<Longrightarrow> ts_ok (millis_to_timestamp P ms)"
  by (auto simp: millis_to_timestamp_eq ts_ok_def i32_ok_def i64_ok_def i64_min_def i64_max_def)

lemma trunc_div_millis: "trunc_div ((ms mod 1000) * 1000000) 1000000 = ms mod 1000"
proof -
  have "0 \<le> ms mod 1000" by simp
  then show ?thesis by (auto simp: trunc_div_def Let_def nat_mult_distrib)
qed

lemma timestamp_round_trip:
  assumes "i64_ok ms"
  shows "timestamp_to_millis P (millis_to_timestamp P ms) =
    i64_saturating_add (i64_saturating_mul (ms div 1000) 1000) (ms mod 1000)"
  using assms
  by (simp add: timestamp_to_millis_def millis_to_timestamp_eq ts_canonical_id
      ts_canonical_millis trunc_div_millis Let_def)

text \<open>Only the lowest 808 values of the \<open>i64\<close> range saturate on the way back.\<close>

lemma timestamp_to_millis_inverse [simp]:
  assumes "i64_ok ms" and "- 9223372036854775000 \<le> ms"
  shows "timestamp_to_millis P (millis_to_timestamp P ms) = ms"
proof -
  have "- 9223372036854775000 div 1000 \<le> ms div 1000" by (rule zdiv_mono1 [OF assms(2)]) simp
  moreover have "ms div 1000 * 1000 = ms - ms mod 1000" "0 \<le> ms mod 1000"
    by (simp_all add: minus_mod_eq_div_mult)
  ultimately have "i64_ok (ms div 1000 * 1000)"
    using assms unfolding i64_ok_def i64_min_def i64_max_def by simp
  with assms show ?thesis
    by (simp add: timestamp_round_trip i64_saturating_add_def i64_saturating_mul_def)
qed

lemma duration_round_trip:
  assumes "ms \<le> u64_max"
  shows "duration_to_millis P (millis_to_duration ms) = ms"
proof -
  have *: "ms div 1000 * 1000 + ms mod 1000 = ms" "ms div 1000 * 1000 \<le> ms"
    by simp_all
  have "dur_canonical (millis_to_duration ms)"
    using assms by (auto simp: dur_canonical_def millis_to_duration_def u64_max_def
        i64_ok_def i64_min_def i64_max_def)
  then have "duration_to_millis P (millis_to_duration ms)
      = u64_sat (u64_sat (ms div 1000 * 1000) + ms mod 1000)"
    by (simp add: duration_to_millis_def dur_canonical_id Let_def)
       (simp add: millis_to_duration_def nat_div_distrib nat_mult_distrib nat_mod_distrib)
  also have "\<dots> = ms"
    using assms * unfolding u64_sat_def by linarith
  finally show ?thesis .
qed

end

end
