(* ===== verification/Prost_Ref.thy ===== *)
theory Prost_Ref
  imports Pb
begin

text \<open>
  A reference encoding of the messages that meets \<open>prost_laws\<close>. It is not the wire format: it
  shows that the hypotheses on the prost parameter can hold together, and it is what the
  examples of the development run on. Encoders are put together from prefix codes: decoding an
  encoded value followed by any bytes gives back the value and those bytes.
\<close>

section \<open>Prefix codes\<close>

locale prefix_code =
  fixes ok :: "'a \<Rightarrow> bool"
    and enc :: "'a \<Rightarrow> bytes"
    and dec :: "bytes \<Rightarrow> ('a \<times> bytes) option"
  assumes dec_app: "ok x \<Longrightarrow> dec (enc x @ r) = Some (x, r)"
begin

text \<open>A whole message: nothing may follow, and the value must be one of its Rust type.\<close>

lemma message:
  assumes "\<And>b. decode b = (case dec b of Some (m, []) \<Rightarrow> if ok m then Some m else None | _ \<Rightarrow> None)"
  shows "message_codec ok enc decode"
proof
  show "decode (enc m) = Some m" if "ok m" for m
    using dec_app [OF that, of "[]"] that by (simp add: assms)
  show "ok m" if "decode b = Some m" for b m
    using that by (auto simp: assms split: option.splits prod.splits list.splits if_splits)
qed

end

abbreviation anything :: "'a \<Rightarrow> bool" where
  "anything \<equiv> \<lambda>_. True"

fun enc_str :: "bytes \<Rightarrow> bytes" where
  "enc_str [] = [CHR 0x00]"
| "enc_str (c # cs) = CHR 0x01 # c # enc_str cs"

fun dec_str :: "bytes \<Rightarrow> (bytes \<times> bytes) option" where
  "dec_str (t # r) =
     (if t = CHR 0x00 then Some ([], r)
      else case r of [] \<Rightarrow> None | c # r \<Rightarrow> map_option (\<lambda>(cs, r). (c # cs, r)) (dec_str r))"
| "dec_str [] = None"

interpretation str_code: prefix_code anything enc_str dec_str
proof
  show "dec_str (enc_str x @ r) = Some (x, r)" for x r by (induction x) auto
qed

fun nat_bytes :: "nat \<Rightarrow> bytes" where
  "nat_bytes n = (if n = 0 then [] else char_of (n mod 256) # nat_bytes (n div 256))"

fun bytes_nat :: "bytes \<Rightarrow> nat" where
  "bytes_nat [] = 0"
| "bytes_nat (c # cs) = of_char c + 256 * bytes_nat cs"

declare nat_bytes.simps [simp del]

lemma bytes_nat_bytes: "bytes_nat (nat_bytes n) = n"
proof (induction n rule: nat_bytes.induct)
  case (1 n)
  then show ?case by (cases "n = 0") (simp_all add: nat_bytes.simps [of n] nat_bytes.simps [of 0])
qed

definition enc_nat :: "nat \<Rightarrow> bytes" where
  "enc_nat n = enc_str (nat_bytes n)"

definition dec_nat :: "bytes \<Rightarrow> (nat \<times> bytes) option" where
  "dec_nat b = map_option (\<lambda>(d, r). (bytes_nat d, r)) (dec_str b)"

interpretation nat_code: prefix_code anything enc_nat dec_nat
  by standard (simp add: enc_nat_def dec_nat_def str_code.dec_app bytes_nat_bytes)

text \<open>A value read through a bijection with an encoded type.\<close>

definition enc_via :: "('a \<Rightarrow> 'b) \<Rightarrow> ('b \<Rightarrow> bytes) \<Rightarrow> 'a \<Rightarrow> bytes" where
  "enc_via f enc x = enc (f x)"

definition dec_via :: "('b \<Rightarrow> 'a) \<Rightarrow> (bytes \<Rightarrow> ('b \<times> bytes) option) \<Rightarrow> bytes \<Rightarrow> ('a \<times> bytes) option" where
  "dec_via g dec b = map_option (\<lambda>(y, r). (g y, r)) (dec b)"

lemma via_code:
  assumes "prefix_code anything enc dec" and "\<And>x. g (f x) = x"
  shows "prefix_code anything (enc_via f enc) (dec_via g dec)"
  using assms by (auto simp: prefix_code_def enc_via_def dec_via_def)

definition enc_pair :: "('a \<Rightarrow> bytes) \<Rightarrow> ('b \<Rightarrow> bytes) \<Rightarrow> 'a \<times> 'b \<Rightarrow> bytes" where
  "enc_pair e f p = e (fst p) @ f (snd p)"

definition dec_pair ::
    "(bytes \<Rightarrow> ('a \<times> bytes) option) \<Rightarrow> (bytes \<Rightarrow> ('b \<times> bytes) option) \<Rightarrow> bytes \<Rightarrow> (('a \<times> 'b) \<times> bytes) option" where
  "dec_pair d g b = (case d b of None \<Rightarrow> None | Some (x, r) \<Rightarrow> map_option (\<lambda>(y, r). ((x, y), r)) (g r))"

lemma pair_code:
  assumes "prefix_code anything e d" and "prefix_code anything f g"
  shows "prefix_code anything (enc_pair e f) (dec_pair d g)"
  using assms by (auto simp: prefix_code_def enc_pair_def dec_pair_def)

definition enc_opt :: "('a \<Rightarrow> bytes) \<Rightarrow> 'a option \<Rightarrow> bytes" where
  "enc_opt e x = (case x of None \<Rightarrow> [CHR 0x00] | Some y \<Rightarrow> CHR 0x01 # e y)"

definition dec_opt :: "(bytes \<Rightarrow> ('a \<times> bytes) option) \<Rightarrow> bytes \<Rightarrow> ('a option \<times> bytes) option" where
  "dec_opt d b = (case b of [] \<Rightarrow> None
     | t # r \<Rightarrow> if t = CHR 0x00 then Some (None, r) else map_option (\<lambda>(y, r). (Some y, r)) (d r))"

lemma opt_code: "prefix_code anything e d \<Longrightarrow> prefix_code anything (enc_opt e) (dec_opt d)"
  by (auto simp: prefix_code_def enc_opt_def dec_opt_def split: option.splits)

fun enc_list :: "('a \<Rightarrow> bytes) \<Rightarrow> 'a list \<Rightarrow> bytes" where
  "enc_list e [] = []"
| "enc_list e (x # xs) = e x @ enc_list e xs"

fun dec_list :: "(bytes \<Rightarrow> ('a \<times> bytes) option) \<Rightarrow> nat \<Rightarrow> bytes \<Rightarrow> ('a list \<times> bytes) option" where
  "dec_list d 0 b = Some ([], b)"
| "dec_list d (Suc n) b =
     (case d b of None \<Rightarrow> None | Some (x, r) \<Rightarrow> map_option (\<lambda>(xs, r). (x # xs, r)) (dec_list d n r))"

definition enc_seq :: "('a \<Rightarrow> bytes) \<Rightarrow> 'a list \<Rightarrow> bytes" where
  "enc_seq e xs = enc_nat (length xs) @ enc_list e xs"

definition dec_seq :: "(bytes \<Rightarrow> ('a \<times> bytes) option) \<Rightarrow> bytes \<Rightarrow> ('a list \<times> bytes) option" where
  "dec_seq d b = (case dec_nat b of None \<Rightarrow> None | Some (n, r) \<Rightarrow> dec_list d n r)"

lemma seq_code:
  assumes "prefix_code anything e d"
  shows "prefix_code anything (enc_seq e) (dec_seq d)"
proof
  fix xs r
  have "dec_list d (length xs) (enc_list e xs @ r) = Some (xs, r)"
    using assms by (induction xs) (auto simp: prefix_code_def)
  then show "dec_seq d (enc_seq e xs @ r) = Some (xs, r)"
    by (simp add: dec_seq_def enc_seq_def nat_code.dec_app)
qed

section \<open>The messages\<close>

text \<open>Each message is read as a tuple of its fields.\<close>

definition enc_int :: "int \<Rightarrow> bytes" where
  "enc_int = enc_via (\<lambda>i. if i < 0 then (nat (- i), Some ()) else (nat i, None)) (enc_pair enc_nat (enc_opt (\<lambda>_. [])))"

definition dec_int :: "bytes \<Rightarrow> (int \<times> bytes) option" where
  "dec_int = dec_via (\<lambda>(n, s). if s = None then int n else - int n) (dec_pair dec_nat (dec_opt (\<lambda>b. Some ((), b))))"

definition enc_word :: "'w::len word \<Rightarrow> bytes" where
  "enc_word = enc_via unat enc_nat"

definition dec_word :: "bytes \<Rightarrow> ('w::len word \<times> bytes) option" where
  "dec_word = dec_via of_nat dec_nat"

lemma str_prefix: "prefix_code anything enc_str dec_str"
  by (rule str_code.prefix_code_axioms)

lemma int_prefix: "prefix_code anything enc_int dec_int"
  unfolding enc_int_def dec_int_def
  by (rule via_code, rule pair_code, rule nat_code.prefix_code_axioms, rule opt_code)
     (auto simp: prefix_code_def)

lemma word_prefix: "prefix_code anything enc_word dec_word"
  unfolding enc_word_def dec_word_def
  by (rule via_code, rule nat_code.prefix_code_axioms) simp

lemmas field_codes = str_prefix int_prefix word_prefix pair_code opt_code seq_code

definition enc_prim :: "prim \<Rightarrow> bytes" where
  "enc_prim v = (case v of
     StringValue s \<Rightarrow> CHR 0x00 # enc_str s | DoubleValue w \<Rightarrow> CHR 0x01 # enc_word w
   | IntValue i \<Rightarrow> CHR 0x02 # enc_int i | BoolValue b \<Rightarrow> CHR 0x03 # enc_nat (if b then 1 else 0))"

definition dec_prim :: "bytes \<Rightarrow> (prim \<times> bytes) option" where
  "dec_prim b = (case b of [] \<Rightarrow> None | t # r \<Rightarrow>
     if t = CHR 0x00 then dec_via StringValue dec_str r
     else if t = CHR 0x01 then dec_via DoubleValue dec_word r
     else if t = CHR 0x02 then dec_via IntValue dec_int r
     else dec_via (\<lambda>n. BoolValue (n = 1)) dec_nat r)"

lemma prim_prefix: "prefix_code anything enc_prim dec_prim"
  using str_prefix int_prefix word_prefix nat_code.prefix_code_axioms
  by (auto simp: prefix_code_def enc_prim_def dec_prim_def dec_via_def split: prim.splits)

definition enc_pv :: "primitive_value \<Rightarrow> bytes" where
  "enc_pv = enc_via pv_value (enc_opt enc_prim)"

definition dec_pv :: "bytes \<Rightarrow> (primitive_value \<times> bytes) option" where
  "dec_pv = dec_via PrimitiveValue (dec_opt dec_prim)"

lemma pv_prefix: "prefix_code anything enc_pv dec_pv"
  unfolding enc_pv_def dec_pv_def by (rule via_code, rule opt_code, rule prim_prefix) simp

definition enc_custom :: "(str, primitive_value) fmap \<Rightarrow> bytes" where
  "enc_custom = enc_via sorted_list_of_fmap (enc_seq (enc_pair enc_str enc_pv))"

definition dec_custom :: "bytes \<Rightarrow> ((str, primitive_value) fmap \<times> bytes) option" where
  "dec_custom = dec_via fmap_of_list (dec_seq (dec_pair dec_str dec_pv))"

lemma custom_prefix: "prefix_code anything enc_custom dec_custom"
  unfolding enc_custom_def dec_custom_def
  by (rule via_code, rule seq_code, rule pair_code, rule str_prefix, rule pv_prefix)
     simp

definition enc_ts :: "timestamp \<Rightarrow> bytes" where
  "enc_ts = enc_via (\<lambda>t. (ts_seconds t, ts_nanos t)) (enc_pair enc_int enc_int)"

definition dec_ts :: "bytes \<Rightarrow> (timestamp \<times> bytes) option" where
  "dec_ts = dec_via (\<lambda>(s, n). \<lparr>ts_seconds = s, ts_nanos = n\<rparr>) (dec_pair dec_int dec_int)"

lemma ts_prefix: "prefix_code anything enc_ts dec_ts"
  unfolding enc_ts_def dec_ts_def by (rule via_code, rule pair_code, (rule int_prefix)+) simp

definition enc_tc :: "trace_context \<Rightarrow> bytes" where
  "enc_tc = enc_via (\<lambda>c. (tc_traceparent c, tc_tracestate c)) (enc_pair enc_str (enc_opt enc_str))"

definition dec_tc :: "bytes \<Rightarrow> (trace_context \<times> bytes) option" where
  "dec_tc = dec_via (\<lambda>(p, s). \<lparr>tc_traceparent = p, tc_tracestate = s\<rparr>) (dec_pair dec_str (dec_opt dec_str))"

lemma tc_prefix: "prefix_code anything enc_tc dec_tc"
  unfolding enc_tc_def dec_tc_def by (rule via_code, rule pair_code, rule str_prefix, rule opt_code, rule str_prefix) simp

definition enc_payload :: "payload \<Rightarrow> bytes" where
  "enc_payload = enc_via (\<lambda>p. (pl_data p, pl_encoding p)) (enc_pair enc_str enc_str)"

definition dec_payload :: "bytes \<Rightarrow> (payload \<times> bytes) option" where
  "dec_payload = dec_via (\<lambda>(d, e). \<lparr>pl_data = d, pl_encoding = e\<rparr>) (dec_pair dec_str dec_str)"

lemma payload_prefix: "prefix_code anything enc_payload dec_payload"
  unfolding enc_payload_def dec_payload_def by (rule via_code, rule pair_code, (rule str_prefix)+) simp

definition enc_job :: "job \<Rightarrow> bytes" where
  "enc_job = enc_via (\<lambda>j. (j_id j, j_type j, j_payload j, j_priority j, j_trace_context j, j_enqueued_at j,
       j_attempt j, j_max_attempts j, j_lease_expires_at j, j_custom j, j_scheduled_at j, j_queue j))
     (enc_pair enc_str (enc_pair enc_str (enc_pair (enc_opt enc_payload) (enc_pair enc_word
       (enc_pair (enc_opt enc_tc) (enc_pair (enc_opt enc_ts) (enc_pair enc_word (enc_pair enc_word
       (enc_pair (enc_opt enc_ts) (enc_pair enc_custom (enc_pair (enc_opt enc_ts) enc_str)))))))))))"

definition dec_job :: "bytes \<Rightarrow> (job \<times> bytes) option" where
  "dec_job = dec_via (\<lambda>(i, t, p, pr, tc, e, a, m, l, c, s, q).
       \<lparr>j_id = i, j_type = t, j_payload = p, j_priority = pr, j_trace_context = tc, j_enqueued_at = e,
        j_attempt = a, j_max_attempts = m, j_lease_expires_at = l, j_custom = c, j_scheduled_at = s, j_queue = q\<rparr>)
     (dec_pair dec_str (dec_pair dec_str (dec_pair (dec_opt dec_payload) (dec_pair dec_word
       (dec_pair (dec_opt dec_tc) (dec_pair (dec_opt dec_ts) (dec_pair dec_word (dec_pair dec_word
       (dec_pair (dec_opt dec_ts) (dec_pair dec_custom (dec_pair (dec_opt dec_ts) dec_str)))))))))))"

lemma job_prefix: "prefix_code anything enc_job dec_job"
  unfolding enc_job_def dec_job_def
  by (rule via_code) (intro pair_code opt_code str_prefix payload_prefix word_prefix tc_prefix ts_prefix custom_prefix, simp)

definition enc_dlr :: "dead_letter_record \<Rightarrow> bytes" where
  "enc_dlr = enc_via (\<lambda>r. (dl_job r, dl_cause r, dl_failed_at r, dl_final_attempt r, dl_last_reason r))
     (enc_pair (enc_opt enc_job) (enc_pair enc_int (enc_pair (enc_opt enc_ts) (enc_pair enc_word (enc_opt enc_str)))))"

definition dec_dlr :: "bytes \<Rightarrow> (dead_letter_record \<times> bytes) option" where
  "dec_dlr = dec_via (\<lambda>(j, c, f, a, r).
       \<lparr>dl_job = j, dl_cause = c, dl_failed_at = f, dl_final_attempt = a, dl_last_reason = r\<rparr>)
     (dec_pair (dec_opt dec_job) (dec_pair dec_int (dec_pair (dec_opt dec_ts) (dec_pair dec_word (dec_opt dec_str)))))"

lemma dlr_prefix: "prefix_code anything enc_dlr dec_dlr"
  unfolding enc_dlr_def dec_dlr_def
  by (rule via_code) (intro pair_code opt_code job_prefix int_prefix ts_prefix word_prefix str_prefix, simp)

definition enc_audit :: "audit_record \<Rightarrow> bytes" where
  "enc_audit = enc_via (\<lambda>r. (au_actor r, au_role r, au_action r, au_details_json r))
     (enc_pair enc_str (enc_pair enc_str (enc_pair enc_str enc_str)))"

definition dec_audit :: "bytes \<Rightarrow> (audit_record \<times> bytes) option" where
  "dec_audit = dec_via (\<lambda>(a, r, c, d). \<lparr>au_actor = a, au_role = r, au_action = c, au_details_json = d\<rparr>)
     (dec_pair dec_str (dec_pair dec_str (dec_pair dec_str dec_str)))"

lemma audit_prefix: "prefix_code anything enc_audit dec_audit"
  unfolding enc_audit_def dec_audit_def by (rule via_code) (intro pair_code str_prefix, simp)

text \<open>A message decoder: nothing is left over and the value is one of the Rust type.\<close>

definition whole :: "('m \<Rightarrow> bool) \<Rightarrow> (bytes \<Rightarrow> ('m \<times> bytes) option) \<Rightarrow> bytes \<Rightarrow> 'm option" where
  "whole ok dec b = (case dec b of Some (m, []) \<Rightarrow> if ok m then Some m else None | _ \<Rightarrow> None)"

lemma whole_codec:
  assumes "prefix_code anything enc dec"
  shows "message_codec ok enc (whole ok dec)"
proof -
  from assms have "prefix_code ok enc dec" by (auto simp: prefix_code_def)
  then show ?thesis by (rule prefix_code.message) (simp add: whole_def)
qed

text \<open>The empty trace context encodes to no bytes, as the empty protobuf message does.\<close>

definition ref_tc_encode :: "trace_context \<Rightarrow> bytes" where
  "ref_tc_encode c = (if c = tc_default then [] else enc_tc c)"

definition ref_tc_decode :: "bytes \<Rightarrow> trace_context option" where
  "ref_tc_decode b = (if b = [] then Some tc_default else whole tc_ok dec_tc b)"

definition prost_ref :: prost where
  "prost_ref = \<lparr>ts_normalize = (\<lambda>t. t), dur_normalize = (\<lambda>d. d),
     job_encode = enc_job, job_decode = whole job_ok dec_job,
     payload_encode = enc_payload, payload_decode = whole payload_ok dec_payload,
     dlr_encode = enc_dlr, dlr_decode = whole dlr_ok dec_dlr,
     audit_encode = enc_audit, audit_decode = whole audit_ok dec_audit,
     tc_encode = ref_tc_encode, tc_decode = ref_tc_decode\<rparr>"

lemma enc_tc_nonempty: "enc_tc c \<noteq> []"
  by (cases "tc_traceparent c") (simp_all add: enc_tc_def enc_via_def enc_pair_def)

lemma ref_tc_codec: "message_codec tc_ok ref_tc_encode ref_tc_decode"
proof -
  note c = whole_codec [OF tc_prefix, of tc_ok]
  have d: "tc_ok tc_default" by (simp add: tc_ok_def tc_default_def)
  show ?thesis
  proof
    show "ref_tc_decode (ref_tc_encode m) = Some m" if "tc_ok m" for m
      using message_codec.dec_enc [OF c that] enc_tc_nonempty by (auto simp: ref_tc_decode_def ref_tc_encode_def)
    show "tc_ok m" if "ref_tc_decode b = Some m" for b m
      using that d message_codec.dec_ok [OF c] by (auto simp: ref_tc_decode_def split: if_splits)
  qed
qed

interpretation ref: prost_laws prost_ref
  by (intro prost_laws.intro prost_laws_axioms.intro)
     (simp_all add: prost_ref_def whole_codec job_prefix payload_prefix dlr_prefix audit_prefix ref_tc_codec
        ref_tc_encode_def enc_tc_nonempty)

end
