(* ===== verification/Validate.thy ===== *)
theory Validate
  imports Pb
begin

text \<open>
  \<open>src/validate.rs\<close>: the stateless checks every gRPC request passes before it is served. A check
  returns \<open>Inl\<close> with the message, which the server wraps as \<open>Status::invalid_argument\<close>, or
  \<open>Inr ()\<close>. The map of custom attributes is generated as a \<open>BTreeMap\<close> (\<open>build.rs\<close>), so its
  entries are checked in key order.
\<close>

type_synonym check = "string + unit"

section \<open>Requests checked only here\<close>

record reserve_request =
  rr_queues :: "str list"
  rr_wait_timeout :: "duration option"
  rr_lease_duration :: "duration option"
  rr_worker_id :: "str option"
  rr_max_jobs :: "u32 option"

record ack_request =
  ack_job_id :: str
  ack_attempt :: u32
  ack_worker_id :: "str option"

record drain_request =
  dr_queue :: "str option"
  dr_max :: "u32 option"

section \<open>Field checks\<close>

definition min_len :: "string \<Rightarrow> str \<Rightarrow> check" where
  "min_len field s = check_if (s = []) (field @ '' must not be empty'')"

text \<open>
  \<open>char::is_control\<close> holds of U+0000 to U+001F and U+007F to U+009F; the latter range above
  U+007F is the byte \<open>C2\<close> followed by \<open>80\<close> to \<open>9F\<close> in UTF-8.
\<close>

fun any_control :: "str \<Rightarrow> bool" where
  "any_control [] = False"
| "any_control (c # cs) \<longleftrightarrow>
     (of_char c :: nat) < 32 \<or> (of_char c :: nat) = 127
     \<or> (of_char c = (194 :: nat) \<and> cs \<noteq> [] \<and> 128 \<le> (of_char (hd cs) :: nat) \<and> (of_char (hd cs) :: nat) \<le> 159)
     \<or> any_control cs"

definition queue_name_error :: "str \<Rightarrow> string option" where
  "queue_name_error name =
     (if name = [] then Some ''must not be empty''
      else if name = ''.'' \<or> name = ''..'' then Some ''must not be \".\" or \"..\"''
      else if CHR ''/'' \<in> set name then Some (''must not contain '' @ [CHR 0x27, CHR ''/'', CHR 0x27])
      else if any_control name then Some ''must not contain control characters''
      else None)"

definition queue_name :: "string \<Rightarrow> str \<Rightarrow> check" where
  "queue_name field name =
     (case queue_name_error name of Some why \<Rightarrow> Inl (field @ '' '' @ why) | None \<Rightarrow> Inr ())"

definition lte :: "string \<Rightarrow> u32 \<Rightarrow> u32 \<Rightarrow> check" where
  "lte field value mx = check_if (value > mx) (field @ '' must be <= '' @ show_nat (unat mx))"

definition gte :: "string \<Rightarrow> u32 \<Rightarrow> u32 \<Rightarrow> check" where
  "gte field value mn = check_if (value < mn) (field @ '' must be >= '' @ show_nat (unat mn))"

definition total_nanos :: "duration \<Rightarrow> int" where
  "total_nanos d = dur_seconds d * 1000000000 + dur_nanos d"

definition non_negative :: "string \<Rightarrow> duration \<Rightarrow> check" where
  "non_negative field d = check_if (total_nanos d < 0) (field @ '' must not be negative'')"

definition positive :: "string \<Rightarrow> duration \<Rightarrow> check" where
  "positive field d = check_if (total_nanos d \<le> 0) (field @ '' must be greater than 0'')"

definition is_ascii_hexdigit :: "char \<Rightarrow> bool" where
  "is_ascii_hexdigit c \<longleftrightarrow> (let n = of_char c :: nat
     in (48 \<le> n \<and> n \<le> 57) \<or> (65 \<le> n \<and> n \<le> 70) \<or> (97 \<le> n \<and> n \<le> 102))"

definition is_uuid :: "str \<Rightarrow> bool" where
  "is_uuid s \<longleftrightarrow> length s = 36 \<and>
     list_all (\<lambda>(i, c). if i \<in> {8, 13, 18, 23} then c = CHR ''-'' else is_ascii_hexdigit c)
       (enumerate 0 s)"

definition uuid :: "string \<Rightarrow> str \<Rightarrow> check" where
  "uuid field s = check_if (\<not> is_uuid s) (field @ '' must be a UUID'')"

definition payload_check :: "payload \<Rightarrow> check" where
  "payload_check p =
     (if pl_data p = [] then Inl ''payload.data must not be empty''
      else min_len ''payload.encoding'' (pl_encoding p))"

definition trace_context_check :: "trace_context \<Rightarrow> check" where
  "trace_context_check tc = min_len ''trace_context.traceparent'' (tc_traceparent tc)"

definition primitive_value_check :: "str \<Rightarrow> primitive_value \<Rightarrow> check" where
  "primitive_value_check key v =
     check_if (pv_value v = None) (''custom['' @ key @ ''] must set a value'')"

section \<open>Request checks\<close>

definition enqueue_request_check :: "enqueue_request \<Rightarrow> check" where
  "enqueue_request_check req =
     and_then (queue_name ''queue'' (er_queue req))
    (and_then (min_len ''job_type'' (er_job_type req))
    (and_then (check_opt payload_check (er_payload req))
    (and_then (check_opt (min_len ''idempotency_key'') (er_idempotency_key req))
    (and_then (check_opt (\<lambda>p. lte ''priority'' p 9) (er_priority req))
    (and_then (check_opt (\<lambda>m. gte ''max_attempts'' m 1) (er_max_attempts req))
    (and_then (check_opt trace_context_check (er_trace_context req))
      (check_all (\<lambda>(key, value). and_then (min_len ''custom key'' key)
                                           (primitive_value_check key value))
        (sorted_list_of_fmap (er_custom req)))))))))"

definition reserve_request_check :: "reserve_request \<Rightarrow> check" where
  "reserve_request_check req =
     and_then (check_if (rr_queues req = []) ''queues must contain at least 1 item'')
    (and_then (check_all (queue_name ''queues item'') (rr_queues req))
    (and_then (check_opt (non_negative ''wait_timeout'') (rr_wait_timeout req))
    (and_then (case rr_lease_duration req of
                 Some d \<Rightarrow> positive ''lease_duration'' d
               | None \<Rightarrow> Inl ''lease_duration is required'')
    (and_then (check_opt (min_len ''worker_id'') (rr_worker_id req))
      (check_opt (\<lambda>m. gte ''max_jobs'' m 1) (rr_max_jobs req))))))"

definition ack_request_check :: "ack_request \<Rightarrow> check" where
  "ack_request_check req =
     and_then (uuid ''job_id'' (ack_job_id req))
    (and_then (gte ''attempt'' (ack_attempt req) 1)
      (check_opt (min_len ''worker_id'') (ack_worker_id req)))"

definition nack_request_check :: "nack_request \<Rightarrow> check" where
  "nack_request_check req =
     and_then (uuid ''job_id'' (nack_job_id req))
    (and_then (gte ''attempt'' (nack_attempt req) 1)
    (and_then (check_opt (\<lambda>retry. case nr_strategy retry of
                 None \<Rightarrow> Inl ''retry strategy is required''
               | Some (StrategyDelay d) \<Rightarrow> non_negative ''retry delay'' d
               | Some _ \<Rightarrow> Inr ()) (nack_retry_field req))
      (check_opt (min_len ''worker_id'') (nack_worker_id req))))"

definition extend_request_check :: "extend_request \<Rightarrow> check" where
  "extend_request_check req =
     and_then (uuid ''job_id'' (ext_job_id req))
    (and_then (gte ''attempt'' (ext_attempt req) 1)
    (and_then (case ext_lease_duration req of
                 Some d \<Rightarrow> positive ''lease_duration'' d
               | None \<Rightarrow> Inl ''lease_duration is required'')
      (check_opt (min_len ''worker_id'') (ext_worker_id req))))"

definition drain_dead_letters_request_check :: "drain_request \<Rightarrow> check" where
  "drain_dead_letters_request_check req =
     and_then (check_opt (min_len ''queue'') (dr_queue req))
      (check_opt (\<lambda>m. gte ''max'' m 1) (dr_max req))"

section \<open>What the checks establish\<close>

lemmas check_defs = min_len_def lte_def gte_def non_negative_def positive_def uuid_def
  queue_name_def payload_check_def trace_context_check_def primitive_value_check_def

lemma queue_name_Inr: "queue_name f q = Inr u \<longleftrightarrow> queue_name_error q = None"
  by (auto simp: queue_name_def split: option.splits)

text \<open>A name that passes has no separator, so it stands as one path segment.\<close>

lemma queue_name_error_None:
  "queue_name_error q = None \<longleftrightarrow>
     q \<noteq> [] \<and> q \<noteq> ''.'' \<and> q \<noteq> ''..'' \<and> CHR ''/'' \<notin> set q \<and> \<not> any_control q"
  by (simp add: queue_name_error_def)

lemma hexdigit_ascii: "is_ascii_hexdigit c \<Longrightarrow> (of_char c :: nat) < 128"
  by (auto simp: is_ascii_hexdigit_def Let_def)

end
