(* ===== verification/Config.thy ===== *)
theory Config
  imports Validate
begin

text \<open>
  \<open>src/config.rs\<close>: the configuration tree, the limits in effect for a queue and the validation a
  configuration passes before the server runs on it. Reading the TOML file and the environment is
  figment's work and is not modelled; \<open>validate\<close> is. A failed check is a constructor of
  \<open>config_error\<close> carrying what the message is built from, in place of the formatted text. The
  declarative \<open>garde\<close> attributes (\<open>range\<close>, \<open>length\<close>) are written out; how garde compares the
  floating-point \<open>sample_ratio\<close>, kept as its 64 bits, is the parameter \<open>sample_ratio_ok\<close>.
\<close>

section \<open>The configuration tree\<close>

datatype ip_addr = IpV4 nat nat nat nat | IpV6 "nat list"

definition is_loopback :: "ip_addr \<Rightarrow> bool" where
  "is_loopback ip = (case ip of
     IpV4 a _ _ _ \<Rightarrow> a = 127
   | IpV6 segs \<Rightarrow> segs = [0, 0, 0, 0, 0, 0, 0, 1])"

record socket_addr =
  sa_ip :: ip_addr
  sa_port :: nat

datatype persist_mode = SyncAll | SyncData | Buffer

record server_config =
  sv_listen_addr :: socket_addr
  sv_db_path :: str
  sv_tls_cert_path :: "str option"
  sv_tls_key_path :: "str option"
  sv_strict_queues :: bool

definition sv_tls_enabled :: "server_config \<Rightarrow> bool" where
  "sv_tls_enabled c \<longleftrightarrow> sv_tls_cert_path c \<noteq> None \<and> sv_tls_key_path c \<noteq> None"

definition server_default :: server_config where
  "server_default = \<lparr>sv_listen_addr = \<lparr>sa_ip = IpV4 0 0 0 0, sa_port = 50051\<rparr>,
     sv_db_path = ''./sepp-data'', sv_tls_cert_path = None, sv_tls_key_path = None,
     sv_strict_queues = False\<rparr>"

datatype retry_backoff = BackoffNone | BackoffExponential

record queue_config =
  qc_name :: str
  qc_max_lease_duration_ms :: "u64 option"
  qc_default_max_attempts :: "u32 option"
  qc_max_attempts_ceiling :: "u32 option"
  qc_default_priority :: "u32 option"
  qc_retry_delay_ms :: "u64 option"
  qc_retry_backoff :: "retry_backoff option"
  qc_retry_delay_max_ms :: "u64 option"
  qc_max_payload_bytes :: "u64 option"
  qc_allowed_encodings :: "str list option"
  qc_allowed_job_types :: "str list option"
  qc_max_schedule_horizon_ms :: "u64 option"
  qc_max_custom_entries :: "u32 option"
  qc_max_custom_total_bytes :: "u64 option"
  qc_max_custom_key_bytes :: "u32 option"
  qc_dedup_window_ms :: "i64 option"
  qc_max_queue_depth :: "u64 option"

definition queue_default :: queue_config where
  "queue_default = \<lparr>qc_name = [], qc_max_lease_duration_ms = None, qc_default_max_attempts = None,
     qc_max_attempts_ceiling = None, qc_default_priority = None, qc_retry_delay_ms = None,
     qc_retry_backoff = None, qc_retry_delay_max_ms = None, qc_max_payload_bytes = None,
     qc_allowed_encodings = None, qc_allowed_job_types = None, qc_max_schedule_horizon_ms = None,
     qc_max_custom_entries = None, qc_max_custom_total_bytes = None,
     qc_max_custom_key_bytes = None, qc_dedup_window_ms = None, qc_max_queue_depth = None\<rparr>"

record effective_limits =
  el_max_lease_duration_ms :: u64
  el_default_max_attempts :: u32
  el_max_attempts_ceiling :: u32
  el_default_priority :: u32
  el_retry_delay_ms :: u64
  el_retry_backoff :: retry_backoff
  el_retry_delay_max_ms :: u64
  el_max_payload_bytes :: u64
  el_allowed_encodings :: "str list option"
  el_allowed_job_types :: "str list option"
  el_max_schedule_horizon_ms :: u64
  el_max_custom_entries :: u32
  el_max_custom_total_bytes :: u64
  el_max_custom_key_bytes :: u32
  el_dedup_window_ms :: i64
  el_max_queue_depth :: "u64 option"

record api_key_entry =
  ak_name :: str
  ak_key :: str

record auth_config =
  au_api_keys :: "api_key_entry list option"

record limits_config =
  lc_max_lease_duration_ms :: u64
  lc_default_max_attempts :: u32
  lc_max_attempts_ceiling :: u32
  lc_default_priority :: u32
  lc_retry_delay_ms :: u64
  lc_retry_backoff :: retry_backoff
  lc_retry_delay_max_ms :: u64
  lc_max_reserve_batch :: u32
  lc_max_reserve_queues :: u32
  lc_max_wait_timeout_ms :: u64
  lc_max_enqueue_batch :: u32
  lc_max_queue_depth :: "u64 option"
  lc_max_payload_bytes :: u64
  lc_max_message_bytes :: u64
  lc_max_custom_entries :: u32
  lc_max_custom_total_bytes :: u64
  lc_max_custom_key_bytes :: u32
  lc_max_queue_name_bytes :: u32
  lc_max_job_type_bytes :: u32
  lc_max_idempotency_key_bytes :: u32
  lc_max_schedule_horizon_ms :: u64
  lc_allowed_encodings :: "str list option"

definition limits_default :: limits_config where
  "limits_default = \<lparr>
     lc_max_lease_duration_ms = 5 * 60 * 1000,
     lc_default_max_attempts = 3,
     lc_max_attempts_ceiling = 100,
     lc_default_priority = 0,
     lc_retry_delay_ms = 0,
     lc_retry_backoff = BackoffNone,
     lc_retry_delay_max_ms = 60 * 60 * 1000,
     lc_max_reserve_batch = 256,
     lc_max_reserve_queues = 32,
     lc_max_wait_timeout_ms = 5 * 60 * 1000,
     lc_max_enqueue_batch = 256,
     lc_max_queue_depth = None,
     lc_max_payload_bytes = 2 ^ 20,
     lc_max_message_bytes = 16 * 2 ^ 20,
     lc_max_custom_entries = 64,
     lc_max_custom_total_bytes = 16 * 2 ^ 10,
     lc_max_custom_key_bytes = 256,
     lc_max_queue_name_bytes = 512,
     lc_max_job_type_bytes = 256,
     lc_max_idempotency_key_bytes = 256,
     lc_max_schedule_horizon_ms = 30 * 24 * 60 * 60 * 1000,
     lc_allowed_encodings = None\<rparr>"

record storage_config =
  sc_persist_mode :: persist_mode
  sc_sweep_interval_ms :: u64
  sc_sweep_limit :: usize
  sc_dedup_window_ms :: i64
  sc_dead_letter_retention_ms :: u64
  sc_command_queue_capacity :: usize
  sc_cache_size_bytes :: "u64 option"
  sc_max_journaling_size_bytes :: "u64 option"
  sc_max_cached_files :: "usize option"
  sc_worker_threads :: "usize option"

definition storage_default :: storage_config where
  "storage_default = \<lparr>
     sc_persist_mode = SyncAll,
     sc_sweep_interval_ms = 1000,
     sc_sweep_limit = 10000,
     sc_dedup_window_ms = 24 * 60 * 60 * 1000,
     sc_dead_letter_retention_ms = 0,
     sc_command_queue_capacity = 4096,
     sc_cache_size_bytes = None,
     sc_max_journaling_size_bytes = None,
     sc_max_cached_files = None,
     sc_worker_threads = None\<rparr>"

datatype log_format = LogText | LogJson

record logging_config =
  lg_level :: str
  lg_format :: log_format

definition logging_default :: logging_config where
  "logging_default = \<lparr>lg_level = ''info,lsm_tree=warn,fjall=warn'', lg_format = LogText\<rparr>"

record tracing_config =
  tr_enabled :: bool
  tr_otlp_endpoint :: str
  tr_service_name :: str
  tr_sample_ratio :: "64 word"

definition tracing_default :: tracing_config where
  "tracing_default = \<lparr>tr_enabled = False, tr_otlp_endpoint = ''http://localhost:4317'',
     tr_service_name = ''sepp'', tr_sample_ratio = 0x3FF0000000000000\<rparr>"

record metrics_config =
  mc_enabled :: bool
  mc_otlp_endpoint :: str
  mc_export_interval_ms :: u64
  mc_prometheus_enabled :: bool
  mc_prometheus_listen_addr :: socket_addr

definition metrics_default :: metrics_config where
  "metrics_default = \<lparr>mc_enabled = False, mc_otlp_endpoint = ''http://localhost:4317'',
     mc_export_interval_ms = 5000, mc_prometheus_enabled = False,
     mc_prometheus_listen_addr = \<lparr>sa_ip = IpV4 0 0 0 0, sa_port = 9464\<rparr>\<rparr>"

datatype role = Viewer | Operator | Admin

definition role_rank :: "role \<Rightarrow> nat" where
  "role_rank r = (case r of Viewer \<Rightarrow> 0 | Operator \<Rightarrow> 1 | Admin \<Rightarrow> 2)"

text \<open>The derived order of \<open>Role\<close> is the order of its variants.\<close>

instantiation role :: linorder
begin

definition less_eq_role :: "role \<Rightarrow> role \<Rightarrow> bool" where
  "r \<le> s \<longleftrightarrow> role_rank r \<le> role_rank s"

definition less_role :: "role \<Rightarrow> role \<Rightarrow> bool" where
  "r < s \<longleftrightarrow> role_rank r < role_rank s"

instance
proof
  fix r s :: role
  show "r \<le> s \<Longrightarrow> s \<le> r \<Longrightarrow> r = s"
    by (cases r; cases s) (simp_all add: less_eq_role_def role_rank_def)
qed (auto simp: less_eq_role_def less_role_def)

end

definition role_display :: "role \<Rightarrow> string" where
  "role_display r = (case r of Viewer \<Rightarrow> ''viewer'' | Operator \<Rightarrow> ''operator'' | Admin \<Rightarrow> ''admin'')"

record admin_key =
  adk_name :: str
  adk_key :: str
  adk_role :: role

record admin_config =
  ad_enabled :: bool
  ad_listen_addr :: socket_addr
  ad_tls_cert_path :: "str option"
  ad_tls_key_path :: "str option"
  ad_keys :: "admin_key list option"
  ad_session_ttl_ms :: u64
  ad_stats_history_ms :: u64

definition ad_tls_enabled :: "admin_config \<Rightarrow> bool" where
  "ad_tls_enabled c \<longleftrightarrow> ad_tls_cert_path c \<noteq> None \<and> ad_tls_key_path c \<noteq> None"

definition admin_default :: admin_config where
  "admin_default = \<lparr>ad_enabled = True,
     ad_listen_addr = \<lparr>sa_ip = IpV4 127 0 0 1, sa_port = 9465\<rparr>,
     ad_tls_cert_path = None, ad_tls_key_path = None, ad_keys = None,
     ad_session_ttl_ms = 12 * 60 * 60 * 1000, ad_stats_history_ms = 60 * 60 * 1000\<rparr>"

record config =
  cf_server :: server_config
  cf_auth :: auth_config
  cf_limits :: limits_config
  cf_storage :: storage_config
  cf_logging :: logging_config
  cf_tracing :: tracing_config
  cf_metrics :: metrics_config
  cf_admin :: admin_config
  cf_queues :: "queue_config list"

definition config_default :: config where
  "config_default = \<lparr>cf_server = server_default, cf_auth = \<lparr>au_api_keys = None\<rparr>,
     cf_limits = limits_default, cf_storage = storage_default, cf_logging = logging_default,
     cf_tracing = tracing_default, cf_metrics = metrics_default, cf_admin = admin_default,
     cf_queues = []\<rparr>"

section \<open>Effective limits\<close>

definition from_globals :: "limits_config \<Rightarrow> storage_config \<Rightarrow> effective_limits" where
  "from_globals limits storage = \<lparr>
     el_max_lease_duration_ms = lc_max_lease_duration_ms limits,
     el_default_max_attempts = lc_default_max_attempts limits,
     el_max_attempts_ceiling = lc_max_attempts_ceiling limits,
     el_default_priority = lc_default_priority limits,
     el_retry_delay_ms = lc_retry_delay_ms limits,
     el_retry_backoff = lc_retry_backoff limits,
     el_retry_delay_max_ms = lc_retry_delay_max_ms limits,
     el_max_payload_bytes = lc_max_payload_bytes limits,
     el_allowed_encodings = lc_allowed_encodings limits,
     el_allowed_job_types = None,
     el_max_schedule_horizon_ms = lc_max_schedule_horizon_ms limits,
     el_max_custom_entries = lc_max_custom_entries limits,
     el_max_custom_total_bytes = lc_max_custom_total_bytes limits,
     el_max_custom_key_bytes = lc_max_custom_key_bytes limits,
     el_dedup_window_ms = sc_dedup_window_ms storage,
     el_max_queue_depth = lc_max_queue_depth limits\<rparr>"

definition unwrap_or :: "'a option \<Rightarrow> 'a \<Rightarrow> 'a" where
  "unwrap_or x d = (case x of Some v \<Rightarrow> v | None \<Rightarrow> d)"

definition or_else :: "'a option \<Rightarrow> 'a option \<Rightarrow> 'a option" where
  "or_else x y = (case x of Some v \<Rightarrow> Some v | None \<Rightarrow> y)"

lemma unwrap_or_simps [simp]: "unwrap_or (Some v) d = v" "unwrap_or None d = d"
  by (simp_all add: unwrap_or_def)

lemma or_else_simps [simp]: "or_else (Some v) y = Some v" "or_else None y = y"
  by (simp_all add: or_else_def)

definition merged_with :: "effective_limits \<Rightarrow> queue_config \<Rightarrow> effective_limits" where
  "merged_with d q = \<lparr>
     el_max_lease_duration_ms = unwrap_or (qc_max_lease_duration_ms q) (el_max_lease_duration_ms d),
     el_default_max_attempts = unwrap_or (qc_default_max_attempts q) (el_default_max_attempts d),
     el_max_attempts_ceiling = unwrap_or (qc_max_attempts_ceiling q) (el_max_attempts_ceiling d),
     el_default_priority = unwrap_or (qc_default_priority q) (el_default_priority d),
     el_retry_delay_ms = unwrap_or (qc_retry_delay_ms q) (el_retry_delay_ms d),
     el_retry_backoff = unwrap_or (qc_retry_backoff q) (el_retry_backoff d),
     el_retry_delay_max_ms = unwrap_or (qc_retry_delay_max_ms q) (el_retry_delay_max_ms d),
     el_max_payload_bytes = unwrap_or (qc_max_payload_bytes q) (el_max_payload_bytes d),
     el_allowed_encodings = or_else (qc_allowed_encodings q) (el_allowed_encodings d),
     el_allowed_job_types = qc_allowed_job_types q,
     el_max_schedule_horizon_ms =
       unwrap_or (qc_max_schedule_horizon_ms q) (el_max_schedule_horizon_ms d),
     el_max_custom_entries = unwrap_or (qc_max_custom_entries q) (el_max_custom_entries d),
     el_max_custom_total_bytes =
       unwrap_or (qc_max_custom_total_bytes q) (el_max_custom_total_bytes d),
     el_max_custom_key_bytes = unwrap_or (qc_max_custom_key_bytes q) (el_max_custom_key_bytes d),
     el_dedup_window_ms = unwrap_or (qc_dedup_window_ms q) (el_dedup_window_ms d),
     el_max_queue_depth = or_else (qc_max_queue_depth q) (el_max_queue_depth d)\<rparr>"

section \<open>Validation\<close>

datatype config_error =
    GardeError string
  | TlsKeyMissing string
  | TlsCertMissing string
  | ServiceNameEmpty
  | OtlpEndpointEmpty
  | ExportIntervalZero
  | AdminKeysRequired
  | KeyNameEmpty string
  | KeyEmpty string str
  | KeyNotVisibleAscii str
  | KeyDuplicateName string str
  | KeyDuplicateSecret string str
  | SessionTtlRange
  | StatsHistoryRange
  | AttemptsAboveCeiling string
  | RetryDelayAboveMax string
  | QueueNameInvalid str string
  | QueueNameTooLongError str u32
  | QueueDuplicate str

type_synonym config_check = "config_error + unit"

text \<open>The \<open>garde\<close> attributes of each section.\<close>

definition nonempty_opt :: "str option \<Rightarrow> bool" where
  "nonempty_opt s = pred_option (\<lambda>x. x \<noteq> []) s"

definition server_garde_ok :: "server_config \<Rightarrow> bool" where
  "server_garde_ok c \<longleftrightarrow> sv_db_path c \<noteq> [] \<and> nonempty_opt (sv_tls_cert_path c)
     \<and> nonempty_opt (sv_tls_key_path c)"

definition limits_garde_ok :: "limits_config \<Rightarrow> bool" where
  "limits_garde_ok c \<longleftrightarrow>
     1 \<le> lc_max_reserve_batch c \<and> 1 \<le> lc_max_reserve_queues c \<and> 1 \<le> lc_max_wait_timeout_ms c
     \<and> 1 \<le> lc_max_enqueue_batch c \<and> 1 \<le> lc_max_message_bytes c
     \<and> 1 \<le> lc_max_queue_name_bytes c \<and> lc_max_queue_name_bytes c \<le> 65535
     \<and> 1 \<le> lc_max_job_type_bytes c \<and> 1 \<le> lc_max_idempotency_key_bytes c"

definition storage_garde_ok :: "storage_config \<Rightarrow> bool" where
  "storage_garde_ok c \<longleftrightarrow>
     1 \<le> sc_sweep_interval_ms c \<and> 1 \<le> sc_sweep_limit c \<and> 1 \<le> sc_command_queue_capacity c
     \<and> pred_option (\<lambda>n. 1 \<le> n) (sc_cache_size_bytes c)
     \<and> pred_option (\<lambda>n. 64 * 1024 * 1024 \<le> n) (sc_max_journaling_size_bytes c)
     \<and> pred_option (\<lambda>n. 10 \<le> n) (sc_max_cached_files c)
     \<and> pred_option (\<lambda>n. 1 \<le> n) (sc_worker_threads c)"

definition effective_garde_ok :: "u64 \<Rightarrow> effective_limits \<Rightarrow> bool" where
  "effective_garde_ok max_message_bytes l \<longleftrightarrow>
     1 \<le> el_max_lease_duration_ms l \<and> 1 \<le> el_default_max_attempts l
     \<and> 1 \<le> el_max_attempts_ceiling l \<and> el_default_priority l \<le> 9
     \<and> 1 \<le> el_retry_delay_max_ms l
     \<and> 1 \<le> el_max_payload_bytes l \<and> el_max_payload_bytes l \<le> max_message_bytes
     \<and> pred_option (list_all (\<lambda>s. s \<noteq> [])) (el_allowed_encodings l)
     \<and> pred_option (\<lambda>ts. ts \<noteq> [] \<and> list_all (\<lambda>s. s \<noteq> []) ts) (el_allowed_job_types l)
     \<and> 1 \<le> el_max_schedule_horizon_ms l \<and> 1 \<le> el_max_custom_entries l
     \<and> 1 \<le> el_max_custom_total_bytes l \<and> 1 \<le> el_max_custom_key_bytes l
     \<and> 1 \<le> el_dedup_window_ms l"

definition effective_validate :: "effective_limits \<Rightarrow> u64 \<Rightarrow> string \<Rightarrow> config_check" where
  "effective_validate l max_message_bytes scope =
     and_then (check_if (\<not> effective_garde_ok max_message_bytes l) (GardeError scope))
    (and_then (check_if (el_default_max_attempts l > el_max_attempts_ceiling l)
                (AttemptsAboveCeiling scope))
      (check_if (el_retry_delay_ms l > el_retry_delay_max_ms l) (RetryDelayAboveMax scope)))"

definition tls_pair_check :: "string \<Rightarrow> str option \<Rightarrow> str option \<Rightarrow> config_check" where
  "tls_pair_check scope cert key = (case (cert, key) of
     (Some _, None) \<Rightarrow> Inl (TlsKeyMissing scope)
   | (None, Some _) \<Rightarrow> Inl (TlsCertMissing scope)
   | _ \<Rightarrow> Inr ())"

text \<open>
  The loop over a key list keeps the names and the secrets seen so far; \<open>visible\<close> adds the ASCII
  rule of \<open>auth.api_keys\<close>.
\<close>

fun validate_keys ::
    "string \<Rightarrow> bool \<Rightarrow> str list \<Rightarrow> str list \<Rightarrow> (str \<times> str) list \<Rightarrow> config_check" where
  "validate_keys scope visible names secrets [] = Inr ()"
| "validate_keys scope visible names secrets ((name, key) # rest) =
     (if name = [] then Inl (KeyNameEmpty scope)
      else if key = [] then Inl (KeyEmpty scope name)
      else if visible \<and> \<not> list_all (\<lambda>b. 0x21 \<le> (of_char b :: nat) \<and> (of_char b :: nat) \<le> 0x7e) key
      then Inl (KeyNotVisibleAscii name)
      else if name \<in> set names then Inl (KeyDuplicateName scope name)
      else if key \<in> set secrets then Inl (KeyDuplicateSecret scope name)
      else validate_keys scope visible (name # names) (key # secrets) rest)"

fun validate_queues_from ::
    "limits_config \<Rightarrow> effective_limits \<Rightarrow> str list \<Rightarrow> queue_config list \<Rightarrow> config_check" where
  "validate_queues_from limits defaults seen [] = Inr ()"
| "validate_queues_from limits defaults seen (q # rest) =
     (case queue_name_error (qc_name q) of
        Some why \<Rightarrow> Inl (QueueNameInvalid (qc_name q) why)
      | None \<Rightarrow>
          if length (qc_name q) > unat (lc_max_queue_name_bytes limits)
          then Inl (QueueNameTooLongError (qc_name q) (lc_max_queue_name_bytes limits))
          else if qc_name q \<in> set seen then Inl (QueueDuplicate (qc_name q))
          else and_then
            (effective_validate (merged_with defaults q) (lc_max_message_bytes limits) (qc_name q))
            (validate_queues_from limits defaults (qc_name q # seen) rest))"

definition validate_queues :: "config \<Rightarrow> effective_limits \<Rightarrow> config_check" where
  "validate_queues cfg defaults = validate_queues_from (cf_limits cfg) defaults [] (cf_queues cfg)"

definition validate_sections :: "(64 word \<Rightarrow> bool) \<Rightarrow> config \<Rightarrow> config_check" where
  "validate_sections sample_ratio_ok cfg =
     and_then (check_if (\<not> server_garde_ok (cf_server cfg)) (GardeError ''server''))
    (and_then (check_if (\<not> limits_garde_ok (cf_limits cfg)) (GardeError ''limits''))
    (and_then (check_if (\<not> storage_garde_ok (cf_storage cfg)) (GardeError ''storage''))
      (check_if (\<not> sample_ratio_ok (tr_sample_ratio (cf_tracing cfg))) (GardeError ''tracing''))))"

definition validate_admin :: "config \<Rightarrow> config_check" where
  "validate_admin cfg =
     and_then (tls_pair_check ''admin'' (ad_tls_cert_path (cf_admin cfg)) (ad_tls_key_path (cf_admin cfg)))
    (and_then (check_if (ad_enabled (cf_admin cfg)
                 \<and> \<not> is_loopback (sa_ip (ad_listen_addr (cf_admin cfg)))
                 \<and> ad_keys (cf_admin cfg) = None) AdminKeysRequired)
    (and_then (check_opt (\<lambda>ks. validate_keys ''admin'' False [] []
                 (map (\<lambda>k. (adk_name k, adk_key k)) ks)) (ad_keys (cf_admin cfg)))
    (and_then (check_opt (\<lambda>ks. validate_keys ''auth'' True [] []
                 (map (\<lambda>k. (ak_name k, ak_key k)) ks)) (au_api_keys (cf_auth cfg)))
    (and_then (check_if (\<not> (60000 \<le> ad_session_ttl_ms (cf_admin cfg)
                 \<and> ad_session_ttl_ms (cf_admin cfg) \<le> 31536000000)) SessionTtlRange)
      (check_if (\<not> (60000 \<le> ad_stats_history_ms (cf_admin cfg)
                 \<and> ad_stats_history_ms (cf_admin cfg) \<le> 21600000)) StatsHistoryRange)))))"

definition config_validate :: "(64 word \<Rightarrow> bool) \<Rightarrow> config \<Rightarrow> config_check" where
  "config_validate sample_ratio_ok cfg =
     and_then (validate_sections sample_ratio_ok cfg)
    (and_then (tls_pair_check ''server'' (sv_tls_cert_path (cf_server cfg)) (sv_tls_key_path (cf_server cfg)))
    (and_then (check_if (tr_enabled (cf_tracing cfg) \<and> tr_service_name (cf_tracing cfg) = []) ServiceNameEmpty)
    (and_then (check_if (mc_enabled (cf_metrics cfg) \<and> mc_otlp_endpoint (cf_metrics cfg) = []) OtlpEndpointEmpty)
    (and_then (check_if (mc_enabled (cf_metrics cfg) \<and> mc_export_interval_ms (cf_metrics cfg) = 0) ExportIntervalZero)
    (and_then (validate_admin cfg)
      (let defaults = from_globals (cf_limits cfg) (cf_storage cfg)
       in and_then (effective_validate defaults (lc_max_message_bytes (cf_limits cfg)) ''limits'')
            (validate_queues cfg defaults)))))))"

section \<open>What validation establishes\<close>

definition limits_ok :: "u64 \<Rightarrow> effective_limits \<Rightarrow> bool" where
  "limits_ok max_message_bytes l \<longleftrightarrow> effective_garde_ok max_message_bytes l
     \<and> el_default_max_attempts l \<le> el_max_attempts_ceiling l
     \<and> el_retry_delay_ms l \<le> el_retry_delay_max_ms l"

lemma effective_validate_Inr [simp]:
  "effective_validate l m s = Inr u \<longleftrightarrow> limits_ok m l"
  by (auto simp: effective_validate_def limits_ok_def)

lemma validate_keys_Inr:
  "validate_keys scope visible names secrets ks = Inr u \<Longrightarrow>
     distinct (map fst ks) \<and> distinct (map snd ks)
     \<and> set (map fst ks) \<inter> set names = {} \<and> set (map snd ks) \<inter> set secrets = {}
     \<and> [] \<notin> set (map fst ks) \<and> [] \<notin> set (map snd ks)"
proof (induction ks arbitrary: names secrets)
  case (Cons a ks)
  obtain n k where a: "a = (n, k)" by (cases a)
  from Cons.prems have ne: "n \<noteq> []" "k \<noteq> []" "n \<notin> set names" "k \<notin> set secrets"
    and rest: "validate_keys scope visible (n # names) (k # secrets) ks = Inr u"
    by (auto simp: a split: if_splits)
  from Cons.IH [OF rest] ne show ?case by (auto simp: a)
qed simp

lemma validate_queues_from_Inr:
  "validate_queues_from limits d seen qs = Inr u \<Longrightarrow>
     distinct (map qc_name qs) \<and> set (map qc_name qs) \<inter> set seen = {}
     \<and> (\<forall>q \<in> set qs. queue_name_error (qc_name q) = None
          \<and> length (qc_name q) \<le> unat (lc_max_queue_name_bytes limits)
          \<and> limits_ok (lc_max_message_bytes limits) (merged_with d q))"
proof (induction qs arbitrary: seen)
  case (Cons q qs)
  from Cons.prems have
    here: "queue_name_error (qc_name q) = None" "length (qc_name q) \<le> unat (lc_max_queue_name_bytes limits)"
      "qc_name q \<notin> set seen" "limits_ok (lc_max_message_bytes limits) (merged_with d q)"
    and rest: "validate_queues_from limits d (qc_name q # seen) qs = Inr u"
    by (auto split: option.splits if_splits)
  from Cons.IH [OF rest] here show ?case by auto
qed simp

end
