(* ===== verification/Queues.thy ===== *)
theory Queues
  imports Config
begin

text \<open>
  \<open>src/queues.rs\<close>: the registry of declared queues, rebuilt from the configuration at boot and at
  every reload, and the retry delay of \<open>src/storage.rs\<close> that reads its policy. The hash behind the
  retry jitter is the standard library's \<open>DefaultHasher\<close>, whose output the documentation leaves
  unspecified; it is the argument \<open>jitter\<close>.
\<close>

record queue_registry =
  qr_defaults :: effective_limits
  qr_declared :: "(str, queue_config) fmap"
  qr_any_retry_policy :: bool
  qr_min_max_lease_ms :: u64
  qr_generation :: u64

record retry_policy =
  rp_retry_delay_ms :: u64
  rp_retry_backoff :: retry_backoff
  rp_retry_delay_max_ms :: u64
  rp_max_schedule_horizon_ms :: u64

definition publish :: "queue_registry \<Rightarrow> queue_registry \<Rightarrow> queue_registry" where
  "publish shared next = next\<lparr>qr_generation := qr_generation shared + 1\<rparr>"

text \<open>Collecting pairs into a \<open>HashMap\<close>: a later pair overwrites an earlier one.\<close>

definition collect_map :: "('k \<times> 'v) list \<Rightarrow> ('k, 'v) fmap" where
  "collect_map kvs = foldl (\<lambda>m (k, v). fmupd k v m) fmempty kvs"

definition from_config :: "config \<Rightarrow> queue_registry" where
  "from_config cfg =
     (let defaults = from_globals (cf_limits cfg) (cf_storage cfg);
          declared = collect_map (map (\<lambda>q. (qc_name q, q)) (cf_queues cfg))
      in \<lparr>qr_defaults = defaults,
          qr_declared = declared,
          qr_any_retry_policy = (el_retry_delay_ms defaults > 0
            \<or> list_ex (\<lambda>q. case qc_retry_delay_ms q of Some v \<Rightarrow> v > 0 | None \<Rightarrow> False) (cf_queues cfg)),
          qr_min_max_lease_ms =
            foldl min (el_max_lease_duration_ms defaults)
              (List.map_filter qc_max_lease_duration_ms (cf_queues cfg)),
          qr_generation = 0\<rparr>)"

definition effective :: "queue_registry \<Rightarrow> str \<Rightarrow> effective_limits" where
  "effective r q = (case fmlookup (qr_declared r) q of
     Some c \<Rightarrow> merged_with (qr_defaults r) c
   | None \<Rightarrow> qr_defaults r)"

definition retry_policy_of :: "queue_registry \<Rightarrow> str \<Rightarrow> retry_policy" where
  "retry_policy_of r queue =
     (let q = fmlookup (qr_declared r) queue in \<lparr>
        rp_retry_delay_ms =
          unwrap_or (Option.bind q qc_retry_delay_ms) (el_retry_delay_ms (qr_defaults r)),
        rp_retry_backoff =
          unwrap_or (Option.bind q qc_retry_backoff) (el_retry_backoff (qr_defaults r)),
        rp_retry_delay_max_ms =
          unwrap_or (Option.bind q qc_retry_delay_max_ms) (el_retry_delay_max_ms (qr_defaults r)),
        rp_max_schedule_horizon_ms =
          unwrap_or (Option.bind q qc_max_schedule_horizon_ms)
            (el_max_schedule_horizon_ms (qr_defaults r))\<rparr>)"

definition dedup_window_ms :: "queue_registry \<Rightarrow> str \<Rightarrow> i64" where
  "dedup_window_ms r queue =
     unwrap_or (Option.bind (fmlookup (qr_declared r) queue) qc_dedup_window_ms)
       (el_dedup_window_ms (qr_defaults r))"

definition is_declared :: "queue_registry \<Rightarrow> str \<Rightarrow> bool" where
  "is_declared r q \<longleftrightarrow> fmlookup (qr_declared r) q \<noteq> None"

definition declared_count :: "queue_registry \<Rightarrow> nat" where
  "declared_count r = fcard (fmdom (qr_declared r))"

section \<open>The retry delay\<close>

text \<open>
  \<open>2u64.saturating_pow(attempt.saturating_sub(1))\<close>, then \<open>saturating_mul\<close>: both stop at
  \<open>u64::MAX\<close>.
\<close>

definition saturating_pow2 :: "nat \<Rightarrow> u64" where
  "saturating_pow2 n = (if n < 64 then 2 ^ n else u64_max)"

definition policy_retry_delay_ms :: "(str \<Rightarrow> u32 \<Rightarrow> u64) \<Rightarrow> retry_policy \<Rightarrow> u32 \<Rightarrow> str \<Rightarrow> u64" where
  "policy_retry_delay_ms jitter policy attempt job_id =
     (let base = rp_retry_delay_ms policy in
      if base = 0 then 0
      else
        (let grown = (case rp_retry_backoff policy of
                 BackoffNone \<Rightarrow> base
               | BackoffExponential \<Rightarrow> u64_sat (base * saturating_pow2 (unat attempt - 1)));
             cap = min (rp_retry_delay_max_ms policy) (rp_max_schedule_horizon_ms policy);
             capped = min grown cap
         in capped - jitter job_id attempt mod (capped div 4 + 1)))"

section \<open>Lemmas\<close>

lemma collect_map_snoc: "collect_map (kvs @ [(k, v)]) = fmupd k v (collect_map kvs)"
  by (simp add: collect_map_def)

lemma collect_map_lookup:
  "fmlookup (collect_map kvs) k = map_of (rev kvs) k"
  by (induction kvs rule: rev_induct) (auto simp: collect_map_snoc, simp add: collect_map_def)

lemma declared_from_config:
  "fmlookup (qr_declared (from_config cfg)) q = Some c \<Longrightarrow> c \<in> set (cf_queues cfg) \<and> qc_name c = q"
  by (auto simp: from_config_def Let_def collect_map_lookup dest!: map_of_SomeD)

lemma policy_effective:
  "rp_retry_delay_ms (retry_policy_of r q) = el_retry_delay_ms (effective r q)"
  "rp_retry_backoff (retry_policy_of r q) = el_retry_backoff (effective r q)"
  "rp_retry_delay_max_ms (retry_policy_of r q) = el_retry_delay_max_ms (effective r q)"
  "rp_max_schedule_horizon_ms (retry_policy_of r q) = el_max_schedule_horizon_ms (effective r q)"
  "dedup_window_ms r q = el_dedup_window_ms (effective r q)"
  by (auto simp: retry_policy_of_def effective_def merged_with_def dedup_window_ms_def Let_def
      split: option.splits)

lemma foldl_min_le: "foldl min (d :: nat) xs \<le> d \<and> (\<forall>x \<in> set xs. foldl min d xs \<le> x)"
proof (induction xs arbitrary: d)
  case (Cons a xs)
  have "foldl min (min d a) xs \<le> min d a" "\<forall>x \<in> set xs. foldl min (min d a) xs \<le> x"
    using Cons.IH [of "min d a"] by auto
  then show ?case by auto
qed simp

text \<open>The delay is bounded by every cap, and the jitter takes at most a quarter of it.\<close>

lemma jitter_le: "(h :: nat) mod (c div 4 + 1) \<le> c div 4"
  by (metis Suc_eq_plus1 less_Suc_eq_le mod_less_divisor zero_less_Suc)

lemma retry_delay_bounds:
  "(let d = policy_retry_delay_ms jitter pol attempt jid;
        grown = (case rp_retry_backoff pol of BackoffNone \<Rightarrow> rp_retry_delay_ms pol
          | BackoffExponential \<Rightarrow> min u64_max (rp_retry_delay_ms pol * 2 ^ (unat attempt - 1)));
        capped = min grown (min (rp_retry_delay_max_ms pol) (rp_max_schedule_horizon_ms pol))
    in if rp_retry_delay_ms pol = 0 then d = 0
       else d \<le> capped \<and> capped - capped div 4 \<le> d)"
proof (cases "rp_retry_delay_ms pol = 0")
  case True
  then show ?thesis by (simp add: policy_retry_delay_ms_def Let_def)
next
  case False
  let ?b = "rp_retry_delay_ms pol" and ?n = "unat attempt - 1"
  have "u64_sat (?b * saturating_pow2 ?n) = min u64_max (?b * 2 ^ ?n)"
  proof (cases "?n < 64")
    case True
    then show ?thesis by (simp add: saturating_pow2_def u64_sat_def min.commute)
  next
    case long: False
    then have "(2::nat) ^ 64 \<le> 2 ^ ?n" by (intro power_increasing) simp_all
    then have "u64_max \<le> 2 ^ ?n" by (simp add: u64_max_def)
    moreover have "2 ^ ?n \<le> ?b * 2 ^ ?n" "u64_max \<le> ?b * u64_max" using False by simp_all
    ultimately have "u64_max \<le> ?b * 2 ^ ?n" "u64_max \<le> ?b * u64_max" by (blast intro: order.trans)+
    then show ?thesis using long by (simp add: saturating_pow2_def u64_sat_def min_absorb1)
  qed
  moreover have "c - h mod (c div 4 + 1) \<le> c \<and> c - c div 4 \<le> c - h mod (c div 4 + 1)" for c h :: nat
    by (rule conjI [OF diff_le_self diff_le_mono2 [OF jitter_le]])
  ultimately show ?thesis using False
    by (simp only: policy_retry_delay_ms_def Let_def if_False retry_backoff.case split: retry_backoff.split)
qed

lemma config_limits:
  assumes "config_validate ratio_ok cfg = Inr ()"
  shows "limits_ok (lc_max_message_bytes (cf_limits cfg)) (effective (from_config cfg) q)"
proof -
  let ?d = "from_globals (cf_limits cfg) (cf_storage cfg)"
  from assms have d: "limits_ok (lc_max_message_bytes (cf_limits cfg)) ?d"
    and qs: "validate_queues_from (cf_limits cfg) ?d [] (cf_queues cfg) = Inr ()"
    by (simp_all add: config_validate_def validate_sections_def validate_queues_def Let_def)
  have r: "qr_defaults (from_config cfg) = ?d" by (simp add: from_config_def Let_def)
  show ?thesis
  proof (cases "fmlookup (qr_declared (from_config cfg)) q")
    case (Some c)
    then have "c \<in> set (cf_queues cfg)" using declared_from_config by blast
    with validate_queues_from_Inr [OF qs] Some r show ?thesis by (simp add: effective_def)
  qed (use d r in \<open>simp add: effective_def\<close>)
qed

lemma default_config_valid: "config_validate (\<lambda>_. True) config_default = Inr ()"
  by (simp add: config_validate_def validate_sections_def validate_admin_def validate_queues_def config_default_def
      server_default_def limits_default_def storage_default_def tracing_default_def metrics_default_def admin_default_def
      logging_default_def server_garde_ok_def limits_garde_ok_def storage_garde_ok_def nonempty_opt_def tls_pair_check_def
      limits_ok_def effective_garde_ok_def from_globals_def is_loopback_def Let_def word_le_nat_alt)

lemma registry_summaries:
  "(el_retry_delay_ms (effective (from_config cfg) q) > 0 \<longrightarrow> qr_any_retry_policy (from_config cfg))
    \<and> qr_min_max_lease_ms (from_config cfg) \<le> el_max_lease_duration_ms (effective (from_config cfg) q)"
proof -
  let ?r = "from_config cfg" and ?d = "from_globals (cf_limits cfg) (cf_storage cfg)"
  have lease: "qr_min_max_lease_ms ?r \<le> el_max_lease_duration_ms ?d"
    "c \<in> set (cf_queues cfg) \<Longrightarrow> qc_max_lease_duration_ms c = Some v \<Longrightarrow> qr_min_max_lease_ms ?r \<le> v" for c v
    using foldl_min_le [of "el_max_lease_duration_ms ?d" "List.map_filter qc_max_lease_duration_ms (cf_queues cfg)"]
    by (auto simp: from_config_def Let_def map_filter_mem)
  have flag: "el_retry_delay_ms ?d > 0 \<Longrightarrow> qr_any_retry_policy ?r"
    "c \<in> set (cf_queues cfg) \<Longrightarrow> qc_retry_delay_ms c = Some v \<Longrightarrow> v > 0 \<Longrightarrow> qr_any_retry_policy ?r" for c v
    by (auto simp: from_config_def Let_def list_ex_iff intro!: bexI)
  have d: "qr_defaults ?r = ?d" by (simp add: from_config_def Let_def)
  show ?thesis
  proof (cases "fmlookup (qr_declared ?r) q")
    case None
    with flag(1) lease(1) d show ?thesis by (simp add: effective_def)
  next
    case (Some c)
    note c = declared_from_config [OF Some, THEN conjunct1]
    show ?thesis using Some flag(1) flag(2) [OF c] lease(1) lease(2) [OF c] d
      by (cases "qc_retry_delay_ms c"; cases "qc_max_lease_duration_ms c") (auto simp: effective_def merged_with_def)
  qed
qed

end
