(* ===== verification/Keys.thy ===== *)
theory Keys
  imports Pb "HOL-Library.Monad_Syntax"
begin

text \<open>
  \<open>src/keys.rs\<close>: the byte layout of every key and of the hand-rolled values. A \<open>KeyWriter\<close> is
  the byte vector written so far; a \<open>KeyReader\<close> is the unread suffix \<open>bytes[pos..]\<close>. The lemmas
  show that each layout is read back as written, that distinct keys have distinct bytes, and
  that byte order is the order the scheduler needs.
\<close>

section \<open>KeyWriter\<close>

definition i64_be :: "i64 \<Rightarrow> bytes" where
  "i64_be v = be 8 (nat (v mod 2 ^ 64))"

definition i64_from_be :: "bytes \<Rightarrow> i64" where
  "i64_from_be bs = (let n = int (from_be bs) in if n < 2 ^ 63 then n else n - 2 ^ 64)"

definition u32_be :: "u32 \<Rightarrow> bytes" where
  "u32_be v = be 4 (unat v)"

definition u32_from_be :: "bytes \<Rightarrow> u32" where
  "u32_from_be bs = of_nat (from_be bs)"

definition kw_u8 :: "bytes \<Rightarrow> nat \<Rightarrow> bytes" where
  "kw_u8 w v = w @ [char_of v]"

definition kw_u32 :: "bytes \<Rightarrow> u32 \<Rightarrow> bytes" where
  "kw_u32 w v = w @ u32_be v"

definition kw_i64 :: "bytes \<Rightarrow> i64 \<Rightarrow> bytes" where
  "kw_i64 w v = w @ i64_be v"

definition kw_prefixed :: "bytes \<Rightarrow> bytes \<Rightarrow> bytes" where
  "kw_prefixed w bs = w @ be 2 (length bs mod 2 ^ 16) @ bs"

definition kw_tail :: "bytes \<Rightarrow> bytes \<Rightarrow> bytes" where
  "kw_tail w bs = w @ bs"

lemmas kw_defs = kw_u8_def kw_u32_def kw_i64_def kw_prefixed_def kw_tail_def

section \<open>KeyReader\<close>

definition kr_take :: "nat \<Rightarrow> bytes \<Rightarrow> (bytes \<times> bytes) option" where
  "kr_take n r = (if n \<le> length r then Some (take n r, drop n r) else None)"

definition kr_u8 :: "bytes \<Rightarrow> (nat \<times> bytes) option" where
  "kr_u8 r = do { (s, r) \<leftarrow> kr_take 1 r; Some (of_char (s ! 0), r) }"

definition kr_u32 :: "bytes \<Rightarrow> (u32 \<times> bytes) option" where
  "kr_u32 r = do { (s, r) \<leftarrow> kr_take 4 r; Some (u32_from_be s, r) }"

definition kr_i64 :: "bytes \<Rightarrow> (i64 \<times> bytes) option" where
  "kr_i64 r = do { (s, r) \<leftarrow> kr_take 8 r; Some (i64_from_be s, r) }"

definition kr_prefixed :: "bytes \<Rightarrow> (bytes \<times> bytes) option" where
  "kr_prefixed r = do { (s, r) \<leftarrow> kr_take 2 r; kr_take (from_be s) r }"

definition kr_prefixed_str :: "bytes \<Rightarrow> (str \<times> bytes) option" where
  "kr_prefixed_str r = do { (s, r) \<leftarrow> kr_prefixed r; s \<leftarrow> from_utf8 s; Some (s, r) }"

definition kr_tail_str :: "bytes \<Rightarrow> str option" where
  "kr_tail_str r = from_utf8 r"

lemma i64_mod:
  "i64_ok v \<Longrightarrow> v mod 18446744073709551616 = (if 0 \<le> v then v else v + 18446744073709551616)"
proof (cases "0 \<le> v")
  case True
  then show "i64_ok v \<Longrightarrow> ?thesis" by (simp add: i64_ok_def i64_max_def)
next
  case False
  assume "i64_ok v"
  with False have "(v + 18446744073709551616) mod 18446744073709551616 = v + 18446744073709551616"
    by (intro mod_pos_pos_trivial) (auto simp: i64_ok_def i64_min_def)
  with False show ?thesis by simp
qed

lemma i64_from_be_be [byte_simps]:
  assumes "i64_ok v"
  shows "i64_from_be (i64_be v) = v"
proof -
  have "nat (v mod 2 ^ 64) < 256 ^ 8"
    by (simp add: nat_less_iff)
  then have "i64_from_be (i64_be v) =
      (let n = v mod 2 ^ 64 in if n < 2 ^ 63 then n else n - 2 ^ 64)"
    unfolding i64_from_be_def i64_be_def by (simp add: from_be_be)
  with assms show ?thesis
    by (auto simp: i64_mod [OF assms] Let_def i64_ok_def i64_min_def i64_max_def)
qed

lemma i64_ok_from_be [simp]: "length bs = 8 \<Longrightarrow> i64_ok (i64_from_be bs)"
  using from_be_less [of bs]
  by (auto simp: i64_from_be_def i64_ok_def i64_min_def i64_max_def Let_def)

lemma length_i64_be [simp]: "length (i64_be v) = 8"
  by (simp add: i64_be_def)

lemma length_u32_be [simp]: "length (u32_be v) = 4"
  by (simp add: u32_be_def)

lemma u32_from_be_be [byte_simps]: "u32_from_be (u32_be v) = v"
  using unsigned_less [of v, where ?'a = nat] by (simp add: u32_from_be_def u32_be_def)

lemma i64_be_inject [simp]: "i64_ok v \<Longrightarrow> i64_ok w \<Longrightarrow> i64_be v = i64_be w \<longleftrightarrow> v = w"
  by (metis i64_from_be_be)

lemma i64_be_less:
  "0 \<le> v \<Longrightarrow> v < w \<Longrightarrow> i64_ok w \<Longrightarrow> i64_be v @ xs < i64_be w @ ys"
  by (simp add: i64_be_def i64_ok_def i64_max_def be_append_less nat_less_iff)

lemma kr_take_append [byte_simps]: "length s = n \<Longrightarrow> kr_take n (s @ r) = Some (s, r)"
  by (simp add: kr_take_def)

lemma kr_i64_append [byte_simps]: "i64_ok v \<Longrightarrow> kr_i64 (i64_be v @ r) = Some (v, r)"
  by (simp add: kr_i64_def byte_simps)

lemma kr_u32_append [byte_simps]: "kr_u32 (u32_be v @ r) = Some (v, r)"
  by (simp add: kr_u32_def byte_simps)

lemma kr_u8_Cons [byte_simps]: "kr_u8 (c # r) = Some (of_char c, r)"
  by (simp add: kr_u8_def kr_take_def)

lemma kr_prefixed_append [byte_simps]:
  "length q < 65536 \<Longrightarrow> kr_prefixed (be 2 (length q) @ q @ r) = Some (q, r)"
  by (simp add: kr_prefixed_def kr_take_append)

lemma kr_prefixed_str_append [byte_simps]:
  "length q < 65536 \<Longrightarrow> utf8_valid q \<Longrightarrow>
     kr_prefixed_str (be 2 (length q) @ q @ r) = Some (q, r)"
  by (simp add: kr_prefixed_str_def kr_prefixed_append)

lemma kr_prefixed_str_nil [byte_simps]:
  "length q < 65536 \<Longrightarrow> utf8_valid q \<Longrightarrow>
     kr_prefixed_str (be 2 (length q) @ q) = Some (q, [])"
  using kr_prefixed_str_append [of q "[]"] by simp

section \<open>Queue prefixes and deadlines\<close>

definition queue_prefix :: "str \<Rightarrow> bytes" where
  "queue_prefix q = kw_prefixed [] q"

definition read_queue :: "bytes \<Rightarrow> str option" where
  "read_queue bs = map_option fst (kr_prefixed_str bs)"

definition deadline_of :: "bytes \<Rightarrow> i64" where
  "deadline_of key = (case kr_i64 key of Some (v, _) \<Rightarrow> v | None \<Rightarrow> 0)"

section \<open>ReadyKey\<close>

record ready_key =
  rk_queue :: str
  rk_priority :: u32
  rk_enqueued_at :: i64
  rk_job_id :: str

definition ReadyKey_encode :: "ready_key \<Rightarrow> bytes" where
  "ReadyKey_encode k =
     kw_tail (kw_i64 (kw_u8 (kw_prefixed [] (rk_queue k))
       (9 - unat (min (rk_priority k) 9))) (rk_enqueued_at k)) (rk_job_id k)"

definition ReadyKey_decode :: "bytes \<Rightarrow> ready_key option" where
  "ReadyKey_decode bs = do {
     (q, r) \<leftarrow> kr_prefixed_str bs;
     (p, r) \<leftarrow> kr_u8 r;
     (e, r) \<leftarrow> kr_i64 r;
     j \<leftarrow> kr_tail_str r;
     Some \<lparr>rk_queue = q, rk_priority = of_nat (9 - p), rk_enqueued_at = e, rk_job_id = j\<rparr>
   }"

section \<open>TimerKey\<close>

definition TimerKey_encode :: "i64 \<Rightarrow> str \<Rightarrow> bytes" where
  "TimerKey_encode deadline job_id = kw_tail (kw_i64 [] deadline) job_id"

definition TimerKey_job_id :: "bytes \<Rightarrow> bytes option" where
  "TimerKey_job_id key = do { (_, r) \<leftarrow> kr_i64 key; Some r }"

section \<open>Closing tombstones and the audit trail\<close>

definition CLOSING_PREFIX :: bytes where
  "CLOSING_PREFIX = ''closing/''"

definition closing_key :: "str \<Rightarrow> bytes" where
  "closing_key q = CLOSING_PREFIX @ q"

definition strip_prefix :: "bytes \<Rightarrow> bytes \<Rightarrow> bytes option" where
  "strip_prefix p bs = (if prefix p bs then Some (drop (length p) bs) else None)"

definition closing_queue :: "bytes \<Rightarrow> str option" where
  "closing_queue key = do { r \<leftarrow> strip_prefix CLOSING_PREFIX key; from_utf8 r }"

definition AUDIT_SEQ_KEY :: bytes where
  "AUDIT_SEQ_KEY = ''audit_seq''"

definition AuditValue_encode :: "prost \<Rightarrow> i64 \<Rightarrow> audit_record \<Rightarrow> bytes" where
  "AuditValue_encode P ts_ms r = kw_tail (kw_i64 [] ts_ms) (audit_encode P r)"

definition AuditValue_decode :: "prost \<Rightarrow> bytes \<Rightarrow> (i64 \<times> audit_record) option" where
  "AuditValue_decode P bs = do {
     (ts, r) \<leftarrow> kr_i64 bs;
     rec \<leftarrow> audit_decode P r;
     Some (ts, rec)
   }"

section \<open>Deduplication\<close>

definition DedupKey_encode :: "str \<Rightarrow> str \<Rightarrow> bytes" where
  "DedupKey_encode q key = kw_tail (kw_prefixed [] q) key"

record dedup_value =
  dv_enqueued_at :: i64
  dv_deadline :: i64
  dv_job_id :: str

definition DedupValue_encode :: "dedup_value \<Rightarrow> bytes" where
  "DedupValue_encode v = kw_tail (kw_i64 (kw_i64 [] (dv_enqueued_at v)) (dv_deadline v)) (dv_job_id v)"

definition DedupValue_decode :: "bytes \<Rightarrow> dedup_value option" where
  "DedupValue_decode bs = do {
     (e, r) \<leftarrow> kr_i64 bs;
     (d, r) \<leftarrow> kr_i64 r;
     j \<leftarrow> kr_tail_str r;
     Some \<lparr>dv_enqueued_at = e, dv_deadline = d, dv_job_id = j\<rparr>
   }"

definition DedupTimerKey_encode :: "i64 \<Rightarrow> bytes \<Rightarrow> bytes" where
  "DedupTimerKey_encode deadline dkey = kw_tail (kw_i64 [] deadline) dkey"

definition DedupTimerKey_dedup_key :: "bytes \<Rightarrow> bytes option" where
  "DedupTimerKey_dedup_key key = do { (_, r) \<leftarrow> kr_i64 key; Some r }"

definition DedupTimerKey_queue :: "bytes \<Rightarrow> str option" where
  "DedupTimerKey_queue key = do { d \<leftarrow> DedupTimerKey_dedup_key key; read_queue d }"

section \<open>DeadLetterKey\<close>

definition DeadLetterKey_encode :: "i64 \<Rightarrow> str \<Rightarrow> bytes \<Rightarrow> bytes" where
  "DeadLetterKey_encode failed_at q job_id = kw_tail (kw_prefixed (kw_i64 [] failed_at) q) job_id"

definition DeadLetterKey_queue :: "bytes \<Rightarrow> str option" where
  "DeadLetterKey_queue key = do { (_, r) \<leftarrow> kr_i64 key; read_queue r }"

definition DeadLetterKey_job_id :: "bytes \<Rightarrow> str option" where
  "DeadLetterKey_job_id key = do {
     (_, r) \<leftarrow> kr_i64 key;
     (_, r) \<leftarrow> kr_prefixed_str r;
     from_utf8 r
   }"

section \<open>JobValue\<close>

definition JobValue_encode :: "prost \<Rightarrow> str \<Rightarrow> job \<Rightarrow> bytes" where
  "JobValue_encode P q j = queue_prefix q @ job_encode P j"

definition corrupt_job :: status where
  "corrupt_job = Status Internal ''corrupt job record''"

definition JobValue_decode :: "prost \<Rightarrow> bytes \<Rightarrow> status + (str \<times> job)" where
  "JobValue_decode P bs =
     (case kr_prefixed_str bs of
        None \<Rightarrow> Inl corrupt_job
      | Some (q, r) \<Rightarrow>
          (case job_decode P r of None \<Rightarrow> Inl corrupt_job | Some j \<Rightarrow> Inr (q, j)))"

section \<open>Inflight\<close>

record inflight =
  if_attempt :: u32
  if_lease_expires_at :: i64
  if_enqueued_at :: i64
  if_priority :: u32
  if_max_attempts :: u32
  if_queue :: str
  if_trace_context :: "trace_context option"

definition Inflight_encode :: "prost \<Rightarrow> inflight \<Rightarrow> bytes" where
  "Inflight_encode P i =
     (let tc_bytes = (case if_trace_context i of None \<Rightarrow> [] | Some tc \<Rightarrow> tc_encode P tc)
      in kw_tail (kw_prefixed (kw_u32 (kw_u32 (kw_i64 (kw_i64 (kw_u32 [] (if_attempt i))
           (if_lease_expires_at i)) (if_enqueued_at i)) (if_priority i)) (if_max_attempts i))
           (if_queue i)) tc_bytes)"

definition Inflight_parse :: "prost \<Rightarrow> bytes \<Rightarrow> inflight option" where
  "Inflight_parse P bs = do {
     (a, r) \<leftarrow> kr_u32 bs;
     (l, r) \<leftarrow> kr_i64 r;
     (e, r) \<leftarrow> kr_i64 r;
     (p, r) \<leftarrow> kr_u32 r;
     (m, r) \<leftarrow> kr_u32 r;
     (q, r) \<leftarrow> kr_prefixed_str r;
     tc \<leftarrow> (if r = [] then Some None else map_option Some (tc_decode P r));
     Some \<lparr>if_attempt = a, if_lease_expires_at = l, if_enqueued_at = e, if_priority = p,
           if_max_attempts = m, if_queue = q, if_trace_context = tc\<rparr>
   }"

definition corrupt_inflight :: status where
  "corrupt_inflight = Status Internal ''corrupt inflight record''"

definition Inflight_decode :: "prost \<Rightarrow> bytes \<Rightarrow> status + inflight" where
  "Inflight_decode P bs =
     (case Inflight_parse P bs of None \<Rightarrow> Inl corrupt_inflight | Some i \<Rightarrow> Inr i)"


section \<open>Layout lemmas\<close>

text \<open>The byte lengths and ranges of the fields a key is built from.\<close>

definition queue_ok :: "str \<Rightarrow> bool" where
  "queue_ok q \<longleftrightarrow> length q < 65536 \<and> utf8_valid q"

definition ready_key_ok :: "ready_key \<Rightarrow> bool" where
  "ready_key_ok k \<longleftrightarrow> queue_ok (rk_queue k) \<and> i64_ok (rk_enqueued_at k) \<and> utf8_valid (rk_job_id k)"

definition prio_byte :: "u32 \<Rightarrow> char" where
  "prio_byte p = char_of (9 - unat (min p 9))"

lemma unat_min_9 [simp]: "unat (min (p :: u32) 9) = min (unat p) 9"
  by (auto simp: min_def word_le_nat_alt)

lemma of_char_prio_byte [simp]: "(of_char (prio_byte p) :: nat) = 9 - min (unat p) 9"
  by (simp add: prio_byte_def of_char_of)

lemma prio_of_byte [simp]: "(of_nat (min (unat p) 9) :: u32) = min p 9"
  by (simp only: unat_min_9 [symmetric] of_nat_unat ucast_id)

lemma ReadyKey_encode_eq:
  "length (rk_queue k) < 65536 \<Longrightarrow> ReadyKey_encode k =
     be 2 (length (rk_queue k)) @ rk_queue k @ prio_byte (rk_priority k)
       # i64_be (rk_enqueued_at k) @ rk_job_id k"
  by (simp add: ReadyKey_encode_def kw_defs prio_byte_def)

lemma queue_prefix_eq: "length q < 65536 \<Longrightarrow> queue_prefix q = be 2 (length q) @ q"
  by (simp add: queue_prefix_def kw_defs)

lemma read_queue_append [byte_simps]:
  "queue_ok q \<Longrightarrow> read_queue (be 2 (length q) @ q @ r) = Some q"
  by (simp add: read_queue_def queue_ok_def byte_simps)

lemma read_queue_ready [byte_simps]: "ready_key_ok k \<Longrightarrow> read_queue (ReadyKey_encode k) = Some (rk_queue k)"
  by (simp add: ready_key_ok_def ReadyKey_encode_eq read_queue_append queue_ok_def)

lemma ReadyKey_decode_encode [byte_simps]:
  "ready_key_ok k \<Longrightarrow>
     ReadyKey_decode (ReadyKey_encode k) = Some (k\<lparr>rk_priority := min (rk_priority k) 9\<rparr>)"
  by (cases k) (simp add: ready_key_ok_def queue_ok_def ReadyKey_encode_eq ReadyKey_decode_def
      byte_simps kr_tail_str_def)

lemma deadline_of_append [byte_simps]: "i64_ok d \<Longrightarrow> deadline_of (i64_be d @ r) = d"
  by (simp add: deadline_of_def byte_simps)

lemma TimerKey_eq: "TimerKey_encode d j = i64_be d @ j"
  by (simp add: TimerKey_encode_def kw_defs)

lemma DedupTimerKey_eq: "DedupTimerKey_encode d k = i64_be d @ k"
  by (simp add: DedupTimerKey_encode_def kw_defs)

lemma DedupKey_eq: "length q < 65536 \<Longrightarrow> DedupKey_encode q k = be 2 (length q) @ q @ k"
  by (simp add: DedupKey_encode_def kw_defs)

lemma DeadLetterKey_eq:
  "length q < 65536 \<Longrightarrow> DeadLetterKey_encode f q j = i64_be f @ be 2 (length q) @ q @ j"
  by (simp add: DeadLetterKey_encode_def kw_defs)

lemma deadline_of_TimerKey [byte_simps]: "i64_ok d \<Longrightarrow> deadline_of (TimerKey_encode d j) = d"
  by (simp add: TimerKey_eq byte_simps)

lemma deadline_of_DedupTimerKey [byte_simps]: "i64_ok d \<Longrightarrow> deadline_of (DedupTimerKey_encode d k) = d"
  by (simp add: DedupTimerKey_eq byte_simps)

lemma deadline_of_DeadLetterKey [byte_simps]:
  "i64_ok f \<Longrightarrow> length q < 65536 \<Longrightarrow> deadline_of (DeadLetterKey_encode f q j) = f"
  by (simp add: DeadLetterKey_eq byte_simps)

lemma TimerKey_job_id_encode [byte_simps]: "i64_ok d \<Longrightarrow> TimerKey_job_id (TimerKey_encode d j) = Some j"
  by (simp add: TimerKey_eq TimerKey_job_id_def byte_simps)

lemma TimerKey_inject:
  "i64_ok d \<Longrightarrow> i64_ok d' \<Longrightarrow> TimerKey_encode d j = TimerKey_encode d' j' \<longleftrightarrow> d = d' \<and> j = j'"
  by (simp add: TimerKey_eq)

lemma DedupTimerKey_dedup_key_encode [byte_simps]:
  "i64_ok d \<Longrightarrow> DedupTimerKey_dedup_key (DedupTimerKey_encode d k) = Some k"
  by (simp add: DedupTimerKey_eq DedupTimerKey_dedup_key_def byte_simps)

lemma DedupTimerKey_queue_encode [byte_simps]:
  "i64_ok d \<Longrightarrow> queue_ok q \<Longrightarrow> DedupTimerKey_queue (DedupTimerKey_encode d (DedupKey_encode q k)) = Some q"
  by (simp add: DedupTimerKey_queue_def byte_simps DedupKey_eq queue_ok_def)

lemma DedupTimerKey_inject:
  "i64_ok d \<Longrightarrow> i64_ok d' \<Longrightarrow> DedupTimerKey_encode d j = DedupTimerKey_encode d' j' \<longleftrightarrow> d = d' \<and> j = j'"
  by (simp add: DedupTimerKey_eq)

lemma DedupValue_decode_encode [byte_simps]:
  "i64_ok (dv_enqueued_at v) \<Longrightarrow> i64_ok (dv_deadline v) \<Longrightarrow> utf8_valid (dv_job_id v) \<Longrightarrow>
     DedupValue_decode (DedupValue_encode v) = Some v"
  by (simp add: DedupValue_decode_def DedupValue_encode_def kw_defs byte_simps kr_tail_str_def)

lemma DeadLetterKey_queue_encode [byte_simps]:
  "i64_ok f \<Longrightarrow> queue_ok q \<Longrightarrow> DeadLetterKey_queue (DeadLetterKey_encode f q j) = Some q"
  by (simp add: DeadLetterKey_queue_def DeadLetterKey_eq queue_ok_def byte_simps)

lemma DeadLetterKey_job_id_encode [byte_simps]:
  "i64_ok f \<Longrightarrow> queue_ok q \<Longrightarrow> utf8_valid j \<Longrightarrow>
     DeadLetterKey_job_id (DeadLetterKey_encode f q j) = Some j"
  by (simp add: DeadLetterKey_job_id_def DeadLetterKey_eq queue_ok_def byte_simps)

lemma strip_prefix_append [byte_simps]: "strip_prefix p (p @ r) = Some r"
  by (simp add: strip_prefix_def)

lemma closing_queue_key [byte_simps]: "utf8_valid q \<Longrightarrow> closing_queue (closing_key q) = Some q"
  by (simp add: closing_queue_def closing_key_def byte_simps)

lemma closing_key_inject [simp]: "closing_key q = closing_key q' \<longleftrightarrow> q = q'"
  by (simp add: closing_key_def)

lemma closing_key_neq_audit [simp]: "closing_key q \<noteq> AUDIT_SEQ_KEY" "AUDIT_SEQ_KEY \<noteq> closing_key q"
  by (simp_all add: closing_key_def CLOSING_PREFIX_def AUDIT_SEQ_KEY_def)

lemma closing_queue_Some: "closing_queue k = Some q \<longleftrightarrow> k = closing_key q \<and> utf8_valid q"
  by (auto simp: closing_queue_def strip_prefix_def closing_key_def from_utf8_Some prefix_def
      bind_eq_Some_conv)

text \<open>A key of the ready keyspace starts with a queue's prefix exactly when it is the queue's.\<close>

lemma prefix_queue_prefix:
  assumes "length q < 65536" and "length q' < 65536"
  shows "prefix (queue_prefix q) (be 2 (length q') @ q' @ r) \<longleftrightarrow> q = q'"
proof
  assume "prefix (queue_prefix q) (be 2 (length q') @ q' @ r)"
  then obtain z where z: "be 2 (length q) @ q @ z = be 2 (length q') @ q' @ r"
    using assms by (auto simp: queue_prefix_eq prefix_def)
  then have "be 2 (length q) = be 2 (length q')" by simp
  then have len: "length q = length q'" using assms by (simp add: be_inject)
  with z show "q = q'" by simp
next
  assume "q = q'"
  then show "prefix (queue_prefix q) (be 2 (length q') @ q' @ r)"
    using assms by (simp add: queue_prefix_eq)
qed

lemma prefix_append_ready:
  "length q < 65536 \<Longrightarrow> length (rk_queue k) < 65536 \<Longrightarrow>
     prefix (queue_prefix q) (ReadyKey_encode k) \<longleftrightarrow> q = rk_queue k"
  by (simp add: ReadyKey_encode_eq prefix_queue_prefix)

text \<open>Bytes that follow a common prefix keep their order, so a queue's keys are contiguous.\<close>

lemma prefix_imp_le: "prefix p k \<Longrightarrow> (p :: bytes) \<le> k"
  by (auto simp: prefix_def) (metis append_Nil2 append_le_same Nil_le_Cons neq_Nil_conv order_refl)

section \<open>Records that embed a message\<close>

text \<open>An empty trace context has no bytes, which read back as no trace context.\<close>

definition tc_stored :: "trace_context option \<Rightarrow> trace_context option" where
  "tc_stored c = (if c = Some tc_default then None else c)"

definition inflight_ok :: "inflight \<Rightarrow> bool" where
  "inflight_ok i \<longleftrightarrow> i64_ok (if_lease_expires_at i) \<and> i64_ok (if_enqueued_at i)
     \<and> queue_ok (if_queue i) \<and> pred_option tc_ok (if_trace_context i)"

lemma ReadyKey_inject:
  "ready_key_ok k \<Longrightarrow> ready_key_ok k' \<Longrightarrow> ReadyKey_encode k = ReadyKey_encode k' \<Longrightarrow>
     rk_job_id k = rk_job_id k' \<and> rk_queue k = rk_queue k' \<and> rk_enqueued_at k = rk_enqueued_at k'"
  using ReadyKey_decode_encode [of k] ReadyKey_decode_encode [of k'] by (cases k; cases k') auto

context prost_laws
begin

lemma JobValue_decode_encode [byte_simps]:
  "queue_ok q \<Longrightarrow> job_ok j \<Longrightarrow> JobValue_decode P (JobValue_encode P q j) = Inr (q, j)"
  by (simp add: JobValue_decode_def JobValue_encode_def queue_prefix_eq queue_ok_def byte_simps
      job.dec_enc)

lemma read_queue_JobValue [byte_simps]:
  "queue_ok q \<Longrightarrow> read_queue (JobValue_encode P q j) = Some q"
  by (simp add: JobValue_encode_def queue_prefix_eq queue_ok_def byte_simps)

lemma tc_bytes_decode:
  assumes "pred_option tc_ok c"
  defines "b \<equiv> case c of None \<Rightarrow> [] | Some t \<Rightarrow> tc_encode P t"
  shows "(if b = [] then Some None else map_option Some (tc_decode P b)) = Some (tc_stored c)"
proof (cases c)
  case (Some t)
  with assms(1) have ok: "tc_ok t" by simp
  show ?thesis
    using Some ok tc_encode_empty [OF ok] tc.dec_enc [OF ok] by (simp add: b_def tc_stored_def)
qed (simp add: b_def tc_stored_def)

lemma Inflight_decode_encode [byte_simps]:
  assumes "inflight_ok i"
  shows "Inflight_decode P (Inflight_encode P i) =
    Inr (i\<lparr>if_trace_context := tc_stored (if_trace_context i)\<rparr>)"
proof -
  let ?b = "case if_trace_context i of None \<Rightarrow> [] | Some t \<Rightarrow> tc_encode P t"
  have enc: "Inflight_encode P i = u32_be (if_attempt i) @ i64_be (if_lease_expires_at i)
      @ i64_be (if_enqueued_at i) @ u32_be (if_priority i) @ u32_be (if_max_attempts i)
      @ be 2 (length (if_queue i)) @ if_queue i @ ?b"
    using assms by (simp add: Inflight_encode_def inflight_ok_def queue_ok_def kw_defs Let_def)
  have tc: "(if ?b = [] then Some None else map_option Some (tc_decode P ?b)) =
      Some (tc_stored (if_trace_context i))"
    using assms by (intro tc_bytes_decode) (simp add: inflight_ok_def)
  show ?thesis
    using assms unfolding inflight_ok_def queue_ok_def enc Inflight_decode_def Inflight_parse_def
    by (simp only: byte_simps Option.bind.simps prod.case tc option.case) simp
qed

lemma AuditValue_decode_encode [byte_simps]:
  "i64_ok ts \<Longrightarrow> audit_ok r \<Longrightarrow> AuditValue_decode P (AuditValue_encode P ts r) = Some (ts, r)"
  by (simp add: AuditValue_decode_def AuditValue_encode_def kw_defs byte_simps audit.dec_enc)

end

section \<open>Properties of the layout\<close>

text \<open>
  Within a queue, the byte order of ready keys is the dispatch order: a higher priority (up
  to 9) sorts first, and at equal priority the older enqueue time sorts first, whatever the job
  ids are. Enqueue times are not negative; the two's-complement bytes of a negative time would
  sort last.
\<close>

lemma ready_key_dispatch_order:
  assumes "length q < 65536" and "0 \<le> e" and "0 \<le> e'" and "i64_ok e'"
    and "min p' 9 < min p 9 \<or> min p 9 = min p' 9 \<and> e < e'"
  shows "ReadyKey_encode \<lparr>rk_queue = q, rk_priority = p, rk_enqueued_at = e, rk_job_id = j\<rparr> <
    ReadyKey_encode \<lparr>rk_queue = q, rk_priority = p', rk_enqueued_at = e', rk_job_id = j'\<rparr>"
proof -
  have byte: "prio_byte p < prio_byte p'" if "min p' 9 < min p 9"
    using that unfolding word_less_nat_alt less_char_def of_char_prio_byte unat_min_9 by linarith
  have same: "prio_byte p = prio_byte p'" if "min p 9 = min p' 9"
    using that unfolding prio_byte_def by simp
  show ?thesis
    using assms byte same by (auto simp: ReadyKey_encode_eq i64_be_less)
qed

lemma ready_key_dispatch_order_witness:
  "ReadyKey_encode \<lparr>rk_queue = ''q'', rk_priority = 9, rk_enqueued_at = 100, rk_job_id = ''z''\<rparr> <
   ReadyKey_encode \<lparr>rk_queue = ''q'', rk_priority = 9, rk_enqueued_at = 200, rk_job_id = ''a''\<rparr>"
  by (rule ready_key_dispatch_order) simp_all

end
