(* ===== verification/Index.thy ===== *)
theory Index
  imports Keys
begin

text \<open>
  The in-memory indexes of the committer thread (\<open>src/storage.rs\<close>): \<open>ReadyIndex\<close>,
  \<open>TimerIndex\<close>, \<open>Indexes\<close>, the next wake-up time and the paged key listing. A \<open>BTreeMap\<close> is a
  finite map read in byte order. The counters are \<open>u64\<close> in the code and \<^typ>\<open>nat\<close> here: each one
  is the number of keys held in memory (see \<open>counted\<close>), so it never overflows, and a counter that
  is decremented is positive.

  Two interfaces are stated as locales: \<open>counted_index\<close> (per-queue counters agree with the keys)
  and \<open>ordered_pop\<close> (popping yields the least key that qualifies). Both are interpreted on the
  ready index and on the timer index.
\<close>

section \<open>Per-queue counters\<close>

definition queue_count :: "(str, nat) fmap \<Rightarrow> str \<Rightarrow> nat" where
  "queue_count m q = (case fmlookup m q of None \<Rightarrow> 0 | Some n \<Rightarrow> n)"

definition bump_queue :: "(str, nat) fmap \<Rightarrow> str \<Rightarrow> (str, nat) fmap" where
  "bump_queue m q = fmupd q (queue_count m q + 1) m"

definition drop_queue :: "(str, nat) fmap \<Rightarrow> str \<Rightarrow> (str, nat) fmap" where
  "drop_queue m q =
     (case fmlookup m q of
        None \<Rightarrow> m
      | Some n \<Rightarrow> if n - 1 = 0 then fmdrop q m else fmupd q (n - 1) m)"

section \<open>ReadyIndex\<close>

record ready_index =
  ri_keys :: "(bytes, u32) fmap"
  ri_by_queue :: "(str, nat) fmap"

definition ri_default :: ready_index where
  "ri_default = \<lparr>ri_keys = fmempty, ri_by_queue = fmempty\<rparr>"

definition ri_insert :: "ready_index \<Rightarrow> bytes \<Rightarrow> u32 \<Rightarrow> ready_index" where
  "ri_insert i k a =
     \<lparr>ri_keys = fmupd k a (ri_keys i),
      ri_by_queue =
        (if fmlookup (ri_keys i) k = None
         then (case read_queue k of Some q \<Rightarrow> bump_queue (ri_by_queue i) q | None \<Rightarrow> ri_by_queue i)
         else ri_by_queue i)\<rparr>"

definition ri_remove :: "ready_index \<Rightarrow> bytes \<Rightarrow> u32 option \<times> ready_index" where
  "ri_remove i k =
     (case fmlookup (ri_keys i) k of
        None \<Rightarrow> (None, i)
      | Some a \<Rightarrow>
          (Some a,
           \<lparr>ri_keys = fmdrop k (ri_keys i),
            ri_by_queue =
              (case read_queue k of Some q \<Rightarrow> drop_queue (ri_by_queue i) q | None \<Rightarrow> ri_by_queue i)\<rparr>))"

definition ri_pop_front :: "bytes \<Rightarrow> ready_index \<Rightarrow> ((bytes \<times> u32) \<times> ready_index) option" where
  "ri_pop_front p i =
     (case first_from p (ri_keys i) of
        Some (k, _) \<Rightarrow>
          if prefix p k
          then (case ri_remove i k of (Some a, i') \<Rightarrow> Some ((k, a), i') | (None, _) \<Rightarrow> None)
          else None
      | None \<Rightarrow> None)"

definition ri_attempt :: "ready_index \<Rightarrow> bytes \<Rightarrow> u32 option" where
  "ri_attempt i k = fmlookup (ri_keys i) k"

section \<open>TimerIndex\<close>

record timer_index =
  ti_keys :: "(bytes, str) fmap"
  ti_by_queue :: "(str, nat) fmap"

definition ti_default :: timer_index where
  "ti_default = \<lparr>ti_keys = fmempty, ti_by_queue = fmempty\<rparr>"

definition ti_insert :: "timer_index \<Rightarrow> bytes \<Rightarrow> str \<Rightarrow> timer_index" where
  "ti_insert i k q =
     \<lparr>ti_keys = fmupd k q (ti_keys i),
      ti_by_queue =
        (if fmlookup (ti_keys i) k = None then bump_queue (ti_by_queue i) q else ti_by_queue i)\<rparr>"

definition ti_remove :: "timer_index \<Rightarrow> bytes \<Rightarrow> str option \<times> timer_index" where
  "ti_remove i k =
     (case fmlookup (ti_keys i) k of
        None \<Rightarrow> (None, i)
      | Some q \<Rightarrow>
          (Some q, \<lparr>ti_keys = fmdrop k (ti_keys i), ti_by_queue = drop_queue (ti_by_queue i) q\<rparr>))"

definition ti_pop_due :: "i64 \<Rightarrow> timer_index \<Rightarrow> ((bytes \<times> str) \<times> timer_index) option" where
  "ti_pop_due now i =
     (case first_entry (ti_keys i) of
        None \<Rightarrow> None
      | Some (k, _) \<Rightarrow>
          if deadline_of k > now then None
          else (case ti_remove i k of (Some q, i') \<Rightarrow> Some ((k, q), i') | (None, _) \<Rightarrow> None))"

definition ti_earliest :: "timer_index \<Rightarrow> i64 option" where
  "ti_earliest i = map_option (\<lambda>(k, _). deadline_of k) (first_entry (ti_keys i))"

definition ti_iter_oldest :: "timer_index \<Rightarrow> (bytes \<times> str) list" where
  "ti_iter_oldest i = sorted_list_of_fmap (ti_keys i)"

section \<open>Indexes\<close>

record indexes =
  ix_ready :: ready_index
  ix_scheduled :: timer_index
  ix_leases :: timer_index
  ix_dedup_timers :: timer_index
  ix_dead_letter :: timer_index
  ix_closing :: "(str, i64) fmap"

definition ix_default :: indexes where
  "ix_default = \<lparr>ix_ready = ri_default, ix_scheduled = ti_default, ix_leases = ti_default,
     ix_dedup_timers = ti_default, ix_dead_letter = ti_default, ix_closing = fmempty\<rparr>"

definition live_depth :: "indexes \<Rightarrow> str \<Rightarrow> nat" where
  "live_depth ix q = queue_count (ri_by_queue (ix_ready ix)) q
     + queue_count (ti_by_queue (ix_scheduled ix)) q
     + queue_count (ti_by_queue (ix_leases ix)) q"

record queue_depth_counts =
  qd_ready :: nat
  qd_scheduled :: nat
  qd_inflight :: nat
  qd_dead_letter :: nat

definition depth_counts :: "indexes \<Rightarrow> str \<Rightarrow> queue_depth_counts" where
  "depth_counts ix q =
     \<lparr>qd_ready = queue_count (ri_by_queue (ix_ready ix)) q,
      qd_scheduled = queue_count (ti_by_queue (ix_scheduled ix)) q,
      qd_inflight = queue_count (ti_by_queue (ix_leases ix)) q,
      qd_dead_letter = queue_count (ti_by_queue (ix_dead_letter ix)) q\<rparr>"

text \<open>The least of the values present, as \<open>into_iter().flatten().min()\<close> computes it.\<close>

fun min_opt :: "'a::linorder option list \<Rightarrow> 'a option" where
  "min_opt [] = None"
| "min_opt (None # xs) = min_opt xs"
| "min_opt (Some x # xs) = (case min_opt xs of None \<Rightarrow> Some x | Some y \<Rightarrow> Some (min x y))"

definition next_deadline :: "indexes \<Rightarrow> u64 \<Rightarrow> i64 option" where
  "next_deadline ix retention_ms =
     (let dead_letter =
        (if retention_ms > 0
         then map_option (\<lambda>f. i64_saturating_add f (i64_of_u64 retention_ms))
                (ti_earliest (ix_dead_letter ix))
         else None)
      in min_opt [ti_earliest (ix_scheduled ix), ti_earliest (ix_leases ix),
           ti_earliest (ix_dedup_timers ix),
           min_opt (map (Some \<circ> snd) (sorted_list_of_fmap (ix_closing ix))),
           dead_letter])"

section \<open>Paged key listing\<close>

datatype peek_state = PeekReady | PeekScheduled | PeekInflight | PeekDeadLetter

record peek_page =
  pp_keys :: "bytes list"
  pp_next_cursor :: "bytes option"
  pp_truncated :: bool

definition PEEK_LIMIT_MAX :: nat where "PEEK_LIMIT_MAX = 100"
definition PEEK_EXAMINE_CAP :: nat where "PEEK_EXAMINE_CAP = 10000"

definition clamp_nat :: "nat \<Rightarrow> nat \<Rightarrow> nat \<Rightarrow> nat" where
  "clamp_nat lo hi x = max lo (min hi x)"

definition peek_ready :: "indexes \<Rightarrow> str \<Rightarrow> bytes option \<Rightarrow> nat \<Rightarrow> peek_page" where
  "peek_ready ix q cursor limit =
     (let pre = queue_prefix q;
          from = (case cursor of Some c \<Rightarrow> (\<lambda>k. c < k) | None \<Rightarrow> (\<lambda>k. pre \<le> k));
          range = takeWhile (prefix pre)
            (filter from (map fst (sorted_list_of_fmap (ri_keys (ix_ready ix)))));
          keys = take limit range
      in \<lparr>pp_keys = keys,
          pp_next_cursor =
            (if length keys = limit \<and> drop limit range \<noteq> [] \<and> keys \<noteq> [] then Some (last keys)
             else None),
          pp_truncated = False\<rparr>)"

fun peek_scan :: "str \<Rightarrow> nat \<Rightarrow> nat \<Rightarrow> bytes list \<Rightarrow> bytes option \<Rightarrow> (bytes \<times> str) list \<Rightarrow> peek_page" where
  "peek_scan q limit examined keys last_examined [] =
     \<lparr>pp_keys = keys, pp_next_cursor = None, pp_truncated = False\<rparr>"
| "peek_scan q limit examined keys last_examined ((k, owner) # rest) =
     (if examined = PEEK_EXAMINE_CAP
      then \<lparr>pp_keys = keys, pp_next_cursor = last_examined, pp_truncated = True\<rparr>
      else if owner = q \<and> length (keys @ [k]) = limit
      then \<lparr>pp_keys = keys @ [k], pp_next_cursor = Some k, pp_truncated = False\<rparr>
      else peek_scan q limit (examined + 1) (if owner = q then keys @ [k] else keys) (Some k) rest)"

definition peek_keys ::
    "indexes \<Rightarrow> peek_state \<Rightarrow> str \<Rightarrow> bytes option \<Rightarrow> nat \<Rightarrow> peek_page" where
  "peek_keys ix st q cursor limit =
     (let limit = clamp_nat 1 PEEK_LIMIT_MAX limit;
          scan = (\<lambda>i. peek_scan q limit 0 [] None
            (filter (\<lambda>(k, _). case cursor of Some c \<Rightarrow> c < k | None \<Rightarrow> True)
              (sorted_list_of_fmap (ti_keys i))))
      in case st of
           PeekReady \<Rightarrow> peek_ready ix q cursor limit
         | PeekScheduled \<Rightarrow> scan (ix_scheduled ix)
         | PeekInflight \<Rightarrow> scan (ix_leases ix)
         | PeekDeadLetter \<Rightarrow> scan (ix_dead_letter ix))"

section \<open>Counters agree with keys\<close>

text \<open>
  \<open>counted own es cs\<close>: for every queue the counter is present exactly when the queue owns an
  entry, and is then the number of entries it owns.
\<close>

definition counted :: "(bytes \<Rightarrow> 'v \<Rightarrow> str option) \<Rightarrow> (bytes, 'v) fmap \<Rightarrow> (str, nat) fmap \<Rightarrow> bool" where
  "counted own es cs \<longleftrightarrow>
     (\<forall>q. fmlookup cs q =
        (let n = fmcount (\<lambda>k v. own k v = Some q) es in if n = 0 then None else Some n))"

lemma counted_empty [simp]: "counted own fmempty fmempty"
  by (simp add: counted_def)

lemma counted_queue_count:
  "counted own es cs \<Longrightarrow> queue_count cs q = fmcount (\<lambda>k v. own k v = Some q) es"
  by (auto simp: counted_def queue_count_def Let_def)

lemma counted_contains:
  "counted own es cs \<Longrightarrow> fmlookup cs q \<noteq> None \<longleftrightarrow> (\<exists>k v. fmlookup es k = Some v \<and> own k v = Some q)"
  by (auto simp: counted_def Let_def fmcount_0 split: if_splits)

lemma counted_unique: "counted own es cs \<Longrightarrow> counted own es cs' \<Longrightarrow> cs = cs'"
  by (intro fmap_ext) (simp add: counted_def)

lemma counted_bump:
  assumes "counted own es cs" and "fmlookup es k = None"
  shows "counted own (fmupd k v es)
    (case own k v of Some q \<Rightarrow> bump_queue cs q | None \<Rightarrow> cs)"
  using assms
  by (auto simp: counted_def bump_queue_def counted_queue_count [OF assms(1)] fmcount_upd_new Let_def
      split: option.splits)

lemma counted_drop:
  assumes "counted own es cs" and "fmlookup es k = Some v"
  shows "counted own (fmdrop k es)
    (case own k v of Some q \<Rightarrow> drop_queue cs q | None \<Rightarrow> cs)"
proof -
  have eq: "fmcount (\<lambda>k v. own k v = Some q) es =
      fmcount (\<lambda>k v. own k v = Some q) (fmdrop k es) + (if own k v = Some q then 1 else 0)" for q
    by (rule fmcount_drop [OF assms(2)])
  show ?thesis
    using assms(1) unfolding counted_def eq Let_def
    by (auto simp: drop_queue_def split: option.splits if_splits)
qed

lemma counted_overwrite:
  assumes "counted own es cs" and "fmlookup es k = Some v" and "own k v' = own k v"
  shows "counted own (fmupd k v' es) cs"
proof -
  have "fmcount (\<lambda>k v. own k v = Some q) (fmupd k v' es) = fmcount (\<lambda>k v. own k v = Some q) es" for q
  proof -
    have "{k'. \<exists>w. fmlookup (fmupd k v' es) k' = Some w \<and> own k' w = Some q} =
        {k'. \<exists>w. fmlookup es k' = Some w \<and> own k' w = Some q}"
      using assms(2,3) by (auto split: if_splits)
    then show ?thesis by (simp add: fmcount_def)
  qed
  with assms(1) show ?thesis by (simp add: counted_def)
qed


text \<open>
  The interface of an index with counters: inserting and removing change the entries like a map,
  and the counters move with the owner of the entry.
\<close>

locale counted_index =
  fixes entries :: "'i \<Rightarrow> (bytes, 'v) fmap"
    and counts :: "'i \<Rightarrow> (str, nat) fmap"
    and own :: "bytes \<Rightarrow> 'v \<Rightarrow> str option"
    and ins :: "'i \<Rightarrow> bytes \<Rightarrow> 'v \<Rightarrow> 'i"
    and rem :: "'i \<Rightarrow> bytes \<Rightarrow> 'v option \<times> 'i"
  assumes entries_ins [simp]: "entries (ins i k v) = fmupd k v (entries i)"
    and counts_ins: "counts (ins i k v) =
      (if fmlookup (entries i) k = None
       then (case own k v of Some q \<Rightarrow> bump_queue (counts i) q | None \<Rightarrow> counts i)
       else counts i)"
    and rem_value [simp]: "fst (rem i k) = fmlookup (entries i) k"
    and entries_rem [simp]: "entries (snd (rem i k)) = fmdrop k (entries i)"
    and counts_rem: "counts (snd (rem i k)) =
      (case fmlookup (entries i) k of
         None \<Rightarrow> counts i
       | Some v \<Rightarrow> (case own k v of Some q \<Rightarrow> drop_queue (counts i) q | None \<Rightarrow> counts i))"
begin

definition consistent :: "'i \<Rightarrow> bool" where
  "consistent i \<longleftrightarrow> counted own (entries i) (counts i)"

lemma consistent_ins:
  assumes "consistent i"
    and "\<And>w. fmlookup (entries i) k = Some w \<Longrightarrow> own k v = own k w"
  shows "consistent (ins i k v)"
proof (cases "fmlookup (entries i) k")
  case None
  with assms(1) show ?thesis
    by (simp add: consistent_def counts_ins counted_bump)
next
  case (Some w)
  with assms show ?thesis
    by (auto simp: consistent_def counts_ins intro: counted_overwrite)
qed

lemma consistent_rem:
  assumes "consistent i"
  shows "consistent (snd (rem i k))"
proof (cases "fmlookup (entries i) k")
  case None
  then have "fmdrop k (entries i) = entries i" by (simp add: fmdom_notI fmdrop_idle)
  with None assms show ?thesis by (simp add: consistent_def counts_rem)
next
  case (Some v)
  with assms show ?thesis
    by (simp add: consistent_def counts_rem counted_drop)
qed

lemma count_eq: "consistent i \<Longrightarrow> queue_count (counts i) q = fmcount (\<lambda>k v. own k v = Some q) (entries i)"
  by (simp add: consistent_def counted_queue_count)

lemma contains_iff:
  "consistent i \<Longrightarrow> fmlookup (counts i) q \<noteq> None \<longleftrightarrow>
     (\<exists>k v. fmlookup (entries i) k = Some v \<and> own k v = Some q)"
  unfolding consistent_def by (rule counted_contains)

lemma ins_absent_count:
  assumes "consistent i" and "fmlookup (entries i) k = None" and "own k v = Some q"
  shows "queue_count (counts (ins i k v)) q' = queue_count (counts i) q' + (if q = q' then 1 else 0)"
  using assms by (simp add: counts_ins bump_queue_def queue_count_def)

end

text \<open>The owner of a ready entry is read from its key; a timer entry stores its owner.\<close>

definition ri_owner :: "bytes \<Rightarrow> u32 \<Rightarrow> str option" where
  "ri_owner k a = read_queue k"

definition ti_owner :: "bytes \<Rightarrow> str \<Rightarrow> str option" where
  "ti_owner k q = Some q"

interpretation rix: counted_index ri_keys ri_by_queue ri_owner ri_insert ri_remove
  by unfold_locales
     (auto simp: ri_insert_def ri_remove_def ri_owner_def fmdrop_idle fmdom_notI split: option.splits)

interpretation tix: counted_index ti_keys ti_by_queue ti_owner ti_insert ti_remove
  by unfold_locales
     (auto simp: ti_insert_def ti_remove_def ti_owner_def fmdrop_idle fmdom_notI split: option.splits)

lemma ri_consistent_insert: "rix.consistent i \<Longrightarrow> rix.consistent (ri_insert i k a)"
  by (rule rix.consistent_ins) (simp_all add: ri_owner_def)

lemma consistent_default [simp]: "rix.consistent ri_default" "tix.consistent ti_default"
  by (simp_all add: rix.consistent_def tix.consistent_def ri_default_def ti_default_def)

section \<open>Popping in order\<close>

text \<open>
  The interface of the two pop operations: \<open>sel a k\<close> says which keys qualify; under the index's
  invariant a pop removes and returns the least qualifying key, and fails only when none is left.
\<close>

locale ordered_pop =
  fixes entries :: "'i \<Rightarrow> (bytes, 'v) fmap"
    and invar :: "'i \<Rightarrow> bool"
    and sel :: "'a \<Rightarrow> bytes \<Rightarrow> bool"
    and pop :: "'a \<Rightarrow> 'i \<Rightarrow> ((bytes \<times> 'v) \<times> 'i) option"
  assumes pop_found: "pop a i = Some ((k, v), i') \<Longrightarrow> fmlookup (entries i) k = Some v \<and> sel a k"
    and pop_entries: "pop a i = Some ((k, v), i') \<Longrightarrow> entries i' = fmdrop k (entries i)"
    and pop_least: "pop a i = Some ((k, v), i') \<Longrightarrow> fmlookup (entries i) k' = Some v' \<Longrightarrow> sel a k' \<Longrightarrow> k \<le> k'"
    and pop_empty: "invar i \<Longrightarrow> pop a i = None \<Longrightarrow> fmlookup (entries i) k = Some v \<Longrightarrow> \<not> sel a k"
    and pop_invar: "invar i \<Longrightarrow> pop a i = Some ((k, v), i') \<Longrightarrow> invar i'"
begin

lemma pop_card:
  assumes "pop a i = Some ((k, v), i')"
  shows "card (fmdom' (entries i')) < card (fmdom' (entries i))"
proof -
  have "k \<in> fmdom' (entries i)" using pop_found [OF assms] by (simp add: fmdom'I)
  then have "card (fmdom' (entries i) - {k}) < card (fmdom' (entries i))"
    by (intro card_Diff1_less) simp_all
  then show ?thesis by (simp add: pop_entries [OF assms])
qed

text \<open>Popping until nothing qualifies; \<open>n\<close> bounds the number of pops.\<close>

fun drain :: "nat \<Rightarrow> 'a \<Rightarrow> 'i \<Rightarrow> (bytes \<times> 'v) list \<times> 'i" where
  "drain 0 a i = ([], i)"
| "drain (Suc n) a i =
     (case pop a i of
        None \<Rightarrow> ([], i)
      | Some (e, i') \<Rightarrow> (let (es, i'') = drain n a i' in (e # es, i'')))"

lemma drain_found:
  "drain n a i = (es, i') \<Longrightarrow> (k, v) \<in> set es \<Longrightarrow> fmlookup (entries i) k = Some v \<and> sel a k"
proof (induction n arbitrary: i es)
  case (Suc n)
  obtain k1 v1 i1 es1 where pop: "pop a i = Some ((k1, v1), i1)"
    and es1: "drain n a i1 = (es1, i')" and es: "es = (k1, v1) # es1"
    using Suc.prems by (auto split: option.splits prod.splits)
  show ?case
  proof (cases "(k, v) \<in> set es1")
    case True
    then have "fmlookup (entries i1) k = Some v \<and> sel a k" by (rule Suc.IH [OF es1])
    then show ?thesis by (simp add: pop_entries [OF pop] split: if_splits)
  next
    case False
    with Suc.prems(2) es pop_found [OF pop] show ?thesis by simp
  qed
qed simp

lemma drain_sorted: "drain n a i = (es, i') \<Longrightarrow> sorted (map fst es)"
proof (induction n arbitrary: i es)
  case (Suc n)
  show ?case
  proof (cases "pop a i")
    case None
    with Suc.prems show ?thesis by auto
  next
    case (Some e)
    obtain k v i1 where e: "e = ((k, v), i1)" by (metis surj_pair)
    obtain es1 where es1: "drain n a i1 = (es1, i')" and es: "es = (k, v) # es1"
      using Suc.prems Some e by (auto split: prod.splits)
    have "k \<le> k'" if "(k', v') \<in> set es1" for k' v'
    proof -
      have "fmlookup (entries i1) k' = Some v' \<and> sel a k'" by (rule drain_found [OF es1 that])
      then have "fmlookup (entries i) k' = Some v'" and "sel a k'"
        using pop_entries [OF Some [unfolded e]] by (auto split: if_splits)
      then show ?thesis by (rule pop_least [OF Some [unfolded e]])
    qed
    with Suc.IH [OF es1] es show ?thesis by auto
  qed
qed simp

lemma drain_complete:
  assumes "invar i" and "card (fmdom' (entries i)) \<le> n" and "drain n a i = (es, i')"
  shows "fmlookup (entries i') k = Some v \<Longrightarrow> \<not> sel a k"
  using assms
proof (induction n arbitrary: i es)
  case 0
  then have "fmdom' (entries i) = {}" by simp
  with 0 show ?case by (auto dest: fmdom'I)
next
  case (Suc n)
  show ?case
  proof (cases "pop a i")
    case None
    with Suc.prems show ?thesis using pop_empty by auto
  next
    case (Some e)
    obtain k1 v1 i1 where e: "e = ((k1, v1), i1)" by (metis surj_pair)
    obtain es1 where es1: "drain n a i1 = (es1, i')"
      using Suc.prems Some e by (auto split: prod.splits)
    have "card (fmdom' (entries i1)) \<le> n"
      using pop_card [OF Some [unfolded e]] Suc.prems(3) by simp
    then show ?thesis
      using Suc.IH [OF Suc.prems(1) pop_invar [OF Suc.prems(2) Some [unfolded e]] _ es1] by simp
  qed
qed

end

text \<open>The keys with a common prefix are contiguous in byte order.\<close>

lemma between_prefix: "(p :: bytes) \<le> k \<Longrightarrow> k \<le> p @ r \<Longrightarrow> prefix p k"
proof (induction p arbitrary: k)
  case (Cons c p)
  then obtain d k' where k: "k = d # k'" by (cases k) auto
  with Cons.prems have "c = d" by auto
  with Cons k show ?case by simp
qed simp

lemma ri_pop_front_Some:
  "ri_pop_front p i = Some ((k, a), i') \<Longrightarrow>
     (\<exists>a0. first_from p (ri_keys i) = Some (k, a0)) \<and> prefix p k
     \<and> fmlookup (ri_keys i) k = Some a \<and> i' = snd (ri_remove i k)"
  by (auto simp: ri_pop_front_def ri_remove_def split: option.splits if_splits prod.splits)

lemma ri_pop_front_None:
  assumes "ri_pop_front p i = None" and "fmlookup (ri_keys i) k = Some a"
  shows "\<not> prefix p k"
proof
  assume pre: "prefix p k"
  then have le: "p \<le> k" by (rule prefix_imp_le)
  then obtain k0 a0 where k0: "first_from p (ri_keys i) = Some (k0, a0)"
    using assms(2) by (cases "first_from p (ri_keys i)") (auto simp: first_from_None)
  note found = first_from_Some [OF k0]
  have "k0 \<le> k" using found(3) [OF assms(2) le] .
  with pre found(2) have "prefix p k0" by (auto simp: prefix_def intro: between_prefix [unfolded prefix_def])
  with k0 found(1) assms(1) show False
    by (auto simp: ri_pop_front_def ri_remove_def split: option.splits if_splits)
qed

interpretation rpop: ordered_pop ri_keys "\<lambda>_. True" prefix ri_pop_front
proof
  fix a i k v i'
  assume pop: "ri_pop_front a i = Some ((k, v), i')"
  show "fmlookup (ri_keys i) k = Some v \<and> prefix a k"
    using ri_pop_front_Some [OF pop] by blast
  show "ri_keys i' = fmdrop k (ri_keys i)"
    using ri_pop_front_Some [OF pop] by simp
  fix k' v'
  assume "fmlookup (ri_keys i) k' = Some v'" and "prefix a k'"
  then show "k \<le> k'"
    using ri_pop_front_Some [OF pop] first_from_Some(3) by (metis prefix_imp_le)
qed (auto dest: ri_pop_front_None)

text \<open>
  Timer keys lead with their deadline. Byte order is deadline order as long as no deadline is
  negative, which is the invariant of the timer indexes.
\<close>

definition timer_keys_ok :: "timer_index \<Rightarrow> bool" where
  "timer_keys_ok i \<longleftrightarrow> (\<forall>k q. fmlookup (ti_keys i) k = Some q \<longrightarrow> 8 \<le> length k \<and> 0 \<le> deadline_of k)"

lemma timer_key_split:
  assumes "8 \<le> length k"
  obtains d r where "k = i64_be d @ r" and "i64_ok d" and "deadline_of k = d"
proof -
  define d where "d = i64_from_be (take 8 k)"
  have "i64_be d = take 8 k"
  proof -
    have len: "length (take 8 k) = 8" using assms by simp
    have "from_be (take 8 k) < 256 ^ length (take 8 k)" by (rule from_be_less)
    then have "from_be (take 8 k) < 18446744073709551616" unfolding len by simp
    then have "nat (d mod 2 ^ 64) = from_be (take 8 k)"
      by (simp add: d_def i64_from_be_def Let_def)
    then show ?thesis using len by (simp add: i64_be_def)
  qed
  then have k: "k = i64_be d @ drop 8 k" by simp
  have ok: "i64_ok d" using assms by (simp add: d_def)
  show ?thesis
    by (rule that [OF k ok]) (metis k ok deadline_of_append)
qed

lemma deadline_mono:
  assumes "8 \<le> length k" and "8 \<le> length k'" and "0 \<le> deadline_of k'" and "k \<le> k'"
  shows "deadline_of k \<le> deadline_of k'"
proof (rule ccontr)
  assume less: "\<not> deadline_of k \<le> deadline_of k'"
  obtain d r where k: "k = i64_be d @ r" "i64_ok d" "deadline_of k = d"
    using assms(1) by (rule timer_key_split)
  obtain d' r' where k': "k' = i64_be d' @ r'" "i64_ok d'" "deadline_of k' = d'"
    using assms(2) by (rule timer_key_split)
  have "k' < k" using less k k' assms(3) by (simp add: i64_be_less)
  with assms(4) show False by simp
qed

lemma ti_pop_due_Some:
  "ti_pop_due now i = Some ((k, q), i') \<Longrightarrow>
     (\<exists>q0. first_entry (ti_keys i) = Some (k, q0)) \<and> deadline_of k \<le> now
     \<and> fmlookup (ti_keys i) k = Some q \<and> i' = snd (ti_remove i k)"
  by (auto simp: ti_pop_due_def ti_remove_def split: option.splits if_splits prod.splits)

lemma ti_pop_due_None:
  assumes "ti_pop_due now i = None"
  shows "ti_keys i = fmempty \<or> (\<exists>k q. first_entry (ti_keys i) = Some (k, q) \<and> now < deadline_of k)"
proof (cases "first_entry (ti_keys i)")
  case (Some e)
  obtain k q where e: "e = (k, q)" by (cases e)
  with Some first_entry_Some(1) have "fmlookup (ti_keys i) k = Some q" by simp
  with assms Some e show ?thesis
    by (auto simp: ti_pop_due_def ti_remove_def split: if_splits)
qed (simp add: first_entry_None)

interpretation tpop: ordered_pop ti_keys timer_keys_ok "\<lambda>now k. deadline_of k \<le> now" ti_pop_due
proof
  fix a i k v i'
  assume pop: "ti_pop_due a i = Some ((k, v), i')"
  show "fmlookup (ti_keys i) k = Some v \<and> deadline_of k \<le> a"
    using ti_pop_due_Some [OF pop] by blast
  show drop: "ti_keys i' = fmdrop k (ti_keys i)"
    using ti_pop_due_Some [OF pop] by simp
  show "k \<le> k'" if "fmlookup (ti_keys i) k' = Some v'" for k' v'
    using ti_pop_due_Some [OF pop] first_entry_Some(2) that by metis
  assume "timer_keys_ok i"
  then show "timer_keys_ok i'" by (auto simp: timer_keys_ok_def drop split: if_splits)
next
  fix i a k v
  assume ok: "timer_keys_ok i" and none: "ti_pop_due a i = None"
    and k: "fmlookup (ti_keys i) k = Some v"
  from none k obtain k0 q0 where k0: "first_entry (ti_keys i) = Some (k0, q0)" "a < deadline_of k0"
    using ti_pop_due_None [OF none] by (metis fmempty_lookup option.discI)
  have "k0 \<le> k" using first_entry_Some(2) [OF k0(1) k] .
  then have "deadline_of k0 \<le> deadline_of k"
    using ok k first_entry_Some(1) [OF k0(1)] by (auto simp: timer_keys_ok_def intro: deadline_mono)
  with k0(2) show "\<not> deadline_of k \<le> a" by simp
qed

end
