(* ===== verification/Op.thy ===== *)
theory Op
  imports Queues Index
begin

text \<open>
  \<open>src/op.rs\<close>: the committer's mutating operations, the limits resolved into a prepared job, the
  clock stamp, and the conversion to and from the log message of
  \<open>proto/sepp/storage/v1/op.proto\<close>. The message types are the structures of the proto file; the
  wire encoding of the outer message is prost's and is not used by the code modelled here.
\<close>

section \<open>Prepared jobs\<close>

record job_limits =
  jl_priority :: u32
  jl_max_attempts :: u32
  jl_dedup_window_ms :: i64
  jl_max_queue_depth :: "u64 option"

record prepared_job =
  pj_id :: str
  pj_req :: enqueue_request
  pj_limits :: job_limits

definition JobLimits_resolve :: "enqueue_request \<Rightarrow> queue_registry \<Rightarrow> queue_registry \<Rightarrow> job_limits" where
  "JobLimits_resolve req live boot =
     (let eff = effective live (er_queue req) in \<lparr>
        jl_priority = unwrap_or (er_priority req) (el_default_priority eff),
        jl_max_attempts =
          min (unwrap_or (er_max_attempts req) (el_default_max_attempts eff))
            (el_max_attempts_ceiling eff),
        jl_dedup_window_ms = dedup_window_ms boot (er_queue req),
        jl_max_queue_depth = el_max_queue_depth eff\<rparr>)"

text \<open>\<open>PreparedJob::new\<close> draws a random version-4 UUID, which is an argument here.\<close>

definition PreparedJob_new ::
    "str \<Rightarrow> enqueue_request \<Rightarrow> queue_registry \<Rightarrow> queue_registry \<Rightarrow> prepared_job" where
  "PreparedJob_new fresh_id req live boot =
     \<lparr>pj_id = fresh_id, pj_req = req, pj_limits = JobLimits_resolve req live boot\<rparr>"

section \<open>Operations\<close>

datatype op =
    OpEnqueue "prepared_job list" i64
  | OpEnqueueAtomic "prepared_job list" i64
  | OpReserve "str list" u64 usize i64
  | OpAck str u32
  | OpNack nack_request u64 bool i64
  | OpExtend extend_request u64 i64
  | OpDrainDeadLetters "str option" usize usize
  | OpCloseQueue str i64 i64
  | OpOpenQueue str
  | OpRequeueDeadLetters str "bytes list" i64
  | OpDeadLetterJobs str peek_state "bytes list" "str option" bool i64
  | OpDeleteDeadLetters str "bytes list"
  | OpPurgeQueueChunk str usize
  | OpSweep i64 usize "i64 option" bool
  | OpAuditAppend audit_record i64

fun stamp :: "i64 \<Rightarrow> op \<Rightarrow> op" where
  "stamp now (OpEnqueue jobs _) = OpEnqueue jobs now"
| "stamp now (OpEnqueueAtomic jobs _) = OpEnqueueAtomic jobs now"
| "stamp now (OpReserve queues lease_ms max_jobs _) = OpReserve queues lease_ms max_jobs now"
| "stamp now (OpNack req delay dle _) = OpNack req delay dle now"
| "stamp now (OpExtend req lease_ms _) = OpExtend req lease_ms now"
| "stamp now (OpCloseQueue q _ grace_ms) = OpCloseQueue q now grace_ms"
| "stamp now (OpRequeueDeadLetters q keys _) = OpRequeueDeadLetters q keys now"
| "stamp now (OpDeadLetterJobs q st keys reason dle _) = OpDeadLetterJobs q st keys reason dle now"
| "stamp now (OpSweep _ budget cutoff dle) = OpSweep now budget cutoff dle"
| "stamp now (OpAuditAppend rec _) = OpAuditAppend rec now"
| "stamp now (OpAck j a) = OpAck j a"
| "stamp now (OpDrainDeadLetters q mx cap) = OpDrainDeadLetters q mx cap"
| "stamp now (OpOpenQueue q) = OpOpenQueue q"
| "stamp now (OpDeleteDeadLetters q keys) = OpDeleteDeadLetters q keys"
| "stamp now (OpPurgeQueueChunk q mx) = OpPurgeQueueChunk q mx"

section \<open>The log message\<close>

record proto_job_limits =
  pjl_priority :: u32
  pjl_max_attempts :: u32
  pjl_dedup_window_ms :: i64
  pjl_max_queue_depth :: "u64 option"

record proto_prepared_job =
  ppj_request :: "enqueue_request option"
  ppj_job_id :: str
  ppj_limits :: "proto_job_limits option"

record reserve_op =
  ro_queues :: "str list"
  ro_lease_ms :: u64
  ro_max_jobs :: u64
  ro_now_ms :: i64

record nack_op =
  no_request :: "nack_request option"
  no_now_ms :: i64
  no_retry_delay_ms :: u64
  no_dead_letter_enabled :: bool

record extend_op =
  eo_request :: "extend_request option"
  eo_now_ms :: i64
  eo_lease_ms :: u64

record dead_letter_jobs_op =
  dj_queue :: str
  dj_state :: int
  dj_keys :: "bytes list"
  dj_reason :: "str option"
  dj_now_ms :: i64
  dj_dead_letter_enabled :: bool

record sweep_op =
  so_now_ms :: i64
  so_budget :: u64
  so_retention_cutoff_ms :: "i64 option"
  so_dead_letter_enabled :: bool

datatype proto_op =
    PEnqueue "proto_prepared_job list" i64
  | PEnqueueAtomic "proto_prepared_job list" i64
  | PReserve reserve_op
  | PAck str u32
  | PNack nack_op
  | PExtend extend_op
  | PDrainDeadLetters "str option" u64 u64
  | PCloseQueue str i64 i64
  | POpenQueue str
  | PRequeueDeadLetters str "bytes list" i64
  | PDeadLetterJobs dead_letter_jobs_op
  | PDeleteDeadLetters str "bytes list"
  | PPurgeQueueChunk str u64
  | PSweep sweep_op
  | PAuditAppend "audit_record option" i64

definition JobLimits_to_proto :: "job_limits \<Rightarrow> proto_job_limits" where
  "JobLimits_to_proto l = \<lparr>pjl_priority = jl_priority l, pjl_max_attempts = jl_max_attempts l,
     pjl_dedup_window_ms = jl_dedup_window_ms l, pjl_max_queue_depth = jl_max_queue_depth l\<rparr>"

definition JobLimits_from_proto :: "proto_job_limits \<Rightarrow> job_limits" where
  "JobLimits_from_proto m = \<lparr>jl_priority = pjl_priority m, jl_max_attempts = pjl_max_attempts m,
     jl_dedup_window_ms = pjl_dedup_window_ms m, jl_max_queue_depth = pjl_max_queue_depth m\<rparr>"

definition PreparedJob_to_proto :: "prepared_job \<Rightarrow> proto_prepared_job" where
  "PreparedJob_to_proto j = \<lparr>ppj_request = Some (pj_req j), ppj_job_id = pj_id j,
     ppj_limits = Some (JobLimits_to_proto (pj_limits j))\<rparr>"

definition corrupt_op :: "string \<Rightarrow> status" where
  "corrupt_op what = Status Internal (''corrupt op record: '' @ what)"

definition PreparedJob_from_proto :: "proto_prepared_job \<Rightarrow> status + prepared_job" where
  "PreparedJob_from_proto m =
     (case ppj_request m of
        None \<Rightarrow> Inl (corrupt_op ''job without request'')
      | Some req \<Rightarrow>
          (case ppj_limits m of
             None \<Rightarrow> Inl (corrupt_op ''job without limits'')
           | Some l \<Rightarrow> Inr \<lparr>pj_id = ppj_job_id m, pj_req = req, pj_limits = JobLimits_from_proto l\<rparr>))"

definition state_to_proto :: "peek_state \<Rightarrow> int" where
  "state_to_proto st = (case st of
     PeekReady \<Rightarrow> 1 | PeekScheduled \<Rightarrow> 2 | PeekInflight \<Rightarrow> 3 | PeekDeadLetter \<Rightarrow> 4)"

definition state_from_proto :: "int \<Rightarrow> status + peek_state" where
  "state_from_proto v =
     (if v = 1 then Inr PeekReady else if v = 2 then Inr PeekScheduled
      else if v = 3 then Inr PeekInflight else if v = 4 then Inr PeekDeadLetter
      else Inl (corrupt_op ''unknown job state''))"

text \<open>\<open>collect::<Result<Vec<_>, _>>\<close>: the first error wins.\<close>

fun collect_results :: "('e + 'a) list \<Rightarrow> 'e + 'a list" where
  "collect_results [] = Inr []"
| "collect_results (Inl e # xs) = Inl e"
| "collect_results (Inr x # xs) =
     (case collect_results xs of Inl e \<Rightarrow> Inl e | Inr ys \<Rightarrow> Inr (x # ys))"

fun Op_to_proto :: "op \<Rightarrow> proto_op option" where
  "Op_to_proto (OpEnqueue jobs now) = Some (PEnqueue (map PreparedJob_to_proto jobs) now)"
| "Op_to_proto (OpEnqueueAtomic jobs now) = Some (PEnqueueAtomic (map PreparedJob_to_proto jobs) now)"
| "Op_to_proto (OpReserve queues lease_ms max_jobs now) =
     Some (PReserve \<lparr>ro_queues = queues, ro_lease_ms = lease_ms, ro_max_jobs = max_jobs, ro_now_ms = now\<rparr>)"
| "Op_to_proto (OpAck j a) = Some (PAck j a)"
| "Op_to_proto (OpNack req delay dle now) =
     Some (PNack \<lparr>no_request = Some req, no_now_ms = now, no_retry_delay_ms = delay,
       no_dead_letter_enabled = dle\<rparr>)"
| "Op_to_proto (OpExtend req lease_ms now) =
     Some (PExtend \<lparr>eo_request = Some req, eo_now_ms = now, eo_lease_ms = lease_ms\<rparr>)"
| "Op_to_proto (OpDrainDeadLetters q mx cap) = Some (PDrainDeadLetters q mx cap)"
| "Op_to_proto (OpCloseQueue q now grace_ms) = Some (PCloseQueue q now grace_ms)"
| "Op_to_proto (OpOpenQueue q) = Some (POpenQueue q)"
| "Op_to_proto (OpRequeueDeadLetters q keys now) = Some (PRequeueDeadLetters q keys now)"
| "Op_to_proto (OpDeadLetterJobs q st keys reason dle now) =
     Some (PDeadLetterJobs \<lparr>dj_queue = q, dj_state = state_to_proto st, dj_keys = keys,
       dj_reason = reason, dj_now_ms = now, dj_dead_letter_enabled = dle\<rparr>)"
| "Op_to_proto (OpDeleteDeadLetters q keys) = Some (PDeleteDeadLetters q keys)"
| "Op_to_proto (OpPurgeQueueChunk q mx) = Some (PPurgeQueueChunk q mx)"
| "Op_to_proto (OpSweep now budget cutoff dle) =
     Some (PSweep \<lparr>so_now_ms = now, so_budget = budget, so_retention_cutoff_ms = cutoff,
       so_dead_letter_enabled = dle\<rparr>)"
| "Op_to_proto (OpAuditAppend rec now) = Some (PAuditAppend (Some rec) now)"

definition jobs_from_proto :: "proto_prepared_job list \<Rightarrow> status + prepared_job list" where
  "jobs_from_proto jobs = collect_results (map PreparedJob_from_proto jobs)"

fun Op_from_proto :: "proto_op option \<Rightarrow> status + op" where
  "Op_from_proto None = Inl (corrupt_op ''empty oneof'')"
| "Op_from_proto (Some (PEnqueue jobs now)) =
     (case jobs_from_proto jobs of Inl e \<Rightarrow> Inl e | Inr js \<Rightarrow> Inr (OpEnqueue js now))"
| "Op_from_proto (Some (PEnqueueAtomic jobs now)) =
     (case jobs_from_proto jobs of Inl e \<Rightarrow> Inl e | Inr js \<Rightarrow> Inr (OpEnqueueAtomic js now))"
| "Op_from_proto (Some (PReserve o1)) =
     Inr (OpReserve (ro_queues o1) (ro_lease_ms o1) (ro_max_jobs o1) (ro_now_ms o1))"
| "Op_from_proto (Some (PAck j a)) = Inr (OpAck j a)"
| "Op_from_proto (Some (PNack o1)) =
     (case no_request o1 of
        None \<Rightarrow> Inl (corrupt_op ''nack without request'')
      | Some req \<Rightarrow> Inr (OpNack req (no_retry_delay_ms o1) (no_dead_letter_enabled o1) (no_now_ms o1)))"
| "Op_from_proto (Some (PExtend o1)) =
     (case eo_request o1 of
        None \<Rightarrow> Inl (corrupt_op ''extend without request'')
      | Some req \<Rightarrow> Inr (OpExtend req (eo_lease_ms o1) (eo_now_ms o1)))"
| "Op_from_proto (Some (PDrainDeadLetters q mx cap)) = Inr (OpDrainDeadLetters q mx cap)"
| "Op_from_proto (Some (PCloseQueue q now grace_ms)) = Inr (OpCloseQueue q now grace_ms)"
| "Op_from_proto (Some (POpenQueue q)) = Inr (OpOpenQueue q)"
| "Op_from_proto (Some (PRequeueDeadLetters q keys now)) = Inr (OpRequeueDeadLetters q keys now)"
| "Op_from_proto (Some (PDeadLetterJobs o1)) =
     (case state_from_proto (dj_state o1) of
        Inl e \<Rightarrow> Inl e
      | Inr st \<Rightarrow> Inr (OpDeadLetterJobs (dj_queue o1) st (dj_keys o1) (dj_reason o1)
          (dj_dead_letter_enabled o1) (dj_now_ms o1)))"
| "Op_from_proto (Some (PDeleteDeadLetters q keys)) = Inr (OpDeleteDeadLetters q keys)"
| "Op_from_proto (Some (PPurgeQueueChunk q mx)) = Inr (OpPurgeQueueChunk q mx)"
| "Op_from_proto (Some (PSweep o1)) =
     Inr (OpSweep (so_now_ms o1) (so_budget o1) (so_retention_cutoff_ms o1) (so_dead_letter_enabled o1))"
| "Op_from_proto (Some (PAuditAppend r now)) =
     (case r of
        None \<Rightarrow> Inl (corrupt_op ''audit append without record'')
      | Some rec \<Rightarrow> Inr (OpAuditAppend rec now))"

section \<open>Lemmas\<close>

lemma JobLimits_round_trip [simp]: "JobLimits_from_proto (JobLimits_to_proto l) = l"
  by (simp add: JobLimits_from_proto_def JobLimits_to_proto_def)

lemma PreparedJob_round_trip [simp]: "PreparedJob_from_proto (PreparedJob_to_proto j) = Inr j"
  by (simp add: PreparedJob_from_proto_def PreparedJob_to_proto_def)

lemma state_round_trip [simp]: "state_from_proto (state_to_proto st) = Inr st"
  by (cases st) (simp_all add: state_from_proto_def state_to_proto_def)

lemma jobs_round_trip [simp]: "jobs_from_proto (map PreparedJob_to_proto jobs) = Inr jobs"
  by (induction jobs) (simp_all add: jobs_from_proto_def)

end
