(* ===== verification/Store.thy ===== *)
theory Store
  imports Op
begin

text \<open>
  What every apply function of \<open>src/storage.rs\<close> works on: the fjall database behind \<open>Store\<close>, the
  shared write transaction, the in-memory indexes and the \<open>Cycle\<close> that collects what a cycle did.

  fjall is not in the repository, so the database is a parameter: a value \<open>E\<close> of the record
  \<open>engine\<close> over a type of databases and a type of transactions. The locale \<open>engine_laws\<close> states
  the documented behaviour the code relies on, in terms of the rows a transaction (\<open>txv\<close>) or the
  database (\<open>dbv\<close>) holds. Reads may fail; \<open>reliable_engine\<close> adds that they do not.
\<close>

section \<open>The storage engine\<close>

datatype keyspace =
  Jobs | Payloads | Inflight | Ready | Dedup | DedupTimers | Scheduled | Leases | DeadLetter | Meta | Audit

type_synonym rows = "keyspace \<Rightarrow> (bytes, bytes) fmap"

record ('db, 'tx) engine =
  write_tx :: "'db \<Rightarrow> 'tx"
  tx_get :: "'tx \<Rightarrow> keyspace \<Rightarrow> bytes \<Rightarrow> string + bytes option"
  tx_insert :: "'tx \<Rightarrow> keyspace \<Rightarrow> bytes \<Rightarrow> bytes \<Rightarrow> 'tx"
  tx_remove :: "'tx \<Rightarrow> keyspace \<Rightarrow> bytes \<Rightarrow> 'tx"
  tx_commit :: "'db \<Rightarrow> 'tx \<Rightarrow> (string + unit) \<times> 'db"
  db_persist :: "'db \<Rightarrow> persist_mode \<Rightarrow> (string + unit) \<times> 'db"
  snap_get :: "'db \<Rightarrow> keyspace \<Rightarrow> bytes \<Rightarrow> string + bytes option"
  snap_iter :: "'db \<Rightarrow> keyspace \<Rightarrow> (string + bytes \<times> bytes) list"
  snap_prefix :: "'db \<Rightarrow> keyspace \<Rightarrow> bytes \<Rightarrow> (string + bytes \<times> bytes) list"
  snap_range_to :: "'db \<Rightarrow> keyspace \<Rightarrow> bytes \<Rightarrow> (string + bytes \<times> bytes) list"

locale engine_laws =
  fixes E :: "('db, 'tx) engine"
    and txv :: "'tx \<Rightarrow> rows"
    and dbv :: "'db \<Rightarrow> rows"
  assumes write_tx_view [view_simps]: "txv (write_tx E db) = dbv db"
    and insert_view [view_simps]:
      "txv (tx_insert E t ks k v) = (txv t)(ks := fmupd k v (txv t ks))"
    and remove_view [view_simps]:
      "txv (tx_remove E t ks k) = (txv t)(ks := fmdrop k (txv t ks))"
    and get_view: "tx_get E t ks k = Inr w \<Longrightarrow> w = fmlookup (txv t ks) k"
    and commit_ok: "tx_commit E db t = (Inr u, db') \<Longrightarrow> dbv db' = txv t"
    and commit_failed: "tx_commit E db t = (Inl e, db') \<Longrightarrow> dbv db' = dbv db"
    and persist_view: "dbv (snd (db_persist E db mode)) = dbv db"
    and snap_get_view: "snap_get E db ks k = Inr w \<Longrightarrow> w = fmlookup (dbv db ks) k"
    and snap_iter_view:
      "collect_results (snap_iter E db ks) = Inr kvs \<Longrightarrow> kvs = sorted_list_of_fmap (dbv db ks)"
    and snap_prefix_view:
      "collect_results (snap_prefix E db ks p) = Inr kvs \<Longrightarrow>
         kvs = filter (\<lambda>(k, _). prefix p k) (sorted_list_of_fmap (dbv db ks))"
    and snap_range_view:
      "collect_results (snap_range_to E db ks b) = Inr kvs \<Longrightarrow>
         kvs = filter (\<lambda>(k, _). k < b) (sorted_list_of_fmap (dbv db ks))"

locale reliable_engine = engine_laws +
  assumes get_ok: "\<exists>v. tx_get E t ks k = Inr v"
    and snap_get_ok: "\<exists>v. snap_get E db ks k = Inr v"
    and snap_iter_ok: "\<exists>kvs. collect_results (snap_iter E db ks) = Inr kvs"
    and snap_prefix_ok: "\<exists>kvs. collect_results (snap_prefix E db ks p) = Inr kvs"
    and snap_range_ok: "\<exists>kvs. collect_results (snap_range_to E db ks b) = Inr kvs"
begin

lemma get_eq: "tx_get E t ks k = Inr (fmlookup (txv t ks) k)"
  using get_ok get_view by blast

lemma snap_get_eq: "snap_get E db ks k = Inr (fmlookup (dbv db ks) k)"
  using snap_get_ok snap_get_view by blast

lemma snap_iter_eq: "collect_results (snap_iter E db ks) = Inr (sorted_list_of_fmap (dbv db ks))"
  using snap_iter_ok snap_iter_view by blast

lemma snap_prefix_eq:
  "collect_results (snap_prefix E db ks p) =
     Inr (filter (\<lambda>(k, _). prefix p k) (sorted_list_of_fmap (dbv db ks)))"
  using snap_prefix_ok snap_prefix_view by blast

lemma snap_range_eq:
  "collect_results (snap_range_to E db ks b) =
     Inr (filter (\<lambda>(k, _). k < b) (sorted_list_of_fmap (dbv db ks)))"
  using snap_range_ok snap_range_view by blast

end

definition stg_err :: "string \<Rightarrow> status" where
  "stg_err e = Status Internal (''storage error: '' @ e)"

section \<open>Cycle metrics\<close>

record cycle_metrics =
  cm_enqueued_by_queue :: "(str, nat) fmap"
  cm_reserved_by_queue :: "(str, nat) fmap"
  cm_acked_by_queue :: "(str, nat) fmap"
  cm_nacked_by_queue :: "(str, nat) fmap"
  cm_dead_lettered_by_queue_cause :: "(str \<times> string, nat) fmap"
  cm_deduplicated_by_queue :: "(str, nat) fmap"
  cm_sweep_promotions_by_queue :: "(str, nat) fmap"
  cm_sweep_lease_redeliveries_by_queue :: "(str, nat) fmap"
  cm_sweep_dedup_expirations_by_queue :: "(str, nat) fmap"
  cm_dead_letters_expired :: nat
  cm_dead_letters_drained :: nat
  cm_purged_queues :: "str list"

definition cycle_metrics_default :: cycle_metrics where
  "cycle_metrics_default = \<lparr>cm_enqueued_by_queue = fmempty, cm_reserved_by_queue = fmempty,
     cm_acked_by_queue = fmempty, cm_nacked_by_queue = fmempty,
     cm_dead_lettered_by_queue_cause = fmempty, cm_deduplicated_by_queue = fmempty,
     cm_sweep_promotions_by_queue = fmempty, cm_sweep_lease_redeliveries_by_queue = fmempty,
     cm_sweep_dedup_expirations_by_queue = fmempty, cm_dead_letters_expired = 0,
     cm_dead_letters_drained = 0, cm_purged_queues = []\<rparr>"

record cycle =
  cy_dirty :: bool
  cy_new_ready :: "str fset"
  cy_metrics :: "cycle_metrics option"

definition Cycle_new :: "bool \<Rightarrow> cycle" where
  "Cycle_new metrics_enabled = \<lparr>cy_dirty = False, cy_new_ready = {||},
     cy_metrics = (if metrics_enabled then Some cycle_metrics_default else None)\<rparr>"

definition on_metrics :: "(cycle_metrics \<Rightarrow> cycle_metrics) \<Rightarrow> cycle \<Rightarrow> cycle" where
  "on_metrics f c = c\<lparr>cy_metrics := map_option f (cy_metrics c)\<rparr>"

definition enqueued :: "str \<Rightarrow> cycle \<Rightarrow> cycle" where
  "enqueued q = on_metrics (\<lambda>m. m\<lparr>cm_enqueued_by_queue := bump_queue (cm_enqueued_by_queue m) q\<rparr>)"

definition reserved :: "str \<Rightarrow> cycle \<Rightarrow> cycle" where
  "reserved q = on_metrics (\<lambda>m. m\<lparr>cm_reserved_by_queue := bump_queue (cm_reserved_by_queue m) q\<rparr>)"

definition acked :: "str \<Rightarrow> cycle \<Rightarrow> cycle" where
  "acked q = on_metrics (\<lambda>m. m\<lparr>cm_acked_by_queue := bump_queue (cm_acked_by_queue m) q\<rparr>)"

definition nacked :: "str \<Rightarrow> cycle \<Rightarrow> cycle" where
  "nacked q = on_metrics (\<lambda>m. m\<lparr>cm_nacked_by_queue := bump_queue (cm_nacked_by_queue m) q\<rparr>)"

definition deduplicated :: "str \<Rightarrow> cycle \<Rightarrow> cycle" where
  "deduplicated q =
     on_metrics (\<lambda>m. m\<lparr>cm_deduplicated_by_queue := bump_queue (cm_deduplicated_by_queue m) q\<rparr>)"

definition queue_purged :: "str \<Rightarrow> cycle \<Rightarrow> cycle" where
  "queue_purged q = on_metrics (\<lambda>m. m\<lparr>cm_purged_queues := cm_purged_queues m @ [q]\<rparr>)"

definition dead_lettered :: "str \<Rightarrow> string \<Rightarrow> cycle \<Rightarrow> cycle" where
  "dead_lettered q cause = on_metrics (\<lambda>m. m\<lparr>cm_dead_lettered_by_queue_cause :=
     fmupd (q, cause) (1 + (case fmlookup (cm_dead_lettered_by_queue_cause m) (q, cause) of
         Some n \<Rightarrow> n | None \<Rightarrow> 0))
       (cm_dead_lettered_by_queue_cause m)\<rparr>)"

definition sweep_promotion :: "str \<Rightarrow> cycle \<Rightarrow> cycle" where
  "sweep_promotion q = on_metrics (\<lambda>m. m\<lparr>cm_sweep_promotions_by_queue :=
     bump_queue (cm_sweep_promotions_by_queue m) q\<rparr>)"

definition sweep_lease_redelivery :: "str \<Rightarrow> cycle \<Rightarrow> cycle" where
  "sweep_lease_redelivery q = on_metrics (\<lambda>m. m\<lparr>cm_sweep_lease_redeliveries_by_queue :=
     bump_queue (cm_sweep_lease_redeliveries_by_queue m) q\<rparr>)"

definition sweep_dedup_expiration :: "str \<Rightarrow> cycle \<Rightarrow> cycle" where
  "sweep_dedup_expiration q = on_metrics (\<lambda>m. m\<lparr>cm_sweep_dedup_expirations_by_queue :=
     bump_queue (cm_sweep_dedup_expirations_by_queue m) q\<rparr>)"

definition dead_letter_expired :: "nat \<Rightarrow> cycle \<Rightarrow> cycle" where
  "dead_letter_expired n =
     on_metrics (\<lambda>m. m\<lparr>cm_dead_letters_expired := cm_dead_letters_expired m + n\<rparr>)"

definition dead_letter_drained :: "nat \<Rightarrow> cycle \<Rightarrow> cycle" where
  "dead_letter_drained n =
     on_metrics (\<lambda>m. m\<lparr>cm_dead_letters_drained := cm_dead_letters_drained m + n\<rparr>)"

section \<open>The state of a cycle\<close>

text \<open>
  The mutable arguments \<open>indexes\<close>, \<open>tx\<close> and \<open>cycle\<close> of the apply functions. An apply function
  returns its result beside the state it leaves, also when it fails.
\<close>

record 'tx st =
  st_ix :: indexes
  st_tx :: 'tx
  st_cyc :: cycle

definition put :: "('db, 'tx) engine \<Rightarrow> keyspace \<Rightarrow> bytes \<Rightarrow> bytes \<Rightarrow> 'tx st \<Rightarrow> 'tx st" where
  "put E ks k v s = s\<lparr>st_tx := tx_insert E (st_tx s) ks k v\<rparr>"

definition del :: "('db, 'tx) engine \<Rightarrow> keyspace \<Rightarrow> bytes \<Rightarrow> 'tx st \<Rightarrow> 'tx st" where
  "del E ks k s = s\<lparr>st_tx := tx_remove E (st_tx s) ks k\<rparr>"

definition on_ready :: "(ready_index \<Rightarrow> ready_index) \<Rightarrow> 'tx st \<Rightarrow> 'tx st" where
  "on_ready f s = s\<lparr>st_ix := (st_ix s)\<lparr>ix_ready := f (ix_ready (st_ix s))\<rparr>\<rparr>"

definition on_scheduled :: "(timer_index \<Rightarrow> timer_index) \<Rightarrow> 'tx st \<Rightarrow> 'tx st" where
  "on_scheduled f s = s\<lparr>st_ix := (st_ix s)\<lparr>ix_scheduled := f (ix_scheduled (st_ix s))\<rparr>\<rparr>"

definition on_leases :: "(timer_index \<Rightarrow> timer_index) \<Rightarrow> 'tx st \<Rightarrow> 'tx st" where
  "on_leases f s = s\<lparr>st_ix := (st_ix s)\<lparr>ix_leases := f (ix_leases (st_ix s))\<rparr>\<rparr>"

definition on_dedup_timers :: "(timer_index \<Rightarrow> timer_index) \<Rightarrow> 'tx st \<Rightarrow> 'tx st" where
  "on_dedup_timers f s = s\<lparr>st_ix := (st_ix s)\<lparr>ix_dedup_timers := f (ix_dedup_timers (st_ix s))\<rparr>\<rparr>"

definition on_dead_letter :: "(timer_index \<Rightarrow> timer_index) \<Rightarrow> 'tx st \<Rightarrow> 'tx st" where
  "on_dead_letter f s = s\<lparr>st_ix := (st_ix s)\<lparr>ix_dead_letter := f (ix_dead_letter (st_ix s))\<rparr>\<rparr>"

definition on_closing :: "((str, i64) fmap \<Rightarrow> (str, i64) fmap) \<Rightarrow> 'tx st \<Rightarrow> 'tx st" where
  "on_closing f s = s\<lparr>st_ix := (st_ix s)\<lparr>ix_closing := f (ix_closing (st_ix s))\<rparr>\<rparr>"

definition on_cycle :: "(cycle \<Rightarrow> cycle) \<Rightarrow> 'tx st \<Rightarrow> 'tx st" where
  "on_cycle f s = s\<lparr>st_cyc := f (st_cyc s)\<rparr>"

definition mark_dirty :: "'tx st \<Rightarrow> 'tx st" where
  "mark_dirty s = on_cycle (\<lambda>c. c\<lparr>cy_dirty := True\<rparr>) s"

definition new_ready :: "str \<Rightarrow> 'tx st \<Rightarrow> 'tx st" where
  "new_ready q s = on_cycle (\<lambda>c. c\<lparr>cy_new_ready := finsert q (cy_new_ready c)\<rparr>) s"

text \<open>Removing a key from an index when the returned value is not used.\<close>

definition ri_del :: "bytes \<Rightarrow> ready_index \<Rightarrow> ready_index" where
  "ri_del k i = snd (ri_remove i k)"

definition ti_del :: "bytes \<Rightarrow> timer_index \<Rightarrow> timer_index" where
  "ti_del k i = snd (ti_remove i k)"

definition ri_ins :: "bytes \<Rightarrow> u32 \<Rightarrow> ready_index \<Rightarrow> ready_index" where
  "ri_ins k a i = ri_insert i k a"

definition ti_ins :: "bytes \<Rightarrow> str \<Rightarrow> timer_index \<Rightarrow> timer_index" where
  "ti_ins k q i = ti_insert i k q"

lemmas st_defs = put_def del_def on_ready_def on_scheduled_def on_leases_def on_dedup_timers_def
  on_dead_letter_def on_closing_def on_cycle_def mark_dirty_def new_ready_def

lemma st_tx_simps [simp]:
  "st_tx (put E ks k v s) = tx_insert E (st_tx s) ks k v"
  "st_tx (del E ks k s) = tx_remove E (st_tx s) ks k"
  "st_tx (on_ready f s) = st_tx s" "st_tx (on_scheduled f' s) = st_tx s"
  "st_tx (on_leases f' s) = st_tx s" "st_tx (on_dedup_timers f' s) = st_tx s"
  "st_tx (on_dead_letter f' s) = st_tx s" "st_tx (on_closing g s) = st_tx s"
  "st_tx (on_cycle h s) = st_tx s" "st_tx (mark_dirty s) = st_tx s" "st_tx (new_ready q s) = st_tx s"
  by (simp_all add: st_defs)

lemma st_ix_simps [simp]:
  "st_ix (put E ks k v s) = st_ix s" "st_ix (del E ks k s) = st_ix s"
  "st_ix (on_ready f s) = (st_ix s)\<lparr>ix_ready := f (ix_ready (st_ix s))\<rparr>"
  "st_ix (on_scheduled f' s) = (st_ix s)\<lparr>ix_scheduled := f' (ix_scheduled (st_ix s))\<rparr>"
  "st_ix (on_leases f' s) = (st_ix s)\<lparr>ix_leases := f' (ix_leases (st_ix s))\<rparr>"
  "st_ix (on_dedup_timers f' s) = (st_ix s)\<lparr>ix_dedup_timers := f' (ix_dedup_timers (st_ix s))\<rparr>"
  "st_ix (on_dead_letter f' s) = (st_ix s)\<lparr>ix_dead_letter := f' (ix_dead_letter (st_ix s))\<rparr>"
  "st_ix (on_closing g s) = (st_ix s)\<lparr>ix_closing := g (ix_closing (st_ix s))\<rparr>"
  "st_ix (on_cycle h s) = st_ix s" "st_ix (mark_dirty s) = st_ix s" "st_ix (new_ready q s) = st_ix s"
  by (simp_all add: st_defs)

lemma st_cyc_simps [simp]:
  "st_cyc (put E ks k v s) = st_cyc s" "st_cyc (del E ks k s) = st_cyc s"
  "st_cyc (on_ready f s) = st_cyc s" "st_cyc (on_scheduled f' s) = st_cyc s"
  "st_cyc (on_leases f' s) = st_cyc s" "st_cyc (on_dedup_timers f' s) = st_cyc s"
  "st_cyc (on_dead_letter f' s) = st_cyc s" "st_cyc (on_closing g s) = st_cyc s"
  "st_cyc (on_cycle h s) = h (st_cyc s)"
  "st_cyc (mark_dirty s) = (st_cyc s)\<lparr>cy_dirty := True\<rparr>"
  "st_cyc (new_ready q s) = (st_cyc s)\<lparr>cy_new_ready := finsert q (cy_new_ready (st_cyc s))\<rparr>"
  by (simp_all add: st_defs)

lemmas metric_defs = enqueued_def reserved_def acked_def nacked_def deduplicated_def
  queue_purged_def dead_lettered_def sweep_promotion_def sweep_lease_redelivery_def
  sweep_dedup_expiration_def dead_letter_expired_def dead_letter_drained_def on_metrics_def

lemma cy_dirty_metrics [simp]:
  "cy_dirty (enqueued q c) = cy_dirty c" "cy_dirty (reserved q c) = cy_dirty c"
  "cy_dirty (acked q c) = cy_dirty c" "cy_dirty (nacked q c) = cy_dirty c"
  "cy_dirty (deduplicated q c) = cy_dirty c" "cy_dirty (queue_purged q c) = cy_dirty c"
  "cy_dirty (dead_lettered q l c) = cy_dirty c" "cy_dirty (sweep_promotion q c) = cy_dirty c"
  "cy_dirty (sweep_lease_redelivery q c) = cy_dirty c"
  "cy_dirty (sweep_dedup_expiration q c) = cy_dirty c"
  "cy_dirty (dead_letter_expired n c) = cy_dirty c" "cy_dirty (dead_letter_drained n c) = cy_dirty c"
  by (simp_all add: metric_defs)

lemma cy_new_ready_metrics [simp]:
  "cy_new_ready (enqueued q c) = cy_new_ready c" "cy_new_ready (reserved q c) = cy_new_ready c"
  "cy_new_ready (acked q c) = cy_new_ready c" "cy_new_ready (nacked q c) = cy_new_ready c"
  "cy_new_ready (deduplicated q c) = cy_new_ready c" "cy_new_ready (queue_purged q c) = cy_new_ready c"
  "cy_new_ready (dead_lettered q l c) = cy_new_ready c"
  "cy_new_ready (sweep_promotion q c) = cy_new_ready c"
  "cy_new_ready (sweep_lease_redelivery q c) = cy_new_ready c"
  "cy_new_ready (sweep_dedup_expiration q c) = cy_new_ready c"
  "cy_new_ready (dead_letter_expired n c) = cy_new_ready c"
  "cy_new_ready (dead_letter_drained n c) = cy_new_ready c"
  by (simp_all add: metric_defs)

lemma index_entries [simp]:
  "ri_keys (ri_del k i) = fmdrop k (ri_keys i)" "ri_keys (ri_ins k a i) = fmupd k a (ri_keys i)"
  "ti_keys (ti_del k j) = fmdrop k (ti_keys j)" "ti_keys (ti_ins k q j) = fmupd k q (ti_keys j)"
  by (simp_all add: ri_del_def ri_ins_def ti_del_def ti_ins_def)

lemma index_consistent [simp]:
  "rix.consistent i \<Longrightarrow> rix.consistent (ri_del k i)"
  "rix.consistent i \<Longrightarrow> rix.consistent (ri_ins k a i)"
  "tix.consistent j \<Longrightarrow> tix.consistent (ti_del k j)"
  by (simp_all add: ri_del_def ri_ins_def ti_del_def rix.consistent_rem tix.consistent_rem
      ri_consistent_insert)

lemma ti_ins_consistent:
  "tix.consistent j \<Longrightarrow> (\<And>q'. fmlookup (ti_keys j) k = Some q' \<Longrightarrow> q' = q) \<Longrightarrow>
     tix.consistent (ti_ins k q j)"
  by (auto simp: ti_ins_def ti_owner_def intro: tix.consistent_ins)

end
