(* ===== verification/Abs_Queue.thy ===== *)
theory Abs_Queue
  imports Store
begin

text \<open>
  The abstract queue that \<open>src/storage.rs\<close> implements. A live job is one entry of a map from job
  id to \<open>ajob\<close>, with one place: ready, scheduled or in flight. Dead letters, deduplication records
  and close tombstones are maps of their own. \<open>represents\<close> relates the eleven keyspaces and the six
  in-memory indexes to this state: each keyspace and each index is the image of the abstract map
  under a view that gives the row an entry owns, if any (\<open>keyed\<close>). That a job is in one place
  only, that indexes mirror keyspaces, and that no row is orphaned are therefore part of
  \<open>represents\<close>. The apply functions are shown to preserve it, each by one step of the abstract
  state.
\<close>

section \<open>Maps that are images of a map\<close>

definition keyed :: "('i \<Rightarrow> 'x \<Rightarrow> ('k \<times> 'v) option) \<Rightarrow> ('i, 'x) fmap \<Rightarrow> ('k, 'v) fmap \<Rightarrow> bool" where
  "keyed f J M \<longleftrightarrow>
     (\<forall>k v. fmlookup M k = Some v \<longleftrightarrow> (\<exists>jid x. fmlookup J jid = Some x \<and> f jid x = Some (k, v)))"

text \<open>Two entries that own the same key are the same entry.\<close>

definition key_inj :: "('i \<Rightarrow> 'x \<Rightarrow> bool) \<Rightarrow> ('i \<Rightarrow> 'x \<Rightarrow> ('k \<times> 'v) option) \<Rightarrow> bool" where
  "key_inj ok f \<longleftrightarrow>
     (\<forall>jid x jid' x' k v v'. ok jid x \<longrightarrow> ok jid' x' \<longrightarrow> f jid x = Some (k, v) \<longrightarrow> f jid' x' = Some (k, v')
        \<longrightarrow> jid = jid')"

definition m_ins :: "('k \<times> 'v) option \<Rightarrow> ('k, 'v) fmap \<Rightarrow> ('k, 'v) fmap" where
  "m_ins e M = (case e of None \<Rightarrow> M | Some (k, v) \<Rightarrow> fmupd k v M)"

definition m_del :: "('k \<times> 'v) option \<Rightarrow> ('k, 'v) fmap \<Rightarrow> ('k, 'v) fmap" where
  "m_del e M = (case e of None \<Rightarrow> M | Some (k, v) \<Rightarrow> fmdrop k M)"

lemma m_simps [simp]:
  "m_ins None M = M" "m_ins (Some (k, v)) M = fmupd k v M"
  "m_del None M = M" "m_del (Some (k, v)) M = fmdrop k M"
  by (simp_all add: m_ins_def m_del_def)

text \<open>What one entry's change from \<open>old\<close> to \<open>new\<close> does to the map.\<close>

definition chg :: "('x \<Rightarrow> ('k \<times> 'v) option) \<Rightarrow> 'x option \<Rightarrow> 'x option \<Rightarrow> ('k, 'v) fmap \<Rightarrow> ('k, 'v) fmap" where
  "chg g old new M = m_ins (Option.bind new g) (m_del (Option.bind old g) M)"

definition set_opt :: "'i \<Rightarrow> 'x option \<Rightarrow> ('i, 'x) fmap \<Rightarrow> ('i, 'x) fmap" where
  "set_opt jid new J = (case new of None \<Rightarrow> fmdrop jid J | Some x \<Rightarrow> fmupd jid x J)"

lemma set_opt_simps [simp]:
  "set_opt jid None J = fmdrop jid J" "set_opt jid (Some x) J = fmupd jid x J"
  by (simp_all add: set_opt_def)

lemma set_opt_lookup [simp]: "fmlookup (set_opt jid new J) i = (if i = jid then new else fmlookup J i)"
  by (auto simp: set_opt_def split: option.splits)

lemma fmupd_drop [simp]: "fmupd k v (fmdrop k M) = fmupd k v M"
  by (intro fmap_ext) simp

lemma fmdrop_absent: "fmlookup M k = None \<Longrightarrow> fmdrop k M = M"
  by (intro fmap_ext) auto

lemma fmdrop_upd_absent: "fmlookup M k = None \<Longrightarrow> fmdrop k (fmupd k v M) = M"
  by (intro fmap_ext) auto

lemma keyed_lookup: "keyed f J M \<Longrightarrow> fmlookup J jid = Some x \<Longrightarrow> f jid x = Some (k, v) \<Longrightarrow> fmlookup M k = Some v"
  unfolding keyed_def by blast

lemma keyed_lookupD:
  "keyed f J M \<Longrightarrow> fmlookup M k = Some v \<Longrightarrow> \<exists>jid x. fmlookup J jid = Some x \<and> f jid x = Some (k, v)"
  unfolding keyed_def by blast

lemma keyed_empty [simp]: "keyed f fmempty fmempty"
  by (simp add: keyed_def)

lemma key_injD:
  "key_inj ok f \<Longrightarrow> ok jid x \<Longrightarrow> ok jid' x' \<Longrightarrow> f jid x = Some (k, v) \<Longrightarrow> f jid' x' = Some (k, v') \<Longrightarrow> jid = jid'"
  unfolding key_inj_def by blast

lemma keyed_absent:
  assumes "keyed f J M" and "key_inj ok f" and "\<And>i x. fmlookup J i = Some x \<Longrightarrow> ok i x"
    and "ok jid y" and "f jid y = Some (k, v)" and "Option.bind (fmlookup J jid) (f jid) = None"
  shows "fmlookup M k = None"
proof (rule ccontr)
  assume "fmlookup M k \<noteq> None"
  then obtain w where "fmlookup M k = Some w" by blast
  from keyed_lookupD [OF assms(1) this] obtain i x
    where x: "fmlookup J i = Some x" "f i x = Some (k, w)" by blast
  then have "i = jid" using key_injD [OF assms(2) assms(3) [OF x(1)] assms(4) x(2) assms(5)] by simp
  with x assms(6) show False by simp
qed

text \<open>The same, when the entry already owns a row: that row may be the one at the key.\<close>

lemma keyed_same_owner:
  assumes "keyed f J M" and "key_inj ok f" and "\<And>i x. fmlookup J i = Some x \<Longrightarrow> ok i x"
    and "ok jid y" and "f jid y = Some (k, v)" and "fmlookup M k = Some w"
  shows "\<exists>x. fmlookup J jid = Some x \<and> f jid x = Some (k, w)"
proof -
  from keyed_lookupD [OF assms(1,6)] obtain i x
    where x: "fmlookup J i = Some x" "f i x = Some (k, w)" by blast
  then have "i = jid" using key_injD [OF assms(2) assms(3) [OF x(1)] assms(4) x(2) assms(5)] by simp
  with x show ?thesis by blast
qed

lemma keyed_drop:
  assumes "keyed f J M" and "key_inj ok f" and "\<And>i x. fmlookup J i = Some x \<Longrightarrow> ok i x"
  shows "keyed f (fmdrop jid J) (m_del (Option.bind (fmlookup J jid) (f jid)) M)"
proof (cases "Option.bind (fmlookup J jid) (f jid)")
  case None
  then have "f jid x = None" if "fmlookup J jid = Some x" for x using that by simp
  then have "(\<exists>i x. fmlookup (fmdrop jid J) i = Some x \<and> f i x = Some (k, v)) =
      (\<exists>i x. fmlookup J i = Some x \<and> f i x = Some (k, v))" for k v
    by (auto split: if_splits)
  with assms(1) show ?thesis unfolding None keyed_def by simp
next
  case (Some e)
  obtain k0 v0 where e: "e = (k0, v0)" by (cases e)
  obtain x0 where x0: "fmlookup J jid = Some x0" "f jid x0 = Some (k0, v0)"
    using Some e by (cases "fmlookup J jid") auto
  have "(fmlookup (fmdrop k0 M) k = Some v) =
      (\<exists>i x. fmlookup (fmdrop jid J) i = Some x \<and> f i x = Some (k, v))" for k v
  proof (cases "k = k0")
    case True
    then show ?thesis
      using key_injD [OF assms(2) _ _ x0(2)] assms(3) x0(1) by (fastforce split: if_splits)
  next
    case False
    then show ?thesis
      using assms(1) x0 unfolding keyed_def by (auto split: if_splits)
  qed
  then show ?thesis by (simp add: keyed_def Some e)
qed

lemma keyed_chg:
  assumes "keyed f J M" and "key_inj ok f" and ok: "\<And>i x. fmlookup J i = Some x \<Longrightarrow> ok i x"
    and new: "\<And>x. new = Some x \<Longrightarrow> ok jid x"
  shows "keyed f (set_opt jid new J) (chg (f jid) (fmlookup J jid) new M)"
proof (cases new)
  case None
  with keyed_drop [OF assms(1-3)] show ?thesis by (simp add: chg_def)
next
  case (Some x1)
  define M1 where "M1 = m_del (Option.bind (fmlookup J jid) (f jid)) M"
  have M1: "keyed f (fmdrop jid J) M1" unfolding M1_def by (rule keyed_drop [OF assms(1-3)])
  have ok1: "ok i x" if "fmlookup (fmdrop jid J) i = Some x" for i x
    using that ok by (auto split: if_splits)
  have ok_new: "ok jid x1" using new Some by simp
  show ?thesis
  proof (cases "f jid x1")
    case None
    then show ?thesis using M1 Some unfolding M1_def keyed_def chg_def
      by (auto split: if_splits)
  next
    case (Some e)
    obtain k v where e: "e = (k, v)" by (cases e)
    have fresh: "fmlookup M1 k = None"
      by (rule keyed_absent [OF M1 assms(2) ok1 ok_new Some [unfolded e]]) simp_all
    have "keyed f (fmupd jid x1 J) (fmupd k v M1)"
      unfolding keyed_def
    proof (intro allI)
      fix k' v'
      show "(fmlookup (fmupd k v M1) k' = Some v') =
          (\<exists>i x. fmlookup (fmupd jid x1 J) i = Some x \<and> f i x = Some (k', v'))"
      proof (cases "k' = k")
        case True
        have "\<not> (\<exists>i x. i \<noteq> jid \<and> fmlookup J i = Some x \<and> f i x = Some (k, v'))"
          using key_injD [OF assms(2) _ ok_new _ Some [unfolded e]] ok by blast
        then show ?thesis using True Some e by simp (metis option.inject prod.inject)
      next
        case False
        have "(fmlookup M1 k' = Some v') = (\<exists>i x. fmlookup (fmdrop jid J) i = Some x \<and> f i x = Some (k', v'))"
          using M1 unfolding keyed_def by blast
        then show ?thesis using False Some e by (auto split: if_splits)
      qed
    qed
    then show ?thesis using \<open>new = Some x1\<close> Some e by (simp add: chg_def M1_def)
  qed
qed

lemma chg_same: "Option.bind old g = Option.bind new g \<Longrightarrow>
    (\<And>k v. Option.bind old g = Some (k, v) \<Longrightarrow> fmlookup M k = Some v) \<Longrightarrow> chg g old new M = M"
  by (cases "Option.bind new g") (auto simp: chg_def intro!: fmap_ext)

section \<open>The abstract state\<close>

datatype place = InReady u32 | InScheduled i64 u32 | InFlight i64 u32

record ajob =
  aj_queue :: str
  aj_job :: job
  aj_payload :: "payload option"
  aj_place :: place

record adead =
  dd_queue :: str
  dd_failed_at :: i64
  dd_record :: dead_letter_record

record adedup =
  dp_queue :: str
  dp_key :: str
  dp_value :: dedup_value

record abs_queue =
  a_jobs :: "(str, ajob) fmap"
  a_dead :: "(str, adead) fmap"
  a_dedup :: "(bytes, adedup) fmap"
  a_closing :: "(str, i64) fmap"

definition enq_ms :: "prost \<Rightarrow> job \<Rightarrow> i64" where
  "enq_ms P j = (case j_enqueued_at j of None \<Rightarrow> 0 | Some t \<Rightarrow> timestamp_to_millis P t)"

definition rkey :: "prost \<Rightarrow> ajob \<Rightarrow> bytes" where
  "rkey P x = ReadyKey_encode \<lparr>rk_queue = aj_queue x, rk_priority = j_priority (aj_job x),
     rk_enqueued_at = enq_ms P (aj_job x), rk_job_id = j_id (aj_job x)\<rparr>"

definition mk_inflight :: "prost \<Rightarrow> ajob \<Rightarrow> i64 \<Rightarrow> u32 \<Rightarrow> inflight" where
  "mk_inflight P x d a = \<lparr>if_attempt = a, if_lease_expires_at = d,
     if_enqueued_at = enq_ms P (aj_job x), if_priority = j_priority (aj_job x),
     if_max_attempts = j_max_attempts (aj_job x), if_queue = aj_queue x,
     if_trace_context = j_trace_context (aj_job x)\<rparr>"

definition place_ok :: "u32 \<Rightarrow> place \<Rightarrow> bool" where
  "place_ok m p = (case p of
     InReady a \<Rightarrow> 1 \<le> a \<and> a \<le> m
   | InScheduled d a \<Rightarrow> 0 \<le> d \<and> i64_ok d \<and> 1 \<le> a \<and> a \<le> m
   | InFlight d a \<Rightarrow> 0 \<le> d \<and> i64_ok d \<and> 1 \<le> a \<and> a \<le> m)"

text \<open>
  A stored job carries its id, no payload and no queue (both are stored beside it), a non-negative
  enqueue time, and an attempt between 1 and its maximum.
\<close>

definition ajob_ok :: "prost \<Rightarrow> str \<Rightarrow> ajob \<Rightarrow> bool" where
  "ajob_ok P jid x \<longleftrightarrow> utf8_valid jid \<and> queue_ok (aj_queue x) \<and> job_ok (aj_job x)
     \<and> j_id (aj_job x) = jid \<and> j_payload (aj_job x) = None \<and> j_queue (aj_job x) = []
     \<and> 0 \<le> enq_ms P (aj_job x) \<and> i64_ok (enq_ms P (aj_job x))
     \<and> pred_option payload_ok (aj_payload x) \<and> place_ok (j_max_attempts (aj_job x)) (aj_place x)"

definition adead_ok :: "str \<Rightarrow> adead \<Rightarrow> bool" where
  "adead_ok jid d \<longleftrightarrow> utf8_valid jid \<and> queue_ok (dd_queue d) \<and> 0 \<le> dd_failed_at d
     \<and> i64_ok (dd_failed_at d) \<and> dlr_ok (dd_record d)
     \<and> (\<exists>j. dl_job (dd_record d) = Some j \<and> j_id j = jid \<and> j_queue j = dd_queue d \<and> 1 \<le> j_max_attempts j)"

definition adedup_ok :: "bytes \<Rightarrow> adedup \<Rightarrow> bool" where
  "adedup_ok k u \<longleftrightarrow> queue_ok (dp_queue u) \<and> k = DedupKey_encode (dp_queue u) (dp_key u)
     \<and> i64_ok (dv_enqueued_at (dp_value u)) \<and> 0 \<le> dv_deadline (dp_value u)
     \<and> i64_ok (dv_deadline (dp_value u)) \<and> utf8_valid (dv_job_id (dp_value u))"

section \<open>Views\<close>

fun jview :: "prost \<Rightarrow> keyspace \<Rightarrow> str \<Rightarrow> ajob \<Rightarrow> (bytes \<times> bytes) option" where
  "jview P Jobs jid x = Some (jid, JobValue_encode P (aj_queue x) (aj_job x))"
| "jview P Payloads jid x = map_option (\<lambda>p. (jid, payload_encode P p)) (aj_payload x)"
| "jview P Inflight jid x = (case aj_place x of
     InFlight d a \<Rightarrow> Some (jid, Inflight_encode P (mk_inflight P x d a)) | _ \<Rightarrow> None)"
| "jview P Ready jid x = (case aj_place x of InReady a \<Rightarrow> Some (rkey P x, u32_be a) | _ \<Rightarrow> None)"
| "jview P Scheduled jid x = (case aj_place x of
     InScheduled d a \<Rightarrow> Some (TimerKey_encode d jid, u32_be a) | _ \<Rightarrow> None)"
| "jview P Leases jid x = (case aj_place x of
     InFlight d a \<Rightarrow> Some (TimerKey_encode d jid, []) | _ \<Rightarrow> None)"
| "jview P _ jid x = None"

definition rix_view :: "prost \<Rightarrow> str \<Rightarrow> ajob \<Rightarrow> (bytes \<times> u32) option" where
  "rix_view P jid x = (case aj_place x of InReady a \<Rightarrow> Some (rkey P x, a) | _ \<Rightarrow> None)"

definition six_view :: "str \<Rightarrow> ajob \<Rightarrow> (bytes \<times> str) option" where
  "six_view jid x = (case aj_place x of
     InScheduled d a \<Rightarrow> Some (TimerKey_encode d jid, aj_queue x) | _ \<Rightarrow> None)"

definition lix_view :: "str \<Rightarrow> ajob \<Rightarrow> (bytes \<times> str) option" where
  "lix_view jid x = (case aj_place x of
     InFlight d a \<Rightarrow> Some (TimerKey_encode d jid, aj_queue x) | _ \<Rightarrow> None)"

definition dead_key :: "str \<Rightarrow> adead \<Rightarrow> bytes" where
  "dead_key jid d = DeadLetterKey_encode (dd_failed_at d) (dd_queue d) jid"

definition dview :: "prost \<Rightarrow> str \<Rightarrow> adead \<Rightarrow> (bytes \<times> bytes) option" where
  "dview P jid d = Some (dead_key jid d, dlr_encode P (dd_record d))"

definition dix_view :: "str \<Rightarrow> adead \<Rightarrow> (bytes \<times> str) option" where
  "dix_view jid d = Some (dead_key jid d, dd_queue d)"

definition uview :: "bytes \<Rightarrow> adedup \<Rightarrow> (bytes \<times> bytes) option" where
  "uview k u = Some (k, DedupValue_encode (dp_value u))"

definition dedup_timer :: "bytes \<Rightarrow> adedup \<Rightarrow> bytes" where
  "dedup_timer k u = DedupTimerKey_encode (dv_deadline (dp_value u)) k"

definition utview :: "bytes \<Rightarrow> adedup \<Rightarrow> (bytes \<times> bytes) option" where
  "utview k u = Some (dedup_timer k u, [])"

definition uix_view :: "bytes \<Rightarrow> adedup \<Rightarrow> (bytes \<times> str) option" where
  "uix_view k u = Some (dedup_timer k u, dp_queue u)"

lemma rkey_ok: "ajob_ok P jid x \<Longrightarrow>
    ready_key_ok \<lparr>rk_queue = aj_queue x, rk_priority = j_priority (aj_job x),
      rk_enqueued_at = enq_ms P (aj_job x), rk_job_id = j_id (aj_job x)\<rparr>"
  by (simp add: ajob_ok_def ready_key_ok_def)

lemma rkey_inj: "ajob_ok P jid x \<Longrightarrow> ajob_ok P jid' x' \<Longrightarrow> rkey P x = rkey P x' \<Longrightarrow> jid = jid'"
  unfolding rkey_def using ReadyKey_inject [OF rkey_ok rkey_ok] by (fastforce simp: ajob_ok_def)

lemma place_deadline_ok:
  "ajob_ok P jid x \<Longrightarrow> aj_place x = InScheduled d a \<Longrightarrow> i64_ok d \<and> 0 \<le> d"
  "ajob_ok P jid x \<Longrightarrow> aj_place x = InFlight d a \<Longrightarrow> i64_ok d \<and> 0 \<le> d"
  by (auto simp: ajob_ok_def place_ok_def)

lemma key_inj_jview: "key_inj (ajob_ok P) (jview P ks)"
  by (cases ks)
    (auto simp: key_inj_def TimerKey_inject place_deadline_ok split: place.splits
      dest: rkey_inj place_deadline_ok)

lemma key_inj_rix: "key_inj (ajob_ok P) (rix_view P)"
  by (auto simp: key_inj_def rix_view_def split: place.splits dest: rkey_inj)

lemma key_inj_six: "key_inj (ajob_ok P) six_view"
  by (auto simp: key_inj_def six_view_def TimerKey_inject place_deadline_ok split: place.splits)

lemma key_inj_lix: "key_inj (ajob_ok P) lix_view"
  by (auto simp: key_inj_def lix_view_def TimerKey_inject place_deadline_ok split: place.splits)

lemma dead_key_inj:
  assumes "adead_ok j d" and "adead_ok j' d'" and "dead_key j d = dead_key j' d'"
  shows "j = j' \<and> dd_queue d = dd_queue d'"
proof -
  have "DeadLetterKey_job_id (dead_key j d) = Some j" "DeadLetterKey_job_id (dead_key j' d') = Some j'"
    "DeadLetterKey_queue (dead_key j d) = Some (dd_queue d)"
    "DeadLetterKey_queue (dead_key j' d') = Some (dd_queue d')"
    using assms(1,2) by (simp_all add: adead_ok_def dead_key_def byte_simps)
  with assms(3) show ?thesis by simp
qed

lemma key_inj_dead: "key_inj adead_ok (dview P)" "key_inj adead_ok dix_view"
  by (auto simp: key_inj_def dview_def dix_view_def dest: dead_key_inj)

lemma key_inj_dedup: "key_inj adedup_ok uview" "key_inj adedup_ok utview" "key_inj adedup_ok uix_view"
  by (auto simp: key_inj_def uview_def utview_def uix_view_def dedup_timer_def DedupTimerKey_inject
      adedup_ok_def)

section \<open>The representation\<close>

definition jobs_rep :: "prost \<Rightarrow> rows \<Rightarrow> indexes \<Rightarrow> (str, ajob) fmap \<Rightarrow> bool" where
  "jobs_rep P V ix J \<longleftrightarrow>
     (\<forall>ks \<in> {Jobs, Payloads, Inflight, Ready, Scheduled, Leases}. keyed (jview P ks) J (V ks))
     \<and> keyed (rix_view P) J (ri_keys (ix_ready ix)) \<and> rix.consistent (ix_ready ix)
     \<and> keyed six_view J (ti_keys (ix_scheduled ix)) \<and> tix.consistent (ix_scheduled ix)
     \<and> keyed lix_view J (ti_keys (ix_leases ix)) \<and> tix.consistent (ix_leases ix)
     \<and> (\<forall>jid x. fmlookup J jid = Some x \<longrightarrow> ajob_ok P jid x)"

definition dead_rep :: "prost \<Rightarrow> rows \<Rightarrow> indexes \<Rightarrow> (str, adead) fmap \<Rightarrow> bool" where
  "dead_rep P V ix D \<longleftrightarrow>
     keyed (dview P) D (V DeadLetter)
     \<and> keyed dix_view D (ti_keys (ix_dead_letter ix)) \<and> tix.consistent (ix_dead_letter ix)
     \<and> (\<forall>jid d. fmlookup D jid = Some d \<longrightarrow> adead_ok jid d)"

definition dedup_rep :: "rows \<Rightarrow> indexes \<Rightarrow> (bytes, adedup) fmap \<Rightarrow> bool" where
  "dedup_rep V ix U \<longleftrightarrow>
     keyed uview U (V Dedup) \<and> keyed utview U (V DedupTimers)
     \<and> keyed uix_view U (ti_keys (ix_dedup_timers ix)) \<and> tix.consistent (ix_dedup_timers ix)
     \<and> (\<forall>k u. fmlookup U k = Some u \<longrightarrow> adedup_ok k u)"

definition closing_rep :: "rows \<Rightarrow> indexes \<Rightarrow> (str, i64) fmap \<Rightarrow> bool" where
  "closing_rep V ix C \<longleftrightarrow> ix_closing ix = C
     \<and> (\<forall>q. fmlookup (V Meta) (closing_key q) = map_option i64_be (fmlookup C q))
     \<and> (\<forall>q d. fmlookup C q = Some d \<longrightarrow> utf8_valid q \<and> i64_ok d)"

definition represents :: "prost \<Rightarrow> rows \<Rightarrow> indexes \<Rightarrow> abs_queue \<Rightarrow> bool" where
  "represents P V ix A \<longleftrightarrow>
     jobs_rep P V ix (a_jobs A) \<and> dead_rep P V ix (a_dead A) \<and> dedup_rep V ix (a_dedup A)
     \<and> closing_rep V ix (a_closing A) \<and> fmdom' (a_jobs A) \<inter> fmdom' (a_dead A) = {}"

definition abs_empty :: abs_queue where
  "abs_empty = \<lparr>a_jobs = fmempty, a_dead = fmempty, a_dedup = fmempty, a_closing = fmempty\<rparr>"

lemma represents_empty: "represents P (\<lambda>_. fmempty) ix_default abs_empty"
  by (simp add: represents_def jobs_rep_def dead_rep_def dedup_rep_def closing_rep_def abs_empty_def
      ix_default_def ri_default_def [symmetric] ti_default_def [symmetric])
     (simp add: ri_default_def ti_default_def)

section \<open>One entry changes\<close>

definition ti_chg :: "(bytes \<times> str) option \<Rightarrow> (bytes \<times> str) option \<Rightarrow> timer_index \<Rightarrow> timer_index" where
  "ti_chg old new i =
     (let i' = (case old of None \<Rightarrow> i | Some (k, _) \<Rightarrow> ti_del k i)
      in case new of None \<Rightarrow> i' | Some (k, q) \<Rightarrow> ti_ins k q i')"

definition ri_chg :: "(bytes \<times> u32) option \<Rightarrow> (bytes \<times> u32) option \<Rightarrow> ready_index \<Rightarrow> ready_index" where
  "ri_chg old new i =
     (let i' = (case old of None \<Rightarrow> i | Some (k, _) \<Rightarrow> ri_del k i)
      in case new of None \<Rightarrow> i' | Some (k, a) \<Rightarrow> ri_ins k a i')"

lemma chg_index_simps [simp]:
  "ti_chg None None i = i" "ti_chg (Some (k, q)) None i = ti_del k i"
  "ti_chg None (Some (k, q)) i = ti_ins k q i"
  "ti_chg (Some (k, q)) (Some (k', q')) i = ti_ins k' q' (ti_del k i)"
  "ri_chg None None j = j" "ri_chg (Some (k, a)) None j = ri_del k j"
  "ri_chg None (Some (k, a)) j = ri_ins k a j"
  by (simp_all add: ti_chg_def ri_chg_def)

lemma ti_keys_chg: "ti_keys (ti_chg (Option.bind old g) (Option.bind new g) i) = chg g old new (ti_keys i)"
  by (auto simp: ti_chg_def chg_def m_ins_def m_del_def Let_def split: option.splits)

lemma ri_keys_chg: "ri_keys (ri_chg (Option.bind old g) (Option.bind new g) i) = chg g old new (ri_keys i)"
  by (auto simp: ri_chg_def chg_def m_ins_def m_del_def Let_def split: option.splits)

lemma ri_chg_consistent: "rix.consistent i \<Longrightarrow> rix.consistent (ri_chg old new i)"
  by (auto simp: ri_chg_def Let_def split: option.splits)

lemma ti_chg_consistent:
  assumes "keyed f J (ti_keys i)" and "key_inj ok f" and ok: "\<And>i x. fmlookup J i = Some x \<Longrightarrow> ok i x"
    and new: "\<And>x. new = Some x \<Longrightarrow> ok jid x" and "tix.consistent i"
  shows "tix.consistent (ti_chg (Option.bind (fmlookup J jid) (f jid)) (Option.bind new (f jid)) i)"
proof -
  define i' where "i' = (case Option.bind (fmlookup J jid) (f jid) of None \<Rightarrow> i | Some (k, _) \<Rightarrow> ti_del k i)"
  have c: "tix.consistent i'" using assms(5) by (auto simp: i'_def split: option.splits)
  have keys: "ti_keys i' = m_del (Option.bind (fmlookup J jid) (f jid)) (ti_keys i)"
    by (auto simp: i'_def m_del_def split: option.splits)
  have "keyed f (fmdrop jid J) (ti_keys i')" unfolding keys by (rule keyed_drop [OF assms(1-3)])
  moreover have "ok i x" if "fmlookup (fmdrop jid J) i = Some x" for i x
    using that ok by (auto split: if_splits)
  ultimately have fresh: "fmlookup (ti_keys i') k = None" if "new = Some x" "f jid x = Some (k, q)" for x k q
    using that new by (intro keyed_absent [OF _ assms(2)]) auto
  show ?thesis
  proof (cases "Option.bind new (f jid)")
    case None
    then show ?thesis using c by (simp add: ti_chg_def i'_def Let_def)
  next
    case (Some e)
    obtain k q where e: "e = (k, q)" by (cases e)
    then obtain x where "new = Some x" "f jid x = Some (k, q)" using Some by (cases new) auto
    then have "fmlookup (ti_keys i') k = None" by (rule fresh)
    then have "tix.consistent (ti_ins k q i')" using c by (intro ti_ins_consistent) simp_all
    then show ?thesis using Some e by (simp add: ti_chg_def i'_def Let_def)
  qed
qed

definition job_spaces :: "keyspace list" where
  "job_spaces = [Jobs, Payloads, Inflight, Ready, Scheduled, Leases]"

lemma jobs_rep_step:
  assumes rep: "jobs_rep P V ix J" and new: "\<And>x. new = Some x \<Longrightarrow> ajob_ok P jid x"
    and V': "list_all (\<lambda>ks. V' ks = chg (jview P ks jid) (fmlookup J jid) new (V ks)) job_spaces"
    and ready: "ix_ready ix' =
      ri_chg (Option.bind (fmlookup J jid) (rix_view P jid)) (Option.bind new (rix_view P jid)) (ix_ready ix)"
    and sched: "ix_scheduled ix' =
      ti_chg (Option.bind (fmlookup J jid) (six_view jid)) (Option.bind new (six_view jid)) (ix_scheduled ix)"
    and leases: "ix_leases ix' =
      ti_chg (Option.bind (fmlookup J jid) (lix_view jid)) (Option.bind new (lix_view jid)) (ix_leases ix)"
  shows "jobs_rep P V' ix' (set_opt jid new J)"
proof -
  have ok: "ajob_ok P i x" if "fmlookup J i = Some x" for i x using rep that by (simp add: jobs_rep_def)
  have keyed: "keyed (jview P ks) J (V ks)" if "ks \<in> set job_spaces" for ks
    using rep that by (auto simp: jobs_rep_def job_spaces_def)
  have "keyed (jview P ks) (set_opt jid new J) (V' ks)" if "ks \<in> set job_spaces" for ks
  proof -
    have "V' ks = chg (jview P ks jid) (fmlookup J jid) new (V ks)"
      using V' that by (simp add: list_all_iff)
    then show ?thesis
      using keyed_chg [OF keyed [OF that] key_inj_jview, where new = new and jid = jid] ok new by simp
  qed
  moreover have "keyed (rix_view P) (set_opt jid new J) (ri_keys (ix_ready ix'))"
    unfolding ready ri_keys_chg
    using rep ok new by (intro keyed_chg [OF _ key_inj_rix]) (auto simp: jobs_rep_def)
  moreover have "rix.consistent (ix_ready ix')"
    unfolding ready using rep by (intro ri_chg_consistent) (simp add: jobs_rep_def)
  moreover have "keyed six_view (set_opt jid new J) (ti_keys (ix_scheduled ix'))"
    unfolding sched ti_keys_chg
    using rep ok new by (intro keyed_chg [OF _ key_inj_six]) (auto simp: jobs_rep_def)
  moreover have "tix.consistent (ix_scheduled ix')"
    unfolding sched using rep ok new by (intro ti_chg_consistent [OF _ key_inj_six]) (auto simp: jobs_rep_def)
  moreover have "keyed lix_view (set_opt jid new J) (ti_keys (ix_leases ix'))"
    unfolding leases ti_keys_chg
    using rep ok new by (intro keyed_chg [OF _ key_inj_lix]) (auto simp: jobs_rep_def)
  moreover have "tix.consistent (ix_leases ix')"
    unfolding leases using rep ok new by (intro ti_chg_consistent [OF _ key_inj_lix]) (auto simp: jobs_rep_def)
  ultimately show ?thesis
    using ok new by (simp add: jobs_rep_def job_spaces_def)
qed

lemma dead_rep_step:
  assumes rep: "dead_rep P V ix D" and new: "\<And>d. new = Some d \<Longrightarrow> adead_ok jid d"
    and V': "V' DeadLetter = chg (dview P jid) (fmlookup D jid) new (V DeadLetter)"
    and ix': "ix_dead_letter ix' =
      ti_chg (Option.bind (fmlookup D jid) (dix_view jid)) (Option.bind new (dix_view jid)) (ix_dead_letter ix)"
  shows "dead_rep P V' ix' (set_opt jid new D)"
proof -
  have ok: "adead_ok i d" if "fmlookup D i = Some d" for i d using rep that by (simp add: dead_rep_def)
  have "keyed (dview P) (set_opt jid new D) (V' DeadLetter)"
    unfolding V' using rep ok new by (intro keyed_chg [OF _ key_inj_dead(1)]) (auto simp: dead_rep_def)
  moreover have "keyed dix_view (set_opt jid new D) (ti_keys (ix_dead_letter ix'))"
    unfolding ix' ti_keys_chg using rep ok new
    by (intro keyed_chg [OF _ key_inj_dead(2)]) (auto simp: dead_rep_def)
  moreover have "tix.consistent (ix_dead_letter ix')"
    unfolding ix' using rep ok new
    by (intro ti_chg_consistent [OF _ key_inj_dead(2)]) (auto simp: dead_rep_def)
  ultimately show ?thesis using ok new by (simp add: dead_rep_def)
qed

lemma dedup_rep_step:
  assumes rep: "dedup_rep V ix U" and new: "\<And>u. new = Some u \<Longrightarrow> adedup_ok k u"
    and V1: "V' Dedup = chg (uview k) (fmlookup U k) new (V Dedup)"
    and V2: "V' DedupTimers = chg (utview k) (fmlookup U k) new (V DedupTimers)"
    and ix': "ix_dedup_timers ix' =
      ti_chg (Option.bind (fmlookup U k) (uix_view k)) (Option.bind new (uix_view k)) (ix_dedup_timers ix)"
  shows "dedup_rep V' ix' (set_opt k new U)"
proof -
  have ok: "adedup_ok i d" if "fmlookup U i = Some d" for i d using rep that by (simp add: dedup_rep_def)
  have "keyed uview (set_opt k new U) (V' Dedup)" "keyed utview (set_opt k new U) (V' DedupTimers)"
    unfolding V1 V2 using rep ok new
    by (auto simp: dedup_rep_def intro!: keyed_chg [OF _ key_inj_dedup(1)] keyed_chg [OF _ key_inj_dedup(2)])
  moreover have "keyed uix_view (set_opt k new U) (ti_keys (ix_dedup_timers ix'))"
    unfolding ix' ti_keys_chg using rep ok new
    by (intro keyed_chg [OF _ key_inj_dedup(3)]) (auto simp: dedup_rep_def)
  moreover have "tix.consistent (ix_dedup_timers ix')"
    unfolding ix' using rep ok new
    by (intro ti_chg_consistent [OF _ key_inj_dedup(3)]) (auto simp: dedup_rep_def)
  ultimately show ?thesis using ok new by (simp add: dedup_rep_def)
qed

text \<open>A component depends only on its own keyspaces and indexes.\<close>

lemma rep_cong:
  "list_all (\<lambda>ks. V' ks = V ks) job_spaces \<Longrightarrow> ix_ready ix' = ix_ready ix \<Longrightarrow>
     ix_scheduled ix' = ix_scheduled ix \<Longrightarrow> ix_leases ix' = ix_leases ix \<Longrightarrow>
     jobs_rep P V' ix' J = jobs_rep P V ix J"
  "V' DeadLetter = V DeadLetter \<Longrightarrow> ix_dead_letter ix' = ix_dead_letter ix \<Longrightarrow>
     dead_rep P V' ix' D = dead_rep P V ix D"
  "V' Dedup = V Dedup \<Longrightarrow> V' DedupTimers = V DedupTimers \<Longrightarrow>
     ix_dedup_timers ix' = ix_dedup_timers ix \<Longrightarrow> dedup_rep V' ix' U = dedup_rep V ix U"
  "V' Meta = V Meta \<Longrightarrow> ix_closing ix' = ix_closing ix \<Longrightarrow> closing_rep V' ix' C = closing_rep V ix C"
  by (simp_all add: jobs_rep_def dead_rep_def dedup_rep_def closing_rep_def job_spaces_def)

section \<open>Reading rows\<close>

lemma jobs_rep_ok: "jobs_rep P V ix J \<Longrightarrow> fmlookup J jid = Some x \<Longrightarrow> ajob_ok P jid x"
  by (simp add: jobs_rep_def)

lemma jobs_rep_keyed:
  "jobs_rep P V ix J \<Longrightarrow> ks \<in> set job_spaces \<Longrightarrow> keyed (jview P ks) J (V ks)"
  "jobs_rep P V ix J \<Longrightarrow> keyed (rix_view P) J (ri_keys (ix_ready ix))"
  "jobs_rep P V ix J \<Longrightarrow> keyed six_view J (ti_keys (ix_scheduled ix))"
  "jobs_rep P V ix J \<Longrightarrow> keyed lix_view J (ti_keys (ix_leases ix))"
  by (auto simp: jobs_rep_def job_spaces_def)

text \<open>A view whose rows are stored under the entry's own id.\<close>

lemma keyed_own:
  assumes "keyed f J M" and own: "\<And>i x k v. f i x = Some (k, v) \<Longrightarrow> k = i"
  shows "fmlookup M k = Option.bind (fmlookup J k) (\<lambda>x. map_option snd (f k x))"
proof (cases "fmlookup M k")
  case None
  have "f k x = None" if "fmlookup J k = Some x" for x
  proof (rule ccontr)
    assume "f k x \<noteq> None"
    then obtain k' v where "f k x = Some (k', v)" by auto
    with own [OF this] have "f k x = Some (k, v)" by simp
    with keyed_lookup [OF assms(1) that] None show False by simp
  qed
  with None show ?thesis by (cases "fmlookup J k") auto
next
  case (Some v)
  from keyed_lookupD [OF assms(1) this] obtain i x
    where "fmlookup J i = Some x" "f i x = Some (k, v)" by blast
  with own [OF this(2)] Some show ?thesis by simp
qed

lemma jobs_rep_job: "jobs_rep P V ix J \<Longrightarrow>
    fmlookup (V Jobs) k = map_option (\<lambda>x. JobValue_encode P (aj_queue x) (aj_job x)) (fmlookup J k)"
  by (subst keyed_own [OF jobs_rep_keyed(1), of P V ix J Jobs])
     (auto simp: job_spaces_def map_option_case split: option.splits)

lemma jobs_rep_payload: "jobs_rep P V ix J \<Longrightarrow>
    fmlookup (V Payloads) k = Option.bind (fmlookup J k) (\<lambda>x. map_option (payload_encode P) (aj_payload x))"
  by (subst keyed_own [OF jobs_rep_keyed(1), of P V ix J Payloads])
     (auto simp: job_spaces_def option.map_comp comp_def)

lemma jobs_rep_inflight: "jobs_rep P V ix J \<Longrightarrow>
    fmlookup (V Inflight) k = Option.bind (fmlookup J k) (\<lambda>x. case aj_place x of
      InFlight d a \<Rightarrow> Some (Inflight_encode P (mk_inflight P x d a)) | _ \<Rightarrow> None)"
  by (subst keyed_own [OF jobs_rep_keyed(1), of P V ix J Inflight])
     (auto simp: job_spaces_def split: place.splits option.splits intro!: bind_option_cong)

lemma dedup_rep_lookup: "dedup_rep V ix U \<Longrightarrow>
    fmlookup (V Dedup) k = map_option (\<lambda>u. DedupValue_encode (dp_value u)) (fmlookup U k)"
  by (subst keyed_own [of uview U]) (auto simp: dedup_rep_def uview_def map_option_case split: option.splits)

context prost_laws
begin

lemma inflight_decode:
  assumes "ajob_ok P jid x" and "aj_place x = InFlight d a"
  shows "Inflight_decode P (Inflight_encode P (mk_inflight P x d a)) =
    Inr ((mk_inflight P x d a)\<lparr>if_trace_context := tc_stored (j_trace_context (aj_job x))\<rparr>)"
proof -
  have "inflight_ok (mk_inflight P x d a)"
    using assms by (auto simp: inflight_ok_def mk_inflight_def ajob_ok_def place_ok_def job_ok_def)
  from Inflight_decode_encode [OF this] show ?thesis by (simp add: mk_inflight_def)
qed

lemma job_decode_stored:
  "ajob_ok P jid x \<Longrightarrow> JobValue_decode P (JobValue_encode P (aj_queue x) (aj_job x)) = Inr (aj_queue x, aj_job x)"
  by (simp add: ajob_ok_def JobValue_decode_encode)

end

text \<open>The job leaves the live set and may enter the dead letters.\<close>

definition kill :: "str \<Rightarrow> adead option \<Rightarrow> abs_queue \<Rightarrow> abs_queue" where
  "kill jid d A = A\<lparr>a_jobs := fmdrop jid (a_jobs A),
     a_dead := (case d of None \<Rightarrow> a_dead A | Some y \<Rightarrow> fmupd jid y (a_dead A))\<rparr>"

text \<open>The next attempt of a job that has attempts left does not wrap around.\<close>

lemma attempt_step:
  fixes a m :: u32
  assumes "a < m"
  shows "1 \<le> a + 1" and "a + 1 \<le> m"
proof -
  have "a + 1 \<noteq> 0"
  proof
    assume "a + 1 = 0"
    then have "a = - 1" by (simp add: eq_neg_iff_add_eq_0)
    with assms show False by (simp add: word_order.extremum_strict)
  qed
  then show "1 \<le> a + 1" by (simp add: word_le_nat_alt Suc_le_eq unat_gt_0)
  show "a + 1 \<le> m" by (rule inc_le [OF assms])
qed


section \<open>The life cycle of a job\<close>

text \<open>
  The transitions the abstract queue can make, each labelled with what happened to which job. A
  job enters ready or scheduled on attempt 1; only a reservation leases it; a lease ends in an
  acknowledgement, a retry with the next attempt, or death; a dead letter is buried or revived.
\<close>

datatype event =
    Enqueued str | Reserved str | Acked str | Retried str | Promoted str | Extended str
  | Killed str | Revived str | Buried str | Purged str
  | DedupSet bytes | DedupDropped bytes | Closed str | Opened str

inductive astep :: "abs_queue \<Rightarrow> event \<Rightarrow> abs_queue \<Rightarrow> bool" where
  enqueue: "fmlookup (a_jobs A) jid = None \<Longrightarrow> fmlookup (a_dead A) jid = None \<Longrightarrow>
    aj_place x = InReady 1 \<or> aj_place x = InScheduled d 1 \<Longrightarrow>
    astep A (Enqueued jid) (A\<lparr>a_jobs := fmupd jid x (a_jobs A)\<rparr>)"
| reserve: "fmlookup (a_jobs A) jid = Some x \<Longrightarrow> aj_place x = InReady a \<Longrightarrow>
    astep A (Reserved jid) (A\<lparr>a_jobs := fmupd jid (x\<lparr>aj_place := InFlight d a\<rparr>) (a_jobs A)\<rparr>)"
| ack: "fmlookup (a_jobs A) jid = Some x \<Longrightarrow> aj_place x = InFlight d a \<Longrightarrow>
    astep A (Acked jid) (A\<lparr>a_jobs := fmdrop jid (a_jobs A)\<rparr>)"
| retry: "fmlookup (a_jobs A) jid = Some x \<Longrightarrow> aj_place x = InFlight d a \<Longrightarrow>
    a < j_max_attempts (aj_job x) \<Longrightarrow> p = InReady (a + 1) \<or> p = InScheduled d' (a + 1) \<Longrightarrow>
    astep A (Retried jid) (A\<lparr>a_jobs := fmupd jid (x\<lparr>aj_place := p\<rparr>) (a_jobs A)\<rparr>)"
| promote: "fmlookup (a_jobs A) jid = Some x \<Longrightarrow> aj_place x = InScheduled d a \<Longrightarrow>
    astep A (Promoted jid) (A\<lparr>a_jobs := fmupd jid (x\<lparr>aj_place := InReady a\<rparr>) (a_jobs A)\<rparr>)"
| extend: "fmlookup (a_jobs A) jid = Some x \<Longrightarrow> aj_place x = InFlight d a \<Longrightarrow>
    astep A (Extended jid) (A\<lparr>a_jobs := fmupd jid (x\<lparr>aj_place := InFlight d' a\<rparr>) (a_jobs A)\<rparr>)"
| kill: "fmlookup (a_jobs A) jid = Some x \<Longrightarrow> astep A (Killed jid) (kill jid d A)"
| revive: "fmlookup (a_dead A) jid = Some d \<Longrightarrow> fmlookup (a_jobs A) jid = None \<Longrightarrow>
    aj_place x = InReady 1 \<Longrightarrow>
    astep A (Revived jid) (A\<lparr>a_jobs := fmupd jid x (a_jobs A), a_dead := fmdrop jid (a_dead A)\<rparr>)"
| bury: "fmlookup (a_dead A) jid = Some d \<Longrightarrow>
    astep A (Buried jid) (A\<lparr>a_dead := fmdrop jid (a_dead A)\<rparr>)"
| purge: "fmlookup (a_jobs A) jid = Some x \<Longrightarrow> (\<And>d a. aj_place x \<noteq> InFlight d a) \<Longrightarrow>
    astep A (Purged jid) (A\<lparr>a_jobs := fmdrop jid (a_jobs A)\<rparr>)"
| dedup_set: "astep A (DedupSet k) (A\<lparr>a_dedup := fmupd k u (a_dedup A)\<rparr>)"
| dedup_drop: "fmlookup (a_dedup A) k = Some u \<Longrightarrow>
    astep A (DedupDropped k) (A\<lparr>a_dedup := fmdrop k (a_dedup A)\<rparr>)"
| close: "astep A (Closed q) (A\<lparr>a_closing := fmupd q dl (a_closing A)\<rparr>)"
| open_queue: "astep A (Opened q) (A\<lparr>a_closing := fmdrop q (a_closing A)\<rparr>)"

inductive arun :: "abs_queue \<Rightarrow> event list \<Rightarrow> abs_queue \<Rightarrow> bool" where
  arun_Nil: "arun A [] A"
| arun_Cons: "astep A e B \<Longrightarrow> arun B es C \<Longrightarrow> arun A (e # es) C"

inductive_cases arun_NilE [elim!]: "arun A [] B"
inductive_cases arun_ConsE: "arun A (e # es) B"
inductive_cases astep_ackE: "astep A (Acked jid) B"
inductive_cases astep_reserveE: "astep A (Reserved jid) B"

declare arun_Nil [simp, intro]

lemma arun_single: "astep A e B \<Longrightarrow> arun A [e] B"
  by (blast intro: arun_Cons)

lemma arun_open_all:
  "arun A (map Opened qs) (A\<lparr>a_closing := fmdrop_set (set qs) (a_closing A)\<rparr>)"
proof (induction qs arbitrary: A)
  case Nil
  have "fmdrop_set {} (a_closing A) = a_closing A" by (intro fmap_ext) simp
  then show ?case by simp
next
  case (Cons q qs)
  have "fmdrop_set (set qs) (fmdrop q (a_closing A)) = fmdrop_set (insert q (set qs)) (a_closing A)"
    by (intro fmap_ext) auto
  with Cons.IH [of "A\<lparr>a_closing := fmdrop q (a_closing A)\<rparr>"] astep.open_queue [of A q]
  show ?case by (auto intro: arun_Cons)
qed

lemma arun_append: "arun A es B \<Longrightarrow> arun B fs C \<Longrightarrow> arun A (es @ fs) C"
  by (induction rule: arun.induct) (auto intro: arun_Cons)

text \<open>The two parameters together, with their laws: where the apply functions are verified.\<close>

locale storage = prost_laws P + engine_laws E txv dbv
  for P :: prost
    and E :: "('db, 'tx) engine"
    and txv :: "'tx \<Rightarrow> rows"
    and dbv :: "'db \<Rightarrow> rows"
begin

text \<open>\<open>reps s A\<close>: the transaction and the indexes of \<open>s\<close> stand for \<open>A\<close>.\<close>

definition reps :: "'tx st \<Rightarrow> abs_queue \<Rightarrow> bool" where
  "reps s A \<longleftrightarrow> represents P (txv (st_tx s)) (st_ix s) A"

lemma repsD:
  "reps s A \<Longrightarrow> jobs_rep P (txv (st_tx s)) (st_ix s) (a_jobs A)"
  "reps s A \<Longrightarrow> dead_rep P (txv (st_tx s)) (st_ix s) (a_dead A)"
  "reps s A \<Longrightarrow> dedup_rep (txv (st_tx s)) (st_ix s) (a_dedup A)"
  "reps s A \<Longrightarrow> closing_rep (txv (st_tx s)) (st_ix s) (a_closing A)"
  by (simp_all add: reps_def represents_def)

lemma reps_disjoint:
  "reps s A \<Longrightarrow> fmlookup (a_jobs A) jid = Some x \<Longrightarrow> fmlookup (a_dead A) jid = None"
  by (auto simp: reps_def represents_def) (metis disjoint_iff fmdom'I not_None_eq)

text \<open>Replacing one live job: the frame of every lease operation.\<close>

lemma reps_job_step:
  assumes "reps s A" and "\<And>x. new = Some x \<Longrightarrow> ajob_ok P jid x"
    and "new \<noteq> None \<Longrightarrow> fmlookup (a_dead A) jid = None"
    and "list_all (\<lambda>ks. txv (st_tx s') ks =
      chg (jview P ks jid) (fmlookup (a_jobs A) jid) new (txv (st_tx s) ks)) job_spaces"
    and "list_all (\<lambda>ks. txv (st_tx s') ks = txv (st_tx s) ks) [DeadLetter, Dedup, DedupTimers, Meta]"
    and "st_ix s' = (st_ix s)\<lparr>
      ix_ready := ri_chg (Option.bind (fmlookup (a_jobs A) jid) (rix_view P jid))
        (Option.bind new (rix_view P jid)) (ix_ready (st_ix s)),
      ix_scheduled := ti_chg (Option.bind (fmlookup (a_jobs A) jid) (six_view jid))
        (Option.bind new (six_view jid)) (ix_scheduled (st_ix s)),
      ix_leases := ti_chg (Option.bind (fmlookup (a_jobs A) jid) (lix_view jid))
        (Option.bind new (lix_view jid)) (ix_leases (st_ix s))\<rparr>"
  shows "reps s' (A\<lparr>a_jobs := set_opt jid new (a_jobs A)\<rparr>)"
proof -
  have "jobs_rep P (txv (st_tx s')) (st_ix s') (set_opt jid new (a_jobs A))"
    using assms(2,4,6) by (intro jobs_rep_step [OF repsD(1) [OF assms(1)]]) simp_all
  moreover have "fmdom' (set_opt jid new (a_jobs A)) \<inter> fmdom' (a_dead A) = {}"
    using assms(1,3) by (cases new) (auto simp: reps_def represents_def fmlookup_dom'_iff)
  ultimately show ?thesis
    using assms(1,5,6) unfolding reps_def represents_def
    by (simp add: dead_rep_def dedup_rep_def closing_rep_def)
qed

lemmas lease_simps = job_spaces_def chg_def rix_view_def six_view_def lix_view_def mk_inflight_def
  view_simps Let_def

lemma payload_absent:
  assumes "reps s A" and "fmlookup (a_jobs A) jid = Some x" and "aj_payload x = None"
  shows "fmdrop jid (txv (st_tx s) Payloads) = txv (st_tx s) Payloads"
  using jobs_rep_payload [OF repsD(1) [OF assms(1)], of jid] assms(2,3) by (intro fmdrop_absent) simp

text \<open>Dropping every row of an in-flight job, as ack and the dead-letter branch do.\<close>

lemma chg_drop_payload:
  assumes "reps s A" and "fmlookup (a_jobs A) jid = Some x"
  shows "chg (jview P Payloads jid) (Some x) None (txv (st_tx s) Payloads) = fmdrop jid (txv (st_tx s) Payloads)"
  using payload_absent [OF assms] by (cases "aj_payload x") (auto simp: chg_def)

lemma chg_keep_job:
  assumes "reps s A" and "fmlookup (a_jobs A) jid = Some x" and "aj_queue y = aj_queue x"
    and "aj_job y = aj_job x" and "aj_payload y = aj_payload x" and "ks \<in> {Jobs, Payloads}"
  shows "chg (jview P ks jid) (Some x) (Some y) (txv (st_tx s) ks) = txv (st_tx s) ks"
proof (rule chg_same)
  show "Option.bind (Some x) (jview P ks jid) = Option.bind (Some y) (jview P ks jid)"
    using assms(3-6) by auto
  fix k v
  assume "Option.bind (Some x) (jview P ks jid) = Some (k, v)"
  then show "fmlookup (txv (st_tx s) ks) k = Some v"
    using keyed_lookup [OF jobs_rep_keyed(1) [OF repsD(1) [OF assms(1)]] assms(2)] assms(6)
    by (simp add: job_spaces_def) blast
qed

text \<open>A live job moves to another place; its stored job and payload stay.\<close>

lemma reps_move_step:
  assumes rep: "reps s A" and x: "fmlookup (a_jobs A) jid = Some x"
    and ok: "ajob_ok P jid (x\<lparr>aj_place := p\<rparr>)"
    and V: "list_all (\<lambda>ks. txv (st_tx s') ks =
      m_ins (jview P ks jid (x\<lparr>aj_place := p\<rparr>)) (m_del (jview P ks jid x) (txv (st_tx s) ks)))
        [Inflight, Ready, Scheduled, Leases]"
    and frame: "list_all (\<lambda>ks. txv (st_tx s') ks = txv (st_tx s) ks)
      [Jobs, Payloads, DeadLetter, Dedup, DedupTimers, Meta]"
    and ix: "st_ix s' = (st_ix s)\<lparr>
      ix_ready := ri_chg (rix_view P jid x) (rix_view P jid (x\<lparr>aj_place := p\<rparr>)) (ix_ready (st_ix s)),
      ix_scheduled := ti_chg (six_view jid x) (six_view jid (x\<lparr>aj_place := p\<rparr>)) (ix_scheduled (st_ix s)),
      ix_leases := ti_chg (lix_view jid x) (lix_view jid (x\<lparr>aj_place := p\<rparr>)) (ix_leases (st_ix s))\<rparr>"
  shows "reps s' (A\<lparr>a_jobs := fmupd jid (x\<lparr>aj_place := p\<rparr>) (a_jobs A)\<rparr>)"
proof -
  have keep: "chg (jview P ks jid) (Some x) (Some (x\<lparr>aj_place := p\<rparr>)) (txv (st_tx s) ks) = txv (st_tx s) ks"
    if "ks \<in> {Jobs, Payloads}" for ks
    by (rule chg_keep_job [OF rep x]) (use that in simp_all)
  have "list_all (\<lambda>ks. txv (st_tx s') ks = chg (jview P ks jid) (Some x)
      (Some (x\<lparr>aj_place := p\<rparr>)) (txv (st_tx s) ks)) (job_spaces)"
    using V frame keep [of Jobs] keep [of Payloads] unfolding job_spaces_def list.pred_inject
    by (simp only: chg_def Option.bind.simps insert_iff simp_thms)
  then have "reps s' (A\<lparr>a_jobs := set_opt jid (Some (x\<lparr>aj_place := p\<rparr>)) (a_jobs A)\<rparr>)"
    using x ok frame ix reps_disjoint [OF rep x] by (intro reps_job_step [OF rep]) simp_all
  then show ?thesis by simp
qed

lemma reps_kill_step:
  assumes rep: "reps s A" and x: "fmlookup (a_jobs A) jid = Some x"
    and d: "\<And>y. d = Some y \<Longrightarrow> adead_ok jid y"
    and V: "list_all (\<lambda>ks. txv (st_tx s') ks = m_del (jview P ks jid x) (txv (st_tx s) ks))
        [Inflight, Ready, Scheduled, Leases]"
    and jobs: "txv (st_tx s') Jobs = fmdrop jid (txv (st_tx s) Jobs)"
      "txv (st_tx s') Payloads = fmdrop jid (txv (st_tx s) Payloads)"
    and dl: "txv (st_tx s') DeadLetter = chg (dview P jid) None d (txv (st_tx s) DeadLetter)"
    and frame: "list_all (\<lambda>ks. txv (st_tx s') ks = txv (st_tx s) ks) [Dedup, DedupTimers, Meta]"
    and ix: "st_ix s' = (st_ix s)\<lparr>
      ix_ready := ri_chg (rix_view P jid x) None (ix_ready (st_ix s)),
      ix_scheduled := ti_chg (six_view jid x) None (ix_scheduled (st_ix s)),
      ix_leases := ti_chg (lix_view jid x) None (ix_leases (st_ix s)),
      ix_dead_letter := ti_chg None (Option.bind d (dix_view jid)) (ix_dead_letter (st_ix s))\<rparr>"
  shows "reps s' (kill jid d A)"
proof -
  have "list_all (\<lambda>ks. txv (st_tx s') ks = chg (jview P ks jid) (Some x) None (txv (st_tx s) ks)) job_spaces"
    using V jobs chg_drop_payload [OF rep x] unfolding job_spaces_def list.pred_inject
    by (simp add: chg_def)
  then have "jobs_rep P (txv (st_tx s')) (st_ix s') (set_opt jid None (a_jobs A))"
    using x ix by (intro jobs_rep_step [OF repsD(1) [OF rep]]) simp_all
  moreover have dead: "fmlookup (a_dead A) jid = None" by (rule reps_disjoint [OF rep x])
  moreover have "dead_rep P (txv (st_tx s')) (st_ix s') (set_opt jid d (a_dead A))"
    using d dl ix dead by (intro dead_rep_step [OF repsD(2) [OF rep]]) simp_all
  moreover have "set_opt jid d (a_dead A) = a_dead (kill jid d A)"
    using dead by (cases d) (auto simp: kill_def fmdrop_absent)
  moreover have "fmdom' (fmdrop jid (a_jobs A)) \<inter> fmdom' (a_dead (kill jid d A)) = {}"
    using rep by (cases d) (auto simp: kill_def reps_def represents_def)
  ultimately show ?thesis
    using rep frame ix unfolding reps_def represents_def
    by (simp add: kill_def dedup_rep_def closing_rep_def)
qed

lemma reps_dead_drop:
  assumes rep: "reps s A" and d: "fmlookup (a_dead A) jid = Some d"
    and V: "txv (st_tx s') = (txv (st_tx s))(DeadLetter := fmdrop (dead_key jid d) (txv (st_tx s) DeadLetter))"
    and ix: "st_ix s' = (st_ix s)\<lparr>ix_dead_letter := ti_del (dead_key jid d) (ix_dead_letter (st_ix s))\<rparr>"
  shows "reps s' (A\<lparr>a_dead := fmdrop jid (a_dead A)\<rparr>)"
proof -
  have "dead_rep P (txv (st_tx s')) (st_ix s') (set_opt jid None (a_dead A))"
    using d V ix by (intro dead_rep_step [OF repsD(2) [OF rep]])
      (simp_all add: chg_def dview_def dix_view_def)
  then show ?thesis
    using rep V ix unfolding reps_def represents_def
    by (auto simp: jobs_rep_def dedup_rep_def closing_rep_def)
qed

lemma dead_row:
  assumes "reps s A" and "fmlookup (txv (st_tx s) DeadLetter) key = Some b"
  obtains jid d where "fmlookup (a_dead A) jid = Some d" and "key = dead_key jid d"
    and "b = dlr_encode P (dd_record d)" and "adead_ok jid d"
proof -
  from keyed_lookupD [OF _ assms(2), of "dview P" "a_dead A"] repsD(2) [OF assms(1)]
  obtain jid d where "fmlookup (a_dead A) jid = Some d" "dview P jid d = Some (key, b)"
    by (auto simp: dead_rep_def)
  with that repsD(2) [OF assms(1)] show ?thesis by (auto simp: dead_rep_def dview_def)
qed

lemma dead_index:
  assumes "reps s A"
  shows "fmlookup (ti_keys (ix_dead_letter (st_ix s))) key = Some q \<longleftrightarrow>
    (\<exists>jid d. fmlookup (a_dead A) jid = Some d \<and> key = dead_key jid d \<and> q = dd_queue d)"
  using repsD(2) [OF assms] by (auto simp: dead_rep_def dix_view_def keyed_def)

lemma dead_row_of:
  "reps s A \<Longrightarrow> fmlookup (a_dead A) jid = Some d \<Longrightarrow>
     fmlookup (txv (st_tx s) DeadLetter) (dead_key jid d) = Some (dlr_encode P (dd_record d))"
  using keyed_lookup [of "dview P" "a_dead A" "txv (st_tx s) DeadLetter" jid d] repsD(2) [of s A]
  by (simp add: dead_rep_def dview_def)

text \<open>Index entries and rows of dead letters come in pairs, so a missing row has no entry.\<close>

lemma dead_gone:
  assumes "reps s A" and "fmlookup (txv (st_tx s) DeadLetter) key = None"
  shows "ti_keys (ti_del key (ix_dead_letter (st_ix s))) = ti_keys (ix_dead_letter (st_ix s))"
    and "ti_del key (ix_dead_letter (st_ix s)) = ix_dead_letter (st_ix s)"
proof -
  have "fmlookup (ti_keys (ix_dead_letter (st_ix s))) key = None"
    using dead_index [OF assms(1), of key] dead_row_of [OF assms(1)] assms(2)
    by (cases "fmlookup (ti_keys (ix_dead_letter (st_ix s))) key") fastforce+
  then show "ti_del key (ix_dead_letter (st_ix s)) = ix_dead_letter (st_ix s)"
    by (simp add: ti_del_def ti_remove_def)
  then show "ti_keys (ti_del key (ix_dead_letter (st_ix s))) = ti_keys (ix_dead_letter (st_ix s))"
    by simp
qed

lemma adead_ok_decode: "adead_ok jid d \<Longrightarrow> dlr_decode P (dlr_encode P (dd_record d)) = Some (dd_record d)"
  by (simp add: adead_ok_def dlr.dec_enc)

lemma reps_closing_step:
  assumes "reps s A"
    and "\<And>q. fmlookup (txv (st_tx s') Meta) (closing_key q) = map_option i64_be (fmlookup C q)"
    and "\<And>q d. fmlookup C q = Some d \<Longrightarrow> utf8_valid q \<and> i64_ok d"
    and "\<And>ks. ks \<noteq> Meta \<Longrightarrow> txv (st_tx s') ks = txv (st_tx s) ks"
    and "st_ix s' = (st_ix s)\<lparr>ix_closing := C\<rparr>"
  shows "reps s' (A\<lparr>a_closing := C\<rparr>)"
  using assms unfolding reps_def represents_def
  by (simp add: jobs_rep_def dead_rep_def dedup_rep_def closing_rep_def)

lemma closing_index: "reps s A \<Longrightarrow> ix_closing (st_ix s) = a_closing A"
  using repsD(4) by (simp add: closing_rep_def)

end

end
