(* ===== verification/Dead_Letters.thy ===== *)
theory Dead_Letters
  imports Abs_Queue
begin

text \<open>
  The dead-letter operations of \<open>src/storage.rs\<close>: reading a job for its record, storing or dropping
  it, draining, requeueing, dead-lettering live jobs and deleting records.
\<close>

section \<open>Storing a dead letter\<close>

definition read_dead_letter_job ::
    "prost \<Rightarrow> ('db, 'tx) engine \<Rightarrow> 'tx \<Rightarrow> bytes \<Rightarrow> status + job option" where
  "read_dead_letter_job P E t job_id =
     (case tx_get E t Jobs job_id of
        Inl e \<Rightarrow> Inl (stg_err e)
      | Inr None \<Rightarrow> Inr None
      | Inr (Some stored) \<Rightarrow>
          (case JobValue_decode P stored of
             Inl _ \<Rightarrow> Inr None
           | Inr (queue, job) \<Rightarrow>
               (case tx_get E t Payloads job_id of
                  Inl e \<Rightarrow> Inl (stg_err e)
                | Inr None \<Rightarrow> Inr (Some (job\<lparr>j_queue := queue\<rparr>))
                | Inr (Some b) \<Rightarrow>
                    (case payload_decode P b of
                       Some p \<Rightarrow> Inr (Some (job\<lparr>j_payload := Some p, j_queue := queue\<rparr>))
                     | None \<Rightarrow> Inr (Some (job\<lparr>j_queue := queue\<rparr>))))))"

record dead_letter_meta =
  dm_cause :: dead_letter_cause
  dm_failed_at :: i64
  dm_attempt :: u32
  dm_last_reason :: "str option"

definition maybe_store_dead_letter ::
    "prost \<Rightarrow> ('db, 'tx) engine \<Rightarrow> bytes \<Rightarrow> dead_letter_meta \<Rightarrow> bool \<Rightarrow> 'tx st \<Rightarrow> (status + unit) \<times> 'tx st" where
  "maybe_store_dead_letter P E job_id meta dead_letter_enabled s =
     (if \<not> dead_letter_enabled then (Inr (), s)
      else case read_dead_letter_job P E (st_tx s) job_id of
        Inl e \<Rightarrow> (Inl e, s)
      | Inr None \<Rightarrow> (Inr (), s)
      | Inr (Some job0) \<Rightarrow>
          (let job = job0\<lparr>j_attempt := dm_attempt meta\<rparr>;
               key = DeadLetterKey_encode (dm_failed_at meta) (j_queue job) job_id;
               s = on_dead_letter (ti_ins key (j_queue job)) s;
               record = \<lparr>dl_job = Some job, dl_cause = cause_i32 (dm_cause meta),
                 dl_failed_at = Some (millis_to_timestamp P (dm_failed_at meta)),
                 dl_final_attempt = dm_attempt meta, dl_last_reason = dm_last_reason meta\<rparr>
           in (Inr (), put E DeadLetter key (dlr_encode P record) s)))"

section \<open>Draining\<close>

text \<open>The scan over the index: \<open>chosen.len() >= max || examined >= scan_cap\<close> ends it.\<close>

fun drain_choose :: "str option \<Rightarrow> usize \<Rightarrow> usize \<Rightarrow> nat \<Rightarrow> bytes list \<Rightarrow> (bytes \<times> str) list \<Rightarrow> bytes list" where
  "drain_choose queue mx scan_cap examined chosen [] = chosen"
| "drain_choose queue mx scan_cap examined chosen ((key, q) # rest) =
     (if length chosen \<ge> mx \<or> examined \<ge> scan_cap then chosen
      else if (case queue of Some want \<Rightarrow> want \<noteq> q | None \<Rightarrow> False)
      then drain_choose queue mx scan_cap (examined + 1) chosen rest
      else drain_choose queue mx scan_cap (examined + 1) (chosen @ [key]) rest)"

fun drain_take ::
    "prost \<Rightarrow> ('db, 'tx) engine \<Rightarrow> bytes list \<Rightarrow> dead_letter_record list \<Rightarrow> 'tx st
       \<Rightarrow> (status + dead_letter_record list) \<times> 'tx st" where
  "drain_take P E [] records s = (Inr records, s)"
| "drain_take P E (key # keys) records s =
     (case tx_get E (st_tx s) DeadLetter key of
        Inl e \<Rightarrow> (Inl (stg_err e), s)
      | Inr (Some value) \<Rightarrow>
          (case dlr_decode P value of
             Some record \<Rightarrow>
               drain_take P E keys (records @ [record])
                 (del E DeadLetter key (on_dead_letter (ti_del key) s))
           | None \<Rightarrow> drain_take P E keys records s)
      | Inr None \<Rightarrow> drain_take P E keys records (on_dead_letter (ti_del key) s))"

definition apply_drain ::
    "prost \<Rightarrow> ('db, 'tx) engine \<Rightarrow> str option \<Rightarrow> usize \<Rightarrow> usize \<Rightarrow> 'tx st
       \<Rightarrow> (status + dead_letter_record list) \<times> 'tx st" where
  "apply_drain P E queue mx scan_cap s =
     (let chosen = drain_choose queue mx scan_cap 0 [] (ti_iter_oldest (ix_dead_letter (st_ix s)))
      in case drain_take P E chosen [] s of
           (Inl e, s) \<Rightarrow> (Inl e, s)
         | (Inr records, s) \<Rightarrow>
             (Inr records,
              if records = [] then s
              else mark_dirty (on_cycle (dead_letter_drained (length records)) s)))"

section \<open>Requeueing\<close>

record requeue_outcome =
  ro_requeued :: u64
  ro_missing :: u64
  ro_job_ids :: "str list"

text \<open>One record goes back to the ready queue as a fresh job.\<close>

definition requeue_one :: "prost \<Rightarrow> ('db, 'tx) engine \<Rightarrow> bytes \<Rightarrow> job \<Rightarrow> i64 \<Rightarrow> 'tx st \<Rightarrow> 'tx st" where
  "requeue_one P E key job0 now s =
     (let job_queue = j_queue job0;
          payload = j_payload job0;
          job = job0\<lparr>j_queue := [], j_payload := None, j_attempt := 1,
            j_enqueued_at := Some (millis_to_timestamp P now),
            j_lease_expires_at := Some (millis_to_timestamp P 0), j_scheduled_at := None\<rparr>;
          s = put E Jobs (j_id job) (JobValue_encode P job_queue job) s;
          s = (case payload of Some p \<Rightarrow> put E Payloads (j_id job) (payload_encode P p) s | None \<Rightarrow> s);
          rk = ReadyKey_encode \<lparr>rk_queue = job_queue, rk_priority = j_priority job,
            rk_enqueued_at = now, rk_job_id = j_id job\<rparr>;
          s = put E Ready rk (u32_be (j_attempt job)) s;
          s = on_ready (ri_ins rk (j_attempt job)) s;
          s = del E DeadLetter key s;
          s = on_dead_letter (ti_del key) s;
          s = new_ready job_queue s
      in mark_dirty s)"

fun requeue_loop ::
    "prost \<Rightarrow> ('db, 'tx) engine \<Rightarrow> str \<Rightarrow> i64 \<Rightarrow> requeue_outcome \<Rightarrow> bytes list \<Rightarrow> 'tx st
       \<Rightarrow> (status + requeue_outcome) \<times> 'tx st" where
  "requeue_loop P E queue now out [] s = (Inr out, s)"
| "requeue_loop P E queue now out (key # keys) s =
     (let missed = out\<lparr>ro_missing := ro_missing out + 1\<rparr>
      in if DeadLetterKey_queue key \<noteq> Some queue
      then requeue_loop P E queue now missed keys s
      else case tx_get E (st_tx s) DeadLetter key of
        Inl e \<Rightarrow> (Inl (stg_err e), s)
      | Inr None \<Rightarrow>
          requeue_loop P E queue now missed keys (on_dead_letter (ti_del key) s)
      | Inr (Some stored) \<Rightarrow>
          (case dlr_decode P stored of
             None \<Rightarrow> requeue_loop P E queue now missed keys s
           | Some record \<Rightarrow>
               (case dl_job record of
                  None \<Rightarrow> requeue_loop P E queue now missed keys s
                | Some job \<Rightarrow>
                    requeue_loop P E queue now
                      (out\<lparr>ro_requeued := ro_requeued out + 1, ro_job_ids := ro_job_ids out @ [j_id job]\<rparr>)
                      keys (requeue_one P E key job now s))))"

definition apply_requeue_dead_letters ::
    "prost \<Rightarrow> ('db, 'tx) engine \<Rightarrow> str \<Rightarrow> bytes list \<Rightarrow> i64 \<Rightarrow> 'tx st
       \<Rightarrow> (status + requeue_outcome) \<times> 'tx st" where
  "apply_requeue_dead_letters P E queue keys now s =
     requeue_loop P E queue now \<lparr>ro_requeued = 0, ro_missing = 0, ro_job_ids = []\<rparr> keys s"

section \<open>Dead-lettering live jobs\<close>

text \<open>
  The ids of the outcome go through \<open>String::from_utf8_lossy\<close> in the code, which keeps valid UTF-8
  as it is; every stored id is valid (see \<open>ajob_ok\<close>), so the model keeps the bytes.
\<close>

record dead_letter_jobs_outcome =
  djo_dead_lettered :: u64
  djo_missing :: u64
  djo_job_ids :: "bytes list"

datatype dj_target = DjError status | DjMissing | DjGone | DjJob bytes

text \<open>
  The first \<open>match\<close> of the loop body: the job id a key of the given state names. \<open>DjGone\<close> is the
  case where the row is gone and the stale index entry is dropped.
\<close>

definition dj_target_of ::
    "('db, 'tx) engine \<Rightarrow> str \<Rightarrow> peek_state \<Rightarrow> bytes \<Rightarrow> 'tx st \<Rightarrow> dj_target" where
  "dj_target_of E queue state key s =
     (case state of
        PeekReady \<Rightarrow>
          (case ReadyKey_decode key of
             None \<Rightarrow> DjMissing
           | Some rk \<Rightarrow>
               if rk_queue rk \<noteq> queue then DjMissing
               else (case tx_get E (st_tx s) Ready key of
                  Inl e \<Rightarrow> DjError (stg_err e)
                | Inr None \<Rightarrow> DjGone
                | Inr (Some _) \<Rightarrow> DjJob (rk_job_id rk)))
      | _ \<Rightarrow>
          (case TimerKey_job_id key of
             None \<Rightarrow> DjMissing
           | Some jid \<Rightarrow>
               (case tx_get E (st_tx s) Scheduled key of
                  Inl e \<Rightarrow> DjError (stg_err e)
                | Inr None \<Rightarrow> DjGone
                | Inr (Some _) \<Rightarrow> DjJob jid)))"

definition dj_drop_index :: "peek_state \<Rightarrow> bytes \<Rightarrow> 'tx st \<Rightarrow> 'tx st" where
  "dj_drop_index state key s =
     (if state = PeekReady then on_ready (ri_del key) s else on_scheduled (ti_del key) s)"

text \<open>\<open>v.as_ref().try_into().ok().map(u32::from_be_bytes)\<close>: exactly four bytes.\<close>

definition u32_exact :: "bytes \<Rightarrow> u32 option" where
  "u32_exact b = (if length b = 4 then Some (u32_from_be b) else None)"

definition dj_attempt ::
    "('db, 'tx) engine \<Rightarrow> peek_state \<Rightarrow> bytes \<Rightarrow> 'tx st \<Rightarrow> status + u32" where
  "dj_attempt E state key s =
     (if state = PeekReady
      then Inr (unwrap_or (ri_attempt (ix_ready (st_ix s)) key) 1)
      else case tx_get E (st_tx s) Scheduled key of
        Inl e \<Rightarrow> Inl (stg_err e)
      | Inr v \<Rightarrow> Inr (unwrap_or (Option.bind v u32_exact) 1))"

definition dj_space :: "peek_state \<Rightarrow> keyspace" where
  "dj_space state = (if state = PeekReady then Ready else Scheduled)"

definition dj_kill ::
    "prost \<Rightarrow> ('db, 'tx) engine \<Rightarrow> str \<Rightarrow> peek_state \<Rightarrow> str option \<Rightarrow> bool \<Rightarrow> i64 \<Rightarrow> bytes \<Rightarrow> bytes
       \<Rightarrow> 'tx st \<Rightarrow> (status + unit) \<times> 'tx st" where
  "dj_kill P E queue state reason dead_letter_enabled now key job_id s =
     (case dj_attempt E state key s of
        Inl e \<Rightarrow> (Inl e, s)
      | Inr attempt \<Rightarrow>
          (case maybe_store_dead_letter P E job_id
             \<lparr>dm_cause = CauseAdmin, dm_failed_at = now, dm_attempt = attempt,
              dm_last_reason = reason\<rparr> dead_letter_enabled s of
             (Inl e, s) \<Rightarrow> (Inl e, s)
           | (Inr _, s) \<Rightarrow>
               (let s = del E (dj_space state) key s;
                    s = dj_drop_index state key s;
                    s = del E Jobs job_id s;
                    s = del E Payloads job_id s;
                    s = on_cycle (dead_lettered queue ''admin'') s
                in (Inr (), mark_dirty s))))"

fun dead_letter_jobs_loop ::
    "prost \<Rightarrow> ('db, 'tx) engine \<Rightarrow> str \<Rightarrow> peek_state \<Rightarrow> str option \<Rightarrow> bool \<Rightarrow> i64
       \<Rightarrow> dead_letter_jobs_outcome \<Rightarrow> bytes list \<Rightarrow> 'tx st
       \<Rightarrow> (status + dead_letter_jobs_outcome) \<times> 'tx st" where
  "dead_letter_jobs_loop P E queue state reason en now out [] s = (Inr out, s)"
| "dead_letter_jobs_loop P E queue state reason en now out (key # keys) s =
     (let missed = out\<lparr>djo_missing := djo_missing out + 1\<rparr>
      in case dj_target_of E queue state key s of
           DjError e \<Rightarrow> (Inl e, s)
         | DjMissing \<Rightarrow> dead_letter_jobs_loop P E queue state reason en now missed keys s
         | DjGone \<Rightarrow>
             dead_letter_jobs_loop P E queue state reason en now missed keys (dj_drop_index state key s)
         | DjJob job_id \<Rightarrow>
             (case tx_get E (st_tx s) Jobs job_id of
                Inl e \<Rightarrow> (Inl (stg_err e), s)
              | Inr None \<Rightarrow> dead_letter_jobs_loop P E queue state reason en now missed keys s
              | Inr (Some stored) \<Rightarrow>
                  (case JobValue_decode P stored of
                     Inl _ \<Rightarrow> dead_letter_jobs_loop P E queue state reason en now missed keys s
                   | Inr (job_queue, _) \<Rightarrow>
                       if job_queue \<noteq> queue
                       then dead_letter_jobs_loop P E queue state reason en now missed keys s
                       else (case dj_kill P E queue state reason en now key job_id s of
                          (Inl e, s) \<Rightarrow> (Inl e, s)
                        | (Inr _, s) \<Rightarrow>
                            dead_letter_jobs_loop P E queue state reason en now
                              (out\<lparr>djo_dead_lettered := djo_dead_lettered out + 1,
                                   djo_job_ids := djo_job_ids out @ [job_id]\<rparr>) keys s))))"

definition apply_dead_letter_jobs ::
    "prost \<Rightarrow> ('db, 'tx) engine \<Rightarrow> str \<Rightarrow> peek_state \<Rightarrow> bytes list \<Rightarrow> str option \<Rightarrow> bool \<Rightarrow> i64
       \<Rightarrow> 'tx st \<Rightarrow> (status + dead_letter_jobs_outcome) \<times> 'tx st" where
  "apply_dead_letter_jobs P E queue state keys reason dead_letter_enabled now s =
     (if state \<notin> {PeekReady, PeekScheduled}
      then (Inl (Status InvalidArgument ''only ready or scheduled jobs can be dead-lettered''), s)
      else dead_letter_jobs_loop P E queue state reason dead_letter_enabled now
        \<lparr>djo_dead_lettered = 0, djo_missing = 0, djo_job_ids = []\<rparr> keys s)"

section \<open>Deleting records\<close>

record delete_outcome =
  do_deleted :: u64
  do_missing :: u64
  do_job_ids :: "str list"

fun delete_loop ::
    "('db, 'tx) engine \<Rightarrow> str \<Rightarrow> delete_outcome \<Rightarrow> bytes list \<Rightarrow> 'tx st \<Rightarrow> delete_outcome \<times> 'tx st" where
  "delete_loop E queue out [] s = (out, s)"
| "delete_loop E queue out (key # keys) s =
     (if fmlookup (ti_keys (ix_dead_letter (st_ix s))) key = Some queue
      then delete_loop E queue
        (out\<lparr>do_deleted := do_deleted out + 1,
             do_job_ids := (case DeadLetterKey_job_id key of
               Some jid \<Rightarrow> do_job_ids out @ [jid] | None \<Rightarrow> do_job_ids out)\<rparr>)
        keys (mark_dirty (del E DeadLetter key (on_dead_letter (ti_del key) s)))
      else delete_loop E queue (out\<lparr>do_missing := do_missing out + 1\<rparr>) keys s)"

definition apply_delete_dead_letters ::
    "('db, 'tx) engine \<Rightarrow> str \<Rightarrow> bytes list \<Rightarrow> 'tx st \<Rightarrow> delete_outcome \<times> 'tx st" where
  "apply_delete_dead_letters E queue keys s =
     delete_loop E queue \<lparr>do_deleted = 0, do_missing = 0, do_job_ids = []\<rparr> keys s"

section \<open>Refinement\<close>

lemma drain_choose_eq:
  "drain_choose queue mx cap ex ch es = ch @ take (mx - length ch)
     (map fst (filter (\<lambda>(k, q). case queue of Some want \<Rightarrow> want = q | None \<Rightarrow> True) (take (cap - ex) es)))"
proof (induction es arbitrary: ex ch)
  case (Cons e es)
  obtain k q where e: "e = (k, q)" by (cases e)
  show ?case
  proof (cases "length ch \<ge> mx \<or> ex \<ge> cap")
    case False
    then have "take (cap - ex) (e # es) = e # take (cap - Suc ex) es"
      by (metis Suc_diff_Suc diff_Suc_Suc diff_diff_left minus_nat.diff_0 not_le_imp_less take_Suc_Cons)
    moreover have "mx - length ch = Suc (mx - Suc (length ch))" using False by linarith
    ultimately show ?thesis using False Cons.IH e by (auto split: option.splits)
  qed (auto simp: e)
qed simp

text \<open>What a dead letter of a live job records.\<close>

definition dead_job :: "ajob \<Rightarrow> u32 \<Rightarrow> job" where
  "dead_job x a = (aj_job x)\<lparr>j_payload := aj_payload x, j_queue := aj_queue x, j_attempt := a\<rparr>"

definition dead_of :: "prost \<Rightarrow> ajob \<Rightarrow> dead_letter_meta \<Rightarrow> adead" where
  "dead_of P x meta =
     \<lparr>dd_queue = aj_queue x, dd_failed_at = dm_failed_at meta,
      dd_record = \<lparr>dl_job = Some (dead_job x (dm_attempt meta)), dl_cause = cause_i32 (dm_cause meta),
        dl_failed_at = Some (millis_to_timestamp P (dm_failed_at meta)),
        dl_final_attempt = dm_attempt meta, dl_last_reason = dm_last_reason meta\<rparr>\<rparr>"

definition meta_ok :: "dead_letter_meta \<Rightarrow> bool" where
  "meta_ok m \<longleftrightarrow> 0 \<le> dm_failed_at m \<and> i64_ok (dm_failed_at m) \<and> pred_option utf8_valid (dm_last_reason m)"

lemma cause_i32_ok [simp]: "i32_ok (cause_i32 c)"
  by (cases c) (simp_all add: cause_i32_def i32_ok_def)

text \<open>The job a requeued record becomes.\<close>

definition revived :: "prost \<Rightarrow> adead \<Rightarrow> i64 \<Rightarrow> ajob" where
  "revived P d now =
     (let j = the (dl_job (dd_record d)) in
      \<lparr>aj_queue = dd_queue d,
       aj_job = j\<lparr>j_queue := [], j_payload := None, j_attempt := 1,
         j_enqueued_at := Some (millis_to_timestamp P now),
         j_lease_expires_at := Some (millis_to_timestamp P 0), j_scheduled_at := None\<rparr>,
       aj_payload = j_payload j, aj_place = InReady 1\<rparr>)"

context storage
begin

lemma dead_of_ok:
  "ajob_ok P jid x \<Longrightarrow> meta_ok m \<Longrightarrow> adead_ok jid (dead_of P x m)"
  by (auto simp: adead_ok_def ajob_ok_def meta_ok_def dead_of_def dead_job_def dlr_ok_def job_ok_def
      queue_ok_def place_ok_def split: place.splits)

text \<open>Reading back a stored job, from what the two rows hold.\<close>

lemma read_dead_letter_row:
  assumes ok: "ajob_ok P jid x"
    and g1: "\<And>v. tx_get E t Jobs jid = Inr v \<Longrightarrow> v = Some (JobValue_encode P (aj_queue x) (aj_job x))"
    and g2: "\<And>v. tx_get E t Payloads jid = Inr v \<Longrightarrow> v = map_option (payload_encode P) (aj_payload x)"
    and "read_dead_letter_job P E t jid = Inr r"
  shows "r = Some (dead_job x (j_attempt (aj_job x)))"
proof -
  have pay: "payload_decode P (payload_encode P p) = Some p" if "aj_payload x = Some p" for p
    using ok that by (simp add: ajob_ok_def payload.dec_enc)
  show ?thesis
    using assms(4) g1 g2 pay job_decode_stored [OF ok] ok
    by (cases "aj_payload x") (auto simp: read_dead_letter_job_def dead_job_def ajob_ok_def
        split: sum.splits option.splits)
qed

lemma read_dead_letter_job_live:
  assumes "jobs_rep P (txv t) ix J" and "fmlookup J jid = Some x"
    and "read_dead_letter_job P E t jid = Inr r"
  shows "r = Some (dead_job x (j_attempt (aj_job x)))"
proof (rule read_dead_letter_row [OF jobs_rep_ok [OF assms(1,2)] _ _ assms(3)])
  show "tx_get E t Jobs jid = Inr w \<Longrightarrow> w = Some (JobValue_encode P (aj_queue x) (aj_job x))" for w
    using get_view [of t Jobs jid] jobs_rep_job [OF assms(1), of jid] assms(2) by simp
  show "tx_get E t Payloads jid = Inr w \<Longrightarrow> w = map_option (payload_encode P) (aj_payload x)" for w
    using get_view [of t Payloads jid] jobs_rep_payload [OF assms(1), of jid] assms(2) by simp
qed

text \<open>A live job's dead letter is stored under its key, or dropped when retention is disabled.\<close>

lemma maybe_store_row:
  assumes read: "\<forall>w. read_dead_letter_job P E (st_tx s) jid = Inr w \<longrightarrow>
      w = Some (dead_job x (j_attempt (aj_job x)))"
    and "maybe_store_dead_letter P E jid m en s = (Inr u, s')"
  shows "txv (st_tx s') = (txv (st_tx s))(DeadLetter := chg (dview P jid) None
      (if en then Some (dead_of P x m) else None) (txv (st_tx s) DeadLetter))"
    and "st_ix s' = (st_ix s)\<lparr>ix_dead_letter := ti_chg None
      (Option.bind (if en then Some (dead_of P x m) else None) (dix_view jid)) (ix_dead_letter (st_ix s))\<rparr>"
    and "st_cyc s' = st_cyc s"
  using assms(2) read
  by (auto simp: maybe_store_dead_letter_def chg_def dview_def dix_view_def dead_key_def
      dead_of_def dead_job_def Let_def view_simps split: if_splits sum.splits option.splits)

lemma maybe_store_live:
  assumes "jobs_rep P (txv (st_tx s)) (st_ix s) J" and "fmlookup J jid = Some x"
    and "maybe_store_dead_letter P E jid m en s = (Inr u, s')"
  shows "txv (st_tx s') = (txv (st_tx s))(DeadLetter := chg (dview P jid) None
      (if en then Some (dead_of P x m) else None) (txv (st_tx s) DeadLetter))"
    and "st_ix s' = (st_ix s)\<lparr>ix_dead_letter := ti_chg None
      (Option.bind (if en then Some (dead_of P x m) else None) (dix_view jid)) (ix_dead_letter (st_ix s))\<rparr>"
    and "st_cyc s' = st_cyc s"
  using maybe_store_row [OF _ assms(3), of x] read_dead_letter_job_live [OF assms(1,2)] by simp_all

lemma read_dead_letter_job_error:
  "read_dead_letter_job P E t k = Inl e \<Longrightarrow> st_code e = Internal"
  by (auto simp: read_dead_letter_job_def stg_err_def split: sum.splits option.splits)

lemma maybe_store_error:
  "maybe_store_dead_letter P E k m en s = (Inl e, s') \<Longrightarrow> st_code e = Internal \<and> s' = s"
  by (auto simp: maybe_store_dead_letter_def Let_def dest: read_dead_letter_job_error
      split: if_splits sum.splits option.splits)

section \<open>Draining is burying\<close>

lemma drain_take_refines:
  "reps s A \<Longrightarrow> drain_take P E keys recs s = (Inr out, s') \<Longrightarrow>
     list_all2 (\<lambda>k j. \<exists>d. fmlookup (a_dead A) j = Some d \<and> k = dead_key j d) keys js \<Longrightarrow> distinct js \<Longrightarrow>
     out = recs @ map (\<lambda>j. dd_record (the (fmlookup (a_dead A) j))) js \<and> st_cyc s' = st_cyc s
     \<and> (\<exists>A'. arun A (map Buried js) A' \<and> reps s' A')"
proof (induction keys arbitrary: s A recs js)
  case Nil
  then show ?case by auto
next
  case (Cons k keys)
  from Cons.prems(3) obtain j js' d where js: "js = j # js'" and d: "fmlookup (a_dead A) j = Some d"
    and k: "k = dead_key j d" and rest: "list_all2 (\<lambda>k j. \<exists>d. fmlookup (a_dead A) j = Some d \<and> k = dead_key j d) keys js'"
    by (auto simp: list_all2_Cons1)
  let ?s1 = "del E DeadLetter k (on_dead_letter (ti_del k) s)"
  let ?A1 = "A\<lparr>a_dead := fmdrop j (a_dead A)\<rparr>"
  have ok: "adead_ok j d" using repsD(2) [OF Cons.prems(1)] d by (simp add: dead_rep_def)
  have row: "tx_get E (st_tx s) DeadLetter k = Inr w \<Longrightarrow> w = Some (dlr_encode P (dd_record d))" for w
    using get_view [of "st_tx s" DeadLetter k] dead_row_of [OF Cons.prems(1) d] k by simp
  have go: "drain_take P E keys (recs @ [dd_record d]) ?s1 = (Inr out, s')"
    using Cons.prems(2) row adead_ok_decode [OF ok]
    by (cases "tx_get E (st_tx s) DeadLetter k") auto
  have rep1: "reps ?s1 ?A1"
    by (rule reps_dead_drop [OF Cons.prems(1) d]) (simp_all add: k view_simps)
  have "j \<notin> set js'" and dist: "distinct js'" using Cons.prems(4) js by simp_all
  then have rest1: "list_all2 (\<lambda>k j. \<exists>d. fmlookup (a_dead ?A1) j = Some d \<and> k = dead_key j d) keys js'"
    using rest by (auto simp: list_all2_conv_all_nth)
  have same: "map (\<lambda>j. dd_record (the (fmlookup (a_dead ?A1) j))) js' =
      map (\<lambda>j. dd_record (the (fmlookup (a_dead A) j))) js'"
    using \<open>j \<notin> set js'\<close> by auto
  have "astep A (Buried j) ?A1" using d by (rule astep.bury)
  then show ?case
    using Cons.IH [OF rep1 go rest1 dist] same d js by (auto intro: arun_Cons)
qed

lemma dead_key_job_id: "adead_ok j d \<Longrightarrow> DeadLetterKey_job_id (dead_key j d) = Some j"
  by (simp add: adead_ok_def dead_key_def byte_simps)

text \<open>The ids named by keys of the dead-letter index.\<close>

lemma index_keys_ids:
  assumes rep: "reps s A" and keys: "set keys \<subseteq> fmdom' (ti_keys (ix_dead_letter (st_ix s)))" "distinct keys"
  defines "js \<equiv> map (\<lambda>k. the (DeadLetterKey_job_id k)) keys"
  shows "list_all2 (\<lambda>k j. \<exists>d. fmlookup (a_dead A) j = Some d \<and> k = dead_key j d) keys js"
    and "distinct js"
proof -
  have own: "\<exists>d. fmlookup (a_dead A) (the (DeadLetterKey_job_id k)) = Some d
      \<and> k = dead_key (the (DeadLetterKey_job_id k)) d" if "k \<in> set keys" for k
  proof -
    from that keys(1) obtain q where "fmlookup (ti_keys (ix_dead_letter (st_ix s))) k = Some q"
      by (meson fmlookup_dom'_iff subsetD)
    then obtain j d where jd: "fmlookup (a_dead A) j = Some d" "k = dead_key j d"
      using dead_index [OF rep] by blast
    moreover have "adead_ok j d" using repsD(2) [OF rep] jd by (simp add: dead_rep_def)
    ultimately show ?thesis by (auto simp: dead_key_job_id)
  qed
  then show "list_all2 (\<lambda>k j. \<exists>d. fmlookup (a_dead A) j = Some d \<and> k = dead_key j d) keys js"
    by (auto simp: js_def list_all2_conv_all_nth)
  have "inj_on (\<lambda>k. the (DeadLetterKey_job_id k)) (set keys)"
    by (rule inj_onI) (metis own option.inject)
  then show "distinct js" using keys(2) by (simp add: js_def distinct_map)
qed

lemma apply_drain_refines:
  assumes rep: "reps s A" and drain: "apply_drain P E queue mx cap s = (Inr out, s')"
  defines "chosen \<equiv> take mx (map fst (filter (\<lambda>(k, q). case queue of Some want \<Rightarrow> want = q | None \<Rightarrow> True)
      (take cap (ti_iter_oldest (ix_dead_letter (st_ix s))))))"
  defines "js \<equiv> map (\<lambda>k. the (DeadLetterKey_job_id k)) chosen"
  shows "out = map (\<lambda>j. dd_record (the (fmlookup (a_dead A) j))) js"
    and "\<exists>A'. arun A (map Buried js) A' \<and> reps s' A'"
    and "if out = [] then s' = s else cy_dirty (st_cyc s')"
proof -
  have sub: "set chosen \<subseteq> fst ` set (ti_iter_oldest (ix_dead_letter (st_ix s)))"
    unfolding chosen_def by (auto dest!: in_set_takeD)
  then have keys: "set chosen \<subseteq> fmdom' (ti_keys (ix_dead_letter (st_ix s)))"
    by (auto simp: ti_iter_oldest_def set_sorted_list_of_fmap fmlookup_dom'_iff)
  have dist: "distinct chosen"
    unfolding chosen_def ti_iter_oldest_def
    by (intro distinct_take distinct_map_filter)
       (metis distinct_fst_sorted_list_of_fmap distinct_take take_map)
  obtain s1 where take: "drain_take P E chosen [] s = (Inr out, s1)"
    and s': "s' = (if out = [] then s1 else mark_dirty (on_cycle (dead_letter_drained (length out)) s1))"
    using drain by (auto simp: apply_drain_def drain_choose_eq chosen_def Let_def split: prod.splits sum.splits)
  note ids = index_keys_ids [OF rep keys dist, folded js_def]
  note res = drain_take_refines [OF rep take ids]
  show out: "out = map (\<lambda>j. dd_record (the (fmlookup (a_dead A) j))) js" using res by simp
  have "reps s' B \<longleftrightarrow> reps s1 B" for B by (simp add: s' reps_def)
  with res show "\<exists>A'. arun A (map Buried js) A' \<and> reps s' A'" by blast
  have "js = [] \<Longrightarrow> s1 = s" using take by (simp add: js_def)
  with out show "if out = [] then s' = s else cy_dirty (st_cyc s')" by (simp add: s')
qed

section \<open>Requeueing revives\<close>

lemma enq_ms_now: "0 \<le> now \<Longrightarrow> i64_ok now \<Longrightarrow> j_enqueued_at j = Some (millis_to_timestamp P now) \<Longrightarrow> enq_ms P j = now"
  by (simp add: enq_ms_def)

lemma revived_ok:
  assumes "adead_ok jid d" and "0 \<le> now" and "i64_ok now"
  shows "ajob_ok P jid (revived P d now)"
proof -
  obtain j where j: "dl_job (dd_record d) = Some j" "j_id j = jid" "1 \<le> j_max_attempts j"
    using assms(1) by (auto simp: adead_ok_def)
  moreover have "job_ok j" using assms(1) j by (simp add: adead_ok_def dlr_ok_def)
  moreover have "ts_ok (millis_to_timestamp P 0)" by simp
  ultimately show ?thesis
    using assms enq_ms_now [OF assms(2,3)]
    by (auto simp: ajob_ok_def revived_def Let_def job_ok_def place_ok_def adead_ok_def ascii_utf8 ascii_def)
qed

lemma requeue_one_refines:
  assumes rep: "reps s A" and d: "fmlookup (a_dead A) jid = Some d" and ok: "adead_ok jid d"
    and j: "dl_job (dd_record d) = Some j" and now: "0 \<le> now" "i64_ok now"
  shows "reps (requeue_one P E (dead_key jid d) j now s)
    (A\<lparr>a_jobs := fmupd jid (revived P d now) (a_jobs A), a_dead := fmdrop jid (a_dead A)\<rparr>)"
    (is "reps ?s' ?A'")
proof -
  have jid: "j_id j = jid" "j_queue j = dd_queue d" using ok j by (auto simp: adead_ok_def)
  have fresh: "fmlookup (a_jobs A) jid = None"
    using rep d by (auto simp: reps_def represents_def) (metis disjoint_iff fmdom'I not_None_eq)
  have rkey: "rkey P (revived P d now) = ReadyKey_encode \<lparr>rk_queue = dd_queue d, rk_priority = j_priority j,
      rk_enqueued_at = now, rk_job_id = jid\<rparr>"
    using enq_ms_now [OF now] j jid by (simp add: rkey_def revived_def Let_def)
  have "jobs_rep P (txv (st_tx ?s')) (st_ix ?s') (set_opt jid (Some (revived P d now)) (a_jobs A))"
    by (rule jobs_rep_step [OF repsD(1) [OF rep]])
       (use fresh j jid rkey revived_ok [OF ok now] in
         \<open>auto simp: requeue_one_def revived_def lease_simps split: option.splits\<close>)
  moreover have "dead_rep P (txv (st_tx ?s')) (st_ix ?s') (set_opt jid None (a_dead A))"
    by (rule dead_rep_step [OF repsD(2) [OF rep]])
       (use d in \<open>auto simp: requeue_one_def dview_def dix_view_def lease_simps split: option.splits\<close>)
  moreover have "fmdom' (a_jobs ?A') \<inter> fmdom' (a_dead ?A') = {}"
    using rep by (auto simp: reps_def represents_def)
  ultimately show ?thesis
    using rep unfolding reps_def represents_def
    by (auto simp: requeue_one_def dedup_rep_def closing_rep_def lease_simps split: option.splits)
qed

lemma on_dead_letter_gone:
  assumes "reps s A" and "fmlookup (txv (st_tx s) DeadLetter) key = None"
  shows "on_dead_letter (ti_del key) s = s"
  using dead_gone(2) [OF assms] by (simp add: on_dead_letter_def)

lemma requeue_loop_refines:
  assumes "reps s A" and "requeue_loop P E queue now out keys s = (Inr out', s')"
    and now: "0 \<le> now" "i64_ok now"
  shows "\<exists>js A'. arun A (map Revived js) A' \<and> reps s' A'
    \<and> ro_job_ids out' = ro_job_ids out @ js \<and> ro_requeued out' = ro_requeued out + length js
    \<and> ro_requeued out' + ro_missing out' = ro_requeued out + ro_missing out + length keys
    \<and> (\<forall>j \<in> set js. \<exists>d. fmlookup (a_dead A) j = Some d \<and> dd_queue d = queue)
    \<and> (if js = [] then s' = s else cy_dirty (st_cyc s'))"
  using assms(1,2)
proof (induction keys arbitrary: s A out)
  case Nil
  then show ?case by (auto intro!: exI [of _ "[]"])
next
  case (Cons key keys)
  note rep = Cons.prems(1)
  let ?missed = "out\<lparr>ro_missing := ro_missing out + 1\<rparr>"
  have skip: ?case if "requeue_loop P E queue now ?missed keys s = (Inr out', s')"
    using Cons.IH [OF rep that] by auto
  show ?case
  proof (cases "DeadLetterKey_queue key = Some queue")
    case False
    with Cons.prems(2) show ?thesis by (intro skip) simp
  next
    case True
    then obtain r where r: "tx_get E (st_tx s) DeadLetter key = Inr r"
      using Cons.prems(2) by (cases "tx_get E (st_tx s) DeadLetter key") (auto simp: Let_def)
    show ?thesis
    proof (cases r)
      case None
      then have "on_dead_letter (ti_del key) s = s"
        using on_dead_letter_gone [OF rep] get_view [OF r] by simp
      with True r None Cons.prems(2) show ?thesis by (intro skip) (simp add: Let_def)
    next
      case (Some b)
      then have "fmlookup (txv (st_tx s) DeadLetter) key = Some b" using get_view [OF r] by simp
      then obtain jid d where d: "fmlookup (a_dead A) jid = Some d" "key = dead_key jid d"
        and b: "b = dlr_encode P (dd_record d)" and ok: "adead_ok jid d"
        by (rule dead_row [OF rep])
      obtain j where j: "dl_job (dd_record d) = Some j" "j_id j = jid" "j_queue j = dd_queue d"
        using ok by (auto simp: adead_ok_def)
      let ?A1 = "A\<lparr>a_jobs := fmupd jid (revived P d now) (a_jobs A), a_dead := fmdrop jid (a_dead A)\<rparr>"
      let ?s1 = "requeue_one P E key j now s"
      have fresh: "fmlookup (a_jobs A) jid = None"
        using reps_disjoint [OF rep] d by (cases "fmlookup (a_jobs A) jid") force+
      have step: "astep A (Revived jid) ?A1"
        using d(1) fresh by (rule astep.revive) (simp add: revived_def Let_def)
      have rep1: "reps ?s1 ?A1" unfolding d(2) by (rule requeue_one_refines [OF rep d(1) ok j(1) now])
      have q: "dd_queue d = queue"
        using True ok by (simp add: d(2) dead_key_def adead_ok_def byte_simps)
      have dirty: "cy_dirty (st_cyc ?s1)" by (simp add: requeue_one_def Let_def)
      obtain js A' where IH: "arun ?A1 (map Revived js) A'" "reps s' A'"
        "ro_job_ids out' = ro_job_ids out @ jid # js" "ro_requeued out' = ro_requeued out + Suc (length js)"
        "ro_requeued out' + ro_missing out' = ro_requeued out + ro_missing out + Suc (length keys)"
        "\<forall>j \<in> set js. \<exists>d. fmlookup (a_dead ?A1) j = Some d \<and> dd_queue d = queue"
        "if js = [] then s' = ?s1 else cy_dirty (st_cyc s')"
        using Cons.IH [OF rep1, of "out\<lparr>ro_requeued := ro_requeued out + 1, ro_job_ids := ro_job_ids out @ [j_id j]\<rparr>"]
          Cons.prems(2) True r Some b adead_ok_decode [OF ok] j(1,2)
        by (auto simp: Let_def)
      have "\<forall>j \<in> set (jid # js). \<exists>d. fmlookup (a_dead A) j = Some d \<and> dd_queue d = queue"
        using IH(6) d(1) q by (auto split: if_splits)
      with IH dirty step show ?thesis
        by (intro exI [of _ "jid # js"] exI [of _ A']) (auto intro: arun_Cons split: if_splits)
    qed
  qed
qed

lemma delete_loop_refines:
  assumes "reps s A" and "delete_loop E queue out keys s = (out', s')"
  shows "\<exists>js A'. arun A (map Buried js) A' \<and> reps s' A'
    \<and> do_job_ids out' = do_job_ids out @ js \<and> do_deleted out' = do_deleted out + length js
    \<and> do_deleted out' + do_missing out' = do_deleted out + do_missing out + length keys
    \<and> (\<forall>j \<in> set js. \<exists>d. fmlookup (a_dead A) j = Some d \<and> dd_queue d = queue)
    \<and> (if js = [] then s' = s else cy_dirty (st_cyc s'))"
  using assms
proof (induction keys arbitrary: s A out)
  case Nil
  then show ?case by (auto intro!: exI [of _ "[]"])
next
  case (Cons key keys)
  note rep = Cons.prems(1)
  show ?case
  proof (cases "fmlookup (ti_keys (ix_dead_letter (st_ix s))) key = Some queue")
    case False
    with Cons.IH [OF rep, of "out\<lparr>do_missing := do_missing out + 1\<rparr>"] Cons.prems(2)
    show ?thesis by auto
  next
    case True
    then obtain jid d where d: "fmlookup (a_dead A) jid = Some d" "key = dead_key jid d" "dd_queue d = queue"
      unfolding dead_index [OF rep] by auto
    let ?A1 = "A\<lparr>a_dead := fmdrop jid (a_dead A)\<rparr>"
    let ?s1 = "mark_dirty (del E DeadLetter key (on_dead_letter (ti_del key) s))"
    have rep1: "reps ?s1 ?A1" by (rule reps_dead_drop [OF rep d(1)]) (simp_all add: d(2) view_simps)
    have id: "DeadLetterKey_job_id key = Some jid"
      using repsD(2) [OF rep] d(1,2) by (auto simp: dead_rep_def dead_key_job_id)
    obtain js A' where IH: "arun ?A1 (map Buried js) A'" "reps s' A'"
      "do_job_ids out' = do_job_ids out @ jid # js" "do_deleted out' = do_deleted out + Suc (length js)"
      "do_deleted out' + do_missing out' = do_deleted out + do_missing out + Suc (length keys)"
      "\<forall>j \<in> set js. \<exists>d. fmlookup (a_dead ?A1) j = Some d \<and> dd_queue d = queue"
      "if js = [] then s' = ?s1 else cy_dirty (st_cyc s')"
      using Cons.IH [OF rep1, of "out\<lparr>do_deleted := do_deleted out + 1, do_job_ids := do_job_ids out @ [jid]\<rparr>"]
        Cons.prems(2) True id by auto
    have "\<forall>j \<in> set (jid # js). \<exists>d. fmlookup (a_dead A) j = Some d \<and> dd_queue d = queue"
      using IH(6) d by (auto split: if_splits)
    with IH astep.bury [OF d(1)] show ?thesis
      by (intro exI [of _ "jid # js"] exI [of _ A']) (auto intro: arun_Cons split: if_splits)
  qed
qed

section \<open>Dead-lettering kills\<close>

text \<open>A row of the ready or the scheduled keyspace belongs to the job its key names.\<close>

lemma ready_row:
  assumes "reps s A" and "fmlookup (txv (st_tx s) Ready) key = Some b"
  obtains jid x a where "fmlookup (a_jobs A) jid = Some x" and "aj_place x = InReady a"
    and "key = rkey P x" and "b = u32_be a" and "ajob_ok P jid x"
    and "fmlookup (ri_keys (ix_ready (st_ix s))) key = Some a"
proof -
  note J = repsD(1) [OF assms(1)]
  have "keyed (jview P Ready) (a_jobs A) (txv (st_tx s) Ready)"
    by (rule jobs_rep_keyed(1) [OF J]) (simp add: job_spaces_def)
  from keyed_lookupD [OF this assms(2)] obtain jid x
    where 0: "fmlookup (a_jobs A) jid = Some x" "jview P Ready jid x = Some (key, b)" by blast
  then obtain a
    where x: "fmlookup (a_jobs A) jid = Some x" "aj_place x = InReady a" "key = rkey P x" "b = u32_be a"
    by (cases "aj_place x") auto
  moreover have "fmlookup (ri_keys (ix_ready (st_ix s))) key = Some a"
    using x by (intro keyed_lookup [OF jobs_rep_keyed(2) [OF J] x(1)]) (simp add: rix_view_def)
  ultimately show ?thesis using that jobs_rep_ok [OF J x(1)] by blast
qed

lemma scheduled_row:
  assumes "reps s A" and "fmlookup (txv (st_tx s) Scheduled) key = Some b"
  obtains jid x d a where "fmlookup (a_jobs A) jid = Some x" and "aj_place x = InScheduled d a"
    and "key = TimerKey_encode d jid" and "b = u32_be a" and "ajob_ok P jid x"
proof -
  note J = repsD(1) [OF assms(1)]
  have "keyed (jview P Scheduled) (a_jobs A) (txv (st_tx s) Scheduled)"
    by (rule jobs_rep_keyed(1) [OF J]) (simp add: job_spaces_def)
  from keyed_lookupD [OF this assms(2)] obtain jid x
    where 0: "fmlookup (a_jobs A) jid = Some x" "jview P Scheduled jid x = Some (key, b)" by blast
  then obtain d a where x: "fmlookup (a_jobs A) jid = Some x" "aj_place x = InScheduled d a"
      "key = TimerKey_encode d jid" "b = u32_be a"
    by (cases "aj_place x") auto
  with that jobs_rep_ok [OF J x(1)] show ?thesis by blast
qed

lemma rkey_decode:
  "ajob_ok P jid x \<Longrightarrow> \<exists>rk. ReadyKey_decode (rkey P x) = Some rk \<and> rk_job_id rk = jid \<and> rk_queue rk = aj_queue x"
  unfolding rkey_def using ReadyKey_decode_encode [OF rkey_ok] by (auto simp: ajob_ok_def)

lemma dj_target_job:
  assumes rep: "reps s A" and st: "state \<in> {PeekReady, PeekScheduled}"
    and t: "dj_target_of E queue state key s = DjJob jid"
  obtains x v where "fmlookup (a_jobs A) jid = Some x" and "jview P (dj_space state) jid x = Some (key, v)"
proof (cases "state = PeekReady")
  case True
  then obtain rk b where rk: "ReadyKey_decode key = Some rk" "rk_job_id rk = jid"
    and b: "tx_get E (st_tx s) Ready key = Inr (Some b)"
    using t by (auto simp: dj_target_of_def split: option.splits if_splits sum.splits)
  obtain jid' x a where x: "fmlookup (a_jobs A) jid' = Some x" "aj_place x = InReady a" "key = rkey P x"
    "ajob_ok P jid' x"
    using ready_row [OF rep] get_view [OF b] by metis
  with rkey_decode [OF x(4)] rk have "jid' = jid" by auto
  with x True that show ?thesis by (simp add: dj_space_def)
next
  case False
  then obtain b where id: "TimerKey_job_id key = Some jid"
    and b: "tx_get E (st_tx s) Scheduled key = Inr (Some b)"
    using t st by (auto simp: dj_target_of_def split: option.splits if_splits sum.splits)
  obtain jid' x d a where x: "fmlookup (a_jobs A) jid' = Some x" "aj_place x = InScheduled d a"
    "key = TimerKey_encode d jid'" "ajob_ok P jid' x"
    using scheduled_row [OF rep] get_view [OF b] by metis
  with id have "jid' = jid" using place_deadline_ok(1) by (auto simp: byte_simps)
  with x False that show ?thesis by (simp add: dj_space_def)
qed

lemma dj_drop_index_gone:
  assumes rep: "reps s A" and st: "state \<in> {PeekReady, PeekScheduled}"
    and t: "dj_target_of E queue state key s = DjGone"
  shows "dj_drop_index state key s = s"
proof (cases "state = PeekReady")
  case True
  then have "tx_get E (st_tx s) Ready key = Inr None"
    using t by (auto simp: dj_target_of_def split: option.splits if_splits sum.splits)
  then have none: "fmlookup (txv (st_tx s) Ready) key = None" using get_view by fastforce
  have "fmlookup (ri_keys (ix_ready (st_ix s))) key = None"
  proof (rule ccontr)
    assume "fmlookup (ri_keys (ix_ready (st_ix s))) key \<noteq> None"
    then obtain jid x where "fmlookup (a_jobs A) jid = Some x" "rix_view P jid x \<noteq> None"
      "key = fst (the (rix_view P jid x))"
      using keyed_lookupD [OF jobs_rep_keyed(2) [OF repsD(1) [OF rep]]] by fastforce
    then show False
      using keyed_lookup [OF jobs_rep_keyed(1) [OF repsD(1) [OF rep], of Ready]] none
      by (auto simp: rix_view_def job_spaces_def split: place.splits)
  qed
  then have "ri_del key (ix_ready (st_ix s)) = ix_ready (st_ix s)" by (simp add: ri_del_def ri_remove_def)
  with True show ?thesis by (simp add: dj_drop_index_def on_ready_def)
next
  case False
  then have "tx_get E (st_tx s) Scheduled key = Inr None"
    using t st by (auto simp: dj_target_of_def split: option.splits if_splits sum.splits)
  then have none: "fmlookup (txv (st_tx s) Scheduled) key = None" using get_view by fastforce
  have "fmlookup (ti_keys (ix_scheduled (st_ix s))) key = None"
  proof (rule ccontr)
    assume "fmlookup (ti_keys (ix_scheduled (st_ix s))) key \<noteq> None"
    then obtain jid x where "fmlookup (a_jobs A) jid = Some x" "six_view jid x \<noteq> None"
      "key = fst (the (six_view jid x))"
      using keyed_lookupD [OF jobs_rep_keyed(3) [OF repsD(1) [OF rep]]] by fastforce
    then show False
      using keyed_lookup [OF jobs_rep_keyed(1) [OF repsD(1) [OF rep], of Scheduled]] none
      by (auto simp: six_view_def job_spaces_def split: place.splits)
  qed
  then have "ti_del key (ix_scheduled (st_ix s)) = ix_scheduled (st_ix s)"
    by (simp add: ti_del_def ti_remove_def)
  with False show ?thesis by (simp add: dj_drop_index_def on_scheduled_def)
qed

lemma dj_kill_refines:
  assumes rep: "reps s A" and st: "state \<in> {PeekReady, PeekScheduled}"
    and x: "fmlookup (a_jobs A) jid = Some x" and view: "jview P (dj_space state) jid x = Some (key, v)"
    and now: "0 \<le> now" "i64_ok now" and reason: "pred_option utf8_valid reason"
    and k: "dj_kill P E queue state reason en now key jid s = (Inr u, s')"
  shows "\<exists>d. reps s' (kill jid d A) \<and> (d \<noteq> None \<longleftrightarrow> en) \<and> cy_dirty (st_cyc s')"
proof -
  from k obtain a s1 where
    st1: "maybe_store_dead_letter P E jid \<lparr>dm_cause = CauseAdmin, dm_failed_at = now, dm_attempt = a,
      dm_last_reason = reason\<rparr> en s = (Inr (), s1)" (is "maybe_store_dead_letter P E jid ?m en s = _")
    and s': "s' = mark_dirty (on_cycle (dead_lettered queue ''admin'')
      (del E Payloads jid (del E Jobs jid (dj_drop_index state key (del E (dj_space state) key s1)))))"
    by (auto simp: dj_kill_def Let_def split: sum.splits prod.splits)
  note s1 = maybe_store_live [OF repsD(1) [OF rep] x st1]
  have m: "meta_ok ?m" using now reason by (simp add: meta_ok_def)
  note ok = dead_of_ok [OF jobs_rep_ok [OF repsD(1) [OF rep] x] m]
  let ?d = "if en then Some (dead_of P x ?m) else None"
  have "reps s' (kill jid ?d A)"
  proof (cases "state = PeekReady")
    case True
    then obtain a' where a': "aj_place x = InReady a'" "key = rkey P x"
      using view by (cases "aj_place x") (auto simp: dj_space_def)
    show ?thesis
      by (rule reps_kill_step [OF rep x])
         (use ok a' True in \<open>auto simp: s' s1 dj_space_def dj_drop_index_def lease_simps split: if_splits\<close>)
  next
    case False
    then obtain d a' where a': "aj_place x = InScheduled d a'" "key = TimerKey_encode d jid"
      using view by (cases "aj_place x") (auto simp: dj_space_def)
    show ?thesis
      by (rule reps_kill_step [OF rep x])
         (use ok a' False in \<open>auto simp: s' s1 dj_space_def dj_drop_index_def lease_simps split: if_splits\<close>)
  qed
  then show ?thesis by (intro exI [of _ ?d]) (simp add: s')
qed

lemma dead_letter_jobs_loop_refines:
  assumes "reps s A" and "dead_letter_jobs_loop P E queue state reason en now out keys s = (Inr out', s')"
    and st: "state \<in> {PeekReady, PeekScheduled}"
    and now: "0 \<le> now" "i64_ok now" and reason: "pred_option utf8_valid reason"
  shows "\<exists>js A'. arun A (map Killed js) A' \<and> reps s' A'
    \<and> djo_job_ids out' = djo_job_ids out @ js \<and> djo_dead_lettered out' = djo_dead_lettered out + length js
    \<and> djo_dead_lettered out' + djo_missing out' = djo_dead_lettered out + djo_missing out + length keys
    \<and> (\<forall>j \<in> set js. \<exists>x. fmlookup (a_jobs A) j = Some x \<and> aj_queue x = queue)
    \<and> (if js = [] then s' = s else cy_dirty (st_cyc s'))"
  using assms(1,2)
proof (induction keys arbitrary: s A out)
  case Nil
  then show ?case by (auto intro!: exI [of _ "[]"])
next
  case (Cons key keys)
  note rep = Cons.prems(1)
  let ?missed = "out\<lparr>djo_missing := djo_missing out + 1\<rparr>"
  have skip: ?case
    if "dead_letter_jobs_loop P E queue state reason en now ?missed keys s = (Inr out', s')"
    using Cons.IH [OF rep that] by auto
  show ?case
  proof (cases "dj_target_of E queue state key s")
    case (DjError e)
    with Cons.prems(2) show ?thesis by (simp add: Let_def)
  next
    case DjMissing
    with Cons.prems(2) show ?thesis by (intro skip) (simp add: Let_def)
  next
    case DjGone
    with Cons.prems(2) dj_drop_index_gone [OF rep st] show ?thesis by (intro skip) (simp add: Let_def)
  next
    case (DjJob jid)
    obtain x v where x: "fmlookup (a_jobs A) jid = Some x" and v: "jview P (dj_space state) jid x = Some (key, v)"
      by (rule dj_target_job [OF rep st DjJob])
    note ok = jobs_rep_ok [OF repsD(1) [OF rep] x]
    have row: "tx_get E (st_tx s) Jobs jid = Inr w \<Longrightarrow> w = Some (JobValue_encode P (aj_queue x) (aj_job x))" for w
      using get_view [of "st_tx s" Jobs jid] jobs_rep_job [OF repsD(1) [OF rep], of jid] x by simp
    show ?thesis
    proof (cases "aj_queue x = queue")
      case False
      with Cons.prems(2) DjJob row job_decode_stored [OF ok] show ?thesis
        by (intro skip) (auto simp: Let_def split: sum.splits)
    next
      case True
      then obtain u s1 where kill: "dj_kill P E queue state reason en now key jid s = (Inr u, s1)"
        and go: "dead_letter_jobs_loop P E queue state reason en now
          (out\<lparr>djo_dead_lettered := djo_dead_lettered out + 1, djo_job_ids := djo_job_ids out @ [jid]\<rparr>)
          keys s1 = (Inr out', s')"
        using Cons.prems(2) DjJob row job_decode_stored [OF ok]
        by (auto simp: Let_def split: sum.splits prod.splits)
      obtain d where d: "reps s1 (kill jid d A)" "cy_dirty (st_cyc s1)"
        using dj_kill_refines [OF rep st x v now reason kill] by blast
      obtain js A' where IH: "arun (kill jid d A) (map Killed js) A'" "reps s' A'"
        "djo_job_ids out' = djo_job_ids out @ jid # js"
        "djo_dead_lettered out' = djo_dead_lettered out + Suc (length js)"
        "djo_dead_lettered out' + djo_missing out' = djo_dead_lettered out + djo_missing out + Suc (length keys)"
        "\<forall>j \<in> set js. \<exists>x. fmlookup (a_jobs (kill jid d A)) j = Some x \<and> aj_queue x = queue"
        "if js = [] then s' = s1 else cy_dirty (st_cyc s')"
        using Cons.IH [OF d(1) go] by auto
      have "\<forall>j \<in> set (jid # js). \<exists>x. fmlookup (a_jobs A) j = Some x \<and> aj_queue x = queue"
        using IH(6) x True by (auto simp: kill_def split: if_splits)
      with IH d(2) astep.kill [OF x, of d] show ?thesis
        by (intro exI [of _ "jid # js"] exI [of _ A']) (auto intro: arun_Cons split: if_splits)
    qed
  qed
qed

end

end
