(* ===== verification/Sweep.thy ===== *)
theory Sweep
  imports Dead_Letters
begin

text \<open>
  The timer sweep of \<open>src/storage.rs\<close> (\<open>apply_sweep\<close>): expired close tombstones are dropped, due
  scheduled jobs become ready, jobs with an expired lease are redelivered or dead-lettered, expired
  deduplication records and dead letters past their retention are deleted. Each phase has its own
  budget and is a recursion on what is left of it. Tracing spans and log lines are left out.
\<close>

section \<open>Close tombstones\<close>

definition sweep_closing :: "('db, 'tx) engine \<Rightarrow> i64 \<Rightarrow> 'tx st \<Rightarrow> 'tx st" where
  "sweep_closing E now s =
     (let closing = ix_closing (st_ix s);
          expired = filter (\<lambda>(_, deadline). \<not> deadline > now) (sorted_list_of_fmap closing);
          s = foldl (\<lambda>s (q, _). mark_dirty (del E Meta (closing_key q) s)) s expired
      in on_closing (fmfilter (\<lambda>q. case fmlookup closing q of Some d \<Rightarrow> d > now | None \<Rightarrow> False)) s)"

section \<open>Scheduled jobs\<close>

text \<open>\<open>v.first_chunk::<4>()\<close>: the first four bytes, if there are four.\<close>

definition u32_first :: "bytes \<Rightarrow> u32 option" where
  "u32_first b = (if 4 \<le> length b then Some (u32_from_be (take 4 b)) else None)"

definition promote_entry ::
    "prost \<Rightarrow> ('db, 'tx) engine \<Rightarrow> bytes \<Rightarrow> 'tx st \<Rightarrow> (status + unit) \<times> 'tx st" where
  "promote_entry P E timer_k s =
     (case tx_get E (st_tx s) Scheduled timer_k of
        Inl e \<Rightarrow> (Inl (stg_err e), s)
      | Inr v \<Rightarrow>
          (let attempt_hint = Option.bind v u32_first;
               s = mark_dirty (del E Scheduled timer_k s)
           in case TimerKey_job_id timer_k of
                None \<Rightarrow> (Inr (), s)
              | Some job_id \<Rightarrow>
                  (case tx_get E (st_tx s) Jobs job_id of
                     Inl e \<Rightarrow> (Inl (stg_err e), s)
                   | Inr None \<Rightarrow> (Inr (), s)
                   | Inr (Some stored) \<Rightarrow>
                       (case JobValue_decode P stored of
                          Inl _ \<Rightarrow> (Inr (), s)
                        | Inr (queue, job) \<Rightarrow>
                            (let enqueued_at_ms = (case j_enqueued_at job of
                                   Some t \<Rightarrow> timestamp_to_millis P t | None \<Rightarrow> 0);
                                 attempt = unwrap_or attempt_hint (j_attempt job);
                                 rk = ReadyKey_encode \<lparr>rk_queue = queue, rk_priority = j_priority job,
                                   rk_enqueued_at = enqueued_at_ms, rk_job_id = j_id job\<rparr>;
                                 s = put E Ready rk (u32_be attempt) s;
                                 s = on_ready (ri_ins rk attempt) s;
                                 s = on_cycle (sweep_promotion queue) s
                             in (Inr (), new_ready queue s))))))"

fun sweep_scheduled ::
    "prost \<Rightarrow> ('db, 'tx) engine \<Rightarrow> i64 \<Rightarrow> nat \<Rightarrow> nat \<Rightarrow> 'tx st \<Rightarrow> (status + nat) \<times> 'tx st" where
  "sweep_scheduled P E now 0 processed s = (Inr processed, s)"
| "sweep_scheduled P E now (Suc remaining) processed s =
     (case ti_pop_due now (ix_scheduled (st_ix s)) of
        None \<Rightarrow> (Inr processed, s)
      | Some ((timer_k, _), rest) \<Rightarrow>
          (case promote_entry P E timer_k (on_scheduled (\<lambda>_. rest) s) of
             (Inl e, s) \<Rightarrow> (Inl e, s)
           | (Inr _, s) \<Rightarrow> sweep_scheduled P E now remaining (processed + 1) s))"

section \<open>Expired leases\<close>

definition expire_dead_letter ::
    "prost \<Rightarrow> ('db, 'tx) engine \<Rightarrow> i64 \<Rightarrow> bool \<Rightarrow> bytes \<Rightarrow> inflight \<Rightarrow> 'tx st \<Rightarrow> (status + unit) \<times> 'tx st" where
  "expire_dead_letter P E now dead_letter_enabled job_id inflight s =
     (case maybe_store_dead_letter P E job_id
        \<lparr>dm_cause = CauseLeaseExpired, dm_failed_at = now, dm_attempt = if_attempt inflight,
         dm_last_reason = None\<rparr> dead_letter_enabled s of
        (Inl e, s) \<Rightarrow> (Inl e, s)
      | (Inr _, s) \<Rightarrow>
          (let s = del E Jobs job_id s;
               s = del E Payloads job_id s;
               s = del E Inflight job_id s
           in (Inr (), on_cycle (dead_lettered (if_queue inflight) ''lease_expired'') s)))"

definition expire_redeliver ::
    "('db, 'tx) engine \<Rightarrow> bytes \<Rightarrow> inflight \<Rightarrow> 'tx st \<Rightarrow> 'tx st" where
  "expire_redeliver E job_id inflight s =
     (case from_utf8 job_id of
        None \<Rightarrow> s
      | Some job_id_str \<Rightarrow>
          (let attempt = if_attempt inflight + 1;
               rk = ReadyKey_encode \<lparr>rk_queue = if_queue inflight, rk_priority = if_priority inflight,
                 rk_enqueued_at = if_enqueued_at inflight, rk_job_id = job_id_str\<rparr>;
               s = put E Ready rk (u32_be attempt) s;
               s = on_ready (ri_ins rk attempt) s;
               s = del E Inflight job_id s;
               s = on_cycle (sweep_lease_redelivery (if_queue inflight)) s
           in new_ready (if_queue inflight) s))"

definition lease_entry ::
    "prost \<Rightarrow> ('db, 'tx) engine \<Rightarrow> i64 \<Rightarrow> bool \<Rightarrow> bytes \<Rightarrow> 'tx st \<Rightarrow> (status + unit) \<times> 'tx st" where
  "lease_entry P E now dead_letter_enabled timer_k s =
     (let s = mark_dirty (del E Leases timer_k s)
      in case TimerKey_job_id timer_k of
           None \<Rightarrow> (Inr (), s)
         | Some job_id \<Rightarrow>
             (case tx_get E (st_tx s) Inflight job_id of
                Inl e \<Rightarrow> (Inl (stg_err e), s)
              | Inr None \<Rightarrow> (Inr (), s)
              | Inr (Some stored) \<Rightarrow>
                  (case Inflight_decode P stored of
                     Inl _ \<Rightarrow> (Inr (), s)
                   | Inr inflight \<Rightarrow>
                       if if_attempt inflight \<ge> if_max_attempts inflight
                       then expire_dead_letter P E now dead_letter_enabled job_id inflight s
                       else (Inr (), expire_redeliver E job_id inflight s))))"

fun sweep_leases ::
    "prost \<Rightarrow> ('db, 'tx) engine \<Rightarrow> i64 \<Rightarrow> bool \<Rightarrow> nat \<Rightarrow> nat \<Rightarrow> 'tx st \<Rightarrow> (status + nat) \<times> 'tx st" where
  "sweep_leases P E now dead_letter_enabled 0 processed s = (Inr processed, s)"
| "sweep_leases P E now dead_letter_enabled (Suc remaining) processed s =
     (case ti_pop_due now (ix_leases (st_ix s)) of
        None \<Rightarrow> (Inr processed, s)
      | Some ((timer_k, _), rest) \<Rightarrow>
          (case lease_entry P E now dead_letter_enabled timer_k (on_leases (\<lambda>_. rest) s) of
             (Inl e, s) \<Rightarrow> (Inl e, s)
           | (Inr _, s) \<Rightarrow> sweep_leases P E now dead_letter_enabled remaining (processed + 1) s))"

section \<open>Deduplication records\<close>

definition dedup_entry ::
    "('db, 'tx) engine \<Rightarrow> i64 \<Rightarrow> bytes \<Rightarrow> str \<Rightarrow> 'tx st \<Rightarrow> (status + unit) \<times> 'tx st" where
  "dedup_entry E now timer_k queue s =
     (let finish = (\<lambda>s. mark_dirty (on_cycle (sweep_dedup_expiration queue) (del E DedupTimers timer_k s)))
      in case DedupTimerKey_dedup_key timer_k of
           None \<Rightarrow> (Inr (), finish s)
         | Some dedup_k \<Rightarrow>
             (case tx_get E (st_tx s) Dedup dedup_k of
                Inl e \<Rightarrow> (Inl (stg_err e), s)
              | Inr v \<Rightarrow>
                  (let record_deadline = map_option dv_deadline (Option.bind v DedupValue_decode);
                       s = (if (case record_deadline of Some d \<Rightarrow> d \<le> now | None \<Rightarrow> False)
                            then del E Dedup dedup_k s else s)
                   in (Inr (), finish s))))"

fun sweep_dedup ::
    "('db, 'tx) engine \<Rightarrow> i64 \<Rightarrow> nat \<Rightarrow> nat \<Rightarrow> 'tx st \<Rightarrow> (status + nat) \<times> 'tx st" where
  "sweep_dedup E now 0 processed s = (Inr processed, s)"
| "sweep_dedup E now (Suc remaining) processed s =
     (case ti_pop_due now (ix_dedup_timers (st_ix s)) of
        None \<Rightarrow> (Inr processed, s)
      | Some ((timer_k, queue), rest) \<Rightarrow>
          (case dedup_entry E now timer_k queue (on_dedup_timers (\<lambda>_. rest) s) of
             (Inl e, s) \<Rightarrow> (Inl e, s)
           | (Inr _, s) \<Rightarrow> sweep_dedup E now remaining (processed + 1) s))"

section \<open>Dead letters past their retention\<close>

fun sweep_retention ::
    "('db, 'tx) engine \<Rightarrow> i64 \<Rightarrow> nat \<Rightarrow> nat \<Rightarrow> 'tx st \<Rightarrow> nat \<times> 'tx st" where
  "sweep_retention E cutoff 0 expired s = (expired, s)"
| "sweep_retention E cutoff (Suc remaining) expired s =
     (case ti_pop_due cutoff (ix_dead_letter (st_ix s)) of
        None \<Rightarrow> (expired, s)
      | Some ((key, _), rest) \<Rightarrow>
          sweep_retention E cutoff remaining (expired + 1)
            (mark_dirty (del E DeadLetter key (on_dead_letter (\<lambda>_. rest) s))))"

section \<open>The sweep\<close>

definition apply_sweep ::
    "prost \<Rightarrow> ('db, 'tx) engine \<Rightarrow> i64 \<Rightarrow> usize \<Rightarrow> i64 option \<Rightarrow> bool \<Rightarrow> 'tx st \<Rightarrow> (status + usize) \<times> 'tx st" where
  "apply_sweep P E now budget retention_cutoff_ms dead_letter_enabled s =
     (case sweep_scheduled P E now budget 0 (sweep_closing E now s) of
        (Inl e, s) \<Rightarrow> (Inl e, s)
      | (Inr processed, s) \<Rightarrow>
          (case sweep_leases P E now dead_letter_enabled budget processed s of
             (Inl e, s) \<Rightarrow> (Inl e, s)
           | (Inr processed, s) \<Rightarrow>
               (case sweep_dedup E now budget processed s of
                  (Inl e, s) \<Rightarrow> (Inl e, s)
                | (Inr processed, s) \<Rightarrow>
                    (case retention_cutoff_ms of
                       None \<Rightarrow> (Inr processed, s)
                     | Some cutoff \<Rightarrow>
                         (case sweep_retention E cutoff budget 0 s of
                            (expired, s) \<Rightarrow>
                              (Inr (processed + expired),
                               if expired > 0 then on_cycle (dead_letter_expired expired) s else s))))))"

section \<open>Refinement\<close>

definition expiry_event :: "event \<Rightarrow> bool" where
  "expiry_event e \<longleftrightarrow> (\<exists>j. e = Retried j \<or> e = Killed j)"

text \<open>
  What a phase does to a map: it visits the entries \<open>js\<close>, each once and each selected, and changes
  (or drops) exactly those by \<open>f\<close>.
\<close>

definition visited ::
    "('k \<Rightarrow> 'x \<Rightarrow> bool) \<Rightarrow> ('k \<Rightarrow> 'x \<Rightarrow> 'x option) \<Rightarrow> ('k, 'x) fmap \<Rightarrow> 'k list \<Rightarrow> ('k, 'x) fmap \<Rightarrow> bool" where
  "visited sel f J js J' \<longleftrightarrow> distinct js
     \<and> (\<forall>j \<in> set js. \<exists>x. fmlookup J j = Some x \<and> sel j x)
     \<and> (\<forall>j. fmlookup J' j = (if j \<in> set js then Option.bind (fmlookup J j) (f j) else fmlookup J j))"

lemma visited_Nil [simp]: "visited sel f J [] J' \<longleftrightarrow> J' = J"
  by (auto simp: visited_def intro: fmap_ext)

lemma visited_Cons:
  assumes "fmlookup J j = Some x" and "sel j x" and "\<And>y. f j x = Some y \<Longrightarrow> \<not> sel j y"
    and "visited sel f (set_opt j (f j x) J) js J'"
  shows "visited sel f J (j # js) J'"
proof -
  have "j \<notin> set js" using assms(3,4) by (fastforce simp: visited_def)
  moreover have "\<exists>y. fmlookup J i = Some y \<and> sel i y" if "i \<in> set js" for i
    using assms(4) that \<open>j \<notin> set js\<close> by (fastforce simp: visited_def split: if_splits)
  ultimately show ?thesis using assms by (auto simp: visited_def)
qed

lemma visited_all:
  assumes "visited sel f J js J'" and "\<And>j x. fmlookup J' j = Some x \<Longrightarrow> \<not> sel j x"
  shows "set js = {j. \<exists>x. fmlookup J j = Some x \<and> sel j x}"
  using assms by (auto simp: visited_def split: if_splits)

text \<open>A choice of at most \<open>budget\<close> selected entries, all of them when the budget is not used up.\<close>

definition picked :: "('k \<Rightarrow> 'x option) \<Rightarrow> ('k \<Rightarrow> 'x \<Rightarrow> bool) \<Rightarrow> nat \<Rightarrow> 'k list \<Rightarrow> bool" where
  "picked J sel budget js \<longleftrightarrow> distinct js \<and> length js \<le> budget
     \<and> (\<forall>j \<in> set js. \<exists>x. J j = Some x \<and> sel j x)
     \<and> (length js < budget \<longrightarrow> (\<forall>j x. J j = Some x \<longrightarrow> sel j x \<longrightarrow> j \<in> set js))"

lemma visited_picked:
  assumes "visited sel f J js J'" and "length js \<le> budget"
    and "length js < budget \<longrightarrow> (\<forall>j x. fmlookup J' j = Some x \<longrightarrow> \<not> sel j x)"
  shows "picked (fmlookup J) sel budget js"
  using assms unfolding picked_def visited_def by (metis option.discI)

definition scheduled_by :: "i64 \<Rightarrow> str \<Rightarrow> ajob \<Rightarrow> bool" where
  "scheduled_by now j x \<longleftrightarrow> (case aj_place x of InScheduled d a \<Rightarrow> d \<le> now | _ \<Rightarrow> False)"

definition promote_job :: "str \<Rightarrow> ajob \<Rightarrow> ajob option" where
  "promote_job j x = (case aj_place x of InScheduled d a \<Rightarrow> Some (x\<lparr>aj_place := InReady a\<rparr>) | _ \<Rightarrow> Some x)"

definition leased_until :: "i64 \<Rightarrow> str \<Rightarrow> ajob \<Rightarrow> bool" where
  "leased_until now j x \<longleftrightarrow> (case aj_place x of InFlight d a \<Rightarrow> d \<le> now | _ \<Rightarrow> False)"

definition expire_job :: "str \<Rightarrow> ajob \<Rightarrow> ajob option" where
  "expire_job j x = (case aj_place x of
     InFlight d a \<Rightarrow> if a < j_max_attempts (aj_job x) then Some (x\<lparr>aj_place := InReady (a + 1)\<rparr>) else None
   | _ \<Rightarrow> Some x)"

definition expiry_meta :: "i64 \<Rightarrow> ajob \<Rightarrow> dead_letter_meta" where
  "expiry_meta now x = \<lparr>dm_cause = CauseLeaseExpired, dm_failed_at = now,
     dm_attempt = (case aj_place x of InFlight d a \<Rightarrow> a | _ \<Rightarrow> 0), dm_last_reason = None\<rparr>"

text \<open>The dead letters after the leases of \<open>js\<close> have expired.\<close>

definition expired_dead :: "prost \<Rightarrow> i64 \<Rightarrow> bool \<Rightarrow> abs_queue \<Rightarrow> str list \<Rightarrow> str \<Rightarrow> adead option" where
  "expired_dead P now en A js j =
     (case fmlookup (a_jobs A) j of
        Some x \<Rightarrow> if en \<and> j \<in> set js \<and> expire_job j x = None then Some (dead_of P x (expiry_meta now x))
                  else fmlookup (a_dead A) j
      | None \<Rightarrow> fmlookup (a_dead A) j)"

definition dedup_until :: "i64 \<Rightarrow> bytes \<Rightarrow> adedup \<Rightarrow> bool" where
  "dedup_until now k u \<longleftrightarrow> dv_deadline (dp_value u) \<le> now"

definition failed_by :: "i64 \<Rightarrow> str \<Rightarrow> adead \<Rightarrow> bool" where
  "failed_by cutoff j d \<longleftrightarrow> dd_failed_at d \<le> cutoff"

text \<open>
  The queue after a sweep at \<open>now\<close> that promoted \<open>js\<close>, expired the leases of \<open>ls\<close>, dropped the
  deduplication records \<open>ks\<close> and the dead letters \<open>bs\<close>: every lapsed tombstone is gone, and nothing
  else changed.
\<close>

definition swept ::
    "prost \<Rightarrow> i64 \<Rightarrow> bool \<Rightarrow> str list \<Rightarrow> str list \<Rightarrow> bytes list \<Rightarrow> str list \<Rightarrow> abs_queue \<Rightarrow> abs_queue \<Rightarrow> bool" where
  "swept P now en js ls ks bs A A' \<longleftrightarrow>
     (\<forall>j. fmlookup (a_jobs A') j =
        (if j \<in> set js then Option.bind (fmlookup (a_jobs A) j) (promote_job j)
         else if j \<in> set ls then Option.bind (fmlookup (a_jobs A) j) (expire_job j)
         else fmlookup (a_jobs A) j))
     \<and> (\<forall>j. fmlookup (a_dead A') j = (if j \<in> set bs then None else expired_dead P now en A ls j))
     \<and> (\<forall>k. fmlookup (a_dedup A') k = (if k \<in> set ks then None else fmlookup (a_dedup A) k))
     \<and> (\<forall>q. fmlookup (a_closing A') q =
          (case fmlookup (a_closing A) q of Some d \<Rightarrow> if d \<le> now then None else Some d | None \<Rightarrow> None))"

lemma promoted_not_leased:
  assumes v: "visited (scheduled_by now) promote_job J js J'"
  shows "fmlookup J' j = Some x \<Longrightarrow> leased_until now j x \<Longrightarrow> fmlookup J j = Some x \<and> j \<notin> set js"
    and "fmlookup J j = Some x \<Longrightarrow> leased_until now j x \<Longrightarrow> fmlookup J' j = Some x \<and> j \<notin> set js"
proof -
  have "\<not> leased_until now j x" if "j \<in> set js" "fmlookup J' j = Some x \<or> fmlookup J j = Some x"
  proof -
    from v that(1) obtain y where y: "fmlookup J j = Some y" "scheduled_by now j y" "fmlookup J' j = promote_job j y"
      by (force simp: visited_def)
    then obtain d a where "aj_place y = InScheduled d a" by (auto simp: scheduled_by_def split: place.splits)
    with y that(2) show ?thesis by (auto simp: leased_until_def promote_job_def)
  qed
  moreover have "fmlookup J' j = fmlookup J j" if "j \<notin> set js" using v that by (simp add: visited_def)
  ultimately show "fmlookup J' j = Some x \<Longrightarrow> leased_until now j x \<Longrightarrow> fmlookup J j = Some x \<and> j \<notin> set js"
    and "fmlookup J j = Some x \<Longrightarrow> leased_until now j x \<Longrightarrow> fmlookup J' j = Some x \<and> j \<notin> set js"
    by metis+
qed

lemma u32_first_be [simp]: "u32_first (u32_be a) = Some a"
  by (simp add: u32_first_def u32_from_be_be)

context storage
begin

text \<open>Every timer key leads with a non-negative deadline.\<close>

lemma timer_keys_ok_reps:
  assumes "reps s A"
  shows "timer_keys_ok (ix_scheduled (st_ix s))" and "timer_keys_ok (ix_leases (st_ix s))"
    and "timer_keys_ok (ix_dedup_timers (st_ix s))" and "timer_keys_ok (ix_dead_letter (st_ix s))"
proof -
  note J = repsD(1) [OF assms]
  have tk: "8 \<le> length (TimerKey_encode d j) \<and> 0 \<le> deadline_of (TimerKey_encode d j)"
    if "i64_ok d" "0 \<le> d" for d j
    using that by (simp add: byte_simps) (simp add: TimerKey_eq)
  show "timer_keys_ok (ix_scheduled (st_ix s))"
    unfolding timer_keys_ok_def
  proof (intro allI impI)
    fix k q assume "fmlookup (ti_keys (ix_scheduled (st_ix s))) k = Some q"
    from keyed_lookupD [OF jobs_rep_keyed(3) [OF J] this] obtain jid x
      where x: "fmlookup (a_jobs A) jid = Some x" "six_view jid x = Some (k, q)" by blast
    then show "8 \<le> length k \<and> 0 \<le> deadline_of k"
      using tk place_deadline_ok(1) [OF jobs_rep_ok [OF J x(1)]]
      by (cases "aj_place x") (auto simp: six_view_def)
  qed
  show "timer_keys_ok (ix_leases (st_ix s))"
    unfolding timer_keys_ok_def
  proof (intro allI impI)
    fix k q assume "fmlookup (ti_keys (ix_leases (st_ix s))) k = Some q"
    from keyed_lookupD [OF jobs_rep_keyed(4) [OF J] this] obtain jid x
      where x: "fmlookup (a_jobs A) jid = Some x" "lix_view jid x = Some (k, q)" by blast
    then show "8 \<le> length k \<and> 0 \<le> deadline_of k"
      using tk place_deadline_ok(2) [OF jobs_rep_ok [OF J x(1)]]
      by (cases "aj_place x") (auto simp: lix_view_def)
  qed
  have "8 \<le> length (dedup_timer k u) \<and> 0 \<le> deadline_of (dedup_timer k u)" if "adedup_ok k u" for k u
    using that by (simp add: adedup_ok_def dedup_timer_def byte_simps) (simp add: DedupTimerKey_eq)
  then show "timer_keys_ok (ix_dedup_timers (st_ix s))"
    using repsD(3) [OF assms] by (auto simp: timer_keys_ok_def dedup_rep_def keyed_def uix_view_def)
  have "8 \<le> length (dead_key j d) \<and> 0 \<le> deadline_of (dead_key j d)" if "adead_ok j d" for j d
    using that by (simp add: adead_ok_def dead_key_def byte_simps queue_ok_def) (simp add: DeadLetterKey_eq)
  then show "timer_keys_ok (ix_dead_letter (st_ix s))"
    using repsD(2) [OF assms] by (auto simp: timer_keys_ok_def dead_rep_def keyed_def dix_view_def)
qed

lemma pop_scheduled:
  assumes rep: "reps s A" and pop: "ti_pop_due now (ix_scheduled (st_ix s)) = Some ((k, q), rest)"
  obtains jid x d a where "fmlookup (a_jobs A) jid = Some x" and "aj_place x = InScheduled d a"
    and "k = TimerKey_encode d jid" and "d \<le> now" and "rest = ti_del k (ix_scheduled (st_ix s))"
proof -
  note J = repsD(1) [OF rep] and p = ti_pop_due_Some [OF pop]
  from p keyed_lookupD [OF jobs_rep_keyed(3) [OF J]] obtain jid x
    where 0: "fmlookup (a_jobs A) jid = Some x" "six_view jid x = Some (k, q)" by blast
  then obtain d a where x: "aj_place x = InScheduled d a" "k = TimerKey_encode d jid"
    by (cases "aj_place x") (auto simp: six_view_def)
  moreover have "d \<le> now"
    using p x place_deadline_ok(1) [OF jobs_rep_ok [OF J 0(1)] x(1)] by (simp add: byte_simps)
  ultimately show ?thesis using that 0 p by (simp add: ti_del_def)
qed

lemma pop_lease:
  assumes rep: "reps s A" and pop: "ti_pop_due now (ix_leases (st_ix s)) = Some ((k, q), rest)"
  obtains jid x d a where "fmlookup (a_jobs A) jid = Some x" and "aj_place x = InFlight d a"
    and "k = TimerKey_encode d jid" and "d \<le> now" and "rest = ti_del k (ix_leases (st_ix s))"
proof -
  note J = repsD(1) [OF rep] and p = ti_pop_due_Some [OF pop]
  from p keyed_lookupD [OF jobs_rep_keyed(4) [OF J]] obtain jid x
    where 0: "fmlookup (a_jobs A) jid = Some x" "lix_view jid x = Some (k, q)" by blast
  then obtain d a where x: "aj_place x = InFlight d a" "k = TimerKey_encode d jid"
    by (cases "aj_place x") (auto simp: lix_view_def)
  moreover have "d \<le> now"
    using p x place_deadline_ok(2) [OF jobs_rep_ok [OF J 0(1)] x(1)] by (simp add: byte_simps)
  ultimately show ?thesis using that 0 p by (simp add: ti_del_def)
qed

text \<open>When nothing is due any more, no abstract deadline has passed.\<close>

lemma nothing_due:
  assumes rep: "reps s A" and x: "fmlookup (a_jobs A) jid = Some x"
  shows "ti_pop_due now (ix_scheduled (st_ix s)) = None \<Longrightarrow> aj_place x = InScheduled d a \<Longrightarrow> now < d"
    and "ti_pop_due now (ix_leases (st_ix s)) = None \<Longrightarrow> aj_place x = InFlight d a \<Longrightarrow> now < d"
proof -
  note J = repsD(1) [OF rep] and ok = jobs_rep_ok [OF repsD(1) [OF rep] x]
  show "now < d" if none: "ti_pop_due now (ix_scheduled (st_ix s)) = None" and p: "aj_place x = InScheduled d a"
  proof -
    have "fmlookup (ti_keys (ix_scheduled (st_ix s))) (TimerKey_encode d jid) = Some (aj_queue x)"
      using p by (intro keyed_lookup [OF jobs_rep_keyed(3) [OF J] x]) (simp add: six_view_def)
    from tpop.pop_empty [OF timer_keys_ok_reps(1) [OF rep] none this] place_deadline_ok(1) [OF ok p]
    show ?thesis by (simp add: byte_simps)
  qed
  show "now < d" if none: "ti_pop_due now (ix_leases (st_ix s)) = None" and p: "aj_place x = InFlight d a"
  proof -
    have "fmlookup (ti_keys (ix_leases (st_ix s))) (TimerKey_encode d jid) = Some (aj_queue x)"
      using p by (intro keyed_lookup [OF jobs_rep_keyed(4) [OF J] x]) (simp add: lix_view_def)
    from tpop.pop_empty [OF timer_keys_ok_reps(2) [OF rep] none this] place_deadline_ok(2) [OF ok p]
    show ?thesis by (simp add: byte_simps)
  qed
qed

lemma promote_entry_refines:
  assumes rep: "reps s A" and x: "fmlookup (a_jobs A) jid = Some x" "aj_place x = InScheduled d a"
    and k: "k = TimerKey_encode d jid"
    and pro: "promote_entry P E k (on_scheduled (\<lambda>_. ti_del k (ix_scheduled (st_ix s))) s) = (Inr u, s')"
  shows "reps s' (A\<lparr>a_jobs := fmupd jid (x\<lparr>aj_place := InReady a\<rparr>) (a_jobs A)\<rparr>)" and "cy_dirty (st_cyc s')"
proof -
  note J = repsD(1) [OF rep]
  note ok = jobs_rep_ok [OF J x(1)]
  have d: "i64_ok d" using place_deadline_ok(1) [OF ok x(2)] by simp
  have id: "j_id (aj_job x) = jid" using ok by (simp add: ajob_ok_def)
  have row: "fmlookup (txv (st_tx s) Scheduled) k = Some (u32_be a)"
    using x by (intro keyed_lookup [OF jobs_rep_keyed(1) [OF J] x(1)]) (simp_all add: job_spaces_def k)
  have g1: "tx_get E (st_tx s) Scheduled k = Inr w \<Longrightarrow> w = Some (u32_be a)" for w
    using get_view [of "st_tx s" Scheduled k] row by simp
  have g2: "tx_get E (tx_remove E (st_tx s) Scheduled k) Jobs jid = Inr w \<Longrightarrow>
      w = Some (JobValue_encode P (aj_queue x) (aj_job x))" for w
    using get_view [of "tx_remove E (st_tx s) Scheduled k" Jobs jid] jobs_rep_job [OF J, of jid] x
    by (simp add: view_simps)
  let ?s1 = "mark_dirty (del E Scheduled k (on_scheduled (\<lambda>_. ti_del k (ix_scheduled (st_ix s))) s))"
  have s': "s' = new_ready (aj_queue x) (on_cycle (sweep_promotion (aj_queue x))
      (on_ready (ri_ins (rkey P x) a) (put E Ready (rkey P x) (u32_be a) ?s1)))"
    using pro g1 g2 job_decode_stored [OF ok] d
    by (auto simp: promote_entry_def k [symmetric] TimerKey_job_id_encode [OF d, of jid, folded k]
        rkey_def enq_ms_def Let_def split: sum.splits option.splits)
  show "cy_dirty (st_cyc s')" by (simp add: s')
  show "reps s' (A\<lparr>a_jobs := fmupd jid (x\<lparr>aj_place := InReady a\<rparr>) (a_jobs A)\<rparr>)"
  proof (rule reps_move_step [OF rep x(1)])
    show "ajob_ok P jid (x\<lparr>aj_place := InReady a\<rparr>)" using ok x by (auto simp: ajob_ok_def place_ok_def)
  qed (use x k in \<open>auto simp: s' rkey_def lease_simps\<close>)
qed

lemma sweep_scheduled_refines:
  assumes "reps s A" and "sweep_scheduled P E now remaining processed s = (Inr n, s')"
  shows "\<exists>js A'. arun A (map Promoted js) A' \<and> reps s' A' \<and> n = processed + length js
    \<and> length js \<le> remaining
    \<and> visited (scheduled_by now) promote_job (a_jobs A) js (a_jobs A') \<and> a_dead A' = a_dead A \<and> a_dedup A' = a_dedup A \<and> a_closing A' = a_closing A
    \<and> (length js < remaining \<longrightarrow> (\<forall>jid x. fmlookup (a_jobs A') jid = Some x \<longrightarrow> \<not> scheduled_by now jid x))
    \<and> (if js = [] then s' = s else cy_dirty (st_cyc s'))"
  using assms
proof (induction remaining arbitrary: s A processed)
  case 0
  then show ?case by (auto intro!: exI [of _ "[]"])
next
  case (Suc r)
  note rep = Suc.prems(1)
  show ?case
  proof (cases "ti_pop_due now (ix_scheduled (st_ix s))")
    case None
    have "\<not> scheduled_by now jid x" if "fmlookup (a_jobs A) jid = Some x" for jid x
      using nothing_due(1) [OF rep that None] by (cases "aj_place x") (auto simp: scheduled_by_def not_le)
    with Suc.prems rep None show ?thesis by (intro exI [of _ "[]"] exI [of _ A]) simp
  next
    case (Some e)
    obtain k q rest where e: "e = ((k, q), rest)" by (metis surj_pair)
    obtain jid x d a where x: "fmlookup (a_jobs A) jid = Some x" "aj_place x = InScheduled d a"
      and k: "k = TimerKey_encode d jid" and due: "d \<le> now" and rest: "rest = ti_del k (ix_scheduled (st_ix s))"
      using pop_scheduled [OF rep Some [unfolded e]] by metis
    obtain u s1 where p: "promote_entry P E k (on_scheduled (\<lambda>_. rest) s) = (Inr u, s1)"
      and go: "sweep_scheduled P E now r (processed + 1) s1 = (Inr n, s')"
      using Suc.prems(2) Some e by (auto split: prod.splits sum.splits)
    note step = promote_entry_refines [OF rep x k p [unfolded rest]]
    from Suc.IH [OF step(1) go] obtain js A' where
      "arun (A\<lparr>a_jobs := fmupd jid (x\<lparr>aj_place := InReady a\<rparr>) (a_jobs A)\<rparr>) (map Promoted js) A'"
      "reps s' A'" "n = processed + 1 + length js" "length js \<le> r"
      and v: "visited (scheduled_by now) promote_job (fmupd jid (x\<lparr>aj_place := InReady a\<rparr>) (a_jobs A)) js (a_jobs A')"
      and A': "a_dead A' = a_dead A \<and> a_dedup A' = a_dedup A \<and> a_closing A' = a_closing A"
      and "length js < r \<longrightarrow> (\<forall>jid x. fmlookup (a_jobs A') jid = Some x \<longrightarrow> \<not> scheduled_by now jid x)"
      "if js = [] then s' = s1 else cy_dirty (st_cyc s')"
      by auto
    moreover have "visited (scheduled_by now) promote_job (a_jobs A) (jid # js) (a_jobs A')"
      by (rule visited_Cons [OF x(1)]) (use x due v in \<open>auto simp: scheduled_by_def promote_job_def\<close>)
    ultimately show ?thesis using step(2) astep.promote [OF x]
      by (intro exI [of _ "jid # js"] exI [of _ A']) (auto intro: arun_Cons split: if_splits)
  qed
qed

lemma expire_dead_letter_refines:
  assumes rep: "reps s A" and x: "fmlookup (a_jobs A) jid = Some x" "aj_place x = InFlight d a"
    and k: "k = TimerKey_encode d jid" and now: "0 \<le> now" "i64_ok now"
    and i: "i = (mk_inflight P x d a)\<lparr>if_trace_context := tc\<rparr>"
    and ex: "expire_dead_letter P E now en jid i
      (mark_dirty (del E Leases k (on_leases (\<lambda>_. ti_del k (ix_leases (st_ix s))) s))) = (Inr u, s')"
  shows "reps s' (kill jid (if en then Some (dead_of P x (expiry_meta now x)) else None) A)"
    and "cy_dirty (st_cyc s')"
proof -
  let ?s1 = "mark_dirty (del E Leases k (on_leases (\<lambda>_. ti_del k (ix_leases (st_ix s))) s))"
  let ?m = "\<lparr>dm_cause = CauseLeaseExpired, dm_failed_at = now, dm_attempt = if_attempt i, dm_last_reason = None\<rparr>"
  from ex obtain s2 where st: "maybe_store_dead_letter P E jid ?m en ?s1 = (Inr (), s2)"
    and s': "s' = on_cycle (dead_lettered (if_queue i) ''lease_expired'')
      (del E Inflight jid (del E Payloads jid (del E Jobs jid s2)))"
    by (auto simp: expire_dead_letter_def Let_def split: prod.splits sum.splits)
  have J1: "jobs_rep P (txv (st_tx s)) (st_ix s) (a_jobs A)" by (rule repsD(1) [OF rep])
  have read: "w = Some (dead_job x (j_attempt (aj_job x)))"
    if "read_dead_letter_job P E (st_tx ?s1) jid = Inr w" for w
  proof -
    have ok: "ajob_ok P jid x" by (rule jobs_rep_ok [OF J1 x(1)])
    have g1: "tx_get E (st_tx ?s1) Jobs jid = Inr v \<Longrightarrow> v = Some (JobValue_encode P (aj_queue x) (aj_job x))" for v
      using get_view [of "st_tx ?s1" Jobs jid] jobs_rep_job [OF J1, of jid] x by (simp add: view_simps)
    have g2: "tx_get E (st_tx ?s1) Payloads jid = Inr v \<Longrightarrow> v = map_option (payload_encode P) (aj_payload x)" for v
      using get_view [of "st_tx ?s1" Payloads jid] jobs_rep_payload [OF J1, of jid] x by (simp add: view_simps)
    from that show "w = Some (dead_job x (j_attempt (aj_job x)))"
      by (intro read_dead_letter_row [OF ok g1 g2])
  qed
  then have "\<forall>w. read_dead_letter_job P E (st_tx ?s1) jid = Inr w \<longrightarrow>
      w = Some (dead_job x (j_attempt (aj_job x)))" by blast
  note s2 = maybe_store_row [OF this st]
  have m: "meta_ok ?m" using now by (simp add: meta_ok_def)
  note okd = dead_of_ok [OF jobs_rep_ok [OF J1 x(1)] m]
  have meta: "?m = expiry_meta now x" using x by (simp add: i mk_inflight_def expiry_meta_def)
  show "reps s' (kill jid (if en then Some (dead_of P x (expiry_meta now x)) else None) A)"
    unfolding meta [symmetric] by (rule reps_kill_step [OF rep x(1)])
       (use x okd k in \<open>auto simp: s' s2 lease_simps split: if_splits\<close>)
  show "cy_dirty (st_cyc s')" by (simp add: s' s2)
qed

lemma expire_redeliver_refines:
  assumes rep: "reps s A" and x: "fmlookup (a_jobs A) jid = Some x" "aj_place x = InFlight d a"
    and k: "k = TimerKey_encode d jid" and less: "a < j_max_attempts (aj_job x)"
    and i: "i = (mk_inflight P x d a)\<lparr>if_trace_context := tc\<rparr>"
    and s': "s' = expire_redeliver E jid i
      (mark_dirty (del E Leases k (on_leases (\<lambda>_. ti_del k (ix_leases (st_ix s))) s)))"
  shows "reps s' (A\<lparr>a_jobs := fmupd jid (x\<lparr>aj_place := InReady (a + 1)\<rparr>) (a_jobs A)\<rparr>)"
    and "cy_dirty (st_cyc s')"
proof -
  note ok = jobs_rep_ok [OF repsD(1) [OF rep] x(1)]
  have id: "j_id (aj_job x) = jid" "from_utf8 jid = Some jid"
    using ok by (simp_all add: ajob_ok_def from_utf8_def)
  show "cy_dirty (st_cyc s')" by (simp add: s' expire_redeliver_def id Let_def)
  show "reps s' (A\<lparr>a_jobs := fmupd jid (x\<lparr>aj_place := InReady (a + 1)\<rparr>) (a_jobs A)\<rparr>)"
  proof (rule reps_move_step [OF rep x(1)])
    show "ajob_ok P jid (x\<lparr>aj_place := InReady (a + 1)\<rparr>)"
      using ok attempt_step [OF less] by (simp add: ajob_ok_def place_ok_def)
  qed (use x k id in \<open>auto simp: s' expire_redeliver_def i rkey_def lease_simps\<close>)
qed

text \<open>An expired lease ends in a redelivery or in death, never in the same state.\<close>

lemma lease_entry_refines:
  assumes rep: "reps s A" and x: "fmlookup (a_jobs A) jid = Some x" "aj_place x = InFlight d a"
    and k: "k = TimerKey_encode d jid" and now: "0 \<le> now" "i64_ok now"
    and run: "lease_entry P E now en k (on_leases (\<lambda>_. ti_del k (ix_leases (st_ix s))) s) = (Inr u, s')"
  shows "\<exists>A' e. astep A e A' \<and> expiry_event e \<and> reps s' A' \<and> cy_dirty (st_cyc s')
    \<and> a_jobs A' = set_opt jid (expire_job jid x) (a_jobs A) \<and> a_dedup A' = a_dedup A \<and> a_closing A' = a_closing A
    \<and> (\<forall>j. fmlookup (a_dead A') j = expired_dead P now en A [jid] j)"
proof -
  note J = repsD(1) [OF rep]
  note ok = jobs_rep_ok [OF J x(1)]
  let ?s1 = "mark_dirty (del E Leases k (on_leases (\<lambda>_. ti_del k (ix_leases (st_ix s))) s))"
  let ?i = "(mk_inflight P x d a)\<lparr>if_trace_context := tc_stored (j_trace_context (aj_job x))\<rparr>"
  have d: "i64_ok d" using place_deadline_ok(2) [OF ok x(2)] by simp
  have g: "tx_get E (tx_remove E (st_tx s) Leases k) Inflight jid = Inr w \<Longrightarrow>
      w = Some (Inflight_encode P (mk_inflight P x d a))" for w
    using get_view [of "tx_remove E (st_tx s) Leases k" Inflight jid] jobs_rep_inflight [OF J, of jid] x
    by (simp add: view_simps)
  have i: "if_attempt ?i = a" "if_max_attempts ?i = j_max_attempts (aj_job x)"
    by (simp_all add: mk_inflight_def)
  have body: "(if j_max_attempts (aj_job x) \<le> a then expire_dead_letter P E now en jid ?i ?s1
      else (Inr (), expire_redeliver E jid ?i ?s1)) = (Inr u, s')"
    using run g inflight_decode [OF ok x(2)] i
    by (auto simp: lease_entry_def TimerKey_job_id_encode [OF d, of jid, folded k] Let_def
        split: sum.splits option.splits if_splits)
  show ?thesis
  proof (cases "j_max_attempts (aj_job x) \<le> a")
    case True
    with body have "expire_dead_letter P E now en jid ?i ?s1 = (Inr u, s')" by simp
    note fin = expire_dead_letter_refines [OF rep x k now refl this]
    have "expire_job jid x = None" using True x by (simp add: expire_job_def)
    then have "fmlookup (a_dead (kill jid (if en then Some (dead_of P x (expiry_meta now x)) else None) A)) j
        = expired_dead P now en A [jid] j" for j
      using x by (cases "fmlookup (a_jobs A) j") (auto simp: kill_def expired_dead_def)
    with fin \<open>expire_job jid x = None\<close> astep.kill [OF x(1)] show ?thesis
      by (intro exI [of _ "kill jid (if en then Some (dead_of P x (expiry_meta now x)) else None) A"] exI [of _ "Killed jid"])
        (simp add: expiry_event_def, simp add: kill_def)
  next
    case False
    then have less: "a < j_max_attempts (aj_job x)" and s': "s' = expire_redeliver E jid ?i ?s1"
      using body by simp_all
    have "astep A (Retried jid) (A\<lparr>a_jobs := fmupd jid (x\<lparr>aj_place := InReady (a + 1)\<rparr>) (a_jobs A)\<rparr>)"
      by (rule astep.retry [OF x less]) simp
    moreover have job: "expire_job jid x = Some (x\<lparr>aj_place := InReady (a + 1)\<rparr>)"
      using less x by (simp add: expire_job_def)
    then have "fmlookup (a_dead A) j = expired_dead P now en A [jid] j" for j
      using x by (cases "fmlookup (a_jobs A) j") (auto simp: expired_dead_def)
    ultimately show ?thesis using expire_redeliver_refines [OF rep x k less refl s'] job
      by (intro exI [of _ "A\<lparr>a_jobs := fmupd jid (x\<lparr>aj_place := InReady (a + 1)\<rparr>) (a_jobs A)\<rparr>"] exI [of _ "Retried jid"])
        (simp add: expiry_event_def)
  qed
qed

lemma expired_dead_Nil [simp]: "expired_dead P now en A [] j = fmlookup (a_dead A) j"
  by (simp add: expired_dead_def split: option.splits)

lemma expired_dead_Cons:
  assumes A1: "a_jobs A1 = set_opt jid (expire_job jid x) (a_jobs A)"
    and dead: "\<forall>j. fmlookup (a_dead A1) j = expired_dead P now en A [jid] j"
    and x: "fmlookup (a_jobs A) jid = Some x" and js: "jid \<notin> set js"
  shows "expired_dead P now en A1 js j = expired_dead P now en A (jid # js) j"
proof -
  have jobs: "fmlookup (a_jobs A1) j = (if j = jid then expire_job jid x else fmlookup (a_jobs A) j)"
    by (simp add: A1)
  show ?thesis
    using x js dead [rule_format, of j] by (auto simp: expired_dead_def [of P now en A1] jobs)
      (auto simp: expired_dead_def split: option.splits)
qed

lemma sweep_leases_refines:
  assumes "reps s A" and "sweep_leases P E now en remaining processed s = (Inr n, s')"
    and now: "0 \<le> now" "i64_ok now"
  shows "\<exists>es js A'. arun A es A' \<and> list_all expiry_event es \<and> reps s' A' \<and> n = processed + length es
    \<and> length es \<le> remaining \<and> length js = length es
    \<and> visited (leased_until now) expire_job (a_jobs A) js (a_jobs A')
    \<and> a_dedup A' = a_dedup A \<and> a_closing A' = a_closing A
    \<and> (\<forall>j. fmlookup (a_dead A') j = expired_dead P now en A js j)
    \<and> (length es < remaining \<longrightarrow> (\<forall>jid x. fmlookup (a_jobs A') jid = Some x \<longrightarrow> \<not> leased_until now jid x))
    \<and> (if es = [] then s' = s else cy_dirty (st_cyc s'))"
  using assms(1,2)
proof (induction remaining arbitrary: s A processed)
  case 0
  then show ?case by (intro exI [of _ "[]"] exI [of _ A]) auto
next
  case (Suc r)
  note rep = Suc.prems(1)
  show ?case
  proof (cases "ti_pop_due now (ix_leases (st_ix s))")
    case None
    have "\<not> leased_until now jid x" if "fmlookup (a_jobs A) jid = Some x" for jid x
      using nothing_due(2) [OF rep that None] by (cases "aj_place x") (auto simp: leased_until_def not_le)
    with Suc.prems rep None show ?thesis by (intro exI [of _ "[]"] exI [of _ A]) simp
  next
    case (Some e)
    obtain k q rest where e: "e = ((k, q), rest)" by (metis surj_pair)
    obtain jid x d a where x: "fmlookup (a_jobs A) jid = Some x" "aj_place x = InFlight d a"
      and k: "k = TimerKey_encode d jid" and due: "d \<le> now" and rest: "rest = ti_del k (ix_leases (st_ix s))"
      using pop_lease [OF rep Some [unfolded e]] by metis
    obtain u s1 where p: "lease_entry P E now en k (on_leases (\<lambda>_. rest) s) = (Inr u, s1)"
      and go: "sweep_leases P E now en r (processed + 1) s1 = (Inr n, s')"
      using Suc.prems(2) Some e by (auto split: prod.splits sum.splits)
    obtain ev A1 where 1: "astep A ev A1" "reps s1 A1" "expiry_event ev" and dirty: "cy_dirty (st_cyc s1)"
      and jobs1: "a_jobs A1 = set_opt jid (expire_job jid x) (a_jobs A)"
      and A1: "a_dedup A1 = a_dedup A" "a_closing A1 = a_closing A"
      and dead: "\<forall>j. fmlookup (a_dead A1) j = expired_dead P now en A [jid] j"
      using lease_entry_refines [OF rep x k now p [unfolded rest]] by blast
    from Suc.IH [OF 1(2) go] obtain es js A' where IH: "arun A1 es A'" "list_all expiry_event es"
      "reps s' A'" "n = processed + 1 + length es" "length es \<le> r" "length js = length es"
      and v: "visited (leased_until now) expire_job (a_jobs A1) js (a_jobs A')"
      and A': "a_dedup A' = a_dedup A1" "a_closing A' = a_closing A1"
      and dead': "\<forall>j. fmlookup (a_dead A') j = expired_dead P now en A1 js j"
      and none: "length es < r \<longrightarrow> (\<forall>jid x. fmlookup (a_jobs A') jid = Some x \<longrightarrow> \<not> leased_until now jid x)"
      and dirty': "if es = [] then s' = s1 else cy_dirty (st_cyc s')"
      by blast
    have "visited (leased_until now) expire_job (a_jobs A) (jid # js) (a_jobs A')"
      by (rule visited_Cons [OF x(1)])
        (use x due v in \<open>auto simp: leased_until_def expire_job_def jobs1 split: if_splits\<close>)
    moreover from this have "jid \<notin> set js" by (simp add: visited_def)
    then have "\<forall>j. fmlookup (a_dead A') j = expired_dead P now en A (jid # js) j"
      using dead' expired_dead_Cons [OF jobs1 dead x(1)] by simp
    ultimately show ?thesis using A' A1 IH 1(1,3) dirty dirty' none
      by (intro exI [of _ "ev # es"] exI [of _ "jid # js"] exI [of _ A'])
        (simp add: arun_Cons split: if_splits)
  qed
qed

lemma reps_dedup_drop:
  assumes rep: "reps s A" and u: "fmlookup (a_dedup A) k = Some u"
    and V: "txv (st_tx s') = (txv (st_tx s))(Dedup := fmdrop k (txv (st_tx s) Dedup),
      DedupTimers := fmdrop (dedup_timer k u) (txv (st_tx s) DedupTimers))"
    and ix: "st_ix s' = (st_ix s)\<lparr>ix_dedup_timers := ti_del (dedup_timer k u) (ix_dedup_timers (st_ix s))\<rparr>"
  shows "reps s' (A\<lparr>a_dedup := fmdrop k (a_dedup A)\<rparr>)"
proof -
  have "dedup_rep (txv (st_tx s')) (st_ix s') (set_opt k None (a_dedup A))"
    using u V ix by (intro dedup_rep_step [OF repsD(3) [OF rep]])
      (simp_all add: chg_def uview_def utview_def uix_view_def)
  then show ?thesis
    using rep V ix unfolding reps_def represents_def
    by (auto simp: jobs_rep_def dead_rep_def closing_rep_def)
qed

lemma pop_dedup:
  assumes rep: "reps s A" and pop: "ti_pop_due now (ix_dedup_timers (st_ix s)) = Some ((tk, q), rest)"
  obtains k u where "fmlookup (a_dedup A) k = Some u" and "tk = dedup_timer k u" and "q = dp_queue u"
    and "dv_deadline (dp_value u) \<le> now" and "rest = ti_del tk (ix_dedup_timers (st_ix s))"
    and "adedup_ok k u"
proof -
  note p = ti_pop_due_Some [OF pop] and U = repsD(3) [OF rep]
  from p U keyed_lookupD [of uix_view "a_dedup A" "ti_keys (ix_dedup_timers (st_ix s))" tk q]
  obtain k u where u: "fmlookup (a_dedup A) k = Some u" "tk = dedup_timer k u" "q = dp_queue u"
    by (auto simp: dedup_rep_def uix_view_def)
  have ok: "adedup_ok k u" using U u by (simp add: dedup_rep_def)
  then have "dv_deadline (dp_value u) \<le> now"
    using p u by (simp add: dedup_timer_def adedup_ok_def byte_simps)
  with that u ok p show ?thesis by (simp add: ti_del_def)
qed

lemma no_dedup_due:
  assumes rep: "reps s A" and "ti_pop_due now (ix_dedup_timers (st_ix s)) = None"
    and u: "fmlookup (a_dedup A) k = Some u"
  shows "\<not> dedup_until now k u"
proof -
  note U = repsD(3) [OF rep]
  have "fmlookup (ti_keys (ix_dedup_timers (st_ix s))) (dedup_timer k u) = Some (dp_queue u)"
    using U u keyed_lookup [of uix_view "a_dedup A" "ti_keys (ix_dedup_timers (st_ix s))" k u]
    by (simp add: dedup_rep_def uix_view_def)
  from tpop.pop_empty [OF timer_keys_ok_reps(3) [OF rep] assms(2) this] U u show ?thesis
    by (simp add: dedup_rep_def adedup_ok_def dedup_timer_def byte_simps dedup_until_def)
qed

lemma no_dead_due:
  assumes rep: "reps s A" and "ti_pop_due cutoff (ix_dead_letter (st_ix s)) = None"
    and d: "fmlookup (a_dead A) j = Some d"
  shows "\<not> failed_by cutoff j d"
proof -
  note D = repsD(2) [OF rep]
  have "fmlookup (ti_keys (ix_dead_letter (st_ix s))) (dead_key j d) = Some (dd_queue d)"
    using D d keyed_lookup [of dix_view "a_dead A" "ti_keys (ix_dead_letter (st_ix s))" j d]
    by (simp add: dead_rep_def dix_view_def)
  from tpop.pop_empty [OF timer_keys_ok_reps(4) [OF rep] assms(2) this] D d show ?thesis
    by (simp add: dead_rep_def adead_ok_def dead_key_def queue_ok_def byte_simps failed_by_def)
qed

lemma dedup_entry_refines:
  assumes rep: "reps s A" and u: "fmlookup (a_dedup A) k = Some u" and ok: "adedup_ok k u"
    and due: "dv_deadline (dp_value u) \<le> now" and tk: "tk = dedup_timer k u"
    and run: "dedup_entry E now tk q (on_dedup_timers (\<lambda>_. ti_del tk (ix_dedup_timers (st_ix s))) s) = (Inr r, s')"
  shows "reps s' (A\<lparr>a_dedup := fmdrop k (a_dedup A)\<rparr>)" and "cy_dirty (st_cyc s')"
proof -
  have key: "DedupTimerKey_dedup_key tk = Some k"
    using ok by (simp add: tk dedup_timer_def adedup_ok_def byte_simps)
  have dec: "DedupValue_decode (DedupValue_encode (dp_value u)) = Some (dp_value u)"
    using ok by (simp add: adedup_ok_def byte_simps)
  have g: "tx_get E (st_tx s) Dedup k = Inr w \<Longrightarrow> w = Some (DedupValue_encode (dp_value u))" for w
    using get_view [of "st_tx s" Dedup k] dedup_rep_lookup [OF repsD(3) [OF rep], of k] u by simp
  have s': "s' = mark_dirty (on_cycle (sweep_dedup_expiration q) (del E DedupTimers tk
      (del E Dedup k (on_dedup_timers (\<lambda>_. ti_del tk (ix_dedup_timers (st_ix s))) s))))"
    using run key dec g due by (auto simp: dedup_entry_def Let_def split: sum.splits)
  show "cy_dirty (st_cyc s')" by (simp add: s')
  show "reps s' (A\<lparr>a_dedup := fmdrop k (a_dedup A)\<rparr>)"
    by (rule reps_dedup_drop [OF rep u]) (simp_all add: s' tk view_simps)
qed

lemma sweep_dedup_refines:
  assumes "reps s A" and "sweep_dedup E now remaining processed s = (Inr n, s')"
  shows "\<exists>ks A'. arun A (map DedupDropped ks) A' \<and> reps s' A' \<and> n = processed + length ks
    \<and> length ks \<le> remaining
    \<and> visited (dedup_until now) (\<lambda>_ _. None) (a_dedup A) ks (a_dedup A') \<and> a_jobs A' = a_jobs A \<and> a_dead A' = a_dead A \<and> a_closing A' = a_closing A
    \<and> (length ks < remaining \<longrightarrow> (\<forall>k u. fmlookup (a_dedup A') k = Some u \<longrightarrow> \<not> dedup_until now k u))
    \<and> (if ks = [] then s' = s else cy_dirty (st_cyc s'))"
  using assms
proof (induction remaining arbitrary: s A processed)
  case 0
  then show ?case by (auto intro!: exI [of _ "[]"])
next
  case (Suc r)
  note rep = Suc.prems(1)
  show ?case
  proof (cases "ti_pop_due now (ix_dedup_timers (st_ix s))")
    case None
    with Suc.prems rep no_dedup_due [OF rep None] show ?thesis
      by (intro exI [of _ "[]"] exI [of _ A]) auto
  next
    case (Some e)
    obtain tk q rest where e: "e = ((tk, q), rest)" by (metis surj_pair)
    obtain k u where u: "fmlookup (a_dedup A) k = Some u" and tk: "tk = dedup_timer k u"
      and due: "dv_deadline (dp_value u) \<le> now" and rest: "rest = ti_del tk (ix_dedup_timers (st_ix s))"
      and ok: "adedup_ok k u"
      using pop_dedup [OF rep Some [unfolded e]] by metis
    obtain v s1 where p: "dedup_entry E now tk q (on_dedup_timers (\<lambda>_. rest) s) = (Inr v, s1)"
      and go: "sweep_dedup E now r (processed + 1) s1 = (Inr n, s')"
      using Suc.prems(2) Some e by (auto split: prod.splits sum.splits)
    note step = dedup_entry_refines [OF rep u ok due tk p [unfolded rest]]
    from Suc.IH [OF step(1) go] obtain ks A' where
      "arun (A\<lparr>a_dedup := fmdrop k (a_dedup A)\<rparr>) (map DedupDropped ks) A'" "reps s' A'"
      "n = processed + 1 + length ks" "length ks \<le> r" "if ks = [] then s' = s1 else cy_dirty (st_cyc s')"
      and v: "visited (dedup_until now) (\<lambda>_ _. None) (fmdrop k (a_dedup A)) ks (a_dedup A')"
      and "a_jobs A' = a_jobs A \<and> a_dead A' = a_dead A \<and> a_closing A' = a_closing A"
      and "length ks < r \<longrightarrow> (\<forall>k u. fmlookup (a_dedup A') k = Some u \<longrightarrow> \<not> dedup_until now k u)"
      by auto
    moreover have "visited (dedup_until now) (\<lambda>_ _. None) (a_dedup A) (k # ks) (a_dedup A')"
      by (rule visited_Cons [OF u]) (use due v in \<open>simp_all add: dedup_until_def\<close>)
    ultimately show ?thesis using step(2) astep.dedup_drop [OF u]
      by (intro exI [of _ "k # ks"] exI [of _ A']) (auto intro: arun_Cons split: if_splits)
  qed
qed

lemma sweep_retention_refines:
  assumes "reps s A" and "sweep_retention E cutoff remaining expired s = (n, s')"
  shows "\<exists>js A'. arun A (map Buried js) A' \<and> reps s' A' \<and> n = expired + length js
    \<and> length js \<le> remaining
    \<and> visited (failed_by cutoff) (\<lambda>_ _. None) (a_dead A) js (a_dead A') \<and> a_jobs A' = a_jobs A \<and> a_dedup A' = a_dedup A \<and> a_closing A' = a_closing A
    \<and> (length js < remaining \<longrightarrow> (\<forall>j d. fmlookup (a_dead A') j = Some d \<longrightarrow> \<not> failed_by cutoff j d))
    \<and> (if js = [] then s' = s else cy_dirty (st_cyc s'))"
  using assms
proof (induction remaining arbitrary: s A expired)
  case 0
  then show ?case by (auto intro!: exI [of _ "[]"])
next
  case (Suc r)
  note rep = Suc.prems(1)
  show ?case
  proof (cases "ti_pop_due cutoff (ix_dead_letter (st_ix s))")
    case None
    with Suc.prems rep no_dead_due [OF rep None] show ?thesis
      by (intro exI [of _ "[]"] exI [of _ A]) auto
  next
    case (Some e)
    obtain k q rest where e: "e = ((k, q), rest)" by (metis surj_pair)
    note p = ti_pop_due_Some [OF Some [unfolded e]]
    obtain jid d where d: "fmlookup (a_dead A) jid = Some d" "k = dead_key jid d"
      using p unfolding dead_index [OF rep] by auto
    have "adead_ok jid d" using repsD(2) [OF rep] d by (simp add: dead_rep_def)
    then have due: "dd_failed_at d \<le> cutoff"
      using p d by (simp add: dead_key_def adead_ok_def queue_ok_def byte_simps)
    let ?s1 = "mark_dirty (del E DeadLetter k (on_dead_letter (\<lambda>_. rest) s))"
    have rep1: "reps ?s1 (A\<lparr>a_dead := fmdrop jid (a_dead A)\<rparr>)"
      by (rule reps_dead_drop [OF rep d(1)]) (use p d in \<open>simp_all add: ti_del_def view_simps\<close>)
    have go: "sweep_retention E cutoff r (expired + 1) ?s1 = (n, s')" using Suc.prems(2) Some e by simp
    from Suc.IH [OF rep1 go] obtain js A' where IH:
      "arun (A\<lparr>a_dead := fmdrop jid (a_dead A)\<rparr>) (map Buried js) A'" "reps s' A'"
      "n = expired + 1 + length js" "length js \<le> r"
      "a_jobs A' = a_jobs A \<and> a_dedup A' = a_dedup A \<and> a_closing A' = a_closing A"
      "length js < r \<longrightarrow> (\<forall>j d. fmlookup (a_dead A') j = Some d \<longrightarrow> \<not> failed_by cutoff j d)"
      "if js = [] then s' = ?s1 else cy_dirty (st_cyc s')"
      and v: "visited (failed_by cutoff) (\<lambda>_ _. None) (fmdrop jid (a_dead A)) js (a_dead A')" by auto
    have "visited (failed_by cutoff) (\<lambda>_ _. None) (a_dead A) (jid # js) (a_dead A')"
      by (rule visited_Cons [OF d(1)]) (use due v in \<open>simp_all add: failed_by_def\<close>)
    with IH astep.bury [OF d(1)] show ?thesis
      by (intro exI [of _ "jid # js"] exI [of _ A']) (auto intro: arun_Cons split: if_splits)
  qed
qed

lemma drop_tombstones:
  defines "run \<equiv> foldl (\<lambda>s (q, _). mark_dirty (del E Meta (closing_key q) s))"
  shows "st_ix (run s qs) = st_ix s"
    and "ks \<noteq> Meta \<Longrightarrow> txv (st_tx (run s qs)) ks = txv (st_tx s) ks"
    and "fmlookup (txv (st_tx (run s qs)) Meta) k =
      (if k \<in> closing_key ` fst ` set qs then None else fmlookup (txv (st_tx s) Meta) k)"
    and "qs \<noteq> [] \<Longrightarrow> cy_dirty (st_cyc (run s qs))"
  unfolding run_def
  by (induction qs rule: rev_induct) (auto simp: view_simps split: prod.splits)

lemma sweep_closing_refines:
  fixes now :: i64
  assumes rep: "reps s A"
  defines "qs \<equiv> map fst (filter (\<lambda>(_, deadline). \<not> deadline > now) (sorted_list_of_fmap (a_closing A)))"
  shows "reps (sweep_closing E now s) (A\<lparr>a_closing := fmdrop_set (set qs) (a_closing A)\<rparr>)"
    and "q \<in> set qs \<longleftrightarrow> (\<exists>d. fmlookup (a_closing A) q = Some d \<and> d \<le> now)"
    and "if qs = [] then sweep_closing E now s = s else cy_dirty (st_cyc (sweep_closing E now s))"
proof -
  let ?es = "filter (\<lambda>(_, deadline). \<not> deadline > now) (sorted_list_of_fmap (a_closing A))"
  let ?C = "fmdrop_set (set qs) (a_closing A)"
  note C = repsD(4) [OF rep] and ix = closing_index [OF rep]
  show mem: "q \<in> set qs \<longleftrightarrow> (\<exists>d. fmlookup (a_closing A) q = Some d \<and> d \<le> now)" for q
    by (force simp: qs_def set_sorted_list_of_fmap)
  have filt: "fmfilter (\<lambda>q. case fmlookup (a_closing A) q of Some d \<Rightarrow> d > now | None \<Rightarrow> False) (a_closing A) = ?C"
    by (intro fmap_ext) (auto simp: mem split: option.splits)
  have run: "sweep_closing E now s = on_closing (\<lambda>_. ?C)
      (foldl (\<lambda>s (q, _). mark_dirty (del E Meta (closing_key q) s)) s ?es)"
    using filt by (simp only: sweep_closing_def Let_def ix on_closing_def drop_tombstones(1))
  have keys: "closing_key q \<in> closing_key ` fst ` set ?es \<longleftrightarrow> q \<in> set qs" for q
    by (auto simp: qs_def image_iff)
  show "reps (sweep_closing E now s) (A\<lparr>a_closing := ?C\<rparr>)"
  proof (rule reps_closing_step [OF rep])
    show "fmlookup (txv (st_tx (sweep_closing E now s)) Meta) (closing_key q) = map_option i64_be (fmlookup ?C q)" for q
      using C unfolding run st_tx_simps drop_tombstones(3) keys by (simp add: closing_rep_def)
    show "utf8_valid q \<and> i64_ok d" if "fmlookup ?C q = Some d" for q d
      using C that by (auto simp: closing_rep_def split: if_splits)
  qed (simp_all add: run drop_tombstones(1,2))
  show "if qs = [] then sweep_closing E now s = s else cy_dirty (st_cyc (sweep_closing E now s))"
  proof (cases "qs = []")
    case True
    then have "?es = []" by (simp add: qs_def)
    moreover have "?C = a_closing A" using True by (intro fmap_ext) simp
    ultimately show ?thesis using True ix by (simp add: run on_closing_def)
  next
    case False
    then show ?thesis using drop_tombstones(4) [of ?es s] by (auto simp: run qs_def)
  qed
qed

text \<open>
  The exact effect of a sweep: which entries each phase took, and that it took all that were due
  unless it used up its budget.
\<close>

lemma apply_sweep_exact:
  assumes rep: "reps s A" and now: "0 \<le> now" "i64_ok now"
    and run: "apply_sweep P E now budget cutoff en s = (Inr n, s')"
  shows "\<exists>js ls ks bs A'. reps s' A' \<and> swept P now en js ls ks bs A A'
    \<and> n = length js + length ls + length ks + length bs
    \<and> picked (fmlookup (a_jobs A)) (scheduled_by now) budget js
    \<and> picked (fmlookup (a_jobs A)) (leased_until now) budget ls
    \<and> picked (fmlookup (a_dedup A)) (dedup_until now) budget ks
    \<and> (case cutoff of None \<Rightarrow> bs = []
       | Some c \<Rightarrow> picked (expired_dead P now en A ls) (failed_by c) budget bs)"
proof -
  let ?s0 = "sweep_closing E now s"
  define qs where "qs = map fst (filter (\<lambda>(_, deadline). \<not> deadline > now) (sorted_list_of_fmap (a_closing A)))"
  let ?A0 = "A\<lparr>a_closing := fmdrop_set (set qs) (a_closing A)\<rparr>"
  note c = sweep_closing_refines(1) [OF rep, of now, folded qs_def]
  from run obtain n1 s1 n2 s2 n3 s3 where
    r1: "sweep_scheduled P E now budget 0 ?s0 = (Inr n1, s1)"
    and r2: "sweep_leases P E now en budget n1 s1 = (Inr n2, s2)"
    and r3: "sweep_dedup E now budget n2 s2 = (Inr n3, s3)"
    by (auto simp: apply_sweep_def split: prod.splits sum.splits)
  obtain js A1 where 1: "reps s1 A1" "n1 = length js" "length js \<le> budget"
    and v1: "visited (scheduled_by now) promote_job (a_jobs A) js (a_jobs A1)"
    and k1: "a_dead A1 = a_dead A" "a_dedup A1 = a_dedup A" "a_closing A1 = fmdrop_set (set qs) (a_closing A)"
    and m1: "length js < budget \<longrightarrow> (\<forall>jid x. fmlookup (a_jobs A1) jid = Some x \<longrightarrow> \<not> scheduled_by now jid x)"
    using sweep_scheduled_refines [OF c r1] by auto
  obtain ls A2 where 2: "reps s2 A2" "n2 = n1 + length ls" "length ls \<le> budget"
    and v2: "visited (leased_until now) expire_job (a_jobs A1) ls (a_jobs A2)"
    and k2: "a_dedup A2 = a_dedup A1" "a_closing A2 = a_closing A1"
    and d2: "\<forall>j. fmlookup (a_dead A2) j = expired_dead P now en A1 ls j"
    and m2: "length ls < budget \<longrightarrow> (\<forall>jid x. fmlookup (a_jobs A2) jid = Some x \<longrightarrow> \<not> leased_until now jid x)"
    using sweep_leases_refines [OF 1(1) r2 now] by metis
  obtain ks A3 where 3: "reps s3 A3" "n3 = n2 + length ks" "length ks \<le> budget"
    and v3: "visited (dedup_until now) (\<lambda>_ _. None) (a_dedup A2) ks (a_dedup A3)"
    and k3: "a_jobs A3 = a_jobs A2" "a_dead A3 = a_dead A2" "a_closing A3 = a_closing A2"
    and m3: "length ks < budget \<longrightarrow> (\<forall>k u. fmlookup (a_dedup A3) k = Some u \<longrightarrow> \<not> dedup_until now k u)"
    using sweep_dedup_refines [OF 2(1) r3] by auto
  note off = promoted_not_leased [OF v1]
  have leased: "j \<notin> set js \<and> (\<exists>x. fmlookup (a_jobs A) j = Some x \<and> fmlookup (a_jobs A1) j = Some x \<and> leased_until now j x)"
    if "j \<in> set ls" for j using v2 that off(1) unfolding visited_def by blast
  have dead: "expired_dead P now en A1 ls j = expired_dead P now en A ls j" for j
    using leased [of j] by (auto simp: expired_dead_def k1 split: option.splits)
  have p1: "picked (fmlookup (a_jobs A)) (scheduled_by now) budget js"
    by (rule visited_picked [OF v1 1(3) m1])
  have p2: "picked (fmlookup (a_jobs A)) (leased_until now) budget ls"
    using visited_picked [OF v2 2(3) m2] off leased unfolding picked_def by blast
  have p3: "picked (fmlookup (a_dedup A)) (dedup_until now) budget ks"
    using visited_picked [OF v3 3(3) m3] k1 k2 by simp
  have jobs: "fmlookup (a_jobs A2) j = (if j \<in> set js then Option.bind (fmlookup (a_jobs A) j) (promote_job j)
      else if j \<in> set ls then Option.bind (fmlookup (a_jobs A) j) (expire_job j) else fmlookup (a_jobs A) j)" for j
    using v1 v2 leased [of j] unfolding visited_def by auto
  have closing: "fmlookup (a_closing A3) q =
      (case fmlookup (a_closing A) q of Some d \<Rightarrow> if d \<le> now then None else Some d | None \<Rightarrow> None)" for q
    using sweep_closing_refines(2) [OF rep, of q now, folded qs_def]
    by (auto simp: k1 k2 k3 split: option.splits)
  have swept: "swept P now en js ls ks bs A A'"
    if "a_jobs A' = a_jobs A3" "a_dedup A' = a_dedup A3" "a_closing A' = a_closing A3"
      "\<forall>j. fmlookup (a_dead A') j = (if j \<in> set bs then None else fmlookup (a_dead A3) j)" for bs A'
    using that jobs closing d2 dead v3 by (simp add: swept_def k1 k2 k3 visited_def)
  show ?thesis
  proof (cases cutoff)
    case None
    with run r1 r2 r3 have "n = n3" "s' = s3" by (auto simp: apply_sweep_def)
    with None 1 2 3 p1 p2 p3 swept [of A3 "[]"] show ?thesis
      by (intro exI [of _ js] exI [of _ ls] exI [of _ ks] exI [of _ "[]"] exI [of _ A3]) simp
  next
    case (Some cu)
    obtain m s4 where r4: "sweep_retention E cu budget 0 s3 = (m, s4)" by fastforce
    obtain bs A' where 4: "reps s4 A'" "m = length bs" "length bs \<le> budget"
      and v4: "visited (failed_by cu) (\<lambda>_ _. None) (a_dead A3) bs (a_dead A')"
      and k4: "a_jobs A' = a_jobs A3" "a_dedup A' = a_dedup A3" "a_closing A' = a_closing A3"
      and m4: "length bs < budget \<longrightarrow> (\<forall>j d. fmlookup (a_dead A') j = Some d \<longrightarrow> \<not> failed_by cu j d)"
      using sweep_retention_refines [OF 3(1) r4] by auto
    have eq: "n = n3 + m" "s' = (if m > 0 then on_cycle (dead_letter_expired m) s4 else s4)"
      using run r1 r2 r3 r4 Some by (auto simp: apply_sweep_def)
    have "reps s' A'" using 4(1) eq by (simp add: reps_def)
    moreover have "fmlookup (a_dead A3) = expired_dead P now en A ls" using d2 dead by (auto simp: k3)
    then have "picked (expired_dead P now en A ls) (failed_by cu) budget bs"
      using visited_picked [OF v4 4(3) m4] by simp
    moreover have "swept P now en js ls ks bs A A'"
      by (rule swept [OF k4]) (use v4 in \<open>simp add: visited_def\<close>)
    ultimately show ?thesis using Some 1 2 3 4 p1 p2 p3 eq
      by (intro exI [of _ js] exI [of _ ls] exI [of _ ks] exI [of _ bs] exI [of _ A']) simp
  qed
qed

text \<open>
  The whole sweep: the events of each phase, at most \<open>budget\<close> per phase. A phase that did not use
  up its budget left nothing due behind.
\<close>

lemma apply_sweep_refines:
  assumes rep: "reps s A" and now: "0 \<le> now" "i64_ok now"
    and run: "apply_sweep P E now budget cutoff en s = (Inr n, s')"
  shows "\<exists>qs js es ks bs A'. arun A (map Opened qs @ map Promoted js @ es @ map DedupDropped ks @ map Buried bs) A'
    \<and> reps s' A' \<and> list_all expiry_event es
    \<and> n = length js + length es + length ks + length bs
    \<and> length js \<le> budget \<and> length es \<le> budget \<and> length ks \<le> budget \<and> length bs \<le> budget
    \<and> (cutoff = None \<longrightarrow> bs = [])
    \<and> (if qs = [] \<and> js = [] \<and> es = [] \<and> ks = [] \<and> bs = [] then s' = s else cy_dirty (st_cyc s'))"
proof -
  let ?s0 = "sweep_closing E now s"
  define qs where "qs = map fst (filter (\<lambda>(_, deadline). \<not> deadline > now) (sorted_list_of_fmap (a_closing A)))"
  let ?A0 = "A\<lparr>a_closing := fmdrop_set (set qs) (a_closing A)\<rparr>"
  note c = sweep_closing_refines(1,3) [OF rep, of now, folded qs_def]
  from run obtain n1 s1 n2 s2 n3 s3 where
    r1: "sweep_scheduled P E now budget 0 ?s0 = (Inr n1, s1)"
    and r2: "sweep_leases P E now en budget n1 s1 = (Inr n2, s2)"
    and r3: "sweep_dedup E now budget n2 s2 = (Inr n3, s3)"
    by (auto simp: apply_sweep_def split: prod.splits sum.splits)
  obtain js A1 where 1: "arun ?A0 (map Promoted js) A1" "reps s1 A1" "n1 = 0 + length js" "length js \<le> budget"
    "if js = [] then s1 = ?s0 else cy_dirty (st_cyc s1)"
    using sweep_scheduled_refines [OF c(1) r1] by blast
  obtain es A2 where 2: "arun A1 es A2" "list_all expiry_event es" "reps s2 A2" "n2 = n1 + length es"
    "length es \<le> budget" "if es = [] then s2 = s1 else cy_dirty (st_cyc s2)"
    using sweep_leases_refines [OF 1(2) r2 now] by blast
  obtain ks A3 where 3: "arun A2 (map DedupDropped ks) A3" "reps s3 A3" "n3 = n2 + length ks"
    "length ks \<le> budget" "if ks = [] then s3 = s2 else cy_dirty (st_cyc s3)"
    using sweep_dedup_refines [OF 2(3) r3] by blast
  have "\<exists>bs A'. arun A3 (map Buried bs) A' \<and> reps s' A' \<and> n = n3 + length bs \<and> length bs \<le> budget
    \<and> (cutoff = None \<longrightarrow> bs = []) \<and> (if bs = [] then s' = s3 else cy_dirty (st_cyc s'))"
  proof (cases cutoff)
    case None
    with run r1 r2 r3 3(2) show ?thesis
      by (intro exI [of _ "[]"] exI [of _ A3]) (auto simp: apply_sweep_def)
  next
    case (Some cu)
    obtain m s4 where r4: "sweep_retention E cu budget 0 s3 = (m, s4)" by fastforce
    obtain bs A' where 4: "arun A3 (map Buried bs) A'" "reps s4 A'" "m = 0 + length bs" "length bs \<le> budget"
      "if bs = [] then s4 = s3 else cy_dirty (st_cyc s4)"
      using sweep_retention_refines [OF 3(2) r4] by blast
    have "n = n3 + m" "s' = (if m > 0 then on_cycle (dead_letter_expired m) s4 else s4)"
      using run r1 r2 r3 r4 Some by (auto simp: apply_sweep_def)
    with 4 Some show ?thesis by (intro exI [of _ bs] exI [of _ A']) (auto simp: reps_def split: if_splits)
  qed
  then obtain bs A' where 4: "arun A3 (map Buried bs) A'" "reps s' A'" "n = n3 + length bs" "length bs \<le> budget"
    "cutoff = None \<longrightarrow> bs = []" "if bs = [] then s' = s3 else cy_dirty (st_cyc s')" by blast
  have "arun A (map Opened qs @ map Promoted js @ es @ map DedupDropped ks @ map Buried bs) A'"
    using arun_append [OF arun_open_all arun_append [OF 1(1) arun_append [OF 2(1) arun_append [OF 3(1) 4(1)]]]]
    by simp
  moreover have "if qs = [] \<and> js = [] \<and> es = [] \<and> ks = [] \<and> bs = [] then s' = s else cy_dirty (st_cyc s')"
    using 4(6) 3(5) 2(6) 1(5) c(2)
    by (cases "bs = []"; cases "ks = []"; cases "es = []"; cases "js = []"; cases "qs = []") simp_all
  moreover have "n = length js + length es + length ks + length bs" using 1(3) 2(4) 3(3) 4(3) by simp
  ultimately show ?thesis using 1(4) 2(2,5) 3(4) 4(2,4,5) by blast
qed

end

end
