(* ===== verification/Recovery.thy ===== *)
theory Recovery
  imports Sweep
begin

text \<open>
  \<open>rebuild_indexes\<close> and \<open>resync\<close> of \<open>src/storage.rs\<close>, and the format check of \<open>Storage::open\<close>.
  The in-memory indexes are a function of the committed rows: rebuilding them from a database
  that stands for an abstract queue gives back exactly the indexes the committer kept.
\<close>

section \<open>Rebuilding\<close>

definition unwrap_or_default :: "str option \<Rightarrow> str" where
  "unwrap_or_default o1 = (case o1 of None \<Rightarrow> [] | Some q \<Rightarrow> q)"

text \<open>A failed read counts as no row: \<open>snap.get(..).ok().flatten()\<close>.\<close>

definition ok_flatten :: "string + bytes option \<Rightarrow> bytes option" where
  "ok_flatten r = (case r of Inl _ \<Rightarrow> None | Inr v \<Rightarrow> v)"

definition scheduled_owner :: "('db, 'tx) engine \<Rightarrow> 'db \<Rightarrow> bytes \<Rightarrow> str" where
  "scheduled_owner E db key = unwrap_or_default (do {
     job_id \<leftarrow> TimerKey_job_id key;
     stored \<leftarrow> ok_flatten (snap_get E db Jobs job_id);
     read_queue stored })"

definition lease_owner :: "prost \<Rightarrow> ('db, 'tx) engine \<Rightarrow> 'db \<Rightarrow> bytes \<Rightarrow> str" where
  "lease_owner P E db key = unwrap_or_default (do {
     job_id \<leftarrow> TimerKey_job_id key;
     stored \<leftarrow> ok_flatten (snap_get E db Inflight job_id);
     (case Inflight_decode P stored of Inl _ \<Rightarrow> None | Inr i \<Rightarrow> Some (if_queue i)) })"

definition load_ready :: "(bytes \<times> bytes) list \<Rightarrow> ready_index" where
  "load_ready kvs = foldl (\<lambda>i (k, v). ri_insert i k (case u32_first v of None \<Rightarrow> 1 | Some a \<Rightarrow> a)) ri_default kvs"

definition load_timers :: "(bytes \<Rightarrow> str) \<Rightarrow> (bytes \<times> bytes) list \<Rightarrow> timer_index" where
  "load_timers owner kvs = foldl (\<lambda>i (k, _). ti_insert i k (owner k)) ti_default kvs"

definition i64_first :: "bytes \<Rightarrow> i64 option" where
  "i64_first bs = (if length bs \<ge> 8 then Some (i64_from_be (take 8 bs)) else None)"

definition load_closing :: "(bytes \<times> bytes) list \<Rightarrow> (str, i64) fmap" where
  "load_closing kvs = foldl (\<lambda>m (k, v).
     case closing_queue k of
       None \<Rightarrow> m
     | Some q \<Rightarrow> fmupd q (case i64_first v of None \<Rightarrow> 0 | Some d \<Rightarrow> d) m) fmempty kvs"

definition rebuild_indexes :: "prost \<Rightarrow> ('db, 'tx) engine \<Rightarrow> 'db \<Rightarrow> string + indexes" where
  "rebuild_indexes P E db =
     (case collect_results (snap_iter E db Ready) of Inl e \<Rightarrow> Inl e | Inr ready \<Rightarrow>
      (case collect_results (snap_iter E db Scheduled) of Inl e \<Rightarrow> Inl e | Inr scheduled \<Rightarrow>
      (case collect_results (snap_iter E db Leases) of Inl e \<Rightarrow> Inl e | Inr leases \<Rightarrow>
      (case collect_results (snap_iter E db DedupTimers) of Inl e \<Rightarrow> Inl e | Inr dedup_timers \<Rightarrow>
      (case collect_results (snap_iter E db DeadLetter) of Inl e \<Rightarrow> Inl e | Inr dead_letter \<Rightarrow>
      (case collect_results (snap_prefix E db Meta CLOSING_PREFIX) of Inl e \<Rightarrow> Inl e | Inr closing \<Rightarrow>
        Inr \<lparr>ix_ready = load_ready ready,
             ix_scheduled = load_timers (scheduled_owner E db) scheduled,
             ix_leases = load_timers (lease_owner P E db) leases,
             ix_dedup_timers = load_timers (\<lambda>k. unwrap_or_default (DedupTimerKey_queue k)) dedup_timers,
             ix_dead_letter = load_timers (\<lambda>k. unwrap_or_default (DeadLetterKey_queue k)) dead_letter,
             ix_closing = load_closing closing\<rparr>))))))"

text \<open>A failed rebuild is logged and leaves the indexes as they are.\<close>

definition resync :: "prost \<Rightarrow> ('db, 'tx) engine \<Rightarrow> 'db \<Rightarrow> indexes \<Rightarrow> indexes" where
  "resync P E db ix = (case rebuild_indexes P E db of Inr fresh \<Rightarrow> fresh | Inl _ \<Rightarrow> ix)"

section \<open>Opening a database\<close>

datatype open_error = StorageError string | UnsupportedFormat "u64 option"

definition FORMAT_VERSION :: u64 where
  "FORMAT_VERSION = 1"

definition FORMAT_VERSION_KEY :: bytes where
  "FORMAT_VERSION_KEY = ''format_version''"

text \<open>
  A database without a version row is new and gets one; a database with another version is
  refused, with the version found when the row has eight bytes.
\<close>

definition check_format :: "('db, 'tx) engine \<Rightarrow> 'db \<Rightarrow> (open_error + unit) \<times> 'db" where
  "check_format E db =
     (case snap_get E db Meta FORMAT_VERSION_KEY of
        Inl e \<Rightarrow> (Inl (StorageError e), db)
      | Inr (Some v) \<Rightarrow>
          if v = be 8 FORMAT_VERSION then (Inr (), db)
          else (Inl (UnsupportedFormat (if length v = 8 then Some (from_be v) else None)), db)
      | Inr None \<Rightarrow>
          (case tx_commit E db (tx_insert E (write_tx E db) Meta FORMAT_VERSION_KEY (be 8 FORMAT_VERSION)) of
             (Inl e, db) \<Rightarrow> (Inl (StorageError e), db)
           | (Inr _, db) \<Rightarrow>
               (case db_persist E db SyncAll of
                  (Inl e, db) \<Rightarrow> (Inl (StorageError e), db)
                | (Inr _, db) \<Rightarrow> (Inr (), db))))"

definition storage_open :: "prost \<Rightarrow> ('db, 'tx) engine \<Rightarrow> 'db \<Rightarrow> (open_error + indexes) \<times> 'db" where
  "storage_open P E db =
     (case check_format E db of
        (Inl e, db) \<Rightarrow> (Inl e, db)
      | (Inr _, db) \<Rightarrow>
          (case rebuild_indexes P E db of
             Inl e \<Rightarrow> (Inl (StorageError e), db)
           | Inr ix \<Rightarrow> (Inr ix, db)))"

text \<open>The queues with stored jobs that strict mode would refuse; a job that cannot be read is skipped.\<close>

definition undeclared_persisted_queues :: "('db, 'tx) engine \<Rightarrow> 'db \<Rightarrow> queue_registry \<Rightarrow> str list" where
  "undeclared_persisted_queues E db registry =
     sorted_list_of_set (set (List.map_filter (\<lambda>guard.
       case guard of
         Inl _ \<Rightarrow> None
       | Inr (_, value) \<Rightarrow>
           (case read_queue value of
              None \<Rightarrow> None
            | Some queue \<Rightarrow> if is_declared registry queue then None else Some queue))
       (snap_iter E db Jobs)))"

section \<open>Loading a keyspace into an index\<close>

lemma load_timers_step:
  assumes "distinct (map fst kvs)" and "tix.consistent i" and "\<forall>k \<in> fst ` set kvs. fmlookup (ti_keys i) k = None"
  shows "tix.consistent (foldl (\<lambda>i (k, _). ti_insert i k (owner k)) i kvs)
    \<and> (\<forall>k. fmlookup (ti_keys (foldl (\<lambda>i (k, _). ti_insert i k (owner k)) i kvs)) k =
      (if k \<in> fst ` set kvs then Some (owner k) else fmlookup (ti_keys i) k))"
  using assms
proof (induction kvs arbitrary: i)
  case (Cons kv kvs)
  obtain k0 v where kv: "kv = (k0, v)" by (cases kv)
  let ?i = "ti_insert i k0 (owner k0)"
  have c: "tix.consistent ?i" using Cons.prems(2,3) by (intro tix.consistent_ins) (simp_all add: kv)
  have new: "\<forall>k \<in> fst ` set kvs. fmlookup (ti_keys ?i) k = None"
    using Cons.prems(1,3) by (auto simp: kv)
  have d: "distinct (map fst kvs)" using Cons.prems(1) by simp
  from Cons.IH [OF d c new] Cons.prems(1) show ?case by (auto simp: kv)
qed simp

lemma load_timers_facts:
  shows "tix.consistent (load_timers owner (sorted_list_of_fmap M))"
    and "fmlookup (ti_keys (load_timers owner (sorted_list_of_fmap M))) k = map_option (\<lambda>_. owner k) (fmlookup M k)"
proof -
  have k: "k \<in> fst ` set (sorted_list_of_fmap M) \<longleftrightarrow> fmlookup M k \<noteq> None"
    by (metis map_of_eq_None_iff map_of_sorted_list)
  note step = load_timers_step [OF distinct_fst_sorted_list_of_fmap consistent_default(2), of M owner]
  show "tix.consistent (load_timers owner (sorted_list_of_fmap M))"
    unfolding load_timers_def using step by (simp add: ti_default_def)
  show "fmlookup (ti_keys (load_timers owner (sorted_list_of_fmap M))) k = map_option (\<lambda>_. owner k) (fmlookup M k)"
    unfolding load_timers_def using k step by (simp add: ti_default_def map_option_case split: option.splits)
qed

lemma load_ready_step:
  assumes "distinct (map fst kvs)" and "rix.consistent i"
  shows "rix.consistent (foldl (\<lambda>i (k, v). ri_insert i k (g v)) i kvs)
    \<and> (\<forall>k. fmlookup (ri_keys (foldl (\<lambda>i (k, v). ri_insert i k (g v)) i kvs)) k =
      (case map_of kvs k of Some v \<Rightarrow> Some (g v) | None \<Rightarrow> fmlookup (ri_keys i) k))"
  using assms
proof (induction kvs arbitrary: i)
  case (Cons kv kvs)
  obtain k0 v where kv: "kv = (k0, v)" by (cases kv)
  have c: "rix.consistent (ri_insert i k0 (g v))" using Cons.prems(2) by (rule ri_consistent_insert)
  have d: "distinct (map fst kvs)" "map_of kvs k0 = None" using Cons.prems(1) by (simp_all add: kv map_of_eq_None_iff)
  from Cons.IH [OF d(1) c] d(2) show ?case by (auto simp: kv split: option.splits)
qed simp

lemma load_ready_facts:
  shows "rix.consistent (load_ready (sorted_list_of_fmap M))"
    and "fmlookup (ri_keys (load_ready (sorted_list_of_fmap M))) k =
      map_option (\<lambda>v. case u32_first v of None \<Rightarrow> 1 | Some a \<Rightarrow> a) (fmlookup M k)"
  unfolding load_ready_def
  using load_ready_step [OF distinct_fst_sorted_list_of_fmap consistent_default(1),
      of "\<lambda>v. case u32_first v of None \<Rightarrow> 1 | Some a \<Rightarrow> a" M]
  by (simp_all add: ri_default_def map_of_sorted_list map_option_case split: option.splits)

text \<open>An index is determined by its entries.\<close>

lemma ti_unique: "tix.consistent i \<Longrightarrow> tix.consistent j \<Longrightarrow> ti_keys i = ti_keys j \<Longrightarrow> i = j"
  unfolding tix.consistent_def by (auto dest: counted_unique intro: timer_index.equality)

lemma ri_unique: "rix.consistent i \<Longrightarrow> rix.consistent j \<Longrightarrow> ri_keys i = ri_keys j \<Longrightarrow> i = j"
  unfolding rix.consistent_def by (auto dest: counted_unique intro: ready_index.equality)

lemma load_timers_eq:
  assumes "tix.consistent i" and keys: "keyed f J (ti_keys i)" and rows: "keyed g J M"
    and same: "\<And>j x k w. fmlookup J j = Some x \<Longrightarrow> g j x = Some (k, w) \<Longrightarrow> f j x = Some (k, owner k)"
    and conv: "\<And>j x. fmlookup J j = Some x \<Longrightarrow> f j x \<noteq> None \<Longrightarrow> g j x \<noteq> None"
  shows "load_timers owner (sorted_list_of_fmap M) = i"
proof (rule ti_unique [OF load_timers_facts(1) assms(1)], rule fmap_ext)
  fix k
  show "fmlookup (ti_keys (load_timers owner (sorted_list_of_fmap M))) k = fmlookup (ti_keys i) k"
  proof (cases "fmlookup (ti_keys i) k")
    case None
    have "fmlookup M k = None"
    proof (rule ccontr)
      assume "fmlookup M k \<noteq> None"
      then obtain w where "fmlookup M k = Some w" by blast
      from keyed_lookupD [OF rows this] obtain j x where "fmlookup J j = Some x" "g j x = Some (k, w)" by blast
      with same keyed_lookup [OF keys] None show False by fastforce
    qed
    with None show ?thesis by (simp add: load_timers_facts(2))
  next
    case (Some q)
    from keyed_lookupD [OF keys Some] obtain j x where x: "fmlookup J j = Some x" "f j x = Some (k, q)" by blast
    with conv obtain k' w where g: "g j x = Some (k', w)" by fastforce
    with same x have "k' = k" "q = owner k" by fastforce+
    with keyed_lookup [OF rows x(1) g] Some show ?thesis by (simp add: load_timers_facts(2))
  qed
qed

section \<open>Rebuilding is exact\<close>

lemma u32_first_of_be [simp]: "u32_first (u32_be a) = Some a"
  by (simp add: u32_first_def u32_from_be_be)

lemma load_closing_step:
  "fmlookup (foldl (\<lambda>m (k, v). case closing_queue k of None \<Rightarrow> m
      | Some q \<Rightarrow> fmupd q (case i64_first v of None \<Rightarrow> 0 | Some d \<Rightarrow> d) m) m kvs) q =
     (case filter (\<lambda>(k, _). closing_queue k = Some q) kvs of
        [] \<Rightarrow> fmlookup m q | es \<Rightarrow> Some (case i64_first (snd (last es)) of None \<Rightarrow> 0 | Some d \<Rightarrow> d))"
  by (induction kvs arbitrary: m) (auto split: option.splits list.splits prod.splits)

text \<open>Storage that reads without errors, over the laws of both parameters.\<close>

locale reliable_storage = storage P E txv dbv + reliable_engine E txv dbv
  for P :: prost
    and E :: "('db, 'tx) engine"
    and txv :: "'tx \<Rightarrow> rows"
    and dbv :: "'db \<Rightarrow> rows"
begin

lemma load_scheduled:
  assumes "jobs_rep P (dbv db) ix J"
  shows "load_timers (scheduled_owner E db) (sorted_list_of_fmap (dbv db Scheduled)) = ix_scheduled ix"
proof (rule load_timers_eq)
  show "tix.consistent (ix_scheduled ix)" using assms by (simp add: jobs_rep_def)
  show "keyed six_view J (ti_keys (ix_scheduled ix))" by (rule jobs_rep_keyed(3) [OF assms])
  show "keyed (jview P Scheduled) J (dbv db Scheduled)"
    by (rule jobs_rep_keyed(1) [OF assms]) (simp add: job_spaces_def)
next
  fix j x k w assume x: "fmlookup J j = Some x" and v: "jview P Scheduled j x = Some (k, w)"
  note ok = jobs_rep_ok [OF assms x]
  obtain d a where p: "aj_place x = InScheduled d a" "k = TimerKey_encode d j"
    using v by (cases "aj_place x") auto
  have "TimerKey_job_id k = Some j" using place_deadline_ok(1) [OF ok p(1)] p(2) by (simp add: byte_simps)
  moreover have "read_queue (JobValue_encode P (aj_queue x) (aj_job x)) = Some (aj_queue x)"
    using ok by (simp add: ajob_ok_def read_queue_JobValue)
  ultimately have "scheduled_owner E db k = aj_queue x"
    using jobs_rep_job [OF assms, of j] x
    by (simp add: scheduled_owner_def snap_get_eq ok_flatten_def unwrap_or_default_def)
  with p show "six_view j x = Some (k, scheduled_owner E db k)" by (simp add: six_view_def)
next
  fix j x assume "six_view j x \<noteq> None"
  then show "jview P Scheduled j x \<noteq> None" by (auto simp: six_view_def split: place.splits)
qed

lemma load_leases:
  assumes "jobs_rep P (dbv db) ix J"
  shows "load_timers (lease_owner P E db) (sorted_list_of_fmap (dbv db Leases)) = ix_leases ix"
proof (rule load_timers_eq)
  show "tix.consistent (ix_leases ix)" using assms by (simp add: jobs_rep_def)
  show "keyed lix_view J (ti_keys (ix_leases ix))" by (rule jobs_rep_keyed(4) [OF assms])
  show "keyed (jview P Leases) J (dbv db Leases)"
    by (rule jobs_rep_keyed(1) [OF assms]) (simp add: job_spaces_def)
next
  fix j x k w assume x: "fmlookup J j = Some x" and v: "jview P Leases j x = Some (k, w)"
  note ok = jobs_rep_ok [OF assms x]
  obtain d a where p: "aj_place x = InFlight d a" "k = TimerKey_encode d j"
    using v by (cases "aj_place x") auto
  have "TimerKey_job_id k = Some j" using place_deadline_ok(2) [OF ok p(1)] p(2) by (simp add: byte_simps)
  moreover have "if_queue (mk_inflight P x d a) = aj_queue x" by (simp add: mk_inflight_def)
  ultimately have "lease_owner P E db k = aj_queue x"
    using jobs_rep_inflight [OF assms, of j] x p inflight_decode [OF ok p(1)]
    by (simp add: lease_owner_def snap_get_eq ok_flatten_def unwrap_or_default_def)
  with p show "lix_view j x = Some (k, lease_owner P E db k)" by (simp add: lix_view_def)
next
  fix j x assume "lix_view j x \<noteq> None"
  then show "jview P Leases j x \<noteq> None" by (auto simp: lix_view_def split: place.splits)
qed

lemma load_ready_index:
  assumes "jobs_rep P (dbv db) ix J"
  shows "load_ready (sorted_list_of_fmap (dbv db Ready)) = ix_ready ix"
proof (rule ri_unique, rule load_ready_facts(1))
  show "rix.consistent (ix_ready ix)" using assms by (simp add: jobs_rep_def)
  have rows: "keyed (jview P Ready) J (dbv db Ready)"
    by (rule jobs_rep_keyed(1) [OF assms]) (simp add: job_spaces_def)
  have inj: "u32_be a = u32_be b \<longleftrightarrow> a = b" for a b by (metis u32_from_be_be)
  have "rix_view P j x = Some (k, a) \<longleftrightarrow> jview P Ready j x = Some (k, u32_be a)" for j x k a
    by (cases "aj_place x") (simp_all add: rix_view_def inj)
  then have row: "fmlookup (ri_keys (ix_ready ix)) k = Some a \<longleftrightarrow> fmlookup (dbv db Ready) k = Some (u32_be a)" for k a
    using jobs_rep_keyed(2) [OF assms] rows unfolding keyed_def by simp
  have shape: "\<exists>a. w = u32_be a" if "fmlookup (dbv db Ready) k = Some w" for k w
  proof -
    from keyed_lookupD [OF rows that] obtain j x where "jview P Ready j x = Some (k, w)" by blast
    then show ?thesis by (cases "aj_place x") auto
  qed
  show "ri_keys (load_ready (sorted_list_of_fmap (dbv db Ready))) = ri_keys (ix_ready ix)"
  proof (rule fmap_ext)
    fix k
    show "fmlookup (ri_keys (load_ready (sorted_list_of_fmap (dbv db Ready)))) k = fmlookup (ri_keys (ix_ready ix)) k"
    proof (cases "fmlookup (dbv db Ready) k")
      case None
      with row have "fmlookup (ri_keys (ix_ready ix)) k = None" by (metis not_None_eq option.distinct(1))
      with None show ?thesis by (simp add: load_ready_facts(2))
    next
      case (Some w)
      with shape obtain a where "w = u32_be a" by blast
      with Some row [of k a] show ?thesis by (simp add: load_ready_facts(2))
    qed
  qed
qed

lemma load_dead_letters:
  assumes "dead_rep P (dbv db) ix D"
  shows "load_timers (\<lambda>k. unwrap_or_default (DeadLetterKey_queue k)) (sorted_list_of_fmap (dbv db DeadLetter)) = ix_dead_letter ix"
proof (rule load_timers_eq)
  fix j d k w assume d: "fmlookup D j = Some d" and "dview P j d = Some (k, w)"
  then have k: "k = dead_key j d" by (simp add: dview_def)
  have "adead_ok j d" using assms d by (simp add: dead_rep_def)
  then have "DeadLetterKey_queue k = Some (dd_queue d)" by (simp add: k adead_ok_def dead_key_def byte_simps)
  then show "dix_view j d = Some (k, unwrap_or_default (DeadLetterKey_queue k))"
    by (simp add: dix_view_def k unwrap_or_default_def)
next
  show "keyed (dview P) D (dbv db DeadLetter)" using assms by (simp add: dead_rep_def)
  show "dview P j d \<noteq> None" for j d by (simp add: dview_def)
qed (use assms in \<open>simp_all add: dead_rep_def\<close>)

lemma load_dedup_timers:
  assumes "dedup_rep (dbv db) ix U"
  shows "load_timers (\<lambda>k. unwrap_or_default (DedupTimerKey_queue k)) (sorted_list_of_fmap (dbv db DedupTimers)) = ix_dedup_timers ix"
proof (rule load_timers_eq)
  fix j u k w assume u: "fmlookup U j = Some u" and "utview j u = Some (k, w)"
  then have k: "k = dedup_timer j u" by (simp add: utview_def)
  have "adedup_ok j u" using assms u by (simp add: dedup_rep_def)
  then have "DedupTimerKey_queue k = Some (dp_queue u)"
    by (auto simp: k adedup_ok_def dedup_timer_def byte_simps)
  then show "uix_view j u = Some (k, unwrap_or_default (DedupTimerKey_queue k))"
    by (simp add: uix_view_def k unwrap_or_default_def)
next
  show "keyed utview U (dbv db DedupTimers)" using assms by (simp add: dedup_rep_def)
  show "utview k u \<noteq> None" for k u by (simp add: utview_def)
qed (use assms in \<open>simp_all add: dedup_rep_def\<close>)

lemma load_closing_eq:
  assumes "closing_rep (dbv db) ix C"
  shows "load_closing (filter (\<lambda>(k, _). prefix CLOSING_PREFIX k) (sorted_list_of_fmap (dbv db Meta))) = ix_closing ix"
    (is "load_closing ?kvs = _")
proof (rule fmap_ext)
  fix q
  let ?es = "filter (\<lambda>(k, _). closing_queue k = Some q) ?kvs"
  have es: "set ?es = {(k, v). k = closing_key q \<and> utf8_valid q \<and> fmlookup (dbv db Meta) k = Some v}"
    by (auto simp: closing_queue_Some set_sorted_list_of_fmap closing_key_def)
  have q: "fmlookup (dbv db Meta) (closing_key q) = map_option i64_be (fmlookup (ix_closing ix) q)"
    using assms by (simp add: closing_rep_def)
  note step = load_closing_step [of fmempty ?kvs q, folded load_closing_def]
  show "fmlookup (load_closing ?kvs) q = fmlookup (ix_closing ix) q"
  proof (cases "fmlookup (ix_closing ix) q")
    case None
    with es q have "set ?es = {}" by (simp only: option.map) auto
    then have "?es = []" by (simp only: set_empty)
    with step None show ?thesis by simp
  next
    case (Some d)
    with assms have ok: "utf8_valid q" "i64_ok d" by (auto simp: closing_rep_def)
    with es q Some have "set ?es = {(closing_key q, i64_be d)}" by auto
    then obtain e es' where e: "?es = e # es'" "last (e # es') = (closing_key q, i64_be d)"
      by (metis (no_types, lifting) insert_not_empty last_in_set list.set_cases set_empty singletonD
          list.exhaust)
    with step ok Some show ?thesis by (simp add: i64_first_def i64_from_be_be)
  qed
qed

theorem rebuild_exact:
  assumes "represents P (dbv db) ix A"
  shows "rebuild_indexes P E db = Inr ix"
proof -
  have J: "jobs_rep P (dbv db) ix (a_jobs A)" and D: "dead_rep P (dbv db) ix (a_dead A)"
    and U: "dedup_rep (dbv db) ix (a_dedup A)" and C: "closing_rep (dbv db) ix (a_closing A)"
    using assms by (simp_all add: represents_def)
  show ?thesis
    by (simp add: rebuild_indexes_def snap_iter_eq snap_prefix_eq load_ready_index [OF J] load_scheduled [OF J]
        load_leases [OF J] load_dead_letters [OF D] load_dedup_timers [OF U] load_closing_eq [OF C])
qed

lemma resync_exact: "represents P (dbv db) ix A \<Longrightarrow> resync P E db any = ix"
  by (simp add: resync_def rebuild_exact)

text \<open>
  Opening: a database of this format comes up with exactly its indexes, and a new one with empty
  indexes and the version row, so that the next opening accepts it.
\<close>

lemma format_key_neq [simp]: "closing_key q \<noteq> FORMAT_VERSION_KEY" "FORMAT_VERSION_KEY \<noteq> closing_key q"
  by (simp_all add: closing_key_def CLOSING_PREFIX_def FORMAT_VERSION_KEY_def)

lemma check_format_ok:
  assumes "represents P (dbv db) ix A" and "check_format E db = (Inr u, db')"
  shows "represents P (dbv db') ix A" and "fmlookup (dbv db' Meta) FORMAT_VERSION_KEY = Some (be 8 FORMAT_VERSION)"
proof -
  have "dbv db' = (dbv db)(Meta := fmupd FORMAT_VERSION_KEY (be 8 FORMAT_VERSION) (dbv db Meta))
    \<or> db' = db \<and> fmlookup (dbv db Meta) FORMAT_VERSION_KEY = Some (be 8 FORMAT_VERSION)"
  proof (cases "fmlookup (dbv db Meta) FORMAT_VERSION_KEY")
    case None
    let ?t = "tx_insert E (write_tx E db) Meta FORMAT_VERSION_KEY (be 8 FORMAT_VERSION)"
    obtain r d1 where c: "tx_commit E db ?t = (r, d1)" by fastforce
    obtain r' d2 where p: "db_persist E d1 SyncAll = (r', d2)" by fastforce
    obtain v where r: "r = Inr v" "db' = d2" using assms(2) None c p
      by (cases r; cases r') (simp_all add: check_format_def snap_get_eq)
    have "dbv d2 = txv ?t" using commit_ok [OF c [unfolded r(1)]] persist_view [of d1 SyncAll] p by simp
    with r(2) show ?thesis by (simp add: view_simps)
  next
    case (Some w)
    with assms(2) show ?thesis by (auto simp: check_format_def snap_get_eq split: if_splits)
  qed
  then show "represents P (dbv db') ix A" "fmlookup (dbv db' Meta) FORMAT_VERSION_KEY = Some (be 8 FORMAT_VERSION)"
    using assms(1)
    by (auto simp: represents_def jobs_rep_def dead_rep_def dedup_rep_def closing_rep_def)
qed

lemma storage_open_exact:
  assumes "represents P (dbv db) ix A" and "storage_open P E db = (Inr ix', db')"
  shows "ix' = ix" and "represents P (dbv db') ix A" and "storage_open P E db' = (Inr ix, db')"
proof -
  obtain u where c: "check_format E db = (Inr u, db')" and r: "rebuild_indexes P E db' = Inr ix'"
    using assms(2) by (auto simp: storage_open_def split: prod.splits sum.splits)
  note f = check_format_ok [OF assms(1) c]
  show "represents P (dbv db') ix A" by (rule f(1))
  then show "ix' = ix" using r rebuild_exact by simp
  have "check_format E db' = (Inr (), db')" using f(2) by (simp add: check_format_def snap_get_eq)
  then show "storage_open P E db' = (Inr ix, db')" by (simp add: storage_open_def rebuild_exact [OF f(1)])
qed

end

end
