(* ===== verification/Mem_Engine.thy ===== *)
theory Mem_Engine
  imports Prost_Ref Recovery
begin

text \<open>
  An in-memory engine that meets the laws assumed of fjall, and the canonical store of an
  abstract queue: every well-formed abstract queue is represented by one database and one set of
  indexes. Both show that the hypotheses of the storage theorems can hold.
\<close>

section \<open>The engine\<close>

definition mem_engine :: "(rows, rows) engine" where
  "mem_engine = \<lparr>write_tx = (\<lambda>db. db),
     tx_get = (\<lambda>t ks k. Inr (fmlookup (t ks) k)),
     tx_insert = (\<lambda>t ks k v. t(ks := fmupd k v (t ks))),
     tx_remove = (\<lambda>t ks k. t(ks := fmdrop k (t ks))),
     tx_commit = (\<lambda>db t. (Inr (), t)),
     db_persist = (\<lambda>db mode. (Inr (), db)),
     snap_get = (\<lambda>db ks k. Inr (fmlookup (db ks) k)),
     snap_iter = (\<lambda>db ks. map Inr (sorted_list_of_fmap (db ks))),
     snap_prefix = (\<lambda>db ks p. map Inr (filter (\<lambda>(k, _). prefix p k) (sorted_list_of_fmap (db ks)))),
     snap_range_to = (\<lambda>db ks b. map Inr (filter (\<lambda>(k, _). k < b) (sorted_list_of_fmap (db ks))))\<rparr>"

definition mem_view :: "rows \<Rightarrow> rows" where
  "mem_view v = v"

lemma collect_map_Inr: "collect_results (map Inr xs) = Inr xs"
  by (induction xs) simp_all

lemma mem_engine_laws: "engine_laws mem_engine mem_view mem_view"
  by standard (auto simp: mem_engine_def mem_view_def collect_map_Inr fun_upd_def)

lemma mem_reliable: "reliable_storage prost_ref mem_engine mem_view mem_view"
proof (intro reliable_storage.intro storage.intro reliable_engine.intro)
  show "reliable_engine_axioms mem_engine"
    by standard (simp_all add: mem_engine_def collect_map_Inr)
qed (rule ref.prost_laws_axioms mem_engine_laws)+

interpretation mem: reliable_storage prost_ref mem_engine mem_view mem_view
  by (rule mem_reliable)

section \<open>The canonical store\<close>

definition image_of :: "('i::linorder \<Rightarrow> 'x \<Rightarrow> ('k \<times> 'v) option) \<Rightarrow> ('i, 'x) fmap \<Rightarrow> ('k, 'v) fmap" where
  "image_of f J = fmap_of_list (List.map_filter (\<lambda>(j, x). f j x) (sorted_list_of_fmap J))"

lemma image_of_keyed:
  assumes "key_inj ok f" and ok: "\<And>j x. fmlookup J j = Some x \<Longrightarrow> ok j x"
  shows "keyed f J (image_of f J)"
proof -
  let ?xs = "List.map_filter (\<lambda>(j, x). f j x) (sorted_list_of_fmap J)"
  have mem: "(k, v) \<in> set ?xs \<longleftrightarrow> (\<exists>j x. fmlookup J j = Some x \<and> f j x = Some (k, v))" for k v
  proof -
    have "(k, v) \<in> set ?xs \<longleftrightarrow> (\<exists>p \<in> set (sorted_list_of_fmap J). (\<lambda>(j, x). f j x) p = Some (k, v))"
      by (rule map_filter_mem)
    also have "\<dots> \<longleftrightarrow> (\<exists>j x. (j, x) \<in> set (sorted_list_of_fmap J) \<and> f j x = Some (k, v))"
      by (metis (no_types, lifting) case_prod_conv surj_pair)
    finally show ?thesis by (simp add: set_sorted_list_of_fmap)
  qed
  have uniq: "v = w" if "(k, v) \<in> set ?xs" "(k, w) \<in> set ?xs" for k v w
    using that key_injD [OF assms(1)] ok unfolding mem by (metis option.inject prod.inject)
  have "map_of ?xs k = Some v \<longleftrightarrow> (k, v) \<in> set ?xs" for k v
    using uniq by (metis map_of_SomeD weak_map_of_SomeI)
  then show ?thesis unfolding keyed_def image_of_def by (simp add: fmlookup_of_list mem)
qed

lemma image_of_empty [simp]: "image_of f fmempty = fmempty"
  by (simp add: image_of_def sorted_list_of_fmap_def sorted_list_of_fset.rep_eq List.map_filter_simps)

definition timers_of :: "(bytes, str) fmap \<Rightarrow> timer_index" where
  "timers_of M = load_timers (\<lambda>k. the (fmlookup M k)) (sorted_list_of_fmap (fmmap (\<lambda>_. []) M))"

definition ready_of :: "(bytes, u32) fmap \<Rightarrow> ready_index" where
  "ready_of M = load_ready (sorted_list_of_fmap (fmmap u32_be M))"

lemma timers_of_facts [simp]: "tix.consistent (timers_of M)" "ti_keys (timers_of M) = M"
  unfolding timers_of_def
  by (rule load_timers_facts) (rule fmap_ext, simp add: load_timers_facts(2) option.map_comp map_option_case split: option.splits)

lemma ready_of_facts [simp]: "rix.consistent (ready_of M)" "ri_keys (ready_of M) = M"
  unfolding ready_of_def
  by (rule load_ready_facts) (rule fmap_ext, simp add: load_ready_facts(2) option.map_comp comp_def map_option_case split: option.splits)

definition rows_of :: "prost \<Rightarrow> abs_queue \<Rightarrow> rows" where
  "rows_of P A ks = (case ks of
     DeadLetter \<Rightarrow> image_of (dview P) (a_dead A)
   | Dedup \<Rightarrow> image_of uview (a_dedup A)
   | DedupTimers \<Rightarrow> image_of utview (a_dedup A)
   | Meta \<Rightarrow> image_of (\<lambda>q d. Some (closing_key q, i64_be d)) (a_closing A)
   | Audit \<Rightarrow> fmempty
   | _ \<Rightarrow> image_of (jview P ks) (a_jobs A))"

definition index_of :: "prost \<Rightarrow> abs_queue \<Rightarrow> indexes" where
  "index_of P A = \<lparr>ix_ready = ready_of (image_of (rix_view P) (a_jobs A)),
     ix_scheduled = timers_of (image_of six_view (a_jobs A)),
     ix_leases = timers_of (image_of lix_view (a_jobs A)),
     ix_dedup_timers = timers_of (image_of uix_view (a_dedup A)),
     ix_dead_letter = timers_of (image_of dix_view (a_dead A)),
     ix_closing = a_closing A\<rparr>"

definition abs_ok :: "prost \<Rightarrow> abs_queue \<Rightarrow> bool" where
  "abs_ok P A \<longleftrightarrow> fmpred (ajob_ok P) (a_jobs A) \<and> fmpred adead_ok (a_dead A) \<and> fmpred adedup_ok (a_dedup A)
     \<and> fmpred (\<lambda>q d. utf8_valid q \<and> i64_ok d) (a_closing A)
     \<and> fmpred (\<lambda>j _. fmlookup (a_dead A) j = None) (a_jobs A)"

lemma canonical_rep:
  assumes "abs_ok P A"
  shows "represents P (rows_of P A) (index_of P A) A"
proof -
  have ok: "fmlookup (a_jobs A) j = Some x \<Longrightarrow> ajob_ok P j x" "fmlookup (a_dead A) j = Some d \<Longrightarrow> adead_ok j d"
    "fmlookup (a_dedup A) k = Some u \<Longrightarrow> adedup_ok k u" "fmlookup (a_closing A) q = Some t \<Longrightarrow> utf8_valid q \<and> i64_ok t"
    for j x d k u q t
    using assms by (auto simp: abs_ok_def fmpred_iff)
  have "jobs_rep P (rows_of P A) (index_of P A) (a_jobs A)"
    unfolding jobs_rep_def
    using ok(1) image_of_keyed [OF key_inj_jview ok(1)] image_of_keyed [OF key_inj_rix ok(1)]
      image_of_keyed [OF key_inj_six ok(1)] image_of_keyed [OF key_inj_lix ok(1)]
    by (auto simp: rows_of_def index_of_def)
  moreover have "dead_rep P (rows_of P A) (index_of P A) (a_dead A)"
    using ok(2) image_of_keyed [OF key_inj_dead(1)] image_of_keyed [OF key_inj_dead(2)]
    by (auto simp: dead_rep_def rows_of_def index_of_def)
  moreover have "dedup_rep (rows_of P A) (index_of P A) (a_dedup A)"
    using ok(3) image_of_keyed [OF key_inj_dedup(1)] image_of_keyed [OF key_inj_dedup(2)] image_of_keyed [OF key_inj_dedup(3)]
    by (auto simp: dedup_rep_def rows_of_def index_of_def)
  moreover have "closing_rep (rows_of P A) (index_of P A) (a_closing A)"
  proof -
    have "keyed (\<lambda>q d. Some (closing_key q, i64_be d)) (a_closing A) (rows_of P A Meta)"
      unfolding rows_of_def by (simp, rule image_of_keyed [where ok = "\<lambda>_ _. True"]) (auto simp: key_inj_def)
    then have "fmlookup (rows_of P A Meta) (closing_key q) = Some v \<longleftrightarrow>
        (\<exists>d. fmlookup (a_closing A) q = Some d \<and> v = i64_be d)" for q v
      unfolding keyed_def by auto
    then have "fmlookup (rows_of P A Meta) (closing_key q) = map_option i64_be (fmlookup (a_closing A) q)" for q
      by (cases "fmlookup (a_closing A) q") (metis not_None_eq option.simps(8), simp)
    then show ?thesis using ok(4) by (simp add: closing_rep_def index_of_def)
  qed
  moreover have "fmdom' (a_jobs A) \<inter> fmdom' (a_dead A) = {}"
    using assms by (auto simp: abs_ok_def fmpred_iff fmlookup_dom'_iff)
  ultimately show ?thesis by (simp add: represents_def)
qed

end
