(* ===== verification/Settle.thy ===== *)
theory Settle
  imports Dead_Letters
begin

text \<open>
  Settling a lease: \<open>apply_ack\<close>, \<open>apply_nack\<close> and \<open>apply_extend\<close> of \<open>src/storage.rs\<close>. Each
  reads the in-flight record, checks that the caller's attempt is the leased one, and moves the
  job. The lemmas say which abstract step each performs, and that a refusal changes nothing.
\<close>

section \<open>Ack\<close>

record ack_outcome =
  ao_queue :: str
  ao_trace_context :: "trace_context option"

definition job_not_found :: status where
  "job_not_found = Status NotFound ''job not found''"

definition attempt_mismatch :: status where
  "attempt_mismatch = Status FailedPrecondition ''attempt mismatch''"

text \<open>The common head of the three operations: \<open>tx.get\<close>, \<open>ok_or_else\<close>, \<open>decode\<close>, the fence.\<close>

definition leased :: "prost \<Rightarrow> ('db, 'tx) engine \<Rightarrow> str \<Rightarrow> u32 \<Rightarrow> 'tx st \<Rightarrow> status + inflight" where
  "leased P E job_id attempt s =
     (case tx_get E (st_tx s) Inflight job_id of
        Inl e \<Rightarrow> Inl (stg_err e)
      | Inr None \<Rightarrow> Inl job_not_found
      | Inr (Some stored) \<Rightarrow>
          (case Inflight_decode P stored of
             Inl e \<Rightarrow> Inl e
           | Inr inflight \<Rightarrow>
               if if_attempt inflight \<noteq> attempt then Inl attempt_mismatch else Inr inflight))"

definition apply_ack ::
    "prost \<Rightarrow> ('db, 'tx) engine \<Rightarrow> str \<Rightarrow> u32 \<Rightarrow> 'tx st \<Rightarrow> (status + ack_outcome) \<times> 'tx st" where
  "apply_ack P E job_id attempt s =
     (case leased P E job_id attempt s of
        Inl e \<Rightarrow> (Inl e, s)
      | Inr inflight \<Rightarrow>
          (let s = del E Jobs job_id s;
               s = del E Payloads job_id s;
               s = del E Inflight job_id s;
               lease_timer = TimerKey_encode (if_lease_expires_at inflight) job_id;
               s = del E Leases lease_timer s;
               s = on_leases (ti_del lease_timer) s;
               s = on_cycle (acked (if_queue inflight)) s;
               s = mark_dirty s
           in (Inr \<lparr>ao_queue = if_queue inflight, ao_trace_context = if_trace_context inflight\<rparr>, s)))"

section \<open>Nack\<close>

record nack_outcome =
  no_queue :: str
  no_dead_lettered :: bool
  no_delay_ms :: u64
  no_trace_context :: "trace_context option"

definition force_dead_letter :: "nack_request \<Rightarrow> bool" where
  "force_dead_letter req \<longleftrightarrow>
     Option.bind (nack_retry_field req) nr_strategy = Some StrategyDeadLetter"

definition nack_dead_letter ::
    "prost \<Rightarrow> ('db, 'tx) engine \<Rightarrow> nack_request \<Rightarrow> inflight \<Rightarrow> bool \<Rightarrow> i64 \<Rightarrow> 'tx st
       \<Rightarrow> (status + nack_outcome) \<times> 'tx st" where
  "nack_dead_letter P E req inflight dead_letter_enabled now s =
     (let job_id = nack_job_id req;
          lease_timer = TimerKey_encode (if_lease_expires_at inflight) job_id;
          (cause_label, cause) =
            (if force_dead_letter req then (''rejected'', CauseRejected)
             else (''attempts_exhausted'', CauseAttemptsExhausted))
      in case maybe_store_dead_letter P E job_id
             \<lparr>dm_cause = cause, dm_failed_at = now, dm_attempt = if_attempt inflight,
              dm_last_reason = nack_reason req\<rparr> dead_letter_enabled s of
           (Inl e, s) \<Rightarrow> (Inl e, s)
         | (Inr _, s) \<Rightarrow>
             (let s = del E Jobs job_id s;
                  s = del E Payloads job_id s;
                  s = del E Inflight job_id s;
                  s = del E Leases lease_timer s;
                  s = on_leases (ti_del lease_timer) s;
                  s = on_cycle (nacked (if_queue inflight)) s;
                  s = on_cycle (dead_lettered (if_queue inflight) cause_label) s;
                  s = mark_dirty s
              in (Inr \<lparr>no_queue = if_queue inflight, no_dead_lettered = True, no_delay_ms = 0,
                       no_trace_context = if_trace_context inflight\<rparr>, s)))"

definition nack_retry ::
    "('db, 'tx) engine \<Rightarrow> nack_request \<Rightarrow> inflight \<Rightarrow> u64 \<Rightarrow> i64 \<Rightarrow> 'tx st \<Rightarrow> nack_outcome \<times> 'tx st" where
  "nack_retry E req inflight retry_delay_ms now s =
     (let job_id = nack_job_id req;
          lease_timer = TimerKey_encode (if_lease_expires_at inflight) job_id;
          attempt = if_attempt inflight + 1;
          s = (if retry_delay_ms > 0
               then (let deadline = i64_saturating_add now (i64_of_u64 retry_delay_ms);
                         tk = TimerKey_encode deadline job_id;
                         s = put E Scheduled tk (u32_be attempt) s
                     in on_scheduled (ti_ins tk (if_queue inflight)) s)
               else (let rk = ReadyKey_encode \<lparr>rk_queue = if_queue inflight,
                           rk_priority = if_priority inflight,
                           rk_enqueued_at = if_enqueued_at inflight, rk_job_id = job_id\<rparr>;
                         s = put E Ready rk (u32_be attempt) s;
                         s = on_ready (ri_ins rk attempt) s
                     in new_ready (if_queue inflight) s));
          s = del E Inflight job_id s;
          s = del E Leases lease_timer s;
          s = on_leases (ti_del lease_timer) s;
          s = on_cycle (nacked (if_queue inflight)) s;
          s = mark_dirty s
      in (\<lparr>no_queue = if_queue inflight, no_dead_lettered = False, no_delay_ms = retry_delay_ms,
           no_trace_context = if_trace_context inflight\<rparr>, s))"

definition apply_nack ::
    "prost \<Rightarrow> ('db, 'tx) engine \<Rightarrow> nack_request \<Rightarrow> u64 \<Rightarrow> bool \<Rightarrow> i64 \<Rightarrow> 'tx st
       \<Rightarrow> (status + nack_outcome) \<times> 'tx st" where
  "apply_nack P E req retry_delay_ms dead_letter_enabled now s =
     (case leased P E (nack_job_id req) (nack_attempt req) s of
        Inl e \<Rightarrow> (Inl e, s)
      | Inr inflight \<Rightarrow>
          if force_dead_letter req \<or> if_attempt inflight \<ge> if_max_attempts inflight
          then nack_dead_letter P E req inflight dead_letter_enabled now s
          else (case nack_retry E req inflight retry_delay_ms now s of (r, s) \<Rightarrow> (Inr r, s)))"

section \<open>Extend\<close>

record extend_outcome =
  eo_queue :: str
  eo_lease_expires_at :: i64
  eo_trace_context :: "trace_context option"

definition apply_extend ::
    "prost \<Rightarrow> ('db, 'tx) engine \<Rightarrow> extend_request \<Rightarrow> u64 \<Rightarrow> i64 \<Rightarrow> 'tx st
       \<Rightarrow> (status + extend_outcome) \<times> 'tx st" where
  "apply_extend P E req lease_ms now s =
     (case leased P E (ext_job_id req) (ext_attempt req) s of
        Inl e \<Rightarrow> (Inl e, s)
      | Inr inflight \<Rightarrow>
          (let job_id = ext_job_id req;
               old_timer = TimerKey_encode (if_lease_expires_at inflight) job_id;
               lease_ms = max lease_ms 1;
               lease_expires_at = i64_saturating_add now (i64_of_u64 lease_ms);
               inflight = inflight\<lparr>if_lease_expires_at := lease_expires_at\<rparr>;
               s = put E Inflight job_id (Inflight_encode P inflight) s;
               s = del E Leases old_timer s;
               s = on_leases (ti_del old_timer) s;
               new_timer = TimerKey_encode lease_expires_at job_id;
               s = put E Leases new_timer [] s;
               s = on_leases (ti_ins new_timer (if_queue inflight)) s;
               s = mark_dirty s
           in (Inr \<lparr>eo_queue = if_queue inflight, eo_lease_expires_at = lease_expires_at,
                    eo_trace_context = if_trace_context inflight\<rparr>, s)))"

section \<open>Refinement\<close>

text \<open>Where a retried job goes, how long an extended lease runs, what a dead letter records.\<close>

definition nack_place :: "u32 \<Rightarrow> u64 \<Rightarrow> i64 \<Rightarrow> place" where
  "nack_place a delay now =
     (if delay > 0 then InScheduled (i64_saturating_add now (i64_of_u64 delay)) (a + 1)
      else InReady (a + 1))"

definition extended_deadline :: "u64 \<Rightarrow> i64 \<Rightarrow> i64" where
  "extended_deadline lease_ms now = i64_saturating_add now (i64_of_u64 (max lease_ms 1))"

definition nack_meta :: "nack_request \<Rightarrow> i64 \<Rightarrow> dead_letter_meta" where
  "nack_meta req now =
     \<lparr>dm_cause = (if force_dead_letter req then CauseRejected else CauseAttemptsExhausted),
      dm_failed_at = now, dm_attempt = nack_attempt req, dm_last_reason = nack_reason req\<rparr>"

context storage
begin

lemma leased_Inr:
  assumes "reps s A" and "leased P E jid a s = Inr i"
  obtains x d where "fmlookup (a_jobs A) jid = Some x" and "aj_place x = InFlight d a"
    and "i = (mk_inflight P x d a)\<lparr>if_trace_context := tc_stored (j_trace_context (aj_job x))\<rparr>"
proof -
  note J = repsD(1) [OF assms(1)]
  from assms(2) obtain b where b: "tx_get E (st_tx s) Inflight jid = Inr (Some b)"
    and dec: "Inflight_decode P b = Inr i" "if_attempt i = a"
    by (auto simp: leased_def split: sum.splits option.splits if_splits)
  from get_view [OF b] jobs_rep_inflight [OF J, of jid] obtain x d a'
    where x: "fmlookup (a_jobs A) jid = Some x" "aj_place x = InFlight d a'"
      and "b = Inflight_encode P (mk_inflight P x d a')"
    by (cases "fmlookup (a_jobs A) jid") (auto split: place.splits)
  with inflight_decode [OF jobs_rep_ok [OF J x(1)] x(2)] dec
  have "i = (mk_inflight P x d a')\<lparr>if_trace_context := tc_stored (j_trace_context (aj_job x))\<rparr>"
    "a' = a"
    by (auto simp: mk_inflight_def)
  with that x show ?thesis by simp
qed

text \<open>A refusal says why: the job is not in flight, or another attempt is.\<close>

lemma leased_Inl:
  assumes "reps s A" and "leased P E jid a s = Inl e"
  shows "(\<exists>msg. e = stg_err msg)
    \<or> e = job_not_found \<and> (\<forall>x d a'. fmlookup (a_jobs A) jid = Some x \<longrightarrow> aj_place x \<noteq> InFlight d a')
    \<or> e = attempt_mismatch \<and>
        (\<exists>x d a'. fmlookup (a_jobs A) jid = Some x \<and> aj_place x = InFlight d a' \<and> a' \<noteq> a)"
proof -
  note J = repsD(1) [OF assms(1)]
  note row = jobs_rep_inflight [OF J, of jid]
  show ?thesis
  proof (cases "tx_get E (st_tx s) Inflight jid")
    case (Inl msg)
    with assms(2) show ?thesis by (auto simp: leased_def)
  next
    case (Inr r)
    note r = get_view [OF Inr]
    show ?thesis
    proof (cases r)
      case None
      with Inr assms(2) have "e = job_not_found" by (simp add: leased_def)
      with None r row show ?thesis by auto
    next
      case (Some b)
      then obtain x d a' where x: "fmlookup (a_jobs A) jid = Some x" "aj_place x = InFlight d a'"
        and b: "b = Inflight_encode P (mk_inflight P x d a')"
        using r row by (cases "fmlookup (a_jobs A) jid") (auto split: place.splits)
      have dec: "Inflight_decode P b =
          Inr ((mk_inflight P x d a')\<lparr>if_trace_context := tc_stored (j_trace_context (aj_job x))\<rparr>)"
        unfolding b by (rule inflight_decode [OF jobs_rep_ok [OF J x(1)] x(2)])
      with assms(2) Inr Some have "e = attempt_mismatch" "a' \<noteq> a"
        by (auto simp: leased_def mk_inflight_def split: if_splits)
      with x show ?thesis by blast
    qed
  qed
qed

lemma leased_Inl_code:
  "reps s A \<Longrightarrow> leased P E jid a s = Inl e \<Longrightarrow> st_code e \<in> {Internal, NotFound, FailedPrecondition}"
  using leased_Inl [of s A jid a e]
  by (auto simp: stg_err_def job_not_found_def attempt_mismatch_def)

lemma apply_ack_refines:
  assumes rep: "reps s A" and ack: "apply_ack P E jid a s = (Inr out, s')"
  shows "\<exists>x d. fmlookup (a_jobs A) jid = Some x \<and> aj_place x = InFlight d a
    \<and> reps s' (A\<lparr>a_jobs := fmdrop jid (a_jobs A)\<rparr>)
    \<and> out = \<lparr>ao_queue = aj_queue x, ao_trace_context = tc_stored (j_trace_context (aj_job x))\<rparr>
    \<and> cy_dirty (st_cyc s')"
proof -
  from ack obtain i where lease: "leased P E jid a s = Inr i"
    by (auto simp: apply_ack_def Let_def split: sum.splits)
  obtain x d where x: "fmlookup (a_jobs A) jid = Some x" "aj_place x = InFlight d a"
    and i: "i = (mk_inflight P x d a)\<lparr>if_trace_context := tc_stored (j_trace_context (aj_job x))\<rparr>"
    using leased_Inr [OF rep lease] by blast
  have no_payload: "fmdrop jid (txv (st_tx s) Payloads) = txv (st_tx s) Payloads" if "aj_payload x = None"
    using jobs_rep_payload [OF repsD(1) [OF rep], of jid] that x by (intro fmdrop_absent) simp
  have "reps s' (A\<lparr>a_jobs := set_opt jid None (a_jobs A)\<rparr>)"
    using ack x no_payload by (intro reps_job_step [OF rep])
      (auto simp: apply_ack_def lease i lease_simps, cases "aj_payload x", auto)
  then show ?thesis using ack x by (auto simp: apply_ack_def lease i Let_def mk_inflight_def)
qed

lemma nack_place_ok:
  assumes "ajob_ok P jid x" and "a < j_max_attempts (aj_job x)" and "0 \<le> now"
  shows "ajob_ok P jid (x\<lparr>aj_place := nack_place a delay now\<rparr>)"
  using assms attempt_step [OF assms(2)]
  by (auto simp: ajob_ok_def nack_place_def place_ok_def)

lemma nack_retry_refines:
  assumes rep: "reps s A" and x: "fmlookup (a_jobs A) jid = Some x" "aj_place x = InFlight d a"
    and i: "i = (mk_inflight P x d a)\<lparr>if_trace_context := tc\<rparr>"
    and less: "a < j_max_attempts (aj_job x)" and now: "0 \<le> now"
    and jid: "jid = nack_job_id req"
    and nack: "nack_retry E req i delay now s = (out, s')"
  shows "reps s' (A\<lparr>a_jobs := fmupd jid (x\<lparr>aj_place := nack_place a delay now\<rparr>) (a_jobs A)\<rparr>)"
proof -
  note ok = jobs_rep_ok [OF repsD(1) [OF rep] x(1)]
  have id: "j_id (aj_job x) = nack_job_id req" using ok jid by (simp add: ajob_ok_def)
  show ?thesis
    by (rule reps_move_step [OF rep x(1) nack_place_ok [OF ok less now]])
       (use nack x in \<open>auto simp: nack_retry_def i nack_place_def rkey_def id jid lease_simps split: if_splits\<close>)
qed


lemma nack_dead_letter_refines:
  assumes rep: "reps s A" and x: "fmlookup (a_jobs A) jid = Some x" "aj_place x = InFlight d a"
    and i: "i = (mk_inflight P x d a)\<lparr>if_trace_context := tc\<rparr>"
    and now: "0 \<le> now" "i64_ok now" and reason: "pred_option utf8_valid (nack_reason req)"
    and jid: "jid = nack_job_id req"
    and nack: "nack_dead_letter P E req i en now s = (Inr out, s')"
  defines "m \<equiv> \<lparr>dm_cause = (if force_dead_letter req then CauseRejected else CauseAttemptsExhausted),
      dm_failed_at = now, dm_attempt = a, dm_last_reason = nack_reason req\<rparr>"
  shows "reps s' (kill jid (if en then Some (dead_of P x m) else None) A)"
proof -
  have m: "meta_ok m" using now reason by (simp add: m_def meta_ok_def)
  let ?done = "\<lambda>t. del E Leases (TimerKey_encode d jid) (del E Inflight jid (del E Payloads jid (del E Jobs jid t)))"
  from nack obtain u s1 f where st: "maybe_store_dead_letter P E jid m en s = (Inr u, s1)"
    and s': "s' = on_cycle f (on_leases (ti_del (TimerKey_encode d jid)) (?done s1))"
    by (auto simp: nack_dead_letter_def m_def i jid mk_inflight_def Let_def mark_dirty_def on_cycle_def
        split: prod.splits sum.splits if_splits)
  note s1 = maybe_store_live [OF repsD(1) [OF rep] x(1) st]
  note ok = dead_of_ok [OF jobs_rep_ok [OF repsD(1) [OF rep] x(1)] m]
  show ?thesis
    by (rule reps_kill_step [OF rep x(1)])
       (use x ok in \<open>auto simp: s' s1 lease_simps split: if_splits\<close>)
qed

lemma Inflight_encode_stored:
  assumes "pred_option tc_ok c"
  shows "Inflight_encode P (i\<lparr>if_trace_context := tc_stored c\<rparr>) = Inflight_encode P (i\<lparr>if_trace_context := c\<rparr>)"
proof (cases "c = Some tc_default")
  case True
  with assms have "tc_encode P tc_default = []" by (simp add: tc_encode_empty)
  with True show ?thesis by (simp add: Inflight_encode_def tc_stored_def)
qed (simp add: tc_stored_def)

lemma apply_extend_refines:
  assumes rep: "reps s A" and now: "0 \<le> now" and jid: "jid = ext_job_id req"
    and ext: "apply_extend P E req lease_ms now s = (Inr out, s')"
  shows "\<exists>x d. fmlookup (a_jobs A) jid = Some x \<and> aj_place x = InFlight d (ext_attempt req)
    \<and> reps s' (A\<lparr>a_jobs := fmupd jid
        (x\<lparr>aj_place := InFlight (extended_deadline lease_ms now) (ext_attempt req)\<rparr>) (a_jobs A)\<rparr>)
    \<and> eo_lease_expires_at out = extended_deadline lease_ms now \<and> eo_queue out = aj_queue x
    \<and> cy_dirty (st_cyc s')"
proof -
  let ?a = "ext_attempt req"
  let ?d = "extended_deadline lease_ms now"
  from ext obtain i where lease: "leased P E jid ?a s = Inr i"
    by (auto simp: apply_extend_def Let_def jid split: sum.splits)
  obtain x d where x: "fmlookup (a_jobs A) jid = Some x" "aj_place x = InFlight d ?a"
    and i: "i = (mk_inflight P x d ?a)\<lparr>if_trace_context := tc_stored (j_trace_context (aj_job x))\<rparr>"
    using leased_Inr [OF rep lease] by blast
  note ok = jobs_rep_ok [OF repsD(1) [OF rep] x(1)]
  have tc: "pred_option tc_ok (j_trace_context (aj_job x))" using ok by (simp add: ajob_ok_def job_ok_def)
  have enc: "Inflight_encode P (i\<lparr>if_lease_expires_at := ?d\<rparr>)
      = Inflight_encode P (mk_inflight P (x\<lparr>aj_place := InFlight ?d ?a\<rparr>) ?d ?a)"
    using Inflight_encode_stored [OF tc, of "mk_inflight P x ?d ?a"] by (simp add: i mk_inflight_def)
  have "reps s' (A\<lparr>a_jobs := fmupd jid (x\<lparr>aj_place := InFlight ?d ?a\<rparr>) (a_jobs A)\<rparr>)"
  proof (rule reps_move_step [OF rep x(1)])
    show "ajob_ok P jid (x\<lparr>aj_place := InFlight ?d ?a\<rparr>)"
      using ok x now by (simp add: ajob_ok_def place_ok_def extended_deadline_def)
  qed (use ext x enc in \<open>auto simp: apply_extend_def lease jid [symmetric] extended_deadline_def i
      job_spaces_def rix_view_def six_view_def lix_view_def view_simps Let_def\<close>,
      simp_all add: mk_inflight_def)
  moreover have "eo_lease_expires_at out = ?d" "eo_queue out = aj_queue x" "cy_dirty (st_cyc s')"
    using ext by (auto simp: apply_extend_def lease jid [symmetric] i Let_def mk_inflight_def
        extended_deadline_def)
  ultimately show ?thesis using x by blast
qed

lemma apply_nack_refines:
  assumes rep: "reps s A" and now: "0 \<le> now" "i64_ok now"
    and reason: "pred_option utf8_valid (nack_reason req)" and jid: "jid = nack_job_id req"
    and nack: "apply_nack P E req delay en now s = (Inr out, s')"
  shows "\<exists>x d. fmlookup (a_jobs A) jid = Some x \<and> aj_place x = InFlight d (nack_attempt req)
    \<and> no_queue out = aj_queue x \<and> cy_dirty (st_cyc s')
    \<and> (if force_dead_letter req \<or> j_max_attempts (aj_job x) \<le> nack_attempt req
       then no_dead_lettered out
         \<and> reps s' (kill jid (if en then Some (dead_of P x (nack_meta req now)) else None) A)
       else \<not> no_dead_lettered out
         \<and> reps s' (A\<lparr>a_jobs := fmupd jid
              (x\<lparr>aj_place := nack_place (nack_attempt req) delay now\<rparr>) (a_jobs A)\<rparr>))"
proof -
  let ?a = "nack_attempt req"
  from nack obtain i where lease: "leased P E jid ?a s = Inr i"
    by (auto simp: apply_nack_def jid split: sum.splits)
  obtain x d where x: "fmlookup (a_jobs A) jid = Some x" "aj_place x = InFlight d ?a"
    and i: "i = (mk_inflight P x d ?a)\<lparr>if_trace_context := tc_stored (j_trace_context (aj_job x))\<rparr>"
    using leased_Inr [OF rep lease] by blast
  have if_i: "if_attempt i = ?a" "if_max_attempts i = j_max_attempts (aj_job x)" "if_queue i = aj_queue x"
    by (simp_all add: i mk_inflight_def)
  show ?thesis
  proof (cases "force_dead_letter req \<or> j_max_attempts (aj_job x) \<le> ?a")
    case True
    with nack have dl: "nack_dead_letter P E req i en now s = (Inr out, s')"
      by (simp add: apply_nack_def lease jid [symmetric] if_i)
    then have "no_dead_lettered out" "no_queue out = aj_queue x" "cy_dirty (st_cyc s')"
      by (auto simp: nack_dead_letter_def Let_def if_i split: prod.splits sum.splits)
    with nack_dead_letter_refines [OF rep x i now reason jid dl] True x show ?thesis
      by (auto simp: nack_meta_def)
  next
    case False
    with nack have r: "nack_retry E req i delay now s = (out, s')"
      by (simp add: apply_nack_def lease jid [symmetric] if_i split: prod.splits)
    then have "\<not> no_dead_lettered out" "no_queue out = aj_queue x" "cy_dirty (st_cyc s')"
      by (auto simp: nack_retry_def Let_def if_i)
    with nack_retry_refines [OF rep x i _ now(1) jid r] False x show ?thesis by auto
  qed
qed

text \<open>A refused or failed operation leaves the state as it was.\<close>

lemma settle_unchanged:
  "apply_ack P E jid a s = (Inl e, s') \<Longrightarrow> s' = s \<and> leased P E jid a s = Inl e"
  "apply_extend P E req lease_ms now s = (Inl e, s') \<Longrightarrow>
     s' = s \<and> leased P E (ext_job_id req) (ext_attempt req) s = Inl e"
  "apply_nack P E nreq delay en now s = (Inl e, s') \<Longrightarrow>
     s' = s \<and> (leased P E (nack_job_id nreq) (nack_attempt nreq) s = Inl e \<or> st_code e = Internal)"
  by (auto simp: apply_ack_def apply_extend_def apply_nack_def nack_dead_letter_def Let_def
      dest: maybe_store_error split: sum.splits if_splits prod.splits)

end

end
