(* ===== verification/Enqueue.thy ===== *)
theory Enqueue
  imports Abs_Queue
begin

text \<open>
  Enqueueing, from \<open>src/storage.rs\<close>: the deduplication check, the insertion of one job, the
  best-effort batch (\<open>apply_enqueue\<close>) and the all-or-nothing batch (\<open>apply_enqueue_atomic\<close>).
\<close>

section \<open>Rejections and the deduplication check\<close>

definition queue_full :: "str \<Rightarrow> u64 \<Rightarrow> job_rejection" where
  "queue_full q cap = JobRejection (Some (QueueFull q cap))"

definition queue_closing :: "str \<Rightarrow> job_rejection" where
  "queue_closing q = JobRejection (Some (QueueClosing q))"

datatype dedup_check = Hit enqueue_response | Miss "bytes option"

definition check_dedup ::
    "('db, 'tx) engine \<Rightarrow> enqueue_request \<Rightarrow> i64 \<Rightarrow> 'tx st \<Rightarrow> (status + dedup_check) \<times> 'tx st" where
  "check_dedup E req now s =
     (case er_idempotency_key req of
        None \<Rightarrow> (Inr (Miss None), s)
      | Some key \<Rightarrow>
          (let dkey = DedupKey_encode (er_queue req) key
           in case tx_get E (st_tx s) Dedup dkey of
                Inl e \<Rightarrow> (Inl (stg_err e), s)
              | Inr None \<Rightarrow> (Inr (Miss None), s)
              | Inr (Some existing) \<Rightarrow>
                  (case DedupValue_decode existing of
                     None \<Rightarrow> (Inr (Miss None), s)
                   | Some dv \<Rightarrow>
                       if now < dv_deadline dv
                       then (Inr (Hit \<lparr>resp_job_id = dv_job_id dv, resp_deduplicated = True\<rparr>),
                             on_cycle (deduplicated (er_queue req)) s)
                       else (Inr (Miss (Some (DedupTimerKey_encode (dv_deadline dv) dkey))), s))))"

section \<open>Inserting one job\<close>

text \<open>The job record of a prepared job, as it is stored.\<close>

definition new_job :: "prost \<Rightarrow> prepared_job \<Rightarrow> i64 \<Rightarrow> job" where
  "new_job P pj now =
     \<lparr>j_id = pj_id pj, j_type = er_job_type (pj_req pj), j_payload = None,
      j_priority = jl_priority (pj_limits pj), j_trace_context = er_trace_context (pj_req pj),
      j_enqueued_at = Some (millis_to_timestamp P now), j_attempt = 1,
      j_max_attempts = jl_max_attempts (pj_limits pj),
      j_lease_expires_at = Some (millis_to_timestamp P 0), j_custom = er_custom (pj_req pj),
      j_scheduled_at = er_scheduled_at (pj_req pj), j_queue = []\<rparr>"

definition insert_job_place ::
    "prost \<Rightarrow> ('db, 'tx) engine \<Rightarrow> prepared_job \<Rightarrow> i64 \<Rightarrow> 'tx st \<Rightarrow> 'tx st" where
  "insert_job_place P E pj now s =
     (let queue = er_queue (pj_req pj);
          job = new_job P pj now;
          scheduled_at_ms = map_option (timestamp_to_millis P) (er_scheduled_at (pj_req pj))
      in if (case scheduled_at_ms of Some at \<Rightarrow> at > now | None \<Rightarrow> False)
         then (let tk = TimerKey_encode (the scheduled_at_ms) (pj_id pj);
                   s = put E Scheduled tk (u32_be (j_attempt job)) s
               in on_scheduled (ti_ins tk queue) s)
         else (let rk = ReadyKey_encode \<lparr>rk_queue = queue, rk_priority = j_priority job,
                     rk_enqueued_at = now, rk_job_id = pj_id pj\<rparr>;
                   s = put E Ready rk (u32_be (j_attempt job)) s;
                   s = on_ready (ri_ins rk (j_attempt job)) s
               in new_ready queue s))"

definition insert_job_dedup ::
    "('db, 'tx) engine \<Rightarrow> prepared_job \<Rightarrow> i64 \<Rightarrow> bytes option \<Rightarrow> 'tx st \<Rightarrow> 'tx st" where
  "insert_job_dedup E pj now stale_dedup_timer s =
     (case er_idempotency_key (pj_req pj) of
        None \<Rightarrow> s
      | Some key \<Rightarrow>
          (let queue = er_queue (pj_req pj);
               dkey = DedupKey_encode queue key;
               s = (case stale_dedup_timer of
                      Some old_timer \<Rightarrow>
                        on_dedup_timers (ti_del old_timer) (del E DedupTimers old_timer s)
                    | None \<Rightarrow> s);
               deadline = i64_saturating_add now (jl_dedup_window_ms (pj_limits pj));
               dtk = DedupTimerKey_encode deadline dkey;
               s = put E DedupTimers dtk [] s;
               s = on_dedup_timers (ti_ins dtk queue) s
           in put E Dedup dkey (DedupValue_encode
                \<lparr>dv_enqueued_at = now, dv_deadline = deadline, dv_job_id = pj_id pj\<rparr>) s))"

definition insert_job ::
    "prost \<Rightarrow> ('db, 'tx) engine \<Rightarrow> prepared_job \<Rightarrow> i64 \<Rightarrow> bytes option \<Rightarrow> 'tx st
       \<Rightarrow> enqueue_response \<times> 'tx st" where
  "insert_job P E pj now stale_dedup_timer s =
     (let queue = er_queue (pj_req pj);
          s = put E Jobs (pj_id pj) (JobValue_encode P queue (new_job P pj now)) s;
          s = (case er_payload (pj_req pj) of
                 Some p \<Rightarrow> put E Payloads (pj_id pj) (payload_encode P p) s
               | None \<Rightarrow> s);
          s = insert_job_place P E pj now s;
          s = insert_job_dedup E pj now stale_dedup_timer s;
          s = on_cycle (enqueued queue) s;
          s = mark_dirty s
      in (\<lparr>resp_job_id = pj_id pj, resp_deduplicated = False\<rparr>, s))"

section \<open>The best-effort batch\<close>

type_synonym enqueue_result = "job_rejection + enqueue_response"

definition is_closing :: "indexes \<Rightarrow> str \<Rightarrow> i64 \<Rightarrow> bool" where
  "is_closing ix q now = (case fmlookup (ix_closing ix) q of Some deadline \<Rightarrow> deadline > now | None \<Rightarrow> False)"

fun enqueue_loop ::
    "prost \<Rightarrow> ('db, 'tx) engine \<Rightarrow> i64 \<Rightarrow> enqueue_result list \<Rightarrow> prepared_job list \<Rightarrow> 'tx st
       \<Rightarrow> (status + enqueue_result list) \<times> 'tx st" where
  "enqueue_loop P E now results [] s = (Inr results, s)"
| "enqueue_loop P E now results (job # jobs) s =
     (let queue = er_queue (pj_req job)
      in if is_closing (st_ix s) queue now
         then enqueue_loop P E now (results @ [Inl (queue_closing queue)]) jobs s
         else case check_dedup E (pj_req job) now s of
           (Inl e, s) \<Rightarrow> (Inl e, s)
         | (Inr (Hit resp), s) \<Rightarrow> enqueue_loop P E now (results @ [Inr resp]) jobs s
         | (Inr (Miss stale_timer), s) \<Rightarrow>
             if (case jl_max_queue_depth (pj_limits job) of
                   Some cap \<Rightarrow> live_depth (st_ix s) queue \<ge> cap | None \<Rightarrow> False)
             then enqueue_loop P E now
               (results @ [Inl (queue_full queue (the (jl_max_queue_depth (pj_limits job))))]) jobs s
             else (case insert_job P E job now stale_timer s of
               (resp, s) \<Rightarrow> enqueue_loop P E now (results @ [Inr resp]) jobs s))"

definition apply_enqueue ::
    "prost \<Rightarrow> ('db, 'tx) engine \<Rightarrow> prepared_job list \<Rightarrow> i64 \<Rightarrow> 'tx st
       \<Rightarrow> (status + enqueue_result list) \<times> 'tx st" where
  "apply_enqueue P E jobs now s = enqueue_loop P E now [] jobs s"

section \<open>The atomic batch\<close>

datatype atomic_enqueue_outcome =
    Committed "enqueue_response list"
  | Rejected "(u32 \<times> job_rejection) list"

definition atomic_closing :: "indexes \<Rightarrow> prepared_job list \<Rightarrow> i64 \<Rightarrow> (u32 \<times> job_rejection) list" where
  "atomic_closing ix jobs now =
     map (\<lambda>(i, job). (of_nat i, queue_closing (er_queue (pj_req job))))
       (filter (\<lambda>(i, job). is_closing ix (er_queue (pj_req job)) now) (enumerate 0 jobs))"

text \<open>\<open>entry(queue).or_insert((0, cap)).0 += 1\<close>: the first job of a queue fixes its cap.\<close>

definition bump_wanted :: "(str, nat \<times> u64 option) fmap \<Rightarrow> prepared_job \<Rightarrow> (str, nat \<times> u64 option) fmap" where
  "bump_wanted m job =
     (let q = er_queue (pj_req job);
          (count, cap) = (case fmlookup m q of Some e \<Rightarrow> e | None \<Rightarrow> (0, jl_max_queue_depth (pj_limits job)))
      in fmupd q (count + 1, cap) m)"

definition wanted :: "prepared_job list \<Rightarrow> (str, nat \<times> u64 option) fmap" where
  "wanted jobs = foldl bump_wanted fmempty jobs"

definition full_queues :: "indexes \<Rightarrow> (str, nat \<times> u64 option) fmap \<Rightarrow> (str, u64) fmap" where
  "full_queues ix w =
     collect_map (List.map_filter (\<lambda>(q, (count, cap)). case cap of
         Some c \<Rightarrow> if live_depth ix q + count > c then Some (q, c) else None
       | None \<Rightarrow> None) (sorted_list_of_fmap w))"

definition atomic_full :: "(str, u64) fmap \<Rightarrow> prepared_job list \<Rightarrow> (u32 \<times> job_rejection) list" where
  "atomic_full full jobs =
     List.map_filter (\<lambda>(i, job). map_option (\<lambda>cap. (of_nat i, queue_full (er_queue (pj_req job)) cap))
       (fmlookup full (er_queue (pj_req job)))) (enumerate 0 jobs)"

fun atomic_loop ::
    "prost \<Rightarrow> ('db, 'tx) engine \<Rightarrow> i64 \<Rightarrow> enqueue_response list \<Rightarrow> prepared_job list \<Rightarrow> 'tx st
       \<Rightarrow> (status + enqueue_response list) \<times> 'tx st" where
  "atomic_loop P E now responses [] s = (Inr responses, s)"
| "atomic_loop P E now responses (job # jobs) s =
     (case check_dedup E (pj_req job) now s of
        (Inl e, s) \<Rightarrow> (Inl e, s)
      | (Inr (Hit resp), s) \<Rightarrow> atomic_loop P E now (responses @ [resp]) jobs s
      | (Inr (Miss stale_timer), s) \<Rightarrow>
          (case insert_job P E job now stale_timer s of
             (resp, s) \<Rightarrow> atomic_loop P E now (responses @ [resp]) jobs s))"

definition apply_enqueue_atomic ::
    "prost \<Rightarrow> ('db, 'tx) engine \<Rightarrow> prepared_job list \<Rightarrow> i64 \<Rightarrow> 'tx st
       \<Rightarrow> (status + atomic_enqueue_outcome) \<times> 'tx st" where
  "apply_enqueue_atomic P E jobs now s =
     (let closing = atomic_closing (st_ix s) jobs now
      in if closing \<noteq> [] then (Inr (Rejected closing), s)
         else
           (let full = full_queues (st_ix s) (wanted jobs)
            in if full \<noteq> fmempty then (Inr (Rejected (atomic_full full jobs)), s)
               else (case atomic_loop P E now [] jobs s of
                  (Inl e, s) \<Rightarrow> (Inl e, s)
                | (Inr responses, s) \<Rightarrow> (Inr (Committed responses), s))))"

section \<open>What an accepted job becomes\<close>

definition new_place :: "prost \<Rightarrow> prepared_job \<Rightarrow> i64 \<Rightarrow> place" where
  "new_place P pj now =
     (case map_option (timestamp_to_millis P) (er_scheduled_at (pj_req pj)) of
        Some at \<Rightarrow> if at > now then InScheduled at 1 else InReady 1
      | None \<Rightarrow> InReady 1)"

definition new_ajob :: "prost \<Rightarrow> prepared_job \<Rightarrow> i64 \<Rightarrow> ajob" where
  "new_ajob P pj now = \<lparr>aj_queue = er_queue (pj_req pj), aj_job = new_job P pj now,
     aj_payload = er_payload (pj_req pj), aj_place = new_place P pj now\<rparr>"

definition dedup_key_of :: "enqueue_request \<Rightarrow> bytes option" where
  "dedup_key_of req = map_option (DedupKey_encode (er_queue req)) (er_idempotency_key req)"

definition new_dedup :: "prepared_job \<Rightarrow> i64 \<Rightarrow> adedup" where
  "new_dedup pj now = \<lparr>dp_queue = er_queue (pj_req pj), dp_key = the (er_idempotency_key (pj_req pj)),
     dp_value = \<lparr>dv_enqueued_at = now,
       dv_deadline = i64_saturating_add now (jl_dedup_window_ms (pj_limits pj)), dv_job_id = pj_id pj\<rparr>\<rparr>"

definition accepted :: "prost \<Rightarrow> prepared_job \<Rightarrow> i64 \<Rightarrow> abs_queue \<Rightarrow> abs_queue" where
  "accepted P pj now A =
     A\<lparr>a_jobs := fmupd (pj_id pj) (new_ajob P pj now) (a_jobs A),
       a_dedup := (case dedup_key_of (pj_req pj) of
         Some k \<Rightarrow> fmupd k (new_dedup pj now) (a_dedup A) | None \<Rightarrow> a_dedup A)\<rparr>"

text \<open>What the Rust types and the request checks guarantee of a prepared job.\<close>

definition pj_ok :: "prepared_job \<Rightarrow> bool" where
  "pj_ok pj \<longleftrightarrow> utf8_valid (pj_id pj) \<and> queue_ok (er_queue (pj_req pj))
     \<and> utf8_valid (er_job_type (pj_req pj)) \<and> pred_option payload_ok (er_payload (pj_req pj))
     \<and> pred_option tc_ok (er_trace_context (pj_req pj)) \<and> custom_ok (er_custom (pj_req pj))
     \<and> pred_option ts_ok (er_scheduled_at (pj_req pj)) \<and> 1 \<le> jl_max_attempts (pj_limits pj)
     \<and> 0 \<le> jl_dedup_window_ms (pj_limits pj)"

definition enqueue_events :: "prepared_job \<Rightarrow> event list" where
  "enqueue_events pj = Enqueued (pj_id pj) #
     (case dedup_key_of (pj_req pj) of Some k \<Rightarrow> [DedupSet k] | None \<Rightarrow> [])"

lemma accepted_run:
  assumes "fmlookup (a_jobs A) (pj_id pj) = None" and "fmlookup (a_dead A) (pj_id pj) = None"
  shows "arun A (enqueue_events pj) (accepted P pj now A)"
proof -
  let ?B = "A\<lparr>a_jobs := fmupd (pj_id pj) (new_ajob P pj now) (a_jobs A)\<rparr>"
  have "\<exists>d. aj_place (new_ajob P pj now) = InReady 1 \<or> aj_place (new_ajob P pj now) = InScheduled d 1"
    by (auto simp: new_ajob_def new_place_def split: option.splits)
  then have 1: "astep A (Enqueued (pj_id pj)) ?B" using assms by (blast intro: astep.enqueue)
  show ?thesis
  proof (cases "dedup_key_of (pj_req pj)")
    case None
    with arun_single [OF 1] show ?thesis by (simp add: enqueue_events_def accepted_def)
  next
    case (Some k)
    have "arun ?B [DedupSet k] (?B\<lparr>a_dedup := fmupd k (new_dedup pj now) (a_dedup ?B)\<rparr>)"
      by (rule arun_single) (rule astep.dedup_set)
    with 1 Some show ?thesis by (auto simp: enqueue_events_def accepted_def intro: arun_Cons)
  qed
qed

text \<open>The jobs of a batch that were inserted, read off the results.\<close>

definition is_fresh :: "prepared_job \<Rightarrow> enqueue_result \<Rightarrow> bool" where
  "is_fresh pj r \<longleftrightarrow> r = Inr \<lparr>resp_job_id = pj_id pj, resp_deduplicated = False\<rparr>"

definition accepted_of :: "prepared_job list \<Rightarrow> enqueue_result list \<Rightarrow> prepared_job list" where
  "accepted_of jobs rs = map fst (filter (\<lambda>(pj, r). is_fresh pj r) (zip jobs rs))"

section \<open>Refinement\<close>

context storage
begin

lemma new_ajob_ok:
  assumes "pj_ok pj" and "0 \<le> now" and "i64_ok now"
  shows "ajob_ok P (pj_id pj) (new_ajob P pj now)"
proof -
  have "enq_ms P (new_job P pj now) = now" using assms by (simp add: enq_ms_def new_job_def)
  moreover have "job_ok (new_job P pj now)"
    using assms by (simp add: job_ok_def new_job_def pj_ok_def ascii_utf8 ascii_def)
  moreover have "i64_ok (timestamp_to_millis P t)" for t
    by (simp add: timestamp_to_millis_def Let_def)
  ultimately show ?thesis
    using assms
    by (auto simp: ajob_ok_def new_ajob_def pj_ok_def new_place_def place_ok_def split: option.splits)
       (simp_all add: new_job_def)
qed

lemma new_dedup_ok:
  assumes "pj_ok pj" and "0 \<le> now" and "i64_ok now" and "dedup_key_of (pj_req pj) = Some k"
  shows "adedup_ok k (new_dedup pj now)"
  using assms by (auto simp: adedup_ok_def new_dedup_def pj_ok_def dedup_key_of_def)

lemma check_dedup_Miss:
  assumes rep: "reps s A" and miss: "check_dedup E req now s = (Inr (Miss stale), s')"
  shows "s' = s"
    and "dedup_key_of req = Some k \<Longrightarrow> stale = map_option (dedup_timer k) (fmlookup (a_dedup A) k)"
    and "dedup_key_of req = Some k \<Longrightarrow> fmlookup (a_dedup A) k = Some u \<Longrightarrow> dv_deadline (dp_value u) \<le> now"
proof -
  have row: "tx_get E (st_tx s) Dedup k = Inr w \<Longrightarrow>
      w = map_option (\<lambda>u. DedupValue_encode (dp_value u)) (fmlookup (a_dedup A) k)" for k w
    using get_view [of "st_tx s" Dedup k] dedup_rep_lookup [OF repsD(3) [OF rep], of k] by simp
  have dec: "DedupValue_decode (DedupValue_encode (dp_value u)) = Some (dp_value u)"
    if "fmlookup (a_dedup A) k = Some u" for k u
    using repsD(3) [OF rep] that by (auto simp: dedup_rep_def adedup_ok_def byte_simps)
  show "s' = s" using miss
    by (auto simp: check_dedup_def Let_def split: option.splits sum.splits if_splits)
  assume k: "dedup_key_of req = Some k"
  then obtain key where key: "er_idempotency_key req = Some key" "k = DedupKey_encode (er_queue req) key"
    by (auto simp: dedup_key_of_def)
  show "stale = map_option (dedup_timer k) (fmlookup (a_dedup A) k)"
    using miss row [of k] dec [of k] key
    by (cases "fmlookup (a_dedup A) k")
       (auto simp: check_dedup_def Let_def dedup_timer_def split: sum.splits option.splits if_splits)
  show "dv_deadline (dp_value u) \<le> now" if "fmlookup (a_dedup A) k = Some u"
    using miss row [of k] dec [OF that] key that
    by (auto simp: check_dedup_def Let_def split: sum.splits option.splits if_splits)
qed

lemma check_dedup_Hit:
  assumes rep: "reps s A" and hit: "check_dedup E req now s = (Inr (Hit resp), s')"
  shows "\<exists>k u. dedup_key_of req = Some k \<and> fmlookup (a_dedup A) k = Some u
    \<and> now < dv_deadline (dp_value u)
    \<and> resp = \<lparr>resp_job_id = dv_job_id (dp_value u), resp_deduplicated = True\<rparr>"
    and "s' = on_cycle (deduplicated (er_queue req)) s"
proof -
  from hit obtain key b dv where key: "er_idempotency_key req = Some key"
    and b: "tx_get E (st_tx s) Dedup (DedupKey_encode (er_queue req) key) = Inr (Some b)"
    and dv: "DedupValue_decode b = Some dv" "now < dv_deadline dv"
    and out: "resp = \<lparr>resp_job_id = dv_job_id dv, resp_deduplicated = True\<rparr>"
      "s' = on_cycle (deduplicated (er_queue req)) s"
    by (auto simp: check_dedup_def Let_def split: sum.splits option.splits if_splits)
  let ?k = "DedupKey_encode (er_queue req) key"
  obtain u where u: "fmlookup (a_dedup A) ?k = Some u" "b = DedupValue_encode (dp_value u)"
    using get_view [OF b] dedup_rep_lookup [OF repsD(3) [OF rep], of ?k]
    by (cases "fmlookup (a_dedup A) ?k") auto
  then have "dv = dp_value u"
    using repsD(3) [OF rep] dv by (auto simp: dedup_rep_def adedup_ok_def byte_simps)
  with key u dv out show "\<exists>k u. dedup_key_of req = Some k \<and> fmlookup (a_dedup A) k = Some u
    \<and> now < dv_deadline (dp_value u)
    \<and> resp = \<lparr>resp_job_id = dv_job_id (dp_value u), resp_deduplicated = True\<rparr>"
    by (intro exI [of _ ?k] exI [of _ u]) (simp add: dedup_key_of_def)
  show "s' = on_cycle (deduplicated (er_queue req)) s" by (rule out(2))
qed

text \<open>How the three parts of the insertion change the rows and the indexes.\<close>

lemma insert_place_view:
  fixes pj :: prepared_job and now :: i64
  assumes "0 \<le> now" and "i64_ok now"
  defines "x \<equiv> new_ajob P pj now"
  shows "txv (st_tx (insert_job_place P E pj now s)) = (txv (st_tx s))
      (Ready := m_ins (jview P Ready (pj_id pj) x) (txv (st_tx s) Ready),
       Scheduled := m_ins (jview P Scheduled (pj_id pj) x) (txv (st_tx s) Scheduled))"
    and "st_ix (insert_job_place P E pj now s) = (st_ix s)\<lparr>
      ix_ready := ri_chg None (rix_view P (pj_id pj) x) (ix_ready (st_ix s)),
      ix_scheduled := ti_chg None (six_view (pj_id pj) x) (ix_scheduled (st_ix s))\<rparr>"
proof -
  have "enq_ms P (new_job P pj now) = now" using assms by (simp add: enq_ms_def new_job_def)
  then have rk: "rkey P x = ReadyKey_encode \<lparr>rk_queue = er_queue (pj_req pj),
      rk_priority = j_priority (new_job P pj now), rk_enqueued_at = now, rk_job_id = pj_id pj\<rparr>"
    by (simp add: rkey_def x_def new_ajob_def) (simp add: new_job_def)
  have att: "j_attempt (new_job P pj now) = 1" by (simp add: new_job_def)
  have x: "aj_place x = new_place P pj now" "aj_queue x = er_queue (pj_req pj)"
    by (simp_all add: x_def new_ajob_def)
  show "txv (st_tx (insert_job_place P E pj now s)) = (txv (st_tx s))
      (Ready := m_ins (jview P Ready (pj_id pj) x) (txv (st_tx s) Ready),
       Scheduled := m_ins (jview P Scheduled (pj_id pj) x) (txv (st_tx s) Scheduled))"
    by (cases "er_scheduled_at (pj_req pj)")
       (auto simp: insert_job_place_def new_place_def x rk att view_simps Let_def)
  show "st_ix (insert_job_place P E pj now s) = (st_ix s)\<lparr>
      ix_ready := ri_chg None (rix_view P (pj_id pj) x) (ix_ready (st_ix s)),
      ix_scheduled := ti_chg None (six_view (pj_id pj) x) (ix_scheduled (st_ix s))\<rparr>"
    by (cases "er_scheduled_at (pj_req pj)")
       (auto simp: insert_job_place_def new_place_def x rk att rix_view_def six_view_def Let_def)
qed

lemma insert_dedup_view:
  fixes pj :: prepared_job and now :: i64
  assumes "dedup_key_of (pj_req pj) = Some k" and "stale = map_option (dedup_timer k) old"
  defines "u \<equiv> new_dedup pj now"
  shows "txv (st_tx (insert_job_dedup E pj now stale s)) = (txv (st_tx s))
      (Dedup := m_ins (uview k u) (txv (st_tx s) Dedup),
       DedupTimers := chg (utview k) old (Some u) (txv (st_tx s) DedupTimers))"
    and "st_ix (insert_job_dedup E pj now stale s) = (st_ix s)\<lparr>ix_dedup_timers :=
      ti_chg (Option.bind old (uix_view k)) (uix_view k u) (ix_dedup_timers (st_ix s))\<rparr>"
proof -
  obtain key where key: "er_idempotency_key (pj_req pj) = Some key"
    "k = DedupKey_encode (er_queue (pj_req pj)) key"
    using assms(1) by (auto simp: dedup_key_of_def)
  show "txv (st_tx (insert_job_dedup E pj now stale s)) = (txv (st_tx s))
      (Dedup := m_ins (uview k u) (txv (st_tx s) Dedup),
       DedupTimers := chg (utview k) old (Some u) (txv (st_tx s) DedupTimers))"
    by (cases old) (simp_all add: insert_job_dedup_def key assms(2) u_def new_dedup_def uview_def
        utview_def dedup_timer_def chg_def view_simps Let_def fun_upd_twist)
  show "st_ix (insert_job_dedup E pj now stale s) = (st_ix s)\<lparr>ix_dedup_timers :=
      ti_chg (Option.bind old (uix_view k)) (uix_view k u) (ix_dedup_timers (st_ix s))\<rparr>"
    by (cases old) (simp_all add: insert_job_dedup_def key assms(2) u_def new_dedup_def uix_view_def
        dedup_timer_def Let_def)
qed

lemma insert_job_refines:
  assumes rep: "reps s A" and pj: "pj_ok pj" and now: "0 \<le> now" "i64_ok now"
    and fresh: "fmlookup (a_jobs A) (pj_id pj) = None" "fmlookup (a_dead A) (pj_id pj) = None"
    and stale: "\<And>k. dedup_key_of (pj_req pj) = Some k \<Longrightarrow> stale = map_option (dedup_timer k) (fmlookup (a_dedup A) k)"
    and ins: "insert_job P E pj now stale s = (resp, s')"
  shows "reps s' (accepted P pj now A)" and "cy_dirty (st_cyc s')"
    and "resp = \<lparr>resp_job_id = pj_id pj, resp_deduplicated = False\<rparr>"
proof -
  let ?x = "new_ajob P pj now"
  define s1 where "s1 = put E Jobs (pj_id pj) (JobValue_encode P (aj_queue ?x) (aj_job ?x)) s"
  define s2 where "s2 = (case er_payload (pj_req pj) of
      Some p \<Rightarrow> put E Payloads (pj_id pj) (payload_encode P p) s1 | None \<Rightarrow> s1)"
  define s3 where "s3 = insert_job_place P E pj now s2"
  define s4 where "s4 = insert_job_dedup E pj now stale s3"
  have s': "s' = mark_dirty (on_cycle (enqueued (er_queue (pj_req pj))) s4)"
    using ins by (cases "er_payload (pj_req pj)")
      (auto simp: insert_job_def s4_def s3_def s2_def s1_def new_ajob_def Let_def)
  have V2: "txv (st_tx s2) = (txv (st_tx s))
      (Jobs := m_ins (jview P Jobs (pj_id pj) ?x) (txv (st_tx s) Jobs),
       Payloads := m_ins (jview P Payloads (pj_id pj) ?x) (txv (st_tx s) Payloads))"
    by (rule ext, cases "er_payload (pj_req pj)") (auto simp: s2_def s1_def view_simps new_ajob_def)
  have ix2: "st_ix s2 = st_ix s" by (cases "er_payload (pj_req pj)") (simp_all add: s2_def s1_def)
  note V3 = insert_place_view(1) [OF now, of pj s2, folded s3_def]
    and ix3 = insert_place_view(2) [OF now, of pj s2, folded s3_def]
  have rep3: "reps s3 (A\<lparr>a_jobs := set_opt (pj_id pj) (Some ?x) (a_jobs A)\<rparr>)"
  proof (rule reps_job_step [OF rep])
    show "ajob_ok P (pj_id pj) y" if "Some ?x = Some y" for y using that new_ajob_ok [OF pj now] by simp
    show "fmlookup (a_dead A) (pj_id pj) = None" by (rule fresh(2))
    have "lix_view (pj_id pj) ?x = None" "jview P Inflight (pj_id pj) ?x = None"
      "jview P Leases (pj_id pj) ?x = None"
      by (auto simp: lix_view_def new_ajob_def new_place_def split: option.splits)
    then show "list_all (\<lambda>ks. txv (st_tx s3) ks = chg (jview P ks (pj_id pj)) (fmlookup (a_jobs A) (pj_id pj))
        (Some ?x) (txv (st_tx s) ks)) job_spaces"
      "st_ix s3 = (st_ix s)\<lparr>
      ix_ready := ri_chg (Option.bind (fmlookup (a_jobs A) (pj_id pj)) (rix_view P (pj_id pj)))
        (Option.bind (Some ?x) (rix_view P (pj_id pj))) (ix_ready (st_ix s)),
      ix_scheduled := ti_chg (Option.bind (fmlookup (a_jobs A) (pj_id pj)) (six_view (pj_id pj)))
        (Option.bind (Some ?x) (six_view (pj_id pj))) (ix_scheduled (st_ix s)),
      ix_leases := ti_chg (Option.bind (fmlookup (a_jobs A) (pj_id pj)) (lix_view (pj_id pj)))
        (Option.bind (Some ?x) (lix_view (pj_id pj))) (ix_leases (st_ix s))\<rparr>"
      by (simp_all add: V3 V2 ix3 ix2 fresh job_spaces_def chg_def del: jview.simps)
  qed (simp add: V3 V2)
  have "reps s4 (accepted P pj now A)"
  proof (cases "dedup_key_of (pj_req pj)")
    case None
    then have "s4 = s3" by (simp add: s4_def insert_job_dedup_def dedup_key_of_def)
    with None rep3 show ?thesis by (simp add: accepted_def)
  next
    case (Some k)
    note V4 = insert_dedup_view(1) [OF Some stale [OF Some], of now s3, folded s4_def]
      and ix4 = insert_dedup_view(2) [OF Some stale [OF Some], of now s3, folded s4_def]
    have over: "chg (uview k) (fmlookup (a_dedup A) k) (Some (new_dedup pj now)) M =
        m_ins (uview k (new_dedup pj now)) M" for M
      by (cases "fmlookup (a_dedup A) k") (auto simp: chg_def uview_def)
    have "dedup_rep (txv (st_tx s4)) (st_ix s4) (set_opt k (Some (new_dedup pj now)) (a_dedup A))"
      by (rule dedup_rep_step [OF repsD(3) [OF rep3, simplified]])
         (use new_dedup_ok [OF pj now Some] in \<open>auto simp: V4 ix4 over\<close>)
    with Some rep3 show ?thesis
      unfolding reps_def represents_def
      by (simp add: accepted_def V4 ix4 jobs_rep_def dead_rep_def closing_rep_def)
  qed
  then show "reps s' (accepted P pj now A)" by (simp add: s' reps_def)
  show "cy_dirty (st_cyc s')" "resp = \<lparr>resp_job_id = pj_id pj, resp_deduplicated = False\<rparr>"
    using ins by (auto simp: insert_job_def Let_def)
qed

lemma reps_cycle [simp]: "reps (on_cycle f s) A = reps s A"
  by (simp add: reps_def)

lemma fresh_after:
  assumes "pj_id job \<notin> set (map pj_id jobs)"
    and "\<And>j. j \<in> set jobs \<Longrightarrow> fmlookup (a_jobs A) (pj_id j) = None \<and> fmlookup (a_dead A) (pj_id j) = None"
  shows "j \<in> set jobs \<Longrightarrow> fmlookup (a_jobs (accepted P job now A)) (pj_id j) = None
    \<and> fmlookup (a_dead (accepted P job now A)) (pj_id j) = None"
  using assms by (auto simp: accepted_def)

lemma enqueue_loop_refines:
  assumes "reps s A" and "enqueue_loop P E now rs jobs s = (Inr out, s')"
    and "list_all pj_ok jobs" and "distinct (map pj_id jobs)"
    and "\<And>j. j \<in> set jobs \<Longrightarrow> fmlookup (a_jobs A) (pj_id j) = None \<and> fmlookup (a_dead A) (pj_id j) = None"
    and now: "0 \<le> now" "i64_ok now"
  shows "\<exists>new A'. out = rs @ new \<and> length new = length jobs \<and> reps s' A'
    \<and> arun A (concat (map enqueue_events (accepted_of jobs new))) A'
    \<and> (if accepted_of jobs new = [] then st_tx s' = st_tx s \<and> cy_dirty (st_cyc s') = cy_dirty (st_cyc s)
       else cy_dirty (st_cyc s'))"
  using assms(1-5)
proof (induction jobs arbitrary: s A rs)
  case Nil
  then show ?case by (auto simp: accepted_of_def intro!: exI [of _ "[]"])
next
  case (Cons job jobs)
  note rep = Cons.prems(1)
  let ?q = "er_queue (pj_req job)"
  have ok: "pj_ok job" "list_all pj_ok jobs" using Cons.prems(3) by simp_all
  have ids: "pj_id job \<notin> set (map pj_id jobs)" "distinct (map pj_id jobs)" using Cons.prems(4) by simp_all
  have fr: "fmlookup (a_jobs A) (pj_id job) = None" "fmlookup (a_dead A) (pj_id job) = None"
    "\<And>j. j \<in> set jobs \<Longrightarrow> fmlookup (a_jobs A) (pj_id j) = None \<and> fmlookup (a_dead A) (pj_id j) = None"
    using Cons.prems(5) by auto
  have skip: ?case if go: "enqueue_loop P E now (rs @ [r]) jobs t = (Inr out, s')" and "reps t A"
    and r: "\<not> is_fresh job r" and same: "st_tx t = st_tx s" "cy_dirty (st_cyc t) = cy_dirty (st_cyc s)" for r t
  proof -
    obtain new A' where "out = (rs @ [r]) @ new" "length new = length jobs" "reps s' A'"
      "arun A (concat (map enqueue_events (accepted_of jobs new))) A'"
      "if accepted_of jobs new = [] then st_tx s' = st_tx t \<and> cy_dirty (st_cyc s') = cy_dirty (st_cyc t)
       else cy_dirty (st_cyc s')"
      using Cons.IH [OF \<open>reps t A\<close> go ok(2) ids(2) fr(3)] by auto
    with r same show ?thesis by (intro exI [of _ "r # new"] exI [of _ A']) (auto simp: accepted_of_def)
  qed
  show ?case
  proof (cases "is_closing (st_ix s) ?q now")
    case True
    with Cons.prems(2) show ?thesis
      by (intro skip [where t = s]) (auto simp: Let_def rep is_fresh_def)
  next
    case False
    obtain c s1 where c: "check_dedup E (pj_req job) now s = (Inr c, s1)"
      using Cons.prems(2) False by (auto simp: Let_def split: prod.splits sum.splits)
    show ?thesis
    proof (cases c)
      case (Hit resp)
      have "resp_deduplicated resp" "s1 = on_cycle (deduplicated ?q) s"
        using check_dedup_Hit [OF rep c [unfolded Hit]] by auto
      with Cons.prems(2) False c Hit rep show ?thesis
        by (intro skip [where t = s1]) (auto simp: Let_def is_fresh_def)
    next
      case (Miss stale)
      note m = check_dedup_Miss [OF rep c [unfolded Miss]]
      show ?thesis
      proof (cases "case jl_max_queue_depth (pj_limits job) of
          Some cap \<Rightarrow> live_depth (st_ix s) ?q \<ge> cap | None \<Rightarrow> False")
        case True
        with Cons.prems(2) False c Miss rep m(1) show ?thesis
          by (intro skip [where t = s]) (auto simp: Let_def is_fresh_def)
      next
        case room: False
        obtain resp s2 where ins: "insert_job P E job now stale s = (resp, s2)"
          by (cases "insert_job P E job now stale s")
        note i = insert_job_refines [OF rep ok(1) now fr(1,2) m(2) ins]
        have go: "enqueue_loop P E now (rs @ [Inr resp]) jobs s2 = (Inr out, s')"
          using Cons.prems(2) False c Miss room m(1) ins by (simp add: Let_def)
        obtain new A' where IH: "out = (rs @ [Inr resp]) @ new" "length new = length jobs" "reps s' A'"
          "arun (accepted P job now A) (concat (map enqueue_events (accepted_of jobs new))) A'"
          "if accepted_of jobs new = [] then st_tx s' = st_tx s2 \<and> cy_dirty (st_cyc s') = cy_dirty (st_cyc s2)
           else cy_dirty (st_cyc s')"
          using Cons.IH [OF i(1) go ok(2) ids(2) fresh_after [OF ids(1) fr(3)]] by auto
        have "is_fresh job (Inr resp)" using i(3) by (simp add: is_fresh_def)
        with IH i(2) arun_append [OF accepted_run [OF fr(1,2)] IH(4)] show ?thesis
          by (intro exI [of _ "Inr resp # new"] exI [of _ A']) (auto simp: accepted_of_def split: if_splits)
      qed
    qed
  qed
qed

lemma atomic_loop_refines:
  assumes "reps s A" and "atomic_loop P E now rs jobs s = (Inr out, s')"
    and "list_all pj_ok jobs" and "distinct (map pj_id jobs)"
    and "\<And>j. j \<in> set jobs \<Longrightarrow> fmlookup (a_jobs A) (pj_id j) = None \<and> fmlookup (a_dead A) (pj_id j) = None"
    and now: "0 \<le> now" "i64_ok now"
  shows "\<exists>new A'. out = rs @ new \<and> length new = length jobs \<and> reps s' A'
    \<and> arun A (concat (map enqueue_events (accepted_of jobs (map Inr new)))) A'
    \<and> (if accepted_of jobs (map Inr new) = [] then st_tx s' = st_tx s \<and> cy_dirty (st_cyc s') = cy_dirty (st_cyc s)
       else cy_dirty (st_cyc s'))
    \<and> list_all2 (\<lambda>job r. resp_deduplicated r \<or> r = \<lparr>resp_job_id = pj_id job, resp_deduplicated = False\<rparr>) jobs new"
  using assms(1-5)
proof (induction jobs arbitrary: s A rs)
  case Nil
  then show ?case by (auto simp: accepted_of_def)
next
  case (Cons job jobs)
  note rep = Cons.prems(1)
  have ok: "pj_ok job" "list_all pj_ok jobs" using Cons.prems(3) by simp_all
  have ids: "pj_id job \<notin> set (map pj_id jobs)" "distinct (map pj_id jobs)" using Cons.prems(4) by simp_all
  have fr: "fmlookup (a_jobs A) (pj_id job) = None" "fmlookup (a_dead A) (pj_id job) = None"
    "\<And>j. j \<in> set jobs \<Longrightarrow> fmlookup (a_jobs A) (pj_id j) = None \<and> fmlookup (a_dead A) (pj_id j) = None"
    using Cons.prems(5) by auto
  obtain c t where c: "check_dedup E (pj_req job) now s = (Inr c, t)"
    using Cons.prems(2) by (auto split: prod.splits sum.splits)
  show ?case
  proof (cases c)
    case (Hit resp)
    have r: "resp_deduplicated resp" and t: "t = on_cycle (deduplicated (er_queue (pj_req job))) s"
      using check_dedup_Hit [OF rep c [unfolded Hit]] by auto
    have go: "atomic_loop P E now (rs @ [resp]) jobs t = (Inr out, s')"
      using Cons.prems(2) c Hit by simp
    have "reps t A" using rep t by simp
    from Cons.IH [OF this go ok(2) ids(2) fr(3)] obtain new A' where
      "out = (rs @ [resp]) @ new" "length new = length jobs" "reps s' A'"
      "arun A (concat (map enqueue_events (accepted_of jobs (map Inr new)))) A'"
      "if accepted_of jobs (map Inr new) = [] then st_tx s' = st_tx t \<and> cy_dirty (st_cyc s') = cy_dirty (st_cyc t)
       else cy_dirty (st_cyc s')"
      "list_all2 (\<lambda>job r. resp_deduplicated r \<or> r = \<lparr>resp_job_id = pj_id job, resp_deduplicated = False\<rparr>) jobs new"
      by auto
    moreover have "accepted_of (job # jobs) (map Inr (resp # new)) = accepted_of jobs (map Inr new)"
      using r by (auto simp: accepted_of_def is_fresh_def)
    ultimately show ?thesis using t r by (intro exI [of _ "resp # new"] exI [of _ A']) simp
  next
    case (Miss stale)
    note m = check_dedup_Miss [OF rep c [unfolded Miss]]
    obtain resp t2 where ins: "insert_job P E job now stale s = (resp, t2)"
      by (cases "insert_job P E job now stale s")
    note i = insert_job_refines [OF rep ok(1) now fr(1,2) m(2) ins]
    have go: "atomic_loop P E now (rs @ [resp]) jobs t2 = (Inr out, s')"
      using Cons.prems(2) c Miss m(1) ins by simp
    obtain new A' where IH: "out = (rs @ [resp]) @ new" "length new = length jobs" "reps s' A'"
      "arun (accepted P job now A) (concat (map enqueue_events (accepted_of jobs (map Inr new)))) A'"
      "if accepted_of jobs (map Inr new) = [] then st_tx s' = st_tx t2 \<and> cy_dirty (st_cyc s') = cy_dirty (st_cyc t2)
       else cy_dirty (st_cyc s')"
      "list_all2 (\<lambda>job r. resp_deduplicated r \<or> r = \<lparr>resp_job_id = pj_id job, resp_deduplicated = False\<rparr>) jobs new"
      using Cons.IH [OF i(1) go ok(2) ids(2) fresh_after [OF ids(1) fr(3)]] by auto
    have "is_fresh job (Inr resp)" using i(3) by (simp add: is_fresh_def)
    with IH i(2,3) arun_append [OF accepted_run [OF fr(1,2)] IH(4)] show ?thesis
      by (intro exI [of _ "resp # new"] exI [of _ A']) (auto simp: accepted_of_def split: if_splits)
  qed
qed

end

end
