(* ===== verification/Reserve.thy ===== *)
theory Reserve
  imports Dead_Letters
begin

text \<open>
  \<open>apply_reserve\<close> of \<open>src/storage.rs\<close>: jobs are popped from the ready index queue by queue, leased
  and returned with their payload, up to \<open>max_jobs\<close>. Entries that point nowhere or at a corrupt
  record are removed on the way. The inner \<open>while\<close> loop ends because every turn takes an entry out
  of the ready index.
\<close>

section \<open>One popped entry\<close>

text \<open>What the corrupt-record branches do: drop the ready entry and the rows of the job.\<close>

definition reserve_purge :: "('db, 'tx) engine \<Rightarrow> bytes \<Rightarrow> str \<Rightarrow> 'tx st \<Rightarrow> 'tx st" where
  "reserve_purge E ready_k job_id s =
     (let s = del E Ready ready_k s;
          s = del E Jobs job_id s;
          s = del E Payloads job_id s
      in mark_dirty s)"

definition reserve_lease ::
    "prost \<Rightarrow> ('db, 'tx) engine \<Rightarrow> i64 \<Rightarrow> bytes \<Rightarrow> u32 \<Rightarrow> str \<Rightarrow> job \<Rightarrow> 'tx st \<Rightarrow> job \<times> 'tx st" where
  "reserve_lease P E lease_expires_at ready_k attempt job_queue job0 s =
     (let enqueued_at_ms = (case j_enqueued_at job0 of Some t \<Rightarrow> timestamp_to_millis P t | None \<Rightarrow> 0);
          job = job0\<lparr>j_attempt := attempt,
            j_lease_expires_at := Some (millis_to_timestamp P lease_expires_at)\<rparr>;
          inflight = \<lparr>if_attempt = attempt, if_lease_expires_at = lease_expires_at,
            if_enqueued_at = enqueued_at_ms, if_priority = j_priority job,
            if_max_attempts = j_max_attempts job, if_queue = job_queue,
            if_trace_context = j_trace_context job\<rparr>;
          s = del E Ready ready_k s;
          s = put E Inflight (j_id job) (Inflight_encode P inflight) s;
          lease_timer = TimerKey_encode lease_expires_at (j_id job);
          s = put E Leases lease_timer [] s;
          s = on_leases (ti_ins lease_timer (if_queue inflight)) s;
          s = on_cycle (reserved (if_queue inflight)) s;
          s = mark_dirty s
      in (job, s))"

definition reserve_entry ::
    "prost \<Rightarrow> ('db, 'tx) engine \<Rightarrow> i64 \<Rightarrow> bytes \<Rightarrow> u32 \<Rightarrow> 'tx st \<Rightarrow> (status + job option) \<times> 'tx st" where
  "reserve_entry P E lease_expires_at ready_k attempt s =
     (case ReadyKey_decode ready_k of
        None \<Rightarrow> (Inr None, mark_dirty (del E Ready ready_k s))
      | Some rk \<Rightarrow>
          (let job_id = rk_job_id rk
           in case tx_get E (st_tx s) Jobs job_id of
                Inl e \<Rightarrow> (Inl (stg_err e), s)
              | Inr None \<Rightarrow> (Inr None, mark_dirty (del E Ready ready_k s))
              | Inr (Some stored) \<Rightarrow>
                  (case JobValue_decode P stored of
                     Inl _ \<Rightarrow> (Inr None, reserve_purge E ready_k job_id s)
                   | Inr (job_queue, job) \<Rightarrow>
                       (let job = job\<lparr>j_queue := job_queue\<rparr>
                        in case tx_get E (st_tx s) Payloads job_id of
                             Inl e \<Rightarrow> (Inl (stg_err e), s)
                           | Inr None \<Rightarrow>
                               (case reserve_lease P E lease_expires_at ready_k attempt job_queue job s
                                of (j, s) \<Rightarrow> (Inr (Some j), s))
                           | Inr (Some b) \<Rightarrow>
                               (case payload_decode P b of
                                  None \<Rightarrow> (Inr None, reserve_purge E ready_k job_id s)
                                | Some p \<Rightarrow>
                                    (case reserve_lease P E lease_expires_at ready_k attempt job_queue
                                            (job\<lparr>j_payload := Some p\<rparr>) s
                                     of (j, s) \<Rightarrow> (Inr (Some j), s)))))))"

lemma reserve_entry_ready [simp]:
  "ix_ready (st_ix (snd (reserve_entry P E le k a s))) = ix_ready (st_ix s)"
  by (auto simp: reserve_entry_def reserve_lease_def reserve_purge_def Let_def
      split: option.splits sum.splits)

section \<open>The loops\<close>

text \<open>Every turn of the loop below takes an entry out of the ready index.\<close>

lemma reserve_entry_smaller:
  assumes "ri_pop_front pre (ix_ready (st_ix s)) = Some ((k, a), rest)"
    and "reserve_entry P E le k a (on_ready (\<lambda>_. rest) s) = (r, s')"
  shows "card (fmdom' (ri_keys (ix_ready (st_ix s')))) < card (fmdom' (ri_keys (ix_ready (st_ix s))))"
proof -
  have "ix_ready (st_ix s') = rest"
    using reserve_entry_ready [of P E le k a "on_ready (\<lambda>_. rest) s"] assms(2) by simp
  with rpop.pop_card [OF assms(1)] show ?thesis by simp
qed

function (sequential) reserve_queue ::
    "prost \<Rightarrow> ('db, 'tx) engine \<Rightarrow> bytes \<Rightarrow> i64 \<Rightarrow> usize \<Rightarrow> job list \<Rightarrow> 'tx st
       \<Rightarrow> (status + job list) \<times> 'tx st" where
  "reserve_queue P E pre lease_expires_at max_jobs jobs s =
     (if length jobs \<ge> max_jobs then (Inr jobs, s)
      else case ri_pop_front pre (ix_ready (st_ix s)) of
        None \<Rightarrow> (Inr jobs, s)
      | Some ((ready_k, attempt), rest) \<Rightarrow>
          (case reserve_entry P E lease_expires_at ready_k attempt (on_ready (\<lambda>_. rest) s) of
             (Inl e, s) \<Rightarrow> (Inl e, s)
           | (Inr None, s) \<Rightarrow> reserve_queue P E pre lease_expires_at max_jobs jobs s
           | (Inr (Some job), s) \<Rightarrow>
               reserve_queue P E pre lease_expires_at max_jobs (jobs @ [job]) s))"
  by pat_completeness auto

termination
  by (relation "measure (\<lambda>(P, E, pre, le, mx, jobs, s). card (fmdom' (ri_keys (ix_ready (st_ix s)))))")
     (auto intro: reserve_entry_smaller [OF _ sym])

declare reserve_queue.simps [simp del]

fun reserve_queues ::
    "prost \<Rightarrow> ('db, 'tx) engine \<Rightarrow> i64 \<Rightarrow> usize \<Rightarrow> str list \<Rightarrow> job list \<Rightarrow> 'tx st
       \<Rightarrow> (status + job list) \<times> 'tx st" where
  "reserve_queues P E lease_expires_at max_jobs [] jobs s = (Inr jobs, s)"
| "reserve_queues P E lease_expires_at max_jobs (queue # queues) jobs s =
     (if length jobs \<ge> max_jobs then (Inr jobs, s)
      else case reserve_queue P E (queue_prefix queue) lease_expires_at max_jobs jobs s of
        (Inl e, s) \<Rightarrow> (Inl e, s)
      | (Inr jobs, s) \<Rightarrow> reserve_queues P E lease_expires_at max_jobs queues jobs s)"

definition apply_reserve ::
    "prost \<Rightarrow> ('db, 'tx) engine \<Rightarrow> str list \<Rightarrow> u64 \<Rightarrow> usize \<Rightarrow> i64 \<Rightarrow> 'tx st
       \<Rightarrow> (status + job list) \<times> 'tx st" where
  "apply_reserve P E queues lease_ms max_jobs now s =
     (let lease_expires_at = i64_saturating_add now (i64_of_u64 lease_ms)
      in reserve_queues P E lease_expires_at max_jobs queues [] s)"

section \<open>Refinement\<close>

text \<open>The job handed to the worker.\<close>

definition leased_job :: "prost \<Rightarrow> ajob \<Rightarrow> u32 \<Rightarrow> i64 \<Rightarrow> job" where
  "leased_job P x a le = (aj_job x)\<lparr>j_queue := aj_queue x, j_payload := aj_payload x, j_attempt := a,
     j_lease_expires_at := Some (millis_to_timestamp P le)\<rparr>"

text \<open>The ready key of a leased job: it orders jobs as the dispatcher does.\<close>

definition job_key :: "prost \<Rightarrow> str \<Rightarrow> job \<Rightarrow> bytes" where
  "job_key P q j = ReadyKey_encode \<lparr>rk_queue = q, rk_priority = j_priority j,
     rk_enqueued_at = enq_ms P j, rk_job_id = j_id j\<rparr>"

lemma leased_job_simps [simp]:
  "j_id (leased_job P x a le) = j_id (aj_job x)"
  "job_key P (aj_queue x) (leased_job P x a le) = rkey P x"
  by (simp_all add: leased_job_def job_key_def rkey_def enq_ms_def)

text \<open>
  What a pass over one queue does: \<open>reserved_from q le A new A'\<close> says that \<open>new\<close> are jobs that were
  ready in \<open>q\<close>, in dispatch order, each now leased until \<open>le\<close>, that nothing else moved, and that
  every job of \<open>q\<close> still ready comes after them.
\<close>

definition reserved_from :: "prost \<Rightarrow> str \<Rightarrow> i64 \<Rightarrow> abs_queue \<Rightarrow> job list \<Rightarrow> abs_queue \<Rightarrow> bool" where
  "reserved_from P q le A new A' \<longleftrightarrow>
     arun A (map (\<lambda>j. Reserved (j_id j)) new) A'
     \<and> (\<forall>j \<in> set new. \<exists>x a. fmlookup (a_jobs A) (j_id j) = Some x \<and> aj_place x = InReady a
          \<and> aj_queue x = q \<and> j = leased_job P x a le
          \<and> fmlookup (a_jobs A') (j_id j) = Some (x\<lparr>aj_place := InFlight le a\<rparr>))
     \<and> (\<forall>jid. jid \<notin> set (map j_id new) \<longrightarrow> fmlookup (a_jobs A') jid = fmlookup (a_jobs A) jid)
     \<and> sorted_wrt (\<lambda>i j. job_key P q i < job_key P q j) new
     \<and> (\<forall>jid y a. fmlookup (a_jobs A') jid = Some y \<longrightarrow> aj_place y = InReady a \<longrightarrow> aj_queue y = q \<longrightarrow>
          (\<forall>j \<in> set new. job_key P q j < rkey P y))"

lemma reserved_from_Nil: "reserved_from P q le A [] A"
  by (auto simp: reserved_from_def)

context storage
begin

lemma ready_index_row:
  assumes "reps s A" and "fmlookup (ri_keys (ix_ready (st_ix s))) key = Some a"
  obtains jid x where "fmlookup (a_jobs A) jid = Some x" and "aj_place x = InReady a"
    and "key = rkey P x" and "ajob_ok P jid x"
proof -
  note J = repsD(1) [OF assms(1)]
  from keyed_lookupD [OF jobs_rep_keyed(2) [OF J] assms(2)] obtain jid x
    where 0: "fmlookup (a_jobs A) jid = Some x" "rix_view P jid x = Some (key, a)" by blast
  then have "aj_place x = InReady a" "key = rkey P x" by (cases "aj_place x"; simp add: rix_view_def)+
  with 0 that jobs_rep_ok [OF J 0(1)] show ?thesis by blast
qed

lemma reserve_entry_refines:
  assumes rep: "reps s A" and x: "fmlookup (a_jobs A) jid = Some x" "aj_place x = InReady a"
    and le: "0 \<le> le" "i64_ok le"
    and res: "reserve_entry P E le (rkey P x) a (on_ready (\<lambda>_. ri_del (rkey P x) (ix_ready (st_ix s))) s) = (Inr r, s')"
  shows "r = Some (leased_job P x a le)"
    and "reps s' (A\<lparr>a_jobs := fmupd jid (x\<lparr>aj_place := InFlight le a\<rparr>) (a_jobs A)\<rparr>)"
    and "cy_dirty (st_cyc s')"
proof -
  note J = repsD(1) [OF rep]
  note ok = jobs_rep_ok [OF J x(1)]
  obtain rk where rk: "ReadyKey_decode (rkey P x) = Some rk" "rk_job_id rk = jid"
    using rkey_decode [OF ok] by blast
  have g1: "tx_get E (st_tx s) Jobs jid = Inr w \<Longrightarrow> w = Some (JobValue_encode P (aj_queue x) (aj_job x))" for w
    using get_view [of "st_tx s" Jobs jid] jobs_rep_job [OF J, of jid] x by simp
  have g2: "tx_get E (st_tx s) Payloads jid = Inr w \<Longrightarrow> w = map_option (payload_encode P) (aj_payload x)" for w
    using get_view [of "st_tx s" Payloads jid] jobs_rep_payload [OF J, of jid] x by simp
  have pay: "payload_decode P (payload_encode P p) = Some p" if "aj_payload x = Some p" for p
    using ok that by (simp add: ajob_ok_def payload.dec_enc)
  have id: "j_id (aj_job x) = jid" and np: "j_payload (aj_job x) = None" using ok by (simp_all add: ajob_ok_def)
  let ?s0 = "on_ready (\<lambda>_. ri_del (rkey P x) (ix_ready (st_ix s))) s"
  let ?job = "(aj_job x)\<lparr>j_queue := aj_queue x, j_payload := aj_payload x\<rparr>"
  have lease: "(the r, s') = reserve_lease P E le (rkey P x) a (aj_queue x) ?job ?s0 \<and> r \<noteq> None"
  proof -
    have np': "?job = (aj_job x)\<lparr>j_queue := aj_queue x\<rparr>" if "aj_payload x = None" using that np by simp
    show ?thesis
      using res rk g1 g2 pay job_decode_stored [OF ok] np'
      by (cases "aj_payload x") (auto simp: reserve_entry_def Let_def split: sum.splits option.splits prod.splits)
  qed
  then show "r = Some (leased_job P x a le)"
    by (auto simp: reserve_lease_def leased_job_def Let_def)
  show "cy_dirty (st_cyc s')" using lease by (auto simp: reserve_lease_def Let_def)
  show "reps s' (A\<lparr>a_jobs := fmupd jid (x\<lparr>aj_place := InFlight le a\<rparr>) (a_jobs A)\<rparr>)"
  proof (rule reps_move_step [OF rep x(1)])
    show "ajob_ok P jid (x\<lparr>aj_place := InFlight le a\<rparr>)"
      using ok x le by (auto simp: ajob_ok_def place_ok_def)
  qed (use lease x id in \<open>auto simp: reserve_lease_def enq_ms_def lease_simps\<close>)
qed

lemma reserved_from_Cons:
  assumes x: "fmlookup (a_jobs A) jid = Some x" "aj_place x = InReady a" "aj_queue x = q"
    and id: "j_id (aj_job x) = jid"
    and least: "\<And>jid' y b. fmlookup (a_jobs A) jid' = Some y \<Longrightarrow> aj_place y = InReady b \<Longrightarrow> aj_queue y = q \<Longrightarrow>
      jid' \<noteq> jid \<Longrightarrow> rkey P x < rkey P y"
    and rest: "reserved_from P q le (A\<lparr>a_jobs := fmupd jid (x\<lparr>aj_place := InFlight le a\<rparr>) (a_jobs A)\<rparr>) new A'"
  shows "reserved_from P q le A (leased_job P x a le # new) A'"
proof -
  let ?A1 = "A\<lparr>a_jobs := fmupd jid (x\<lparr>aj_place := InFlight le a\<rparr>) (a_jobs A)\<rparr>"
  have step: "astep A (Reserved jid) ?A1" using x(1,2) by (rule astep.reserve)
  have was: "\<exists>y b. fmlookup (a_jobs A) (j_id j) = Some y \<and> aj_place y = InReady b \<and> aj_queue y = q
      \<and> j = leased_job P y b le \<and> fmlookup (a_jobs A') (j_id j) = Some (y\<lparr>aj_place := InFlight le b\<rparr>)
      \<and> j_id j \<noteq> jid"
    if "j \<in> set new" for j
  proof -
    from rest that obtain y b where y: "fmlookup (a_jobs ?A1) (j_id j) = Some y" "aj_place y = InReady b"
      "aj_queue y = q" "j = leased_job P y b le"
      "fmlookup (a_jobs A') (j_id j) = Some (y\<lparr>aj_place := InFlight le b\<rparr>)"
      unfolding reserved_from_def by blast
    then have ne: "j_id j \<noteq> jid" by (cases "j_id j = jid") auto
    show ?thesis by (intro exI [of _ y] exI [of _ b] conjI) (use y ne in simp_all)
  qed
  have notin: "jid \<notin> set (map j_id new)" using was by (metis (no_types, lifting) imageE set_map)
  have after: "rkey P x < job_key P q j" if "j \<in> set new" for j
  proof -
    obtain y b where y: "fmlookup (a_jobs A) (j_id j) = Some y" "aj_place y = InReady b" "aj_queue y = q"
      "j = leased_job P y b le" "j_id j \<noteq> jid" using was [OF \<open>j \<in> set new\<close>] by blast
    then show ?thesis using least [OF y(1,2,3,5)] leased_job_simps(2) [of P y b le] by simp
  qed
  have same: "fmlookup (a_jobs A') jid' = fmlookup (a_jobs ?A1) jid'" if "jid' \<notin> set (map j_id new)" for jid'
    using rest that by (simp add: reserved_from_def)
  have key: "job_key P q (leased_job P x a le) = rkey P x" using leased_job_simps(2) [of P x a le] x(3) by simp
  show ?thesis
    unfolding reserved_from_def
  proof (intro conjI)
    show "arun A (map (\<lambda>j. Reserved (j_id j)) (leased_job P x a le # new)) A'"
      using rest step id by (auto simp: reserved_from_def intro: arun_Cons)
    show "\<forall>j \<in> set (leased_job P x a le # new). \<exists>x a. fmlookup (a_jobs A) (j_id j) = Some x
        \<and> aj_place x = InReady a \<and> aj_queue x = q \<and> j = leased_job P x a le
        \<and> fmlookup (a_jobs A') (j_id j) = Some (x\<lparr>aj_place := InFlight le a\<rparr>)"
    proof
      fix j assume "j \<in> set (leased_job P x a le # new)"
      then show "\<exists>x a. fmlookup (a_jobs A) (j_id j) = Some x \<and> aj_place x = InReady a \<and> aj_queue x = q
          \<and> j = leased_job P x a le \<and> fmlookup (a_jobs A') (j_id j) = Some (x\<lparr>aj_place := InFlight le a\<rparr>)"
        using was [of j] x id same [OF notin] by (cases "j \<in> set new") (blast, simp)
    qed
    show "\<forall>jid'. jid' \<notin> set (map j_id (leased_job P x a le # new)) \<longrightarrow>
        fmlookup (a_jobs A') jid' = fmlookup (a_jobs A) jid'"
      using same id by auto
    show "sorted_wrt (\<lambda>i j. job_key P q i < job_key P q j) (leased_job P x a le # new)"
      using rest after key by (simp add: reserved_from_def)
    show "\<forall>jid' y b. fmlookup (a_jobs A') jid' = Some y \<longrightarrow> aj_place y = InReady b \<longrightarrow> aj_queue y = q \<longrightarrow>
        (\<forall>j \<in> set (leased_job P x a le # new). job_key P q j < rkey P y)"
    proof (intro allI impI ballI)
      fix jid' y b j
      assume y: "fmlookup (a_jobs A') jid' = Some y" "aj_place y = InReady b" "aj_queue y = q"
        and j: "j \<in> set (leased_job P x a le # new)"
      show "job_key P q j < rkey P y"
      proof (cases "j \<in> set new")
        case True
        with rest y show ?thesis unfolding reserved_from_def by blast
      next
        case False
        with j have "j = leased_job P x a le" by simp
        moreover have "jid' \<notin> set (map j_id new)"
        proof
          assume "jid' \<in> set (map j_id new)"
          then obtain i where "i \<in> set new" "jid' = j_id i" by auto
          with was [of i] y(1,2) show False by auto
        qed
        with same y have "fmlookup (a_jobs ?A1) jid' = Some y" by simp
        then have "jid' \<noteq> jid" "fmlookup (a_jobs A) jid' = Some y" using y by (auto split: if_splits)
        ultimately show ?thesis using least y key by simp
      qed
    qed
  qed
qed

lemma rkey_in_index:
  assumes "reps s A" and "fmlookup (a_jobs A) jid = Some y" and "aj_place y = InReady a"
  shows "fmlookup (ri_keys (ix_ready (st_ix s))) (rkey P y) = Some a"
  using assms(3) by (intro keyed_lookup [OF jobs_rep_keyed(2) [OF repsD(1) [OF assms(1)]] assms(2)])
    (simp add: rix_view_def)

lemma rkey_prefix:
  "ajob_ok P jid x \<Longrightarrow> length q < 65536 \<Longrightarrow> prefix (queue_prefix q) (rkey P x) \<longleftrightarrow> q = aj_queue x"
  unfolding rkey_def by (subst prefix_append_ready) (auto simp: ajob_ok_def queue_ok_def)

text \<open>A pop for a queue yields the first of its ready jobs in dispatch order.\<close>

lemma pop_ready:
  assumes rep: "reps s A" and q: "length q < 65536"
    and pop: "ri_pop_front (queue_prefix q) (ix_ready (st_ix s)) = Some ((k, a), rest)"
  obtains jid x where "fmlookup (a_jobs A) jid = Some x" and "aj_place x = InReady a" and "aj_queue x = q"
    and "k = rkey P x" and "rest = ri_del k (ix_ready (st_ix s))" and "ajob_ok P jid x"
    and "\<And>jid' y b. fmlookup (a_jobs A) jid' = Some y \<Longrightarrow> aj_place y = InReady b \<Longrightarrow> aj_queue y = q \<Longrightarrow>
      jid' \<noteq> jid \<Longrightarrow> rkey P x < rkey P y"
proof -
  note p = ri_pop_front_Some [OF pop]
  obtain jid x where x: "fmlookup (a_jobs A) jid = Some x" "aj_place x = InReady a" "k = rkey P x" "ajob_ok P jid x"
    using ready_index_row [OF rep] p by metis
  have q': "aj_queue x = q" using rkey_prefix [OF x(4) q] p x(3) by simp
  have least: "rkey P x < rkey P y" if y: "fmlookup (a_jobs A) jid' = Some y" "aj_place y = InReady b"
    "aj_queue y = q" "jid' \<noteq> jid" for jid' y b
  proof -
    have ok: "ajob_ok P jid' y" by (rule jobs_rep_ok [OF repsD(1) [OF rep] y(1)])
    have "prefix (queue_prefix q) (rkey P y)" using rkey_prefix [OF ok q] y(3) by simp
    then have "k \<le> rkey P y" by (rule rpop.pop_least [OF pop rkey_in_index [OF rep y(1,2)]])
    moreover have "rkey P y \<noteq> rkey P x" using rkey_inj [OF ok x(4)] y(4) by blast
    ultimately show ?thesis using x(3) by simp
  qed
  show ?thesis by (rule that [OF x(1,2) q' x(3) _ x(4) least]) (use p in \<open>simp_all add: ri_del_def\<close>)
qed

lemma pop_none:
  assumes rep: "reps s A" and q: "length q < 65536"
    and pop: "ri_pop_front (queue_prefix q) (ix_ready (st_ix s)) = None"
    and y: "fmlookup (a_jobs A) jid = Some y" "aj_queue y = q"
  shows "aj_place y \<noteq> InReady a"
proof
  assume "aj_place y = InReady a"
  then have "\<not> prefix (queue_prefix q) (rkey P y)"
    using rpop.pop_empty [OF _ pop] rkey_in_index [OF rep y(1)] by blast
  with rkey_prefix [OF jobs_rep_ok [OF repsD(1) [OF rep] y(1)] q] y(2) show False by simp
qed

lemma reserve_queue_refines:
  assumes "reps s A" and q: "length q < 65536" and le: "0 \<le> le" "i64_ok le"
    and "reserve_queue P E (queue_prefix q) le mx jobs s = (Inr out, s')"
  shows "\<exists>new A'. out = jobs @ new \<and> reps s' A' \<and> reserved_from P q le A new A'
    \<and> length out \<le> max mx (length jobs)
    \<and> (length out < mx \<longrightarrow> (\<forall>jid y a. fmlookup (a_jobs A') jid = Some y \<longrightarrow> aj_queue y = q \<longrightarrow> aj_place y \<noteq> InReady a))
    \<and> (if new = [] then s' = s else cy_dirty (st_cyc s'))"
  using assms(1,5)
proof (induction "card (fmdom' (ri_keys (ix_ready (st_ix s))))" arbitrary: s A jobs rule: less_induct)
  case less
  note rep = less.prems(1) and run = less.prems(2)
  note unf = reserve_queue.simps [of P E "queue_prefix q" le mx jobs s]
  show ?case
  proof (cases "length jobs \<ge> mx \<or> ri_pop_front (queue_prefix q) (ix_ready (st_ix s)) = None")
    case True
    then have "out = jobs" "s' = s" using run unf by (auto split: if_splits)
    with True rep pop_none [OF rep q] show ?thesis
      by (intro exI [of _ "[]"] exI [of _ A]) (auto simp: reserved_from_Nil)
  next
    case False
    then obtain k a rest where pop: "ri_pop_front (queue_prefix q) (ix_ready (st_ix s)) = Some ((k, a), rest)"
      by auto
    obtain jid x where x: "fmlookup (a_jobs A) jid = Some x" "aj_place x = InReady a" "aj_queue x = q"
      and k: "k = rkey P x" "rest = ri_del k (ix_ready (st_ix s))" and ok: "ajob_ok P jid x"
      and least: "\<And>jid' y b. fmlookup (a_jobs A) jid' = Some y \<Longrightarrow> aj_place y = InReady b \<Longrightarrow>
        aj_queue y = q \<Longrightarrow> jid' \<noteq> jid \<Longrightarrow> rkey P x < rkey P y"
      by (rule pop_ready [OF rep q pop]) (rule that)
    obtain r s1 where e: "reserve_entry P E le k a (on_ready (\<lambda>_. rest) s) = (Inr r, s1)"
      using run unf False pop by (auto split: prod.splits sum.splits)
    note r = reserve_entry_refines [OF rep x(1,2) le e [unfolded k(2) k(1)]]
    have go: "reserve_queue P E (queue_prefix q) le mx (jobs @ [leased_job P x a le]) s1 = (Inr out, s')"
      using run unf False pop e r(1) by simp
    from less.hyps [OF reserve_entry_smaller [OF pop e] r(2) go] obtain new A' where IH:
      "out = (jobs @ [leased_job P x a le]) @ new" "reps s' A'"
      "reserved_from P q le (A\<lparr>a_jobs := fmupd jid (x\<lparr>aj_place := InFlight le a\<rparr>) (a_jobs A)\<rparr>) new A'"
      "length out \<le> max mx (Suc (length jobs))"
      "length out < mx \<longrightarrow> (\<forall>jid y a. fmlookup (a_jobs A') jid = Some y \<longrightarrow> aj_queue y = q \<longrightarrow> aj_place y \<noteq> InReady a)"
      "if new = [] then s' = s1 else cy_dirty (st_cyc s')" by auto
    have "j_id (aj_job x) = jid" using ok by (simp add: ajob_ok_def)
    from reserved_from_Cons [OF x this least IH(3)] IH False r(3) show ?thesis
      by (intro exI [of _ "leased_job P x a le # new"] exI [of _ A']) (auto split: if_splits)
  qed
qed

lemma reserve_queues_refines:
  assumes "reps s A" and "\<forall>q \<in> set qs. length q < 65536" and le: "0 \<le> le" "i64_ok le"
    and "reserve_queues P E le mx qs jobs s = (Inr out, s')"
  shows "\<exists>new A'. out = jobs @ new \<and> reps s' A' \<and> arun A (map (\<lambda>j. Reserved (j_id j)) new) A'
    \<and> length out \<le> max mx (length jobs)
    \<and> (if new = [] then s' = s else cy_dirty (st_cyc s'))"
  using assms(1,2,5)
proof (induction qs arbitrary: s A jobs)
  case Nil
  then show ?case by (auto intro!: exI [of _ "[]"])
next
  case (Cons q qs)
  show ?case
  proof (cases "length jobs \<ge> mx")
    case True
    with Cons.prems show ?thesis by (auto intro!: exI [of _ "[]"])
  next
    case False
    then obtain js s1 where one: "reserve_queue P E (queue_prefix q) le mx jobs s = (Inr js, s1)"
      and go: "reserve_queues P E le mx qs js s1 = (Inr out, s')"
      using Cons.prems(3) by (auto split: prod.splits sum.splits)
    obtain new A1 where 1: "js = jobs @ new" "reps s1 A1" "reserved_from P q le A new A1"
      "length js \<le> max mx (length jobs)" "if new = [] then s1 = s else cy_dirty (st_cyc s1)"
      using reserve_queue_refines [OF Cons.prems(1) _ le one] Cons.prems(2) by auto
    have qs: "\<forall>q \<in> set qs. length q < 65536" using Cons.prems(2) by simp
    obtain new2 A' where 2: "out = js @ new2" "reps s' A'" "arun A1 (map (\<lambda>j. Reserved (j_id j)) new2) A'"
      "length out \<le> max mx (length js)" "if new2 = [] then s' = s1 else cy_dirty (st_cyc s')"
      using Cons.IH [OF 1(2) qs go] by blast
    have "arun A (map (\<lambda>j. Reserved (j_id j)) (new @ new2)) A'"
      using 1(3) 2(3) by (auto simp: reserved_from_def intro: arun_append)
    with 1 2 show ?thesis
      by (intro exI [of _ "new @ new2"] exI [of _ A']) (auto split: if_splits)
  qed
qed

end

end
