(* ===== verification/Admin_Ops.thy ===== *)
theory Admin_Ops
  imports Reserve Sweep
begin

text \<open>
  The remaining mutations of \<open>src/storage.rs\<close>: closing and opening a queue, purging a queue in
  chunks, and appending to the audit trail.
\<close>

section \<open>Closing and opening\<close>

definition apply_close_queue :: "('db, 'tx) engine \<Rightarrow> str \<Rightarrow> i64 \<Rightarrow> i64 \<Rightarrow> 'tx st \<Rightarrow> 'tx st" where
  "apply_close_queue E queue now grace_ms s =
     (let deadline = i64_saturating_add now grace_ms;
          s = put E Meta (closing_key queue) (i64_be deadline) s;
          s = on_closing (fmupd queue deadline) s
      in mark_dirty s)"

definition apply_open_queue :: "('db, 'tx) engine \<Rightarrow> str \<Rightarrow> 'tx st \<Rightarrow> 'tx st" where
  "apply_open_queue E queue s =
     (if fmlookup (ix_closing (st_ix s)) queue \<noteq> None
      then mark_dirty (del E Meta (closing_key queue) (on_closing (fmdrop queue) s))
      else s)"

section \<open>Purging\<close>

record purge_outcome =
  po_purged :: u64
  po_remaining :: bool

definition purge_ready_entry :: "('db, 'tx) engine \<Rightarrow> bytes \<Rightarrow> 'tx st \<Rightarrow> 'tx st" where
  "purge_ready_entry E ready_k s =
     (let s = (case ReadyKey_decode ready_k of
                 Some rk \<Rightarrow> del E Payloads (rk_job_id rk) (del E Jobs (rk_job_id rk) s)
               | None \<Rightarrow> s)
      in mark_dirty (del E Ready ready_k s))"

text \<open>\<open>left\<close> is \<open>max - purged\<close>, what the loop \<open>while purged < max\<close> still may take.\<close>

fun purge_ready :: "('db, 'tx) engine \<Rightarrow> bytes \<Rightarrow> nat \<Rightarrow> nat \<Rightarrow> 'tx st \<Rightarrow> nat \<times> 'tx st" where
  "purge_ready E pre 0 purged s = (purged, s)"
| "purge_ready E pre (Suc left) purged s =
     (case ri_pop_front pre (ix_ready (st_ix s)) of
        None \<Rightarrow> (purged, s)
      | Some ((ready_k, _), rest) \<Rightarrow>
          purge_ready E pre left (purged + 1) (purge_ready_entry E ready_k (on_ready (\<lambda>_. rest) s)))"

text \<open>The keys of a timer index owned by a queue, oldest first, at most \<open>n\<close>.\<close>

definition owned_keys :: "timer_index \<Rightarrow> str \<Rightarrow> nat \<Rightarrow> bytes list" where
  "owned_keys i queue n = map fst (take n (filter (\<lambda>(_, q). q = queue) (sorted_list_of_fmap (ti_keys i))))"

definition purge_scheduled_entry :: "('db, 'tx) engine \<Rightarrow> bytes \<Rightarrow> 'tx st \<Rightarrow> 'tx st" where
  "purge_scheduled_entry E timer_k s =
     (let s = (case TimerKey_job_id timer_k of
                 Some job_id \<Rightarrow> del E Payloads job_id (del E Jobs job_id s)
               | None \<Rightarrow> s);
          s = del E Scheduled timer_k s
      in mark_dirty (on_scheduled (ti_del timer_k) s))"

definition purge_dead_letter_entry :: "('db, 'tx) engine \<Rightarrow> bytes \<Rightarrow> 'tx st \<Rightarrow> 'tx st" where
  "purge_dead_letter_entry E key s = mark_dirty (on_dead_letter (ti_del key) (del E DeadLetter key s))"

definition purge_dedup_entry :: "('db, 'tx) engine \<Rightarrow> bytes \<Rightarrow> 'tx st \<Rightarrow> 'tx st" where
  "purge_dedup_entry E timer_k s =
     (let s = (case DedupTimerKey_dedup_key timer_k of Some dedup_k \<Rightarrow> del E Dedup dedup_k s | None \<Rightarrow> s);
          s = del E DedupTimers timer_k s
      in mark_dirty (on_dedup_timers (ti_del timer_k) s))"

text \<open>One of the three phases over chosen keys.\<close>

definition purge_phase ::
    "('tx st \<Rightarrow> timer_index) \<Rightarrow> (bytes \<Rightarrow> 'tx st \<Rightarrow> 'tx st) \<Rightarrow> str \<Rightarrow> nat \<Rightarrow> nat \<times> 'tx st \<Rightarrow> nat \<times> 'tx st" where
  "purge_phase index entry queue mx ps =
     (case ps of (purged, s) \<Rightarrow>
        (let chosen = owned_keys (index s) queue (mx - purged)
         in (purged + length chosen, foldl (\<lambda>s k. entry k s) s chosen)))"

definition queue_remaining :: "indexes \<Rightarrow> str \<Rightarrow> bool" where
  "queue_remaining ix queue \<longleftrightarrow>
     fmlookup (ri_by_queue (ix_ready ix)) queue \<noteq> None
     \<or> fmlookup (ti_by_queue (ix_scheduled ix)) queue \<noteq> None
     \<or> fmlookup (ti_by_queue (ix_dead_letter ix)) queue \<noteq> None
     \<or> fmlookup (ti_by_queue (ix_dedup_timers ix)) queue \<noteq> None"

definition apply_purge_queue_chunk ::
    "('db, 'tx) engine \<Rightarrow> str \<Rightarrow> usize \<Rightarrow> 'tx st \<Rightarrow> (status + purge_outcome) \<times> 'tx st" where
  "apply_purge_queue_chunk E queue mx s =
     (if queue_count (ti_by_queue (ix_leases (st_ix s))) queue > 0
      then (Inl (Status FailedPrecondition ''queue has in-flight jobs''), s)
      else
        (let ps = purge_ready E (queue_prefix queue) mx 0 s;
             ps = purge_phase (\<lambda>s. ix_scheduled (st_ix s)) (purge_scheduled_entry E) queue mx ps;
             ps = purge_phase (\<lambda>s. ix_dead_letter (st_ix s)) (purge_dead_letter_entry E) queue mx ps;
             (purged, s) = purge_phase (\<lambda>s. ix_dedup_timers (st_ix s)) (purge_dedup_entry E) queue mx ps;
             remaining = queue_remaining (st_ix s) queue;
             s = (if remaining then s else on_cycle (queue_purged queue) s)
         in (Inr \<lparr>po_purged = purged, po_remaining = remaining\<rparr>, s)))"

section \<open>The audit trail\<close>

definition u64_be :: "u64 \<Rightarrow> bytes" where
  "u64_be n = be 8 n"

definition apply_audit_append ::
    "prost \<Rightarrow> ('db, 'tx) engine \<Rightarrow> audit_record \<Rightarrow> i64 \<Rightarrow> 'tx st \<Rightarrow> (status + u64) \<times> 'tx st" where
  "apply_audit_append P E rec now_ms s =
     (case tx_get E (st_tx s) Meta AUDIT_SEQ_KEY of
        Inl e \<Rightarrow> (Inl (stg_err e), s)
      | Inr v \<Rightarrow>
          (let seq = (case v of
                 None \<Rightarrow> Some 1
               | Some b \<Rightarrow>
                   if length b = 8 \<and> from_be b + 1 \<le> u64_max then Some (from_be b + 1) else None)
           in case seq of
                None \<Rightarrow> (Inl (Status Internal ''corrupt audit_seq row''), s)
              | Some seq \<Rightarrow>
                  (let s = put E Meta AUDIT_SEQ_KEY (u64_be seq) s;
                       s = put E Audit (u64_be seq) (AuditValue_encode P now_ms rec) s
                   in (Inr seq, mark_dirty s))))"

section \<open>Refinement\<close>

text \<open>The entries of a timer index that a queue owns, read as ids of the abstract map.\<close>

lemma owned_ids:
  fixes queue :: str and n :: nat and i :: timer_index and idf :: "bytes \<Rightarrow> 'i option"
  assumes keyed: "keyed f M (ti_keys i)"
    and ids: "\<forall>j x k q. fmlookup M j = Some x \<longrightarrow> f j x = Some (k, q) \<longrightarrow> idf k = Some j"
  defines "js \<equiv> map (\<lambda>k. the (idf k)) (owned_keys i queue n)"
  shows "list_all2 (\<lambda>k j. \<exists>x. fmlookup M j = Some x \<and> f j x = Some (k, queue)) (owned_keys i queue n) js"
    and "distinct js" and "length js \<le> n"
    and "length js < n \<Longrightarrow> fmlookup M j = Some x \<Longrightarrow> f j x = Some (k, queue) \<Longrightarrow> j \<in> set js"
proof -
  note idf = ids [rule_format]
  let ?es = "filter (\<lambda>(_, q). q = queue) (sorted_list_of_fmap (ti_keys i))"
  have own: "\<exists>x. fmlookup M (the (idf k)) = Some x \<and> f (the (idf k)) x = Some (k, queue)"
    if "k \<in> set (owned_keys i queue n)" for k
  proof -
    from that have "fmlookup (ti_keys i) k = Some queue"
      by (auto simp: owned_keys_def set_sorted_list_of_fmap dest!: in_set_takeD)
    from keyed_lookupD [OF keyed this] obtain j x where "fmlookup M j = Some x" "f j x = Some (k, queue)" by blast
    with idf [OF this] show ?thesis by auto
  qed
  then show "list_all2 (\<lambda>k j. \<exists>x. fmlookup M j = Some x \<and> f j x = Some (k, queue)) (owned_keys i queue n) js"
    by (auto simp: js_def list_all2_conv_all_nth)
  have "distinct (map fst ?es)" by (rule distinct_map_filter) (rule distinct_fst_sorted_list_of_fmap)
  then have dk: "distinct (owned_keys i queue n)"
    unfolding owned_keys_def by (metis distinct_take take_map)
  have "inj_on (\<lambda>k. the (idf k)) (set (owned_keys i queue n))"
  proof (rule inj_onI)
    fix k k' assume "k \<in> set (owned_keys i queue n)" "k' \<in> set (owned_keys i queue n)" "the (idf k) = the (idf k')"
    with own [of k] own [of k'] show "k = k'" by auto
  qed
  with dk show "distinct js" by (simp add: js_def distinct_map)
  show "length js \<le> n" by (simp add: js_def owned_keys_def)
  assume less: "length js < n" and x: "fmlookup M j = Some x" "f j x = Some (k, queue)"
  have "owned_keys i queue n = map fst ?es" using less by (auto simp: js_def owned_keys_def)
  moreover have "fmlookup (ti_keys i) k = Some queue" using keyed x by (rule keyed_lookup)
  then have "k \<in> fst ` set ?es" by (force simp: set_sorted_list_of_fmap)
  ultimately have "k \<in> set (owned_keys i queue n)" by (simp add: image_image)
  then have "the (idf k) \<in> set js" by (simp add: js_def)
  with idf [OF x] show "j \<in> set js" by simp
qed

text \<open>
  What purging a queue may do to the abstract state: entries of that queue go, everything else
  stays.
\<close>

definition only_lost :: "('x \<Rightarrow> str) \<Rightarrow> str \<Rightarrow> ('k, 'x) fmap \<Rightarrow> ('k, 'x) fmap \<Rightarrow> bool" where
  "only_lost own q M N \<longleftrightarrow>
     (\<forall>k. fmlookup N k = fmlookup M k \<or> fmlookup N k = None \<and> (\<exists>x. fmlookup M k = Some x \<and> own x = q))"

definition purged_from :: "str \<Rightarrow> abs_queue \<Rightarrow> abs_queue \<Rightarrow> bool" where
  "purged_from q A B \<longleftrightarrow> only_lost aj_queue q (a_jobs A) (a_jobs B) \<and> only_lost dd_queue q (a_dead A) (a_dead B)
     \<and> only_lost dp_queue q (a_dedup A) (a_dedup B) \<and> a_closing B = a_closing A"

definition purge_event :: "event \<Rightarrow> bool" where
  "purge_event e = (case e of Purged _ \<Rightarrow> True | Buried _ \<Rightarrow> True | DedupDropped _ \<Rightarrow> True | _ \<Rightarrow> False)"

lemma purge_event_simps [simp]: "purge_event (Purged j)" "purge_event (Buried j)" "purge_event (DedupDropped k)"
  by (simp_all add: purge_event_def)

text \<open>The queue still has a job, a dead letter or a deduplication record.\<close>

definition has_entries :: "abs_queue \<Rightarrow> str \<Rightarrow> bool" where
  "has_entries A q \<longleftrightarrow> (\<exists>j x. fmlookup (a_jobs A) j = Some x \<and> aj_queue x = q)
     \<or> (\<exists>j d. fmlookup (a_dead A) j = Some d \<and> dd_queue d = q)
     \<or> (\<exists>k u. fmlookup (a_dedup A) k = Some u \<and> dp_queue u = q)"

definition in_flight :: "abs_queue \<Rightarrow> str \<Rightarrow> bool" where
  "in_flight A q \<longleftrightarrow> (\<exists>j x d a. fmlookup (a_jobs A) j = Some x \<and> aj_queue x = q \<and> aj_place x = InFlight d a)"

lemma only_lost_refl [simp]: "only_lost own q M M"
  by (simp add: only_lost_def)

lemma only_lost_drop: "fmlookup M k = Some x \<Longrightarrow> own x = q \<Longrightarrow> only_lost own q M (fmdrop k M)"
  by (auto simp: only_lost_def)

lemma only_lost_trans: "only_lost own q M N \<Longrightarrow> only_lost own q N R \<Longrightarrow> only_lost own q M R"
  unfolding only_lost_def by metis

lemma only_lostD: "only_lost own q M N \<Longrightarrow> fmlookup N k = Some x \<Longrightarrow> fmlookup M k = Some x"
  by (metis only_lost_def option.distinct(1))

lemma purged_from_refl [simp]: "purged_from q A A"
  by (simp add: purged_from_def)

lemma purged_from_trans: "purged_from q A B \<Longrightarrow> purged_from q B C \<Longrightarrow> purged_from q A C"
  by (auto simp: purged_from_def intro: only_lost_trans)

context storage
begin

text \<open>What a phase does: it takes entries of the queue, up to the limit, and counts them.\<close>

definition chunk_step ::
    "str \<Rightarrow> nat \<Rightarrow> nat \<Rightarrow> 'tx st \<Rightarrow> abs_queue \<Rightarrow> nat \<Rightarrow> 'tx st \<Rightarrow> abs_queue \<Rightarrow> bool" where
  "chunk_step q mx n s A p s' B \<longleftrightarrow> (\<exists>es. arun A es B \<and> list_all purge_event es \<and> reps s' B \<and> purged_from q A B \<and> p = n + length es
     \<and> p \<le> mx \<and> (if es = [] then s' = s else cy_dirty (st_cyc s')))"

lemma chunk_step_refl: "reps s A \<Longrightarrow> n \<le> mx \<Longrightarrow> chunk_step q mx n s A n s A"
  unfolding chunk_step_def by (rule exI [of _ "[]"]) simp

lemma chunk_step_trans:
  assumes "chunk_step q mx n s A n1 t B" and "chunk_step q mx n1 t B p s' C"
  shows "chunk_step q mx n s A p s' C"
proof -
  from assms obtain es fs where
    "arun A es B" "list_all purge_event es" "list_all purge_event fs" "purged_from q A B" "n1 = n + length es" "if es = [] then t = s else cy_dirty (st_cyc t)"
    "arun B fs C" "purged_from q B C" "p = n1 + length fs" "if fs = [] then s' = t else cy_dirty (st_cyc s')"
    "reps s' C" "p \<le> mx"
    unfolding chunk_step_def by blast
  then show ?thesis unfolding chunk_step_def
    by (intro exI [of _ "es @ fs"]) (auto intro: arun_append purged_from_trans split: if_splits)
qed

lemma chunk_stepD:
  "chunk_step q mx n s A p s' B \<Longrightarrow> reps s' B" "chunk_step q mx n s A p s' B \<Longrightarrow> purged_from q A B"
  "chunk_step q mx n s A p s' B \<Longrightarrow> p \<le> mx" "chunk_step q mx n s A p s' B \<Longrightarrow> n \<le> p"
  by (auto simp: chunk_step_def)

text \<open>A phase over a timer index, for any part of the abstract state it mirrors.\<close>

lemma purge_fold:
  assumes M: "\<And>j A. M (rem j A) = fmdrop j (M A)"
    and steps: "\<forall>s A j x k. reps s A \<longrightarrow> fmlookup (M A) j = Some x \<longrightarrow> f j x = Some (k, q) \<longrightarrow>
      reps (entry k s) (rem j A) \<and> cy_dirty (st_cyc (entry k s)) \<and> astep A (ev j) (rem j A)
      \<and> purged_from q A (rem j A)"
  shows "reps s A \<Longrightarrow> list_all2 (\<lambda>k j. \<exists>x. fmlookup (M A) j = Some x \<and> f j x = Some (k, q)) ks js \<Longrightarrow>
    distinct js \<Longrightarrow>
    \<exists>B. arun A (map ev js) B \<and> reps (foldl (\<lambda>s k. entry k s) s ks) B \<and> purged_from q A B
    \<and> (\<forall>j. fmlookup (M B) j = (if j \<in> set js then None else fmlookup (M A) j))
    \<and> (if js = [] then foldl (\<lambda>s k. entry k s) s ks = s else cy_dirty (st_cyc (foldl (\<lambda>s k. entry k s) s ks)))"
proof (induction ks arbitrary: s A js)
  case Nil
  then show ?case by auto
next
  case (Cons k ks)
  then obtain j js' x where js: "js = j # js'" and h: "fmlookup (M A) j = Some x" "f j x = Some (k, q)"
    and rest: "list_all2 (\<lambda>k j. \<exists>x. fmlookup (M A) j = Some x \<and> f j x = Some (k, q)) ks js'"
    by (auto simp: list_all2_Cons1)
  note st = steps [rule_format, OF Cons.prems(1) h]
  have d: "distinct js'" "j \<notin> set js'" using Cons.prems(3) js by simp_all
  have r: "list_all2 (\<lambda>k i. \<exists>x. fmlookup (M (rem j A)) i = Some x \<and> f i x = Some (k, q)) ks js'"
    using rest d(2) by (auto simp: list_all2_conv_all_nth M in_set_conv_nth)
  from Cons.IH [OF conjunct1 [OF st] r d(1)] obtain B where
    "arun (rem j A) (map ev js') B" "reps (foldl (\<lambda>s k. entry k s) (entry k s) ks) B" "purged_from q (rem j A) B"
    "\<forall>i. fmlookup (M B) i = (if i \<in> set js' then None else fmlookup (M (rem j A)) i)"
    "if js' = [] then foldl (\<lambda>s k. entry k s) (entry k s) ks = entry k s
     else cy_dirty (st_cyc (foldl (\<lambda>s k. entry k s) (entry k s) ks))"
    by blast
  with st show ?case
    by (intro exI [of _ B]) (auto simp: js M intro: arun_Cons purged_from_trans split: if_splits)
qed

lemma purge_phase_refines:
  assumes keyed: "\<And>s A. reps s A \<Longrightarrow> keyed f (M A) (ti_keys (index s))"
    and idf: "\<And>s A j x k q. reps s A \<Longrightarrow> fmlookup (M A) j = Some x \<Longrightarrow> f j x = Some (k, q) \<Longrightarrow> idf k = Some j"
    and M: "\<And>j A. M (rem j A) = fmdrop j (M A)"
    and step: "\<And>s A j x k. reps s A \<Longrightarrow> fmlookup (M A) j = Some x \<Longrightarrow> f j x = Some (k, q) \<Longrightarrow>
      reps (entry k s) (rem j A) \<and> cy_dirty (st_cyc (entry k s)) \<and> astep A (ev j) (rem j A)
      \<and> purged_from q A (rem j A)"
    and ev: "\<And>j. purge_event (ev j)" and rep: "reps s A" and n: "n \<le> mx"
    and run: "purge_phase index entry q mx (n, s) = (p, s')"
  shows "\<exists>B. chunk_step q mx n s A p s' B
    \<and> (p < mx \<longrightarrow> (\<forall>j x k. fmlookup (M B) j = Some x \<longrightarrow> f j x \<noteq> Some (k, q)))"
proof -
  let ?ks = "owned_keys (index s) q (mx - n)"
  let ?js = "map (\<lambda>k. the (idf k)) ?ks"
  have "\<forall>j x k q. fmlookup (M A) j = Some x \<longrightarrow> f j x = Some (k, q) \<longrightarrow> idf k = Some j"
    using idf [OF rep] by blast
  note o = owned_ids [where queue = q and n = "mx - n", OF keyed [OF rep] this]
  have out: "p = n + length ?js" "s' = foldl (\<lambda>s k. entry k s) s ?ks"
    using run by (auto simp: purge_phase_def Let_def)
  have "\<forall>s A j x k. reps s A \<longrightarrow> fmlookup (M A) j = Some x \<longrightarrow> f j x = Some (k, q) \<longrightarrow>
      reps (entry k s) (rem j A) \<and> cy_dirty (st_cyc (entry k s)) \<and> astep A (ev j) (rem j A)
      \<and> purged_from q A (rem j A)"
    using step by blast
  from purge_fold [OF M this rep o(1,2)]
  obtain B where B: "arun A (map ev ?js) B" "reps s' B" "purged_from q A B"
    "\<forall>j. fmlookup (M B) j = (if j \<in> set ?js then None else fmlookup (M A) j)"
    "if ?js = [] then s' = s else cy_dirty (st_cyc s')"
    unfolding out(2) by blast
  have "f j x \<noteq> Some (k, q)" if "p < mx" "fmlookup (M B) j = Some x" for j x k
  proof
    assume f: "f j x = Some (k, q)"
    have "j \<notin> set ?js" "fmlookup (M A) j = Some x" using that(2) B(4) by (auto split: if_splits)
    moreover have "length ?js < mx - n" using that(1) out(1) by linarith
    ultimately show False using o(4) f by blast
  qed
  moreover have "chunk_step q mx n s A p s' B" unfolding chunk_step_def
    using B out(1) o(3) n ev by (intro exI [of _ "map ev ?js"]) (auto simp: list_all_iff)
  ultimately show ?thesis by blast
qed

lemma close_refines:
  assumes rep: "reps s A" and q: "utf8_valid q"
  shows "reps (apply_close_queue E q now grace s)
    (A\<lparr>a_closing := fmupd q (i64_saturating_add now grace) (a_closing A)\<rparr>)"
  by (rule reps_closing_step [OF rep])
     (use repsD(4) [OF rep] q in \<open>auto simp: apply_close_queue_def Let_def view_simps closing_rep_def
       closing_index [OF rep] split: if_splits\<close>)

lemma open_refines:
  assumes rep: "reps s A"
  shows "reps (apply_open_queue E q s) (A\<lparr>a_closing := fmdrop q (a_closing A)\<rparr>)"
proof (cases "fmlookup (a_closing A) q")
  case None
  then have "fmdrop q (a_closing A) = a_closing A" by (rule fmdrop_absent)
  with None rep show ?thesis by (simp add: apply_open_queue_def closing_index [OF rep])
next
  case (Some d)
  show ?thesis
    by (rule reps_closing_step [OF rep])
       (use repsD(4) [OF rep] Some in \<open>auto simp: apply_open_queue_def view_simps closing_rep_def
         closing_index [OF rep] split: if_splits\<close>)
qed

lemma purge_ready_entry_refines:
  assumes rep: "reps s A" and x: "fmlookup (a_jobs A) jid = Some x" "aj_place x = InReady a"
  shows "reps (purge_ready_entry E (rkey P x) (on_ready (\<lambda>_. ri_del (rkey P x) (ix_ready (st_ix s))) s))
    (kill jid None A)"
proof -
  obtain rk where rk: "ReadyKey_decode (rkey P x) = Some rk" "rk_job_id rk = jid"
    using rkey_decode [OF jobs_rep_ok [OF repsD(1) [OF rep] x(1)]] by blast
  show ?thesis
    by (rule reps_kill_step [OF rep x(1)])
       (use x rk in \<open>auto simp: purge_ready_entry_def lease_simps\<close>)
qed

lemma purge_scheduled_entry_refines:
  assumes rep: "reps s A" and x: "fmlookup (a_jobs A) jid = Some x" "aj_place x = InScheduled d a"
    and k: "k = TimerKey_encode d jid"
  shows "reps (purge_scheduled_entry E k s) (kill jid None A)"
proof -
  have "i64_ok d" using place_deadline_ok(1) [OF jobs_rep_ok [OF repsD(1) [OF rep] x(1)] x(2)] by simp
  then have id: "TimerKey_job_id k = Some jid" by (simp add: k byte_simps)
  show ?thesis
    by (rule reps_kill_step [OF rep x(1)])
       (use x id k in \<open>auto simp: purge_scheduled_entry_def lease_simps\<close>)
qed

lemma kill_None [simp]: "a_jobs (kill j None A) = fmdrop j (a_jobs A)"
  by (simp add: kill_def)

lemma purged_kill:
  assumes "fmlookup (a_jobs A) j = Some x" and "\<And>d a. aj_place x \<noteq> InFlight d a"
  shows "astep A (Purged j) (kill j None A)" and "purged_from (aj_queue x) A (kill j None A)"
  using astep.purge [OF assms(1)] assms only_lost_drop [OF assms(1), of aj_queue]
  by (simp_all add: kill_def purged_from_def)

lemma purge_ready_refines:
  assumes q: "length q < 65536"
  shows "reps s A \<Longrightarrow> purge_ready E (queue_prefix q) left n s = (p, s') \<Longrightarrow>
    \<exists>B. chunk_step q (n + left) n s A p s' B
    \<and> (p < n + left \<longrightarrow> (\<forall>j x a. fmlookup (a_jobs B) j = Some x \<longrightarrow> aj_queue x = q \<longrightarrow> aj_place x \<noteq> InReady a))"
proof (induction left arbitrary: n s A)
  case 0
  then show ?case using chunk_step_refl [OF 0(1)] by auto
next
  case (Suc left)
  show ?case
  proof (cases "ri_pop_front (queue_prefix q) (ix_ready (st_ix s))")
    case None
    then show ?thesis
      using Suc.prems pop_none [OF Suc.prems(1) q None] chunk_step_refl [OF Suc.prems(1)]
      by (intro exI [of _ A]) auto
  next
    case (Some e)
    obtain k a rest where pop: "ri_pop_front (queue_prefix q) (ix_ready (st_ix s)) = Some ((k, a), rest)"
      using Some by (metis surj_pair)
    obtain j x where x: "fmlookup (a_jobs A) j = Some x" "aj_place x = InReady a" "aj_queue x = q" "k = rkey P x"
      "rest = ri_del k (ix_ready (st_ix s))"
      using pop_ready [OF Suc.prems(1) q pop] by metis
    let ?s = "purge_ready_entry E k (on_ready (\<lambda>_. rest) s)"
    have r: "reps ?s (kill j None A)"
      using purge_ready_entry_refines [OF Suc.prems(1) x(1,2)] x(4,5) by simp
    have st: "chunk_step q (n + Suc left) n s A (n + 1) ?s (kill j None A)"
      unfolding chunk_step_def using r purged_kill [OF x(1)] x(2,3)
      by (intro exI [of _ "[Purged j]"]) (auto simp: purge_ready_entry_def Let_def intro: arun_single)
    have run: "purge_ready E (queue_prefix q) left (n + 1) ?s = (p, s')" using Suc.prems(2) pop by simp
    from Suc.IH [OF r run] obtain B where "chunk_step q (n + Suc left) (n + 1) ?s (kill j None A) p s' B"
      "p < n + Suc left \<longrightarrow> (\<forall>j x a. fmlookup (a_jobs B) j = Some x \<longrightarrow> aj_queue x = q \<longrightarrow> aj_place x \<noteq> InReady a)"
      by auto
    with chunk_step_trans [OF st] show ?thesis by blast
  qed
qed

lemma six_view_Some:
  "six_view j x = Some (k, q) \<longleftrightarrow> (\<exists>d a. aj_place x = InScheduled d a \<and> k = TimerKey_encode d j \<and> aj_queue x = q)"
  by (auto simp: six_view_def split: place.splits)

lemmas purge_scheduled_refines =
  purge_phase_refines [where f = six_view and M = a_jobs and idf = TimerKey_job_id and rem = "\<lambda>j. kill j None"
    and ev = Purged and index = "\<lambda>s. ix_scheduled (st_ix s)" and entry = "purge_scheduled_entry E"]

lemma purge_scheduled_phase:
  assumes "reps s A" and "n \<le> mx"
    and "purge_phase (\<lambda>s. ix_scheduled (st_ix s)) (purge_scheduled_entry E) q mx (n, s) = (p, s')"
  shows "\<exists>B. chunk_step q mx n s A p s' B
    \<and> (p < mx \<longrightarrow> (\<forall>j x k. fmlookup (a_jobs B) j = Some x \<longrightarrow> six_view j x \<noteq> Some (k, q)))"
proof (rule purge_scheduled_refines [OF _ _ _ _ _ assms])
  show "keyed six_view (a_jobs A) (ti_keys (ix_scheduled (st_ix s)))" if "reps s A" for s A
    by (rule jobs_rep_keyed(3) [OF repsD(1) [OF that]])
  show "TimerKey_job_id k = Some j" if "reps s A" "fmlookup (a_jobs A) j = Some x" "six_view j x = Some (k, q)"
    for s A j x k q
    using that place_deadline_ok(1) [OF jobs_rep_ok [OF repsD(1) [OF that(1)] that(2)]]
    by (auto simp: six_view_Some byte_simps)
  show "reps (purge_scheduled_entry E k s) (kill j None A) \<and> cy_dirty (st_cyc (purge_scheduled_entry E k s))
      \<and> astep A (Purged j) (kill j None A) \<and> purged_from q A (kill j None A)"
    if "reps s A" "fmlookup (a_jobs A) j = Some x" "six_view j x = Some (k, q)" for s A j x k
    using that purge_scheduled_entry_refines [OF that(1,2)] purged_kill [OF that(2)]
    by (auto simp: six_view_Some purge_scheduled_entry_def Let_def)
qed simp_all

lemma purge_dead_letter_phase:
  assumes "reps s A" and "n \<le> mx"
    and "purge_phase (\<lambda>s. ix_dead_letter (st_ix s)) (purge_dead_letter_entry E) q mx (n, s) = (p, s')"
  shows "\<exists>B. chunk_step q mx n s A p s' B
    \<and> (p < mx \<longrightarrow> (\<forall>j x k. fmlookup (a_dead B) j = Some x \<longrightarrow> dix_view j x \<noteq> Some (k, q)))"
proof (rule purge_phase_refines [where idf = DeadLetterKey_job_id and ev = Buried
      and rem = "\<lambda>j A. A\<lparr>a_dead := fmdrop j (a_dead A)\<rparr>", OF _ _ _ _ _ assms])
  show "keyed dix_view (a_dead A) (ti_keys (ix_dead_letter (st_ix s)))" if "reps s A" for s A
    using repsD(2) [OF that] by (simp add: dead_rep_def)
  show "DeadLetterKey_job_id k = Some j" if "reps s A" "fmlookup (a_dead A) j = Some x" "dix_view j x = Some (k, q)"
    for s A j x k q
    using that repsD(2) [OF that(1)] by (auto simp: dix_view_def dead_rep_def dead_key_job_id)
  fix s A j x k
  assume r: "reps s A" and x: "fmlookup (a_dead A) j = Some x" and k: "dix_view j x = Some (k, q)"
  have "reps (purge_dead_letter_entry E k s) (A\<lparr>a_dead := fmdrop j (a_dead A)\<rparr>)"
    by (rule reps_dead_drop [OF r x]) (use k in \<open>auto simp: purge_dead_letter_entry_def dix_view_def view_simps\<close>)
  moreover have "purged_from q A (A\<lparr>a_dead := fmdrop j (a_dead A)\<rparr>)"
    using k only_lost_drop [OF x, of dd_queue q] by (simp add: purged_from_def dix_view_def)
  ultimately show "reps (purge_dead_letter_entry E k s) (A\<lparr>a_dead := fmdrop j (a_dead A)\<rparr>)
      \<and> cy_dirty (st_cyc (purge_dead_letter_entry E k s)) \<and> astep A (Buried j) (A\<lparr>a_dead := fmdrop j (a_dead A)\<rparr>)
      \<and> purged_from q A (A\<lparr>a_dead := fmdrop j (a_dead A)\<rparr>)"
    using astep.bury [OF x] by (simp add: purge_dead_letter_entry_def)
qed simp_all

lemma purge_dedup_phase:
  assumes "reps s A" and "n \<le> mx"
    and "purge_phase (\<lambda>s. ix_dedup_timers (st_ix s)) (purge_dedup_entry E) q mx (n, s) = (p, s')"
  shows "\<exists>B. chunk_step q mx n s A p s' B
    \<and> (p < mx \<longrightarrow> (\<forall>j x k. fmlookup (a_dedup B) j = Some x \<longrightarrow> uix_view j x \<noteq> Some (k, q)))"
proof (rule purge_phase_refines [where idf = DedupTimerKey_dedup_key and ev = DedupDropped
      and rem = "\<lambda>j A. A\<lparr>a_dedup := fmdrop j (a_dedup A)\<rparr>", OF _ _ _ _ _ assms])
  show "keyed uix_view (a_dedup A) (ti_keys (ix_dedup_timers (st_ix s)))" if "reps s A" for s A
    using repsD(3) [OF that] by (simp add: dedup_rep_def)
  show id: "DedupTimerKey_dedup_key k = Some j"
    if "reps s A" "fmlookup (a_dedup A) j = Some x" "uix_view j x = Some (k, q)" for s A j x k q
  proof -
    have "adedup_ok j x" using that repsD(3) [OF that(1)] by (simp add: dedup_rep_def)
    with that(3) show ?thesis by (auto simp: uix_view_def dedup_timer_def adedup_ok_def byte_simps)
  qed
  fix s A j x k
  assume r: "reps s A" and x: "fmlookup (a_dedup A) j = Some x" and k: "uix_view j x = Some (k, q)"
  have "reps (purge_dedup_entry E k s) (A\<lparr>a_dedup := fmdrop j (a_dedup A)\<rparr>)"
    by (rule reps_dedup_drop [OF r x])
       (use k id [OF r x k] in \<open>auto simp: purge_dedup_entry_def uix_view_def view_simps Let_def\<close>)
  moreover have "purged_from q A (A\<lparr>a_dedup := fmdrop j (a_dedup A)\<rparr>)"
    using k only_lost_drop [OF x, of dp_queue q] by (simp add: purged_from_def uix_view_def)
  ultimately show "reps (purge_dedup_entry E k s) (A\<lparr>a_dedup := fmdrop j (a_dedup A)\<rparr>)
      \<and> cy_dirty (st_cyc (purge_dedup_entry E k s)) \<and> astep A (DedupDropped j) (A\<lparr>a_dedup := fmdrop j (a_dedup A)\<rparr>)
      \<and> purged_from q A (A\<lparr>a_dedup := fmdrop j (a_dedup A)\<rparr>)"
    using astep.dedup_drop [OF x] by (simp add: purge_dedup_entry_def Let_def)
qed simp_all

text \<open>The counters tell which queues still own entries.\<close>

lemma rkey_owner: "ajob_ok P j x \<Longrightarrow> ri_owner (rkey P x) a = Some (aj_queue x)"
  unfolding ri_owner_def rkey_def by (subst read_queue_ready [OF rkey_ok]) simp_all

lemma ti_contains:
  assumes "tix.consistent i" and "keyed f J (ti_keys i)"
  shows "fmlookup (ti_by_queue i) q \<noteq> None \<longleftrightarrow> (\<exists>j x k. fmlookup J j = Some x \<and> f j x = Some (k, q))"
  unfolding tix.contains_iff [OF assms(1)] using assms(2) by (auto simp: ti_owner_def keyed_def)

lemma counter_of_jobs:
  assumes "reps s A"
  shows "fmlookup (ri_by_queue (ix_ready (st_ix s))) q \<noteq> None \<longleftrightarrow>
      (\<exists>j x a. fmlookup (a_jobs A) j = Some x \<and> aj_queue x = q \<and> aj_place x = InReady a)"
    and "fmlookup (ti_by_queue (ix_scheduled (st_ix s))) q \<noteq> None \<longleftrightarrow>
      (\<exists>j x d a. fmlookup (a_jobs A) j = Some x \<and> aj_queue x = q \<and> aj_place x = InScheduled d a)"
    and "fmlookup (ti_by_queue (ix_leases (st_ix s))) q \<noteq> None \<longleftrightarrow> in_flight A q"
proof -
  note J = repsD(1) [OF assms]
  have c: "rix.consistent (ix_ready (st_ix s))" "tix.consistent (ix_scheduled (st_ix s))"
    "tix.consistent (ix_leases (st_ix s))"
    using J by (simp_all add: jobs_rep_def)
  have own: "ri_owner k a = Some q \<longleftrightarrow> aj_queue x = q"
    if "fmlookup (a_jobs A) j = Some x" "rix_view P j x = Some (k, a)" for j x k a
    using that rkey_owner [OF jobs_rep_ok [OF J that(1)]] by (auto simp: rix_view_def split: place.splits)
  have "(\<exists>k a. fmlookup (ri_keys (ix_ready (st_ix s))) k = Some a \<and> ri_owner k a = Some q) \<longleftrightarrow>
      (\<exists>j x a. fmlookup (a_jobs A) j = Some x \<and> aj_queue x = q \<and> aj_place x = InReady a)"
    (is "?l = ?r")
  proof
    assume ?l
    then obtain k a where k: "fmlookup (ri_keys (ix_ready (st_ix s))) k = Some a" "ri_owner k a = Some q" by blast
    from keyed_lookupD [OF jobs_rep_keyed(2) [OF J] k(1)] obtain j x
      where "fmlookup (a_jobs A) j = Some x" "rix_view P j x = Some (k, a)" by blast
    with own k(2) show ?r by (auto simp: rix_view_def split: place.splits)
  next
    assume ?r
    then obtain j x a where "fmlookup (a_jobs A) j = Some x" "aj_queue x = q" "aj_place x = InReady a" by blast
    with own rkey_in_index [OF assms] show ?l by (fastforce simp: rix_view_def)
  qed
  with rix.contains_iff [OF c(1)] show "fmlookup (ri_by_queue (ix_ready (st_ix s))) q \<noteq> None \<longleftrightarrow>
      (\<exists>j x a. fmlookup (a_jobs A) j = Some x \<and> aj_queue x = q \<and> aj_place x = InReady a)" by simp
  show "fmlookup (ti_by_queue (ix_scheduled (st_ix s))) q \<noteq> None \<longleftrightarrow>
      (\<exists>j x d a. fmlookup (a_jobs A) j = Some x \<and> aj_queue x = q \<and> aj_place x = InScheduled d a)"
    unfolding ti_contains [OF c(2) jobs_rep_keyed(3) [OF J]] six_view_Some by blast
  have "lix_view j x = Some (k, q) \<longleftrightarrow> (\<exists>d a. aj_place x = InFlight d a \<and> k = TimerKey_encode d j \<and> aj_queue x = q)"
    for j x k by (auto simp: lix_view_def split: place.splits)
  then show "fmlookup (ti_by_queue (ix_leases (st_ix s))) q \<noteq> None \<longleftrightarrow> in_flight A q"
    unfolding ti_contains [OF c(3) jobs_rep_keyed(4) [OF J]] in_flight_def by blast
qed

lemma counter_of_rest:
  assumes "reps s A"
  shows "fmlookup (ti_by_queue (ix_dead_letter (st_ix s))) q \<noteq> None \<longleftrightarrow>
      (\<exists>j d. fmlookup (a_dead A) j = Some d \<and> dd_queue d = q)"
    and "fmlookup (ti_by_queue (ix_dedup_timers (st_ix s))) q \<noteq> None \<longleftrightarrow>
      (\<exists>k u. fmlookup (a_dedup A) k = Some u \<and> dp_queue u = q)"
proof -
  note D = repsD(2) [OF assms] and U = repsD(3) [OF assms]
  show "fmlookup (ti_by_queue (ix_dead_letter (st_ix s))) q \<noteq> None \<longleftrightarrow>
      (\<exists>j d. fmlookup (a_dead A) j = Some d \<and> dd_queue d = q)"
    using D by (subst tix.contains_iff) (auto simp: dead_rep_def ti_owner_def keyed_def dix_view_def)
  show "fmlookup (ti_by_queue (ix_dedup_timers (st_ix s))) q \<noteq> None \<longleftrightarrow>
      (\<exists>k u. fmlookup (a_dedup A) k = Some u \<and> dp_queue u = q)"
    using U by (subst tix.contains_iff) (auto simp: dedup_rep_def ti_owner_def keyed_def uix_view_def)
qed

lemma lease_count:
  assumes "reps s A"
  shows "queue_count (ti_by_queue (ix_leases (st_ix s))) q > 0 \<longleftrightarrow> in_flight A q"
proof -
  have "counted ti_owner (ti_keys (ix_leases (st_ix s))) (ti_by_queue (ix_leases (st_ix s)))"
    using repsD(1) [OF assms] by (simp add: jobs_rep_def tix.consistent_def)
  then have "queue_count (ti_by_queue (ix_leases (st_ix s))) q > 0
      \<longleftrightarrow> fmlookup (ti_by_queue (ix_leases (st_ix s))) q \<noteq> None"
    by (auto simp: queue_count_def counted_def Let_def split: if_splits)
  with counter_of_jobs(3) [OF assms] show ?thesis by simp
qed

lemma queue_remaining_iff:
  assumes "reps s A" and "\<not> in_flight A q"
  shows "queue_remaining (st_ix s) q \<longleftrightarrow> has_entries A q"
proof -
  have "(\<exists>j x. fmlookup (a_jobs A) j = Some x \<and> aj_queue x = q) \<longleftrightarrow>
      (\<exists>j x a. fmlookup (a_jobs A) j = Some x \<and> aj_queue x = q \<and> aj_place x = InReady a)
      \<or> (\<exists>j x d a. fmlookup (a_jobs A) j = Some x \<and> aj_queue x = q \<and> aj_place x = InScheduled d a)"
    using assms(2) unfolding in_flight_def by (metis place.exhaust)
  then show ?thesis
    unfolding queue_remaining_def has_entries_def counter_of_jobs(1,2) [OF assms(1)] counter_of_rest [OF assms(1)]
    by blast
qed

lemma purged_in_flight: "purged_from q A B \<Longrightarrow> in_flight B q \<Longrightarrow> in_flight A q"
  by (auto simp: in_flight_def purged_from_def dest: only_lostD)

lemma no_entries:
  assumes "purged_from q A B" and "purged_from q A1 B" and "purged_from q A2 B" and free: "\<not> in_flight A q"
    and ready: "\<forall>j x a. fmlookup (a_jobs A1) j = Some x \<longrightarrow> aj_queue x = q \<longrightarrow> aj_place x \<noteq> InReady a"
    and sched: "\<forall>j x k. fmlookup (a_jobs A2) j = Some x \<longrightarrow> six_view j x \<noteq> Some (k, q)"
    and "purged_from q A3 B" and dead: "\<forall>j x k. fmlookup (a_dead A3) j = Some x \<longrightarrow> dix_view j x \<noteq> Some (k, q)"
    and dedup: "\<forall>j x k. fmlookup (a_dedup B) j = Some x \<longrightarrow> uix_view j x \<noteq> Some (k, q)"
  shows "\<not> has_entries B q"
proof -
  have "aj_queue x \<noteq> q" if x: "fmlookup (a_jobs B) j = Some x" for j x
  proof
    assume xq: "aj_queue x = q"
    have in1: "fmlookup (a_jobs A1) j = Some x" and in2: "fmlookup (a_jobs A2) j = Some x"
      and in0: "fmlookup (a_jobs A) j = Some x"
      using assms(1-3) x by (auto simp: purged_from_def dest: only_lostD)
    show False
    proof (cases "aj_place x")
      case (InReady a)
      with ready in1 xq show False by blast
    next
      case (InScheduled d a)
      with xq have "six_view j x = Some (TimerKey_encode d j, q)" by (simp add: six_view_def)
      with sched in2 show False by blast
    next
      case (InFlight d a)
      with free in0 xq show False by (auto simp: in_flight_def)
    qed
  qed
  moreover have "dd_queue d \<noteq> q" if "fmlookup (a_dead B) j = Some d" for j d
    using that dead assms(7) by (auto simp: purged_from_def dix_view_def dest!: only_lostD)
  moreover have "dp_queue u \<noteq> q" if "fmlookup (a_dedup B) k = Some u" for k u
    using that dedup by (auto simp: uix_view_def)
  ultimately show ?thesis by (auto simp: has_entries_def)
qed

text \<open>
  A chunk takes at most \<open>mx\<close> entries of the queue, and nothing else. It reports that nothing
  remains exactly when the queue has no entry left, and leaves entries behind only when it took
  \<open>mx\<close> of them.
\<close>

lemma apply_purge_refines:
  assumes rep: "reps s A" and q: "length q < 65536" and free: "\<not> in_flight A q"
    and run: "apply_purge_queue_chunk E q mx s = (r, s')"
  shows "\<exists>es B. arun A es B \<and> list_all purge_event es \<and> reps s' B \<and> purged_from q A B
    \<and> r = Inr \<lparr>po_purged = length es, po_remaining = has_entries B q\<rparr> \<and> length es \<le> mx
    \<and> (has_entries B q \<longrightarrow> length es = mx)
    \<and> (if es = [] then st_tx s' = st_tx s \<and> cy_dirty (st_cyc s') = cy_dirty (st_cyc s) else cy_dirty (st_cyc s'))"
proof -
  obtain n1 t1 where p1: "purge_ready E (queue_prefix q) mx 0 s = (n1, t1)" by fastforce
  from purge_ready_refines [OF q rep p1] obtain A1 where r1: "chunk_step q mx 0 s A n1 t1 A1"
    "n1 < mx \<longrightarrow> (\<forall>j x a. fmlookup (a_jobs A1) j = Some x \<longrightarrow> aj_queue x = q \<longrightarrow> aj_place x \<noteq> InReady a)"
    by auto
  obtain n2 t2 where p2: "purge_phase (\<lambda>s. ix_scheduled (st_ix s)) (purge_scheduled_entry E) q mx (n1, t1) = (n2, t2)"
    by fastforce
  from purge_scheduled_phase [OF chunk_stepD(1,3) [OF r1(1)] p2] obtain A2 where r2: "chunk_step q mx n1 t1 A1 n2 t2 A2"
    "n2 < mx \<longrightarrow> (\<forall>j x k. fmlookup (a_jobs A2) j = Some x \<longrightarrow> six_view j x \<noteq> Some (k, q))"
    by auto
  obtain n3 t3 where p3: "purge_phase (\<lambda>s. ix_dead_letter (st_ix s)) (purge_dead_letter_entry E) q mx (n2, t2) = (n3, t3)"
    by fastforce
  from purge_dead_letter_phase [OF chunk_stepD(1,3) [OF r2(1)] p3] obtain A3 where r3: "chunk_step q mx n2 t2 A2 n3 t3 A3"
    "n3 < mx \<longrightarrow> (\<forall>j x k. fmlookup (a_dead A3) j = Some x \<longrightarrow> dix_view j x \<noteq> Some (k, q))"
    by auto
  obtain n4 t4 where p4: "purge_phase (\<lambda>s. ix_dedup_timers (st_ix s)) (purge_dedup_entry E) q mx (n3, t3) = (n4, t4)"
    by fastforce
  from purge_dedup_phase [OF chunk_stepD(1,3) [OF r3(1)] p4] obtain B where r4: "chunk_step q mx n3 t3 A3 n4 t4 B"
    "n4 < mx \<longrightarrow> (\<forall>j x k. fmlookup (a_dedup B) j = Some x \<longrightarrow> uix_view j x \<noteq> Some (k, q))"
    by auto
  note c2 = chunk_step_trans [OF r3(1) r4(1)]
  note c1 = chunk_step_trans [OF r2(1) c2]
  note all = chunk_step_trans [OF r1(1) c1]
  note lost = chunk_stepD(2) [OF all] chunk_stepD(2) [OF c1] chunk_stepD(2) [OF c2]
  have rem: "queue_remaining (st_ix t4) q \<longleftrightarrow> has_entries B q"
    using queue_remaining_iff [OF chunk_stepD(1) [OF all]] purged_in_flight [OF lost(1)] free by blast
  have empty: "\<not> has_entries B q" if "n4 < mx"
  proof (rule no_entries [OF lost free])
    have "n1 < mx" "n2 < mx" "n3 < mx"
      using that chunk_stepD(4) [OF r2(1)] chunk_stepD(4) [OF r3(1)] chunk_stepD(4) [OF r4(1)] by linarith+
    with r1(2) r2(2) r3(2) r4(2) that show
      "\<forall>j x a. fmlookup (a_jobs A1) j = Some x \<longrightarrow> aj_queue x = q \<longrightarrow> aj_place x \<noteq> InReady a"
      "\<forall>j x k. fmlookup (a_jobs A2) j = Some x \<longrightarrow> six_view j x \<noteq> Some (k, q)"
      "\<forall>j x k. fmlookup (a_dead A3) j = Some x \<longrightarrow> dix_view j x \<noteq> Some (k, q)"
      "\<forall>j x k. fmlookup (a_dedup B) j = Some x \<longrightarrow> uix_view j x \<noteq> Some (k, q)"
      by blast+
    show "purged_from q A3 B" by (rule chunk_stepD(2) [OF r4(1)])
  qed
  have "\<not> queue_count (ti_by_queue (ix_leases (st_ix s))) q > 0" using lease_count [OF rep] free by simp
  then have out: "r = Inr \<lparr>po_purged = n4, po_remaining = has_entries B q\<rparr>"
    "s' = (if has_entries B q then t4 else on_cycle (queue_purged q) t4)"
    using run p1 p2 p3 p4 rem by (simp_all add: apply_purge_queue_chunk_def Let_def)
  from all obtain es where "arun A es B" "list_all purge_event es" "reps t4 B" "n4 = length es" "n4 \<le> mx"
    "if es = [] then t4 = s else cy_dirty (st_cyc t4)"
    unfolding chunk_step_def by auto
  moreover have "has_entries B q \<longrightarrow> n4 = mx" using empty chunk_stepD(3) [OF all] by fastforce
  ultimately show ?thesis using lost(1) out
    by (intro exI [of _ es] exI [of _ B]) (auto simp: reps_def split: if_splits)
qed

lemma apply_purge_refused:
  assumes "reps s A" and "in_flight A q"
  shows "apply_purge_queue_chunk E q mx s = (Inl (Status FailedPrecondition ''queue has in-flight jobs''), s)"
  using lease_count [OF assms(1)] assms(2) by (simp add: apply_purge_queue_chunk_def)

end

section \<open>The audit trail is numbered without gaps\<close>

text \<open>
  \<open>audit_rep P V rs\<close>: row \<open>i\<close> of the trail holds the i-th record appended, with its time; there
  are no other rows; the counter row holds the number of records.
\<close>

definition audit_rep :: "prost \<Rightarrow> rows \<Rightarrow> (i64 \<times> audit_record) list \<Rightarrow> bool" where
  "audit_rep P V rs \<longleftrightarrow> length rs \<le> u64_max
     \<and> fmlookup (V Meta) AUDIT_SEQ_KEY = (if rs = [] then None else Some (u64_be (length rs)))
     \<and> (\<forall>i < length rs. fmlookup (V Audit) (u64_be (i + 1)) = Some (case rs ! i of (t, r) \<Rightarrow> AuditValue_encode P t r))
     \<and> (\<forall>k. fmlookup (V Audit) k \<noteq> None \<longrightarrow> (\<exists>i < length rs. k = u64_be (i + 1)))"

lemma audit_rep_empty: "audit_rep P (\<lambda>_. fmempty) []"
  by (simp add: audit_rep_def)

lemma u64_be_facts [simp]: "length (u64_be n) = 8" "n \<le> u64_max \<Longrightarrow> from_be (u64_be n) = n"
  by (simp_all add: u64_be_def u64_max_def)

lemma u64_be_inject: "m \<le> u64_max \<Longrightarrow> n \<le> u64_max \<Longrightarrow> u64_be m = u64_be n \<longleftrightarrow> m = n"
  by (metis u64_be_facts(2))

lemma audit_rep_snoc:
  assumes rep: "audit_rep P V rs" and room: "length rs < u64_max"
    and meta: "V' Meta = fmupd AUDIT_SEQ_KEY (u64_be (length rs + 1)) (V Meta)"
    and audit: "V' Audit = fmupd (u64_be (length rs + 1)) (AuditValue_encode P t r) (V Audit)"
  shows "audit_rep P V' (rs @ [(t, r)])"
  unfolding audit_rep_def
proof (intro conjI allI impI)
  fix i assume i: "i < length (rs @ [(t, r)])"
  have "u64_be (length rs + 1) = u64_be (i + 1) \<longleftrightarrow> length rs + 1 = i + 1"
    by (rule u64_be_inject) (use i room in auto)
  with rep i show "fmlookup (V' Audit) (u64_be (i + 1)) =
      Some (case (rs @ [(t, r)]) ! i of (t, r) \<Rightarrow> AuditValue_encode P t r)"
    by (auto simp: audit audit_rep_def nth_append)
next
  fix k assume k: "fmlookup (V' Audit) k \<noteq> None"
  show "\<exists>i < length (rs @ [(t, r)]). k = u64_be (i + 1)"
  proof (cases "k = u64_be (length rs + 1)")
    case False
    with k have "fmlookup (V Audit) k \<noteq> None" by (auto simp: audit)
    with rep show ?thesis unfolding audit_rep_def by (metis length_append_singleton less_SucI)
  qed (auto intro: exI [of _ "length rs"])
qed (use room in \<open>simp_all add: meta\<close>)

context storage
begin

lemma audit_append_reps:
  assumes "reps s A" and "apply_audit_append P E r now s = (Inr seq, s')"
  shows "reps s' A" and "cy_dirty (st_cyc s')"
proof -
  have s': "s' = mark_dirty (put E Audit (u64_be seq) (AuditValue_encode P now r) (put E Meta AUDIT_SEQ_KEY (u64_be seq) s))"
    using assms(2) by (auto simp: apply_audit_append_def Let_def split: sum.splits option.splits if_splits)
  show "cy_dirty (st_cyc s')" by (simp add: s')
  show "reps s' A"
    using assms(1) unfolding reps_def represents_def
    by (auto simp: s' view_simps jobs_rep_def dead_rep_def dedup_rep_def closing_rep_def)
qed

lemma audit_append_refines:
  assumes "audit_rep P (txv (st_tx s)) rs" and run: "apply_audit_append P E r now s = (Inr seq, s')"
  shows "seq = length rs + 1" and "audit_rep P (txv (st_tx s')) (rs @ [(now, r)])"
proof -
  obtain v where v: "tx_get E (st_tx s) Meta AUDIT_SEQ_KEY = Inr v"
    using run by (auto simp: apply_audit_append_def split: sum.splits)
  have row: "v = (if rs = [] then None else Some (u64_be (length rs)))"
    using get_view [OF v] assms(1) by (simp add: audit_rep_def)
  have n: "length rs \<le> u64_max" using assms(1) by (simp add: audit_rep_def)
  have room: "length rs < u64_max" and seq: "seq = length rs + 1"
    and s': "s' = mark_dirty (put E Audit (u64_be seq) (AuditValue_encode P now r) (put E Meta AUDIT_SEQ_KEY (u64_be seq) s))"
    using run v row n by (auto simp: apply_audit_append_def Let_def u64_max_def split: if_splits)
  show "seq = length rs + 1" by (rule seq)
  show "audit_rep P (txv (st_tx s')) (rs @ [(now, r)])"
    by (rule audit_rep_snoc [OF assms(1) room]) (simp_all add: s' seq view_simps)
qed

lemma audit_append_unchanged: "apply_audit_append P E r now s = (Inl e, s') \<Longrightarrow> s' = s"
  by (auto simp: apply_audit_append_def Let_def split: sum.splits option.splits if_splits)

end

end
