(* ===== verification/Committer.thy ===== *)
theory Committer
  imports Settle Enqueue Admin_Ops Recovery "HOL-Library.Product_Lexorder" "HOL-Library.Multiset"
begin

text \<open>
  The committer thread of \<open>src/storage.rs\<close>: dispatching an operation, collecting a batch of
  commands under one transaction, committing it and only then answering, the timer sweep cycle,
  the running totals kept for the admin interface, and one turn of the thread's loop.

  A reply channel is a number; replies are the list of what is sent, in order. The clock is read
  several times per turn, so a turn takes the readings as arguments.
\<close>

section \<open>Operations and their outcomes\<close>

datatype op_outcome =
    OutEnqueue "enqueue_result list"
  | OutEnqueueAtomic atomic_enqueue_outcome
  | OutReserve "job list"
  | OutAck ack_outcome
  | OutNack nack_outcome
  | OutExtend extend_outcome
  | OutDrainDeadLetters "dead_letter_record list"
  | OutCloseQueue
  | OutOpenQueue
  | OutRequeueDeadLetters requeue_outcome
  | OutDeadLetterJobs dead_letter_jobs_outcome
  | OutDeleteDeadLetters delete_outcome
  | OutPurgeQueueChunk purge_outcome
  | OutSweep usize
  | OutAuditAppend u64 i64

definition wrap :: "('a \<Rightarrow> op_outcome) \<Rightarrow> (status + 'a) \<times> 's \<Rightarrow> (status + op_outcome) \<times> 's" where
  "wrap c r = (case r of (Inl e, s) \<Rightarrow> (Inl e, s) | (Inr v, s) \<Rightarrow> (Inr (c v), s))"

fun apply_op :: "prost \<Rightarrow> ('db, 'tx) engine \<Rightarrow> op \<Rightarrow> 'tx st \<Rightarrow> (status + op_outcome) \<times> 'tx st" where
  "apply_op P E (OpEnqueue jobs now) s = wrap OutEnqueue (apply_enqueue P E jobs now s)"
| "apply_op P E (OpEnqueueAtomic jobs now) s = wrap OutEnqueueAtomic (apply_enqueue_atomic P E jobs now s)"
| "apply_op P E (OpReserve queues lease_ms max_jobs now) s =
     wrap OutReserve (apply_reserve P E queues lease_ms max_jobs now s)"
| "apply_op P E (OpAck job_id attempt) s = wrap OutAck (apply_ack P E job_id attempt s)"
| "apply_op P E (OpNack req retry_delay_ms dead_letter_enabled now) s =
     wrap OutNack (apply_nack P E req retry_delay_ms dead_letter_enabled now s)"
| "apply_op P E (OpExtend req lease_ms now) s = wrap OutExtend (apply_extend P E req lease_ms now s)"
| "apply_op P E (OpDrainDeadLetters queue mx scan_cap) s =
     wrap OutDrainDeadLetters (apply_drain P E queue mx scan_cap s)"
| "apply_op P E (OpCloseQueue queue now grace_ms) s = (Inr OutCloseQueue, apply_close_queue E queue now grace_ms s)"
| "apply_op P E (OpOpenQueue queue) s = (Inr OutOpenQueue, apply_open_queue E queue s)"
| "apply_op P E (OpRequeueDeadLetters queue keys now) s =
     wrap OutRequeueDeadLetters (apply_requeue_dead_letters P E queue keys now s)"
| "apply_op P E (OpDeadLetterJobs queue state keys reason dead_letter_enabled now) s =
     wrap OutDeadLetterJobs (apply_dead_letter_jobs P E queue state keys reason dead_letter_enabled now s)"
| "apply_op P E (OpDeleteDeadLetters queue keys) s =
     (case apply_delete_dead_letters E queue keys s of (r, s) \<Rightarrow> (Inr (OutDeleteDeadLetters r), s))"
| "apply_op P E (OpPurgeQueueChunk queue mx) s = wrap OutPurgeQueueChunk (apply_purge_queue_chunk E queue mx s)"
| "apply_op P E (OpSweep now budget retention_cutoff_ms dead_letter_enabled) s =
     wrap OutSweep (apply_sweep P E now budget retention_cutoff_ms dead_letter_enabled s)"
| "apply_op P E (OpAuditAppend rec now) s = wrap (\<lambda>seq. OutAuditAppend seq now) (apply_audit_append P E rec now s)"

section \<open>Commands and replies\<close>

type_synonym responder = nat

datatype command =
    CmdOp op responder
  | CmdPeekKeys peek_state str "bytes option" usize responder
  | CmdQueueDepths str responder

datatype answer = AnsOp op_outcome | AnsPeek peek_page | AnsDepths queue_depth_counts

type_synonym reply = "responder \<times> (status + answer)"

record pending_reply =
  pr_resp :: responder
  pr_outcome :: op_outcome

definition respond :: "status + unit \<Rightarrow> pending_reply \<Rightarrow> reply" where
  "respond outcome p = (pr_resp p,
     (case outcome of Inr _ \<Rightarrow> Inr (AnsOp (pr_outcome p)) | Inl e \<Rightarrow> Inl e))"

text \<open>A refusal is sent at once. An internal one also ends the cycle.\<close>

definition reject :: "responder \<Rightarrow> status \<Rightarrow> reply \<times> (status + unit)" where
  "reject resp e = ((resp, Inl e), if st_code e = Internal then Inl e else Inr ())"

fun fail_command :: "status \<Rightarrow> command \<Rightarrow> reply" where
  "fail_command e (CmdOp _ resp) = (resp, Inl e)"
| "fail_command e (CmdPeekKeys _ _ _ _ resp) = (resp, Inl e)"
| "fail_command e (CmdQueueDepths _ resp) = (resp, Inl e)"

text \<open>The transaction state with the replies sent so far and those parked for the commit.\<close>

record 'tx batch =
  b_st :: "'tx st"
  b_sent :: "reply list"
  b_parked :: "pending_reply list"

fun apply_command ::
    "prost \<Rightarrow> ('db, 'tx) engine \<Rightarrow> i64 \<Rightarrow> command \<Rightarrow> 'tx batch \<Rightarrow> (status + unit) \<times> 'tx batch" where
  "apply_command P E now (CmdOp op resp) b =
     (case apply_op P E (stamp now op) (b_st b) of
        (Inr outcome, s) \<Rightarrow>
          (Inr (), b\<lparr>b_st := s, b_parked := b_parked b @ [\<lparr>pr_resp = resp, pr_outcome = outcome\<rparr>]\<rparr>)
      | (Inl e, s) \<Rightarrow>
          (case reject resp e of (reply, r) \<Rightarrow> (r, b\<lparr>b_st := s, b_sent := b_sent b @ [reply]\<rparr>)))"
| "apply_command P E now (CmdPeekKeys state queue cursor limit resp) b =
     (Inr (), b\<lparr>b_sent := b_sent b @ [(resp, Inr (AnsPeek (peek_keys (st_ix (b_st b)) state queue cursor limit)))]\<rparr>)"
| "apply_command P E now (CmdQueueDepths queue resp) b =
     (Inr (), b\<lparr>b_sent := b_sent b @ [(resp, Inr (AnsDepths (depth_counts (st_ix (b_st b)) queue)))]\<rparr>)"

text \<open>Applies commands up to the first fatal one; returns its status and the commands after it.\<close>

fun apply_commands ::
    "prost \<Rightarrow> ('db, 'tx) engine \<Rightarrow> i64 \<Rightarrow> command list \<Rightarrow> 'tx batch \<Rightarrow> (status \<times> command list) option \<times> 'tx batch" where
  "apply_commands P E now [] b = (None, b)"
| "apply_commands P E now (cmd # rpcs) b =
     (case apply_command P E now cmd b of
        (Inl fatal, b) \<Rightarrow> (Some (fatal, rpcs), b)
      | (Inr _, b) \<Rightarrow> apply_commands P E now rpcs b)"

section \<open>Committing\<close>

record storage_params =
  sp_persist_mode :: persist_mode
  sp_sweep_limit :: usize
  sp_dead_letter_retention_ms :: u64
  sp_admin_enabled :: bool
  sp_metrics_enabled :: bool

text \<open>A commit that cannot be made durable panics, which aborts the process.\<close>

datatype commit_outcome = CommitOk | CommitErr status | CommitPanic

definition commit_and_persist ::
    "('db, 'tx) engine \<Rightarrow> persist_mode \<Rightarrow> 'db \<Rightarrow> 'tx \<Rightarrow> commit_outcome \<times> 'db" where
  "commit_and_persist E mode db tx =
     (case tx_commit E db tx of
        (Inr _, db) \<Rightarrow>
          (case db_persist E db mode of
             (Inr _, db) \<Rightarrow> (CommitOk, db)
           | (Inl _, db) \<Rightarrow> (CommitPanic, db))
      | (Inl _, db) \<Rightarrow> (CommitErr (Status Internal ''storage commit failed''), db))"

definition commit_if_dirty ::
    "('db, 'tx) engine \<Rightarrow> persist_mode \<Rightarrow> 'db \<Rightarrow> 'tx st \<Rightarrow> commit_outcome \<times> 'db" where
  "commit_if_dirty E mode db s =
     (if cy_dirty (st_cyc s) then commit_and_persist E mode db (st_tx s) else (CommitOk, db))"

record 'db cycle_result =
  cr_db :: 'db
  cr_ix :: indexes
  cr_replies :: "reply list"
  cr_woken :: "str list"
  cr_metrics :: "cycle_metrics option"
  cr_panicked :: bool

definition begin_cycle :: "('db, 'tx) engine \<Rightarrow> storage_params \<Rightarrow> 'db \<Rightarrow> indexes \<Rightarrow> 'tx st" where
  "begin_cycle E params db ix =
     \<lparr>st_ix = ix, st_tx = write_tx E db,
      st_cyc = Cycle_new (sp_metrics_enabled params \<or> sp_admin_enabled params)\<rparr>"

definition run_rpc_cycle ::
    "prost \<Rightarrow> ('db, 'tx) engine \<Rightarrow> storage_params \<Rightarrow> i64 \<Rightarrow> command list \<Rightarrow> 'db \<Rightarrow> indexes \<Rightarrow> 'db cycle_result" where
  "run_rpc_cycle P E params now rpcs db ix =
     (case apply_commands P E now rpcs \<lparr>b_st = begin_cycle E params db ix, b_sent = [], b_parked = []\<rparr> of
        (Some (fatal, rest), b) \<Rightarrow>
          \<lparr>cr_db = db, cr_ix = resync P E db (st_ix (b_st b)),
           cr_replies = b_sent b @ map (respond (Inl fatal)) (b_parked b) @ map (fail_command fatal) rest,
           cr_woken = [], cr_metrics = None, cr_panicked = False\<rparr>
      | (None, b) \<Rightarrow>
          (let s = b_st b in
           case commit_if_dirty E (sp_persist_mode params) db s of
             (CommitOk, db) \<Rightarrow>
               \<lparr>cr_db = db, cr_ix = st_ix s,
                cr_replies = b_sent b @ map (respond (Inr ())) (b_parked b),
                cr_woken = sorted_list_of_fset (cy_new_ready (st_cyc s)),
                cr_metrics = cy_metrics (st_cyc s), cr_panicked = False\<rparr>
           | (CommitErr e, db) \<Rightarrow>
               \<lparr>cr_db = db, cr_ix = resync P E db (st_ix s),
                cr_replies = b_sent b @ map (respond (Inl e)) (b_parked b),
                cr_woken = [], cr_metrics = None, cr_panicked = False\<rparr>
           | (CommitPanic, db) \<Rightarrow>
               \<lparr>cr_db = db, cr_ix = st_ix s, cr_replies = b_sent b,
                cr_woken = [], cr_metrics = None, cr_panicked = True\<rparr>))"

definition sweep_op :: "storage_params \<Rightarrow> i64 \<Rightarrow> op" where
  "sweep_op params now =
     (let retention_ms = sp_dead_letter_retention_ms params in
      OpSweep now (sp_sweep_limit params)
        (if retention_ms > 0 then Some (i64_saturating_sub now (i64_of_u64 retention_ms)) else None)
        (retention_ms > 0))"

definition run_sweep_cycle ::
    "prost \<Rightarrow> ('db, 'tx) engine \<Rightarrow> storage_params \<Rightarrow> i64 \<Rightarrow> 'db \<Rightarrow> indexes \<Rightarrow> 'db cycle_result" where
  "run_sweep_cycle P E params now db ix =
     (let failed = \<lparr>cr_db = db, cr_ix = ix, cr_replies = [], cr_woken = [], cr_metrics = None, cr_panicked = False\<rparr> in
      case apply_op P E (sweep_op params now) (begin_cycle E params db ix) of
        (Inl _, s) \<Rightarrow> failed\<lparr>cr_ix := resync P E db (st_ix s)\<rparr>
      | (Inr _, s) \<Rightarrow>
          (case commit_if_dirty E (sp_persist_mode params) db s of
             (CommitOk, db) \<Rightarrow>
               failed\<lparr>cr_db := db, cr_ix := st_ix s,
                 cr_woken := sorted_list_of_fset (cy_new_ready (st_cyc s)), cr_metrics := cy_metrics (st_cyc s)\<rparr>
           | (CommitErr _, db) \<Rightarrow> failed\<lparr>cr_db := db, cr_ix := resync P E db (st_ix s)\<rparr>
           | (CommitPanic, db) \<Rightarrow> failed\<lparr>cr_db := db, cr_ix := st_ix s, cr_panicked := True\<rparr>))"

section \<open>Totals for the admin interface\<close>

record queue_totals =
  qt_enqueued :: u64
  qt_reserved :: u64
  qt_acked :: u64
  qt_nacked :: u64
  qt_dead_lettered :: u64

definition queue_totals_default :: queue_totals where
  "queue_totals_default = \<lparr>qt_enqueued = 0, qt_reserved = 0, qt_acked = 0, qt_nacked = 0, qt_dead_lettered = 0\<rparr>"

record admin_totals =
  at_totals :: "(str, queue_totals) fmap"
  at_last_active :: "(str, i64) fmap"

definition admin_totals_default :: admin_totals where
  "admin_totals_default = \<lparr>at_totals = fmempty, at_last_active = fmempty\<rparr>"

definition totals_entry :: "(str, queue_totals) fmap \<Rightarrow> str \<Rightarrow> queue_totals" where
  "totals_entry m q = (case fmlookup m q of None \<Rightarrow> queue_totals_default | Some t \<Rightarrow> t)"

text \<open>Folds one counter map: \<open>add\<close> adds to the field picked.\<close>

definition fold_counter ::
    "(nat \<Rightarrow> queue_totals \<Rightarrow> queue_totals) \<Rightarrow> i64 \<Rightarrow> (str \<times> nat) list \<Rightarrow> admin_totals \<Rightarrow> admin_totals" where
  "fold_counter add now counts a =
     fold (\<lambda>(q, n) a. \<lparr>at_totals = fmupd q (add n (totals_entry (at_totals a) q)) (at_totals a),
       at_last_active = fmupd q now (at_last_active a)\<rparr>) counts a"

definition fold_admin_totals :: "i64 \<Rightarrow> cycle_metrics \<Rightarrow> admin_totals \<Rightarrow> admin_totals" where
  "fold_admin_totals now m a =
     (let a = fold_counter (\<lambda>n t. t\<lparr>qt_enqueued := qt_enqueued t + n\<rparr>) now (sorted_list_of_fmap (cm_enqueued_by_queue m)) a;
          a = fold_counter (\<lambda>n t. t\<lparr>qt_reserved := qt_reserved t + n\<rparr>) now (sorted_list_of_fmap (cm_reserved_by_queue m)) a;
          a = fold_counter (\<lambda>n t. t\<lparr>qt_acked := qt_acked t + n\<rparr>) now (sorted_list_of_fmap (cm_acked_by_queue m)) a;
          a = fold_counter (\<lambda>n t. t\<lparr>qt_nacked := qt_nacked t + n\<rparr>) now (sorted_list_of_fmap (cm_nacked_by_queue m)) a
      in fold_counter (\<lambda>n t. t\<lparr>qt_dead_lettered := qt_dead_lettered t + n\<rparr>) now
           (map (\<lambda>((q, _), n). (q, n)) (sorted_list_of_fmap (cm_dead_lettered_by_queue_cause m))) a)"

definition ADMIN_IDLE_EVICT_MS :: i64 where
  "ADMIN_IDLE_EVICT_MS = 15 * 60 * 1000"

definition keep_totals :: "indexes \<Rightarrow> (str, i64) fmap \<Rightarrow> i64 \<Rightarrow> str \<Rightarrow> bool" where
  "keep_totals ix last_active now q \<longleftrightarrow>
     (case fmlookup last_active q of None \<Rightarrow> False | Some at \<Rightarrow> now - at < ADMIN_IDLE_EVICT_MS)
     \<or> fmlookup (ri_by_queue (ix_ready ix)) q \<noteq> None
     \<or> fmlookup (ti_by_queue (ix_scheduled ix)) q \<noteq> None
     \<or> fmlookup (ti_by_queue (ix_leases ix)) q \<noteq> None
     \<or> fmlookup (ti_by_queue (ix_dead_letter ix)) q \<noteq> None"

definition evict_idle_admin_totals :: "indexes \<Rightarrow> i64 \<Rightarrow> admin_totals \<Rightarrow> admin_totals" where
  "evict_idle_admin_totals ix now a =
     (let totals = fmfilter (keep_totals ix (at_last_active a) now) (at_totals a)
      in \<lparr>at_totals = totals, at_last_active = fmfilter (\<lambda>q. fmlookup totals q \<noteq> None) (at_last_active a)\<rparr>)"

definition forget_purged :: "str list \<Rightarrow> admin_totals \<Rightarrow> admin_totals" where
  "forget_purged qs a = \<lparr>at_totals = fold fmdrop qs (at_totals a), at_last_active = fold fmdrop qs (at_last_active a)\<rparr>"

section \<open>One turn of the loop\<close>

record 'db committer =
  co_db :: 'db
  co_ix :: indexes
  co_totals :: admin_totals

text \<open>The clock readings of a turn, in the order the code takes them.\<close>

record clock =
  ck_due :: i64
  ck_sweep :: i64
  ck_fold1 :: i64
  ck_evict :: i64
  ck_wait :: i64
  ck_rpc :: i64
  ck_fold2 :: i64

definition sweep_due :: "storage_params \<Rightarrow> i64 \<Rightarrow> indexes \<Rightarrow> bool" where
  "sweep_due params now ix =
     (case next_deadline ix (sp_dead_letter_retention_ms params) of None \<Rightarrow> False | Some d \<Rightarrow> d \<le> now)"

text \<open>How long the thread may sleep: until the next deadline, at most the sweep interval.\<close>

definition recv_wait :: "storage_params \<Rightarrow> u64 \<Rightarrow> i64 \<Rightarrow> indexes \<Rightarrow> u64" where
  "recv_wait params max_sweep_interval now ix =
     (case next_deadline ix (sp_dead_letter_retention_ms params) of
        Some deadline \<Rightarrow> min (nat (max (deadline - now) 0)) max_sweep_interval
      | None \<Rightarrow> max_sweep_interval)"

definition sweep_turn ::
    "prost \<Rightarrow> ('db, 'tx) engine \<Rightarrow> storage_params \<Rightarrow> clock \<Rightarrow> 'db committer \<Rightarrow> 'db committer \<times> 'db cycle_result option" where
  "sweep_turn P E params ck c =
     (if sweep_due params (ck_due ck) (co_ix c)
      then (let r = run_sweep_cycle P E params (ck_sweep ck) (co_db c) (co_ix c);
                totals = (case cr_metrics r of Some m \<Rightarrow> fold_admin_totals (ck_fold1 ck) m (co_totals c) | None \<Rightarrow> co_totals c);
                totals = evict_idle_admin_totals (cr_ix r) (ck_evict ck) totals
            in (\<lparr>co_db = cr_db r, co_ix = cr_ix r,
                 co_totals = (if sp_admin_enabled params then totals else co_totals c)\<rparr>, Some r))
      else (c, None))"

definition rpc_turn ::
    "prost \<Rightarrow> ('db, 'tx) engine \<Rightarrow> storage_params \<Rightarrow> clock \<Rightarrow> command list \<Rightarrow> 'db committer \<Rightarrow>
     'db committer \<times> 'db cycle_result option" where
  "rpc_turn P E params ck rpcs c =
     (if rpcs = [] then (c, None)
      else (let r = run_rpc_cycle P E params (ck_rpc ck) rpcs (co_db c) (co_ix c);
                totals = (case cr_metrics r of
                    Some m \<Rightarrow> fold_admin_totals (ck_fold2 ck) m (forget_purged (cm_purged_queues m) (co_totals c))
                  | None \<Rightarrow> co_totals c)
            in (\<lparr>co_db = cr_db r, co_ix = cr_ix r,
                 co_totals = (if sp_admin_enabled params then totals else co_totals c)\<rparr>, Some r)))"

definition panicked :: "'db cycle_result option \<Rightarrow> bool" where
  "panicked r = (case r of None \<Rightarrow> False | Some r \<Rightarrow> cr_panicked r)"

text \<open>
  The loop as a step relation: a turn sweeps if a timer is due, then takes the commands that have
  arrived (none is the timeout). After a panic there is no further turn.
\<close>

inductive turn ::
    "prost \<Rightarrow> ('db, 'tx) engine \<Rightarrow> storage_params \<Rightarrow> 'db committer \<Rightarrow> clock \<Rightarrow> command list \<Rightarrow>
     reply list \<Rightarrow> 'db committer \<Rightarrow> bool"
  for P E params where
  turn: "sweep_turn P E params ck c = (c1, r1) \<Longrightarrow> \<not> panicked r1 \<Longrightarrow>
     rpc_turn P E params ck rpcs c1 = (c2, r2) \<Longrightarrow> \<not> panicked r2 \<Longrightarrow>
     turn P E params c ck rpcs (case r2 of None \<Rightarrow> [] | Some r \<Rightarrow> cr_replies r) c2"

section \<open>Refusals\<close>

text \<open>Where an operation other than a lease operation or a purge fails, the failure is internal.\<close>

lemma check_dedup_internal: "check_dedup E req now s = (Inl e, s') \<Longrightarrow> st_code e = Internal"
  by (auto simp: check_dedup_def stg_err_def Let_def split: option.splits sum.splits if_splits)

lemma enqueue_internal: "enqueue_loop P E now rs jobs s = (Inl e, s') \<Longrightarrow> st_code e = Internal"
  by (induction P E now rs jobs s rule: enqueue_loop.induct)
     (auto simp: Let_def dest: check_dedup_internal split: prod.splits sum.splits if_splits dedup_check.splits)

lemma atomic_internal: "atomic_loop P E now rs jobs s = (Inl e, s') \<Longrightarrow> st_code e = Internal"
  by (induction P E now rs jobs s rule: atomic_loop.induct)
     (auto dest: check_dedup_internal split: prod.splits sum.splits dedup_check.splits)

lemma reserve_entry_internal: "reserve_entry P E le k a s = (Inl e, s') \<Longrightarrow> st_code e = Internal"
  by (auto simp: reserve_entry_def stg_err_def Let_def split: option.splits sum.splits prod.splits)

lemma reserve_queue_internal: "reserve_queue P E pre le mx jobs s = (Inl e, s') \<Longrightarrow> st_code e = Internal"
  by (induction P E pre le mx jobs s rule: reserve_queue.induct)
     (subst (asm) reserve_queue.simps,
      auto dest: reserve_entry_internal split: if_splits option.splits prod.splits sum.splits)

lemma reserve_queues_internal: "reserve_queues P E le mx qs jobs s = (Inl e, s') \<Longrightarrow> st_code e = Internal"
  by (induction P E le mx qs jobs s rule: reserve_queues.induct)
     (auto dest: reserve_queue_internal split: if_splits prod.splits sum.splits)

lemma drain_internal: "drain_take P E keys records s = (Inl e, s') \<Longrightarrow> st_code e = Internal"
  by (induction P E keys records s rule: drain_take.induct)
     (auto simp: stg_err_def split: sum.splits option.splits)

lemma requeue_internal: "requeue_loop P E queue now out keys s = (Inl e, s') \<Longrightarrow> st_code e = Internal"
  by (induction keys arbitrary: out s)
     (auto simp: stg_err_def Let_def split: sum.splits option.splits if_splits)

lemma maybe_store_internal: "maybe_store_dead_letter P E j m en s = (Inl e, s') \<Longrightarrow> st_code e = Internal"
  by (auto simp: maybe_store_dead_letter_def read_dead_letter_job_def stg_err_def Let_def
      split: sum.splits option.splits if_splits prod.splits)

lemma dj_kill_internal: "dj_kill P E queue state reason en now key j s = (Inl e, s') \<Longrightarrow> st_code e = Internal"
  by (auto simp: dj_kill_def dj_attempt_def stg_err_def Let_def dest: maybe_store_internal
      split: sum.splits option.splits if_splits prod.splits)

lemma dj_target_internal: "dj_target_of E queue state key s = DjError e \<Longrightarrow> st_code e = Internal"
  by (auto simp: dj_target_of_def stg_err_def split: sum.splits option.splits if_splits peek_state.splits)

lemma dead_letter_jobs_internal:
  "dead_letter_jobs_loop P E queue state reason en now out keys s = (Inl e, s') \<Longrightarrow> st_code e = Internal"
  by (induction keys arbitrary: out s)
     (auto simp: Let_def stg_err_def dest: dj_target_internal dj_kill_internal
       split: dj_target.splits sum.splits option.splits if_splits prod.splits)

lemma promote_internal: "promote_entry P E k s = (Inl e, s') \<Longrightarrow> st_code e = Internal"
  by (auto simp: promote_entry_def stg_err_def Let_def split: sum.splits option.splits prod.splits)

lemma lease_internal: "lease_entry P E now en k s = (Inl e, s') \<Longrightarrow> st_code e = Internal"
  by (auto simp: lease_entry_def expire_dead_letter_def stg_err_def Let_def dest: maybe_store_internal
      split: sum.splits option.splits prod.splits if_splits)

lemma dedup_internal: "dedup_entry E now k q s = (Inl e, s') \<Longrightarrow> st_code e = Internal"
  by (auto simp: dedup_entry_def stg_err_def Let_def split: sum.splits option.splits)

lemma sweep_phases_internal:
  "sweep_scheduled P E now n p s = (Inl e, s') \<Longrightarrow> st_code e = Internal"
  "sweep_leases P E now en n p s = (Inl e, s') \<Longrightarrow> st_code e = Internal"
  "sweep_dedup E now n p s = (Inl e, s') \<Longrightarrow> st_code e = Internal"
  by (induction n arbitrary: p s)
     (auto dest: promote_internal lease_internal dedup_internal split: option.splits prod.splits sum.splits)

lemma sweep_internal: "apply_sweep P E now budget cutoff en s = (Inl e, s') \<Longrightarrow> st_code e = Internal"
  by (auto simp: apply_sweep_def dest: sweep_phases_internal split: prod.splits sum.splits option.splits)

lemma wrap_Inl: "wrap c r = (Inl e, s') \<longleftrightarrow> r = (Inl e, s')"
  by (auto simp: wrap_def split: prod.splits sum.splits)

lemma wrap_Inr: "wrap c r = (Inr v, s') \<longleftrightarrow> (\<exists>w. r = (Inr w, s') \<and> v = c w)"
  by (auto simp: wrap_def split: prod.splits sum.splits)

text \<open>What \<open>reject\<close> relies on: a refusal that is not internal changed nothing.\<close>

lemma apply_op_rejected:
  assumes "apply_op P E op s = (Inl e, s')" and "st_code e \<noteq> Internal"
  shows "s' = s"
proof (cases op)
  case (OpEnqueue jobs now)
  with assms show ?thesis by (auto simp: wrap_Inl apply_enqueue_def dest: enqueue_internal)
next
  case (OpEnqueueAtomic jobs now)
  with assms show ?thesis
    by (auto simp: wrap_Inl apply_enqueue_atomic_def Let_def dest: atomic_internal split: if_splits prod.splits sum.splits)
next
  case (OpReserve qs l m now)
  with assms show ?thesis by (auto simp: wrap_Inl apply_reserve_def Let_def dest: reserve_queues_internal)
next
  case (OpAck j a)
  with assms show ?thesis
    by (auto simp: wrap_Inl apply_ack_def Let_def split: sum.splits)
next
  case (OpNack r d en now)
  with assms show ?thesis
    by (auto simp: wrap_Inl apply_nack_def nack_dead_letter_def Let_def dest: maybe_store_internal
        split: sum.splits if_splits prod.splits)
next
  case (OpExtend r l now)
  with assms show ?thesis by (auto simp: wrap_Inl apply_extend_def Let_def split: sum.splits)
next
  case (OpDrainDeadLetters q m c)
  with assms show ?thesis
    by (auto simp: wrap_Inl apply_drain_def Let_def dest: drain_internal split: prod.splits sum.splits)
next
  case (OpRequeueDeadLetters q keys now)
  with assms show ?thesis by (auto simp: wrap_Inl apply_requeue_dead_letters_def dest: requeue_internal)
next
  case (OpDeadLetterJobs q st keys reason en now)
  with assms show ?thesis
    by (auto simp: wrap_Inl apply_dead_letter_jobs_def dest: dead_letter_jobs_internal split: if_splits)
next
  case (OpDeleteDeadLetters q keys)
  with assms show ?thesis by (simp split: prod.splits)
next
  case (OpPurgeQueueChunk q m)
  with assms show ?thesis by (auto simp: wrap_Inl apply_purge_queue_chunk_def Let_def split: if_splits prod.splits)
next
  case (OpSweep now b c en)
  with assms show ?thesis by (auto simp: wrap_Inl dest: sweep_internal)
next
  case (OpAuditAppend r now)
  with assms show ?thesis
    by (auto simp: wrap_Inl apply_audit_append_def Let_def split: sum.splits option.splits if_splits)
qed (use assms in auto)

section \<open>Every operation refines the abstract queue\<close>

text \<open>What the callers guarantee of an operation's inputs; the clock stamp is set by the committer.\<close>

fun op_ok :: "op \<Rightarrow> bool" where
  "op_ok (OpEnqueue jobs _) \<longleftrightarrow> list_all pj_ok jobs \<and> distinct (map pj_id jobs)"
| "op_ok (OpEnqueueAtomic jobs _) \<longleftrightarrow> list_all pj_ok jobs \<and> distinct (map pj_id jobs)"
| "op_ok (OpReserve queues _ _ _) \<longleftrightarrow> list_all (\<lambda>q. length q < 65536) queues"
| "op_ok (OpNack req _ _ _) \<longleftrightarrow> pred_option utf8_valid (nack_reason req)"
| "op_ok (OpCloseQueue queue _ _) \<longleftrightarrow> utf8_valid queue"
| "op_ok (OpDeadLetterJobs _ _ _ reason _ _) \<longleftrightarrow> pred_option utf8_valid reason"
| "op_ok (OpPurgeQueueChunk queue _) \<longleftrightarrow> length queue < 65536"
| "op_ok _ \<longleftrightarrow> True"

text \<open>The ids an operation brings in. They are random version-4 UUIDs, taken to be unused.\<close>

fun op_ids :: "op \<Rightarrow> str list" where
  "op_ids (OpEnqueue jobs _) = map pj_id jobs"
| "op_ids (OpEnqueueAtomic jobs _) = map pj_id jobs"
| "op_ids _ = []"

definition unused :: "abs_queue \<Rightarrow> str list \<Rightarrow> bool" where
  "unused A ids \<longleftrightarrow> (\<forall>j \<in> set ids. fmlookup (a_jobs A) j = None \<and> fmlookup (a_dead A) j = None)"

text \<open>The transaction and the dirty flag move together.\<close>

definition quiet :: "'tx st \<Rightarrow> 'tx st \<Rightarrow> bool" where
  "quiet s s' \<longleftrightarrow> cy_dirty (st_cyc s') \<or> st_tx s' = st_tx s \<and> \<not> cy_dirty (st_cyc s)"

lemma quiet_refl: "quiet s s"
  by (simp add: quiet_def)

lemma quiet_trans: "quiet s t \<Longrightarrow> quiet t u \<Longrightarrow> quiet s u"
  by (auto simp: quiet_def)

lemma quietI:
  "cy_dirty (st_cyc s') \<Longrightarrow> quiet s s'"
  "(if b then s' = s else cy_dirty (st_cyc s')) \<Longrightarrow> quiet s s'"
  "(if b then st_tx s' = st_tx s \<and> cy_dirty (st_cyc s') = cy_dirty (st_cyc s) else cy_dirty (st_cyc s')) \<Longrightarrow> quiet s s'"
  by (auto simp: quiet_def split: if_splits)

text \<open>The new jobs are among the given ids; where there are none, no deduplication record is new either.\<close>

definition enqueues_only :: "str list \<Rightarrow> event list \<Rightarrow> bool" where
  "enqueues_only ids es \<longleftrightarrow> (\<forall>j. Enqueued j \<in> set es \<longrightarrow> j \<in> set ids) \<and> (ids = [] \<longrightarrow> (\<forall>k. DedupSet k \<notin> set es))"

lemma enqueues_only_events:
  "enqueues_only (map pj_id jobs) (concat (map enqueue_events (accepted_of jobs rs)))"
  by (auto simp: enqueues_only_def enqueue_events_def accepted_of_def dest!: set_zip_leftD split: option.splits)

definition same_ids :: "abs_queue \<Rightarrow> abs_queue \<Rightarrow> str list \<Rightarrow> bool" where
  "same_ids A B ids \<longleftrightarrow> (\<forall>j. fmlookup (a_jobs A) j = None \<longrightarrow> fmlookup (a_dead A) j = None \<longrightarrow> j \<notin> set ids \<longrightarrow>
     fmlookup (a_jobs B) j = None \<and> fmlookup (a_dead B) j = None)"

lemma astep_ids: "astep A e B \<Longrightarrow> fmlookup (a_jobs A) j = None \<Longrightarrow> fmlookup (a_dead A) j = None \<Longrightarrow> e \<noteq> Enqueued j \<Longrightarrow>
    fmlookup (a_jobs B) j = None \<and> fmlookup (a_dead B) j = None"
  by (induction rule: astep.induct) (auto simp: kill_def split: option.splits)

text \<open>No job appears out of nowhere: a new id is one that was enqueued.\<close>

lemma arun_ids: "arun A es B \<Longrightarrow> enqueues_only ids es \<Longrightarrow> same_ids A B ids"
proof (induction rule: arun.induct)
  case (arun_Cons A e B es C)
  then have "enqueues_only ids es" by (simp add: enqueues_only_def)
  with arun_Cons show ?case using astep_ids [OF arun_Cons(1)]
    unfolding same_ids_def enqueues_only_def by (metis list.set_intros(1))
qed (simp add: same_ids_def)

lemma unused_after: "same_ids A B ids \<Longrightarrow> unused A js \<Longrightarrow> set ids \<inter> set js = {} \<Longrightarrow> unused B js"
  by (auto simp: unused_def same_ids_def)

context storage
begin

definition refined :: "str list \<Rightarrow> 'tx st \<Rightarrow> abs_queue \<Rightarrow> 'tx st \<Rightarrow> bool" where
  "refined ids s A s' \<longleftrightarrow> (\<exists>es B. arun A es B \<and> reps s' B \<and> enqueues_only ids es \<and> quiet s s')"

lemma refinedI: "arun A es B \<Longrightarrow> reps s' B \<Longrightarrow> enqueues_only ids es \<Longrightarrow> quiet s s' \<Longrightarrow> refined ids s A s'"
  unfolding refined_def by blast

lemma refined_single:
  "astep A e B \<Longrightarrow> reps s' B \<Longrightarrow> cy_dirty (st_cyc s') \<Longrightarrow> (\<And>j. e \<noteq> Enqueued j) \<Longrightarrow> (\<And>k. e \<noteq> DedupSet k) \<Longrightarrow>
     refined ids s A s'"
  by (rule refinedI [of A "[e]" B]) (auto simp: enqueues_only_def intro: arun_single quietI)

lemma no_enqueues [simp]:
  "enqueues_only ids []" "enqueues_only ids (e # es) \<longleftrightarrow> (\<forall>j. e = Enqueued j \<longrightarrow> j \<in> set ids)
     \<and> (ids = [] \<longrightarrow> (\<forall>k. e \<noteq> DedupSet k)) \<and> enqueues_only ids es"
  "enqueues_only ids (map (\<lambda>x. Reserved (f x)) xs)" "enqueues_only ids (map Buried js)" "enqueues_only ids (map Revived js)"
  "enqueues_only ids (map Killed js)" "enqueues_only ids (map Opened js)" "enqueues_only ids (map Promoted js)"
  "enqueues_only ids (map DedupDropped ks)"
  "enqueues_only ids (es @ fs) \<longleftrightarrow> enqueues_only ids es \<and> enqueues_only ids fs"
  by (auto simp: enqueues_only_def)

lemma enqueue_op:
  assumes "reps s A" and "op_ok (OpEnqueue jobs t)" and "unused A (map pj_id jobs)" and now: "0 \<le> now" "i64_ok now"
    and "apply_op P E (OpEnqueue jobs now) s = (Inr out, s')"
  shows "refined (map pj_id jobs) s A s'"
proof -
  obtain rs where run: "enqueue_loop P E now [] jobs s = (Inr rs, s')"
    using assms(6) by (auto simp: wrap_Inr apply_enqueue_def)
  have "\<exists>new A'. rs = [] @ new \<and> length new = length jobs \<and> reps s' A'
    \<and> arun A (concat (map enqueue_events (accepted_of jobs new))) A'
    \<and> (if accepted_of jobs new = [] then st_tx s' = st_tx s \<and> cy_dirty (st_cyc s') = cy_dirty (st_cyc s)
       else cy_dirty (st_cyc s'))"
    by (rule enqueue_loop_refines [OF assms(1) run]) (use assms(2,3) now in \<open>auto simp: unused_def\<close>)
  then show ?thesis by (auto intro!: refinedI enqueues_only_events intro: quietI)
qed

lemma enqueue_atomic_op:
  assumes rep: "reps s A" and "op_ok (OpEnqueueAtomic jobs t)" and "unused A (map pj_id jobs)"
    and now: "0 \<le> now" "i64_ok now"
    and run: "apply_op P E (OpEnqueueAtomic jobs now) s = (Inr out, s')"
  shows "refined (map pj_id jobs) s A s'"
proof (cases "\<exists>rs. atomic_loop P E now [] jobs s = (Inr rs, s')")
  case True
  then obtain rs where go: "atomic_loop P E now [] jobs s = (Inr rs, s')" by blast
  have "\<exists>new A'. rs = [] @ new \<and> length new = length jobs \<and> reps s' A'
    \<and> arun A (concat (map enqueue_events (accepted_of jobs (map Inr new)))) A'
    \<and> (if accepted_of jobs (map Inr new) = [] then st_tx s' = st_tx s \<and> cy_dirty (st_cyc s') = cy_dirty (st_cyc s)
       else cy_dirty (st_cyc s'))
    \<and> list_all2 (\<lambda>job r. resp_deduplicated r \<or> r = \<lparr>resp_job_id = pj_id job, resp_deduplicated = False\<rparr>) jobs new"
    by (rule atomic_loop_refines [OF rep go]) (use assms(2,3) now in \<open>auto simp: unused_def\<close>)
  then show ?thesis by (auto intro!: refinedI enqueues_only_events intro: quietI)
next
  case False
  with run have "s' = s"
    by (auto simp: wrap_Inr apply_enqueue_atomic_def Let_def split: if_splits prod.splits sum.splits)
  then show ?thesis using refinedI [OF arun_Nil rep] by (simp add: quiet_refl)
qed

lemma reserve_op:
  assumes "reps s A" and "op_ok (OpReserve qs lease mx t)" and now: "0 \<le> now" "i64_ok now"
    and "apply_op P E (OpReserve qs lease mx now) s = (Inr out, s')"
  shows "refined [] s A s'"
proof -
  let ?le = "i64_saturating_add now (i64_of_u64 lease)"
  obtain js where run: "reserve_queues P E ?le mx qs [] s = (Inr js, s')"
    using assms(5) by (auto simp: wrap_Inr apply_reserve_def Let_def)
  have le: "0 \<le> ?le" "i64_ok ?le" using now by simp_all
  have qs: "\<forall>q \<in> set qs. length q < 65536" using assms(2) by (simp add: list_all_iff)
  from reserve_queues_refines [OF assms(1) qs le run] obtain new :: "job list" and A' where
    "reps s' A'" "arun A (map (\<lambda>j. Reserved (j_id j)) new) A'" "if new = [] then s' = s else cy_dirty (st_cyc s')"
    by blast
  then show ?thesis by (auto intro!: refinedI intro: quietI)
qed

lemma nack_op:
  assumes rep: "reps s A" and "op_ok (OpNack req d en t)" and now: "0 \<le> now" "i64_ok now"
    and "apply_op P E (OpNack req d en now) s = (Inr out, s')"
  shows "refined [] s A s'"
proof -
  let ?j = "nack_job_id req" and ?a = "nack_attempt req"
  obtain no where "apply_nack P E req d en now s = (Inr no, s')"
    using assms(5) by (auto simp: wrap_Inr)
  from apply_nack_refines [OF rep now _ refl this] assms(2) obtain x dl where
    x: "fmlookup (a_jobs A) ?j = Some x" "aj_place x = InFlight dl ?a" and dirty: "cy_dirty (st_cyc s')"
    and step: "if force_dead_letter req \<or> j_max_attempts (aj_job x) \<le> ?a
       then no_dead_lettered no
         \<and> reps s' (kill ?j (if en then Some (dead_of P x (nack_meta req now)) else None) A)
       else \<not> no_dead_lettered no
         \<and> reps s' (A\<lparr>a_jobs := fmupd ?j (x\<lparr>aj_place := nack_place ?a d now\<rparr>) (a_jobs A)\<rparr>)"
    by auto
  show ?thesis
  proof (cases "force_dead_letter req \<or> j_max_attempts (aj_job x) \<le> ?a")
    case True
    with step have "reps s' (kill ?j (if en then Some (dead_of P x (nack_meta req now)) else None) A)" by simp
    with astep.kill [OF x(1)] dirty show ?thesis by (auto intro: refined_single)
  next
    case False
    have "astep A (Retried ?j) (A\<lparr>a_jobs := fmupd ?j (x\<lparr>aj_place := nack_place ?a d now\<rparr>) (a_jobs A)\<rparr>)"
    proof (rule astep.retry [OF x])
      show "?a < j_max_attempts (aj_job x)" using False by (simp add: not_le)
      show "nack_place ?a d now = InReady (?a + 1)
          \<or> nack_place ?a d now = InScheduled (i64_saturating_add now (i64_of_u64 d)) (?a + 1)"
        by (auto simp: nack_place_def)
    qed
    with False step dirty show ?thesis by (auto intro: refined_single)
  qed
qed

lemma settle_op:
  assumes rep: "reps s A"
  shows "apply_op P E (OpAck j a) s = (Inr out, s') \<Longrightarrow> refined [] s A s'"
    and "0 \<le> now \<Longrightarrow> apply_op P E (OpExtend req lease now) s = (Inr out, s') \<Longrightarrow> refined [] s A s'"
proof -
  assume "apply_op P E (OpAck j a) s = (Inr out, s')"
  then obtain ao where "apply_ack P E j a s = (Inr ao, s')" by (auto simp: wrap_Inr)
  from apply_ack_refines [OF rep this] show "refined [] s A s'"
    by (auto intro: refined_single astep.ack)
next
  assume now: "0 \<le> now" and "apply_op P E (OpExtend req lease now) s = (Inr out, s')"
  then obtain eo where "apply_extend P E req lease now s = (Inr eo, s')" by (auto simp: wrap_Inr)
  from apply_extend_refines [OF rep now refl this] show "refined [] s A s'"
    by (auto intro: refined_single astep.extend)
qed

lemma dead_letter_op:
  assumes rep: "reps s A"
  shows "apply_op P E (OpDrainDeadLetters q mx cap) s = (Inr out, s') \<Longrightarrow> refined [] s A s'"
    and "0 \<le> now \<Longrightarrow> i64_ok now \<Longrightarrow> apply_op P E (OpRequeueDeadLetters qn keys now) s = (Inr out, s') \<Longrightarrow> refined [] s A s'"
    and "apply_op P E (OpDeleteDeadLetters qn keys) s = (Inr out, s') \<Longrightarrow> refined [] s A s'"
    and "0 \<le> now \<Longrightarrow> i64_ok now \<Longrightarrow> pred_option utf8_valid reason \<Longrightarrow>
      apply_op P E (OpDeadLetterJobs qn st keys reason en now) s = (Inr out, s') \<Longrightarrow> refined [] s A s'"
proof -
  assume "apply_op P E (OpDrainDeadLetters q mx cap) s = (Inr out, s')"
  then obtain ds where "apply_drain P E q mx cap s = (Inr ds, s')" by (auto simp: wrap_Inr)
  note r = apply_drain_refines [OF rep this]
  from r(2) obtain js A' where "arun A (map Buried js) A'" "reps s' A'" by blast
  with r(3) show "refined [] s A s'" by (auto intro: refinedI quietI)
next
  assume now: "0 \<le> now" "i64_ok now" and "apply_op P E (OpRequeueDeadLetters qn keys now) s = (Inr out, s')"
  then obtain ro where "requeue_loop P E qn now \<lparr>ro_requeued = 0, ro_missing = 0, ro_job_ids = []\<rparr> keys s = (Inr ro, s')"
    by (auto simp: wrap_Inr apply_requeue_dead_letters_def)
  from requeue_loop_refines [OF rep this now] obtain js A' where
    "arun A (map Revived js) A'" "reps s' A'" "if js = [] then s' = s else cy_dirty (st_cyc s')" by blast
  then show "refined [] s A s'" by (auto intro: refinedI quietI)
next
  assume "apply_op P E (OpDeleteDeadLetters qn keys) s = (Inr out, s')"
  then obtain dout where "delete_loop E qn \<lparr>do_deleted = 0, do_missing = 0, do_job_ids = []\<rparr> keys s = (dout, s')"
    by (auto simp: apply_delete_dead_letters_def split: prod.splits)
  from delete_loop_refines [OF rep this] obtain js A' where
    "arun A (map Buried js) A'" "reps s' A'" "if js = [] then s' = s else cy_dirty (st_cyc s')" by blast
  then show "refined [] s A s'" by (auto intro: refinedI quietI)
next
  assume now: "0 \<le> now" "i64_ok now" and reason: "pred_option utf8_valid reason"
    and "apply_op P E (OpDeadLetterJobs qn st keys reason en now) s = (Inr out, s')"
  then obtain jo where st: "st \<in> {PeekReady, PeekScheduled}"
    and run: "dead_letter_jobs_loop P E qn st reason en now
      \<lparr>djo_dead_lettered = 0, djo_missing = 0, djo_job_ids = []\<rparr> keys s = (Inr jo, s')"
    by (auto simp: wrap_Inr apply_dead_letter_jobs_def split: if_splits)
  from dead_letter_jobs_loop_refines [OF rep run st now reason] obtain js A' where
    "arun A (map Killed js) A'" "reps s' A'" "if js = [] then s' = s else cy_dirty (st_cyc s')" by blast
  then show "refined [] s A s'" by (auto intro: refinedI quietI)
qed

lemma admin_op:
  assumes rep: "reps s A"
  shows "utf8_valid q \<Longrightarrow> refined [] s A (apply_close_queue E q now grace s)"
    and "refined [] s A (apply_open_queue E q s)"
    and "length q < 65536 \<Longrightarrow> apply_op P E (OpPurgeQueueChunk q mx) s = (Inr out, s') \<Longrightarrow> refined [] s A s'"
    and "apply_op P E (OpAuditAppend r now) s = (Inr out, s') \<Longrightarrow> refined [] s A s'"
proof -
  show "utf8_valid q \<Longrightarrow> refined [] s A (apply_close_queue E q now grace s)"
    by (rule refined_single [OF astep.close close_refines [OF rep]]) (auto simp: apply_close_queue_def Let_def)
  show "refined [] s A (apply_open_queue E q s)"
  proof (cases "fmlookup (ix_closing (st_ix s)) q")
    case None
    then show ?thesis using refinedI [OF arun_Nil rep] by (simp add: apply_open_queue_def quiet_refl)
  next
    case (Some d)
    then show ?thesis
      by (intro refined_single [OF astep.open_queue open_refines [OF rep]]) (auto simp: apply_open_queue_def)
  qed
next
  assume q: "length q < 65536" and "apply_op P E (OpPurgeQueueChunk q mx) s = (Inr out, s')"
  then obtain po where run: "apply_purge_queue_chunk E q mx s = (Inr po, s')" by (auto simp: wrap_Inr)
  have free: "\<not> in_flight A q"
    using run apply_purge_refused [OF rep, of q mx] by auto
  from apply_purge_refines [OF rep q free run] obtain es B where "arun A es B" "reps s' B" and ev: "list_all purge_event es"
    and "if es = [] then st_tx s' = st_tx s \<and> cy_dirty (st_cyc s') = cy_dirty (st_cyc s) else cy_dirty (st_cyc s')"
    by blast
  moreover have "enqueues_only [] es" using ev by (auto simp: enqueues_only_def list_all_iff purge_event_def)
  ultimately show "refined [] s A s'" by (auto intro: refinedI quietI(3))
next
  assume "apply_op P E (OpAuditAppend r now) s = (Inr out, s')"
  then obtain seq where "apply_audit_append P E r now s = (Inr seq, s')" by (auto simp: wrap_Inr)
  from audit_append_reps [OF rep this] show "refined [] s A s'"
    by (auto intro: refinedI [OF arun_Nil] quietI)
qed

lemma sweep_op_refines:
  assumes "reps s A" and now: "0 \<le> now" "i64_ok now"
    and "apply_op P E (OpSweep now budget cutoff en) s = (Inr out, s')"
  shows "refined [] s A s'"
proof -
  obtain n where run: "apply_sweep P E now budget cutoff en s = (Inr n, s')" using assms(4) by (auto simp: wrap_Inr)
  from apply_sweep_refines [OF assms(1) now run] obtain qs js es ks bs A' where
    r: "arun A (map Opened qs @ map Promoted js @ es @ map DedupDropped ks @ map Buried bs) A'" "reps s' A'"
      "list_all expiry_event es"
      "if qs = [] \<and> js = [] \<and> es = [] \<and> ks = [] \<and> bs = [] then s' = s else cy_dirty (st_cyc s')"
    by blast
  have "enqueues_only [] es" using r(3) by (auto simp: enqueues_only_def list_all_iff expiry_event_def)
  with r show ?thesis by (intro refinedI [OF r(1,2)] quietI(2) [OF r(4)]) simp
qed

lemma apply_op_refines:
  assumes rep: "reps s A" and ok: "op_ok op" and fresh: "unused A (op_ids op)" and now: "0 \<le> now" "i64_ok now"
    and run: "apply_op P E (stamp now op) s = (Inr out, s')"
  shows "refined (op_ids op) s A s'"
proof (cases op)
  case (OpEnqueue jobs t)
  with enqueue_op [OF rep _ _ now] ok fresh run show ?thesis by simp
next
  case (OpEnqueueAtomic jobs t)
  with enqueue_atomic_op [OF rep _ _ now] ok fresh run show ?thesis by simp
next
  case (OpReserve qs l m t)
  with reserve_op [OF rep _ now] ok run show ?thesis by simp
next
  case (OpAck j a)
  with settle_op(1) [OF rep] run show ?thesis by simp
next
  case (OpNack req d en t)
  with nack_op [OF rep _ now] ok run show ?thesis by simp
next
  case (OpExtend req l t)
  with settle_op(2) [OF rep now(1)] run show ?thesis by simp
next
  case (OpDrainDeadLetters q m c)
  with dead_letter_op(1) [OF rep] run show ?thesis by simp
next
  case (OpCloseQueue q t g)
  with admin_op(1) [OF rep] ok run show ?thesis by auto
next
  case (OpOpenQueue q)
  with admin_op(2) [OF rep] run show ?thesis by auto
next
  case (OpRequeueDeadLetters q keys t)
  with dead_letter_op(2) [OF rep now] run show ?thesis by simp
next
  case (OpDeadLetterJobs q st keys reason en t)
  with dead_letter_op(4) [OF rep now] ok run show ?thesis by simp
next
  case (OpDeleteDeadLetters q keys)
  with dead_letter_op(3) [OF rep] run show ?thesis by simp
next
  case (OpPurgeQueueChunk q m)
  with admin_op(3) [OF rep] ok run show ?thesis by simp
next
  case (OpSweep t b c en)
  with sweep_op_refines [OF rep now] run show ?thesis by simp
next
  case (OpAuditAppend r t)
  with admin_op(4) [OF rep] run show ?thesis by simp
qed

end

section \<open>A cycle\<close>

fun cmd_ok :: "command \<Rightarrow> bool" where
  "cmd_ok (CmdOp op _) \<longleftrightarrow> op_ok op"
| "cmd_ok _ \<longleftrightarrow> True"

fun cmd_ids :: "command \<Rightarrow> str list" where
  "cmd_ids (CmdOp op _) = op_ids op"
| "cmd_ids _ = []"

fun cmd_resp :: "command \<Rightarrow> responder" where
  "cmd_resp (CmdOp _ resp) = resp"
| "cmd_resp (CmdPeekKeys _ _ _ _ resp) = resp"
| "cmd_resp (CmdQueueDepths _ resp) = resp"

text \<open>The commands of a batch: well-formed, with ids that no job has.\<close>

definition batch_ok :: "abs_queue \<Rightarrow> command list \<Rightarrow> bool" where
  "batch_ok A rpcs \<longleftrightarrow> list_all cmd_ok rpcs \<and> distinct (concat (map cmd_ids rpcs)) \<and> unused A (concat (map cmd_ids rpcs))"

lemma unused_append [simp]: "unused A (xs @ ys) \<longleftrightarrow> unused A xs \<and> unused A ys"
  by (auto simp: unused_def)

lemma batch_ok_Cons:
  "batch_ok A (c # rpcs) \<Longrightarrow> cmd_ok c \<and> unused A (cmd_ids c) \<and> (\<forall>B. same_ids A B (cmd_ids c) \<longrightarrow> batch_ok B rpcs)"
  unfolding batch_ok_def using unused_after [of A _ "cmd_ids c" "concat (map cmd_ids rpcs)"] by auto

text \<open>Every command is answered exactly once, and no operation is reported done before the commit.\<close>

definition answers :: "'tx batch \<Rightarrow> responder multiset" where
  "answers b = mset (map fst (b_sent b)) + mset (map pr_resp (b_parked b))"

definition is_done :: "reply \<Rightarrow> bool" where
  "is_done r = (case snd r of Inr (AnsOp _) \<Rightarrow> True | _ \<Rightarrow> False)"

lemma apply_command_replies:
  assumes "apply_command P E now cmd b = (r, b')"
  shows "answers b' = add_mset (cmd_resp cmd) (answers b)"
    and "list_all (\<lambda>r. \<not> is_done r) (b_sent b) \<Longrightarrow> list_all (\<lambda>r. \<not> is_done r) (b_sent b')"
  using assms
  by (cases cmd; auto simp: answers_def is_done_def reject_def split: prod.splits sum.splits)+

lemma apply_commands_replies:
  assumes "apply_commands P E now rpcs b = (r, b')"
  shows "answers b' + mset (map cmd_resp (case r of None \<Rightarrow> [] | Some (_, rest) \<Rightarrow> rest)) = answers b + mset (map cmd_resp rpcs)
    \<and> (list_all (\<lambda>r. \<not> is_done r) (b_sent b) \<longrightarrow> list_all (\<lambda>r. \<not> is_done r) (b_sent b'))"
  using assms
proof (induction rpcs arbitrary: b)
  case (Cons cmd rpcs)
  obtain x t where c: "apply_command P E now cmd b = (x, t)" by fastforce
  note one = apply_command_replies [OF c]
  show ?case
  proof (cases x)
    case (Inl e)
    with Cons.prems c one show ?thesis by auto
  next
    case (Inr u)
    with Cons.prems c have "apply_commands P E now rpcs t = (r, b')" by simp
    from Cons.IH [OF this] one show ?thesis by auto
  qed
qed auto

lemma fst_respond [simp]: "fst (respond x p) = pr_resp p" "fst (fail_command e cmd) = cmd_resp cmd"
  by (simp_all add: respond_def) (cases cmd; simp)

lemma rpc_cycle_replies:
  "\<not> cr_panicked (run_rpc_cycle P E params now rpcs db ix) \<Longrightarrow>
     mset (map fst (cr_replies (run_rpc_cycle P E params now rpcs db ix))) = mset (map cmd_resp rpcs)"
proof -
  assume np: "\<not> cr_panicked (run_rpc_cycle P E params now rpcs db ix)"
  obtain r b where c: "apply_commands P E now rpcs \<lparr>b_st = begin_cycle E params db ix, b_sent = [], b_parked = []\<rparr> = (r, b)"
    by fastforce
  from apply_commands_replies [OF c] have
    "answers b + mset (map cmd_resp (case r of None \<Rightarrow> [] | Some (_, rest) \<Rightarrow> rest)) = mset (map cmd_resp rpcs)"
    by (simp add: answers_def)
  with np c show ?thesis
    by (auto simp: run_rpc_cycle_def answers_def Let_def multiset.map_comp comp_def ac_simps split: option.splits prod.splits commit_outcome.splits)
qed

context storage
begin

lemma apply_command_refines:
  assumes rep: "reps (b_st b) A" and ok: "cmd_ok cmd" "unused A (cmd_ids cmd)" and now: "0 \<le> now" "i64_ok now"
    and run: "apply_command P E now cmd b = (Inr u, b')"
  shows "refined (cmd_ids cmd) (b_st b) A (b_st b')"
proof (cases cmd)
  case (CmdOp op resp)
  obtain r s' where a: "apply_op P E (stamp now op) (b_st b) = (r, s')" by fastforce
  show ?thesis
  proof (cases r)
    case (Inr out)
    with a run CmdOp have "b_st b' = s'" by auto
    with apply_op_refines [OF rep _ _ now a [unfolded Inr]] ok CmdOp show ?thesis by simp
  next
    case (Inl e)
    with a run CmdOp have e: "st_code e \<noteq> Internal" and b': "b_st b' = s'"
      by (auto simp: reject_def split: if_splits)
    have "b_st b' = b_st b" using apply_op_rejected [OF a [unfolded Inl] e] b' by simp
    then show ?thesis using refinedI [OF arun_Nil rep] by (simp add: quiet_refl)
  qed
qed (use run refinedI [OF arun_Nil rep] in \<open>auto simp: quiet_refl\<close>)

lemma apply_commands_refines:
  assumes "reps (b_st b) A" and "batch_ok A rpcs" and now: "0 \<le> now" "i64_ok now"
    and "apply_commands P E now rpcs b = (None, b')"
  shows "\<exists>es B. arun A es B \<and> reps (b_st b') B \<and> quiet (b_st b) (b_st b')
    \<and> enqueues_only (concat (map cmd_ids rpcs)) es"
  using assms(1,2,5)
proof (induction rpcs arbitrary: b A)
  case Nil
  then show ?case using quiet_refl by (intro exI [of _ "[]"] exI [of _ A]) auto
next
  case (Cons cmd rpcs)
  obtain x t where c: "apply_command P E now cmd b = (x, t)" by fastforce
  with Cons.prems(3) obtain u where x: "x = Inr u" and go: "apply_commands P E now rpcs t = (None, b')"
    by (cases x) auto
  note ok = batch_ok_Cons [OF Cons.prems(2)]
  from apply_command_refines [OF Cons.prems(1) _ _ now c [unfolded x]] ok obtain es B where
    1: "arun A es B" "reps (b_st t) B" "enqueues_only (cmd_ids cmd) es" "quiet (b_st b) (b_st t)"
    unfolding refined_def by auto
  have "batch_ok B rpcs" using ok arun_ids [OF 1(1,3)] by blast
  from Cons.IH [OF 1(2) this go] obtain fs C where 2: "arun B fs C" "reps (b_st b') C" "quiet (b_st t) (b_st b')"
    "enqueues_only (concat (map cmd_ids rpcs)) fs"
    by blast
  have "enqueues_only (concat (map cmd_ids (cmd # rpcs))) (es @ fs)" using 1(3) 2(4) by (auto simp: enqueues_only_def)
  with 1 2 show ?case by (blast intro: arun_append quiet_trans)
qed

text \<open>What a commit leaves in the database.\<close>

lemma commit_views:
  assumes "commit_if_dirty E mode db s = (r, db')"
  shows "r = CommitOk \<Longrightarrow> dbv db' = (if cy_dirty (st_cyc s) then txv (st_tx s) else dbv db)"
    and "r = CommitErr e \<Longrightarrow> dbv db' = dbv db"
proof -
  obtain c d1 where c: "tx_commit E db (st_tx s) = (c, d1)" by fastforce
  obtain p d2 where p: "db_persist E d1 mode = (p, d2)" by fastforce
  have "dbv d2 = dbv d1" using persist_view [of d1 mode] p by simp
  then show "r = CommitOk \<Longrightarrow> dbv db' = (if cy_dirty (st_cyc s) then txv (st_tx s) else dbv db)"
    using assms c p commit_ok [of db "st_tx s" _ d1]
    by (cases c; cases p) (auto simp: commit_if_dirty_def commit_and_persist_def split: if_splits)
  show "r = CommitErr e \<Longrightarrow> dbv db' = dbv db"
    using assms c p commit_failed [of db "st_tx s" _ d1]
    by (cases c; cases p) (auto simp: commit_if_dirty_def commit_and_persist_def split: if_splits)
qed

lemma begin_cycle_reps: "represents P (dbv db) ix A \<Longrightarrow> reps (begin_cycle E params db ix) A"
  by (simp add: reps_def begin_cycle_def view_simps)

lemma committed_rep:
  assumes "commit_if_dirty E mode db s = (CommitOk, db')" and "quiet (begin_cycle E params db ix) s" and "reps s B"
  shows "represents P (dbv db') (st_ix s) B" and "dbv db' = txv (st_tx s)"
proof -
  have "st_tx s = write_tx E db" if "\<not> cy_dirty (st_cyc s)" using assms(2) that by (simp add: quiet_def begin_cycle_def)
  then show "dbv db' = txv (st_tx s)" using commit_views(1) [OF assms(1)] by (auto simp: view_simps)
  with assms(3) show "represents P (dbv db') (st_ix s) B" by (simp add: reps_def)
qed

end

context reliable_storage
begin

text \<open>
  A batch either takes effect as a whole, in which case the committed database and the indexes
  stand for the state its commands lead to, or leaves the database and the indexes as they were.
\<close>

lemma rpc_cycle_refines:
  assumes rep: "represents P (dbv db) ix A" and ok: "batch_ok A rpcs" and now: "0 \<le> now" "i64_ok now"
    and r: "r = run_rpc_cycle P E params now rpcs db ix" and np: "\<not> cr_panicked r"
  shows "(\<exists>es B. arun A es B \<and> enqueues_only (concat (map cmd_ids rpcs)) es \<and> represents P (dbv (cr_db r)) (cr_ix r) B
      \<and> (\<exists>b. apply_commands P E now rpcs \<lparr>b_st = begin_cycle E params db ix, b_sent = [], b_parked = []\<rparr> = (None, b)
          \<and> dbv (cr_db r) = txv (st_tx (b_st b))))
    \<or> dbv (cr_db r) = dbv db \<and> cr_ix r = ix \<and> (\<forall>x \<in> set (cr_replies r). \<not> is_done x)"
proof -
  let ?b = "\<lparr>b_st = begin_cycle E params db ix, b_sent = [], b_parked = []\<rparr>"
  obtain f b where c: "apply_commands P E now rpcs ?b = (f, b)" by fastforce
  have sent: "list_all (\<lambda>r. \<not> is_done r) (b_sent b)" using apply_commands_replies [OF c] by simp
  have errs: "\<not> is_done (respond (Inl e) p)" "\<not> is_done (fail_command e cmd)" for e p cmd
    by (simp_all add: is_done_def respond_def) (cases cmd; simp)
  show ?thesis
  proof (cases f)
    case (Some fr)
    then obtain fatal rest where f: "f = Some (fatal, rest)" by (cases fr) auto
    with c r resync_exact [OF rep] sent errs show ?thesis
      by (auto simp: run_rpc_cycle_def list_all_iff)
  next
    case None
    obtain o1 db' where o: "commit_if_dirty E (sp_persist_mode params) db (b_st b) = (o1, db')" by fastforce
    have "reps (b_st ?b) A" using begin_cycle_reps [OF rep] by simp
    from apply_commands_refines [OF this ok now c [unfolded None]] obtain es B where
      B: "arun A es B" "reps (b_st b) B" "quiet (begin_cycle E params db ix) (b_st b)"
        "enqueues_only (concat (map cmd_ids rpcs)) es" by auto
    show ?thesis
    proof (cases o1)
      case CommitOk
      note cr = committed_rep [OF o [unfolded CommitOk] B(3,2)]
      have "cr_db r = db'" "cr_ix r = st_ix (b_st b)" using r c None o CommitOk by (simp_all add: run_rpc_cycle_def Let_def)
      with cr B(1,4) c None show ?thesis by (intro disjI1 exI [of _ es] exI [of _ B]) simp
    next
      case (CommitErr e)
      have v: "dbv db' = dbv db" by (rule commit_views(2) [OF o CommitErr])
      have "resync P E db' (st_ix (b_st b)) = ix" by (rule resync_exact [of db' ix A]) (simp add: v rep)
      with v r c None o CommitErr sent errs show ?thesis by (auto simp: run_rpc_cycle_def Let_def list_all_iff)
    next
      case CommitPanic
      with np r c None o show ?thesis by (simp add: run_rpc_cycle_def Let_def)
    qed
  qed
qed

lemma sweep_cycle_refines:
  assumes rep: "represents P (dbv db) ix A" and now: "0 \<le> now" "i64_ok now"
    and r: "r = run_sweep_cycle P E params now db ix" and np: "\<not> cr_panicked r"
  shows "\<exists>es B. arun A es B \<and> enqueues_only [] es \<and> represents P (dbv (cr_db r)) (cr_ix r) B"
proof -
  obtain f s where c: "apply_op P E (sweep_op params now) (begin_cycle E params db ix) = (f, s)" by fastforce
  have st: "stamp now (sweep_op params now) = sweep_op params now" "op_ok (sweep_op params now)" "op_ids (sweep_op params now) = []"
    by (simp_all add: sweep_op_def Let_def)
  have same: ?thesis if "dbv (cr_db r) = dbv db" "cr_ix r = ix"
    using that rep by (intro exI [of _ "[]"] exI [of _ A]) simp
  show ?thesis
  proof (cases f)
    case (Inl e)
    with c r resync_exact [OF rep] show ?thesis by (intro same) (simp_all add: run_sweep_cycle_def)
  next
    case (Inr out)
    obtain o1 db' where o: "commit_if_dirty E (sp_persist_mode params) db s = (o1, db')" by fastforce
    have "apply_op P E (stamp now (sweep_op params now)) (begin_cycle E params db ix) = (Inr out, s)"
      using c Inr st(1) by simp
    from apply_op_refines [OF begin_cycle_reps [OF rep] st(2) _ now this]
    have "refined [] (begin_cycle E params db ix) A s" using st(3) by (simp add: unused_def)
    then obtain es B where B: "arun A es B" "reps s B" "enqueues_only [] es" "quiet (begin_cycle E params db ix) s"
      unfolding refined_def by blast
    show ?thesis
    proof (cases o1)
      case CommitOk
      note cr = committed_rep [OF o [unfolded CommitOk] B(4,2)]
      have "cr_db r = db'" "cr_ix r = st_ix s" using r c Inr o CommitOk by (simp_all add: run_sweep_cycle_def Let_def)
      with cr B show ?thesis by auto
    next
      case (CommitErr e)
      have v: "dbv db' = dbv db" by (rule commit_views(2) [OF o CommitErr])
      have "resync P E db' (st_ix s) = ix" by (rule resync_exact [of db' ix A]) (simp add: v rep)
      with v r c Inr o CommitErr show ?thesis by (intro same) (simp_all add: run_sweep_cycle_def Let_def)
    next
      case CommitPanic
      with np r c Inr o show ?thesis by (simp add: run_sweep_cycle_def Let_def)
    qed
  qed
qed

end

end
