(* ===== verification/Progress.thy ===== *)
theory Progress
  imports Committer
begin

text \<open>
  Progress of the apply functions of \<open>src/storage.rs\<close>: when the engine reads without errors and
  the rows stand for an abstract queue, an operation is never stopped by an internal error, so it
  returns its outcome or a refusal.
\<close>

context reliable_storage
begin

lemma check_dedup_total: "\<exists>c t. check_dedup E req now s = (Inr c, t)"
  by (auto simp: check_dedup_def get_eq Let_def split: option.splits if_splits)

lemma enqueue_total: "\<exists>rs s'. enqueue_loop P E now out jobs s = (Inr rs, s')"
proof (induction jobs arbitrary: out s)
  case (Cons job jobs)
  obtain c t where "check_dedup E (pj_req job) now s = (Inr c, t)" using check_dedup_total by blast
  with Cons show ?case by (cases c) (auto simp: Let_def split: prod.splits)
qed simp

lemma atomic_total: "\<exists>rs s'. atomic_loop P E now out jobs s = (Inr rs, s')"
proof (induction jobs arbitrary: out s)
  case (Cons job jobs)
  obtain c t where "check_dedup E (pj_req job) now s = (Inr c, t)" using check_dedup_total by blast
  with Cons show ?case by (cases c) (auto split: prod.splits)
qed simp

lemma reserve_entry_total: "\<exists>r s'. reserve_entry P E le k a s = (Inr r, s')"
  by (auto simp: reserve_entry_def get_eq Let_def split: option.splits sum.splits prod.splits)

lemma reserve_queue_total: "\<exists>js s'. reserve_queue P E pre le mx jobs s = (Inr js, s')"
proof (induction "card (fmdom' (ri_keys (ix_ready (st_ix s))))" arbitrary: s jobs rule: less_induct)
  case less
  show ?case
  proof (cases "length jobs \<ge> mx \<or> ri_pop_front pre (ix_ready (st_ix s)) = None")
    case True
    then show ?thesis by (subst reserve_queue.simps) auto
  next
    case False
    then obtain k a rest where pop: "ri_pop_front pre (ix_ready (st_ix s)) = Some ((k, a), rest)"
      by (metis not_None_eq surj_pair)
    obtain r t where e: "reserve_entry P E le k a (on_ready (\<lambda>_. rest) s) = (Inr r, t)"
      using reserve_entry_total by blast
    note IH = less.hyps [OF reserve_entry_smaller [OF pop e]]
    from False pop e IH [of jobs] IH [of "jobs @ [the r]"] show ?thesis
      by (subst reserve_queue.simps, cases r) simp_all
  qed
qed

lemma reserve_queues_total: "\<exists>js s'. reserve_queues P E le mx qs jobs s = (Inr js, s')"
proof (induction qs arbitrary: jobs s)
  case (Cons q qs)
  obtain js t where "reserve_queue P E (queue_prefix q) le mx jobs s = (Inr js, t)"
    using reserve_queue_total by blast
  with Cons show ?case by simp
qed simp

lemma drain_total: "\<exists>rs s'. drain_take P E keys out s = (Inr rs, s')"
  by (induction keys arbitrary: out s) (auto simp: get_eq split: option.splits)

lemma requeue_total: "\<exists>r s'. requeue_loop P E q now out keys s = (Inr r, s')"
  by (induction keys arbitrary: out s) (auto simp: get_eq Let_def split: option.splits)

lemma maybe_store_total: "\<exists>s'. maybe_store_dead_letter P E j m en s = (Inr (), s')"
  by (auto simp: maybe_store_dead_letter_def read_dead_letter_job_def get_eq Let_def split: option.splits sum.splits prod.splits)

lemma dj_kill_total: "\<exists>s'. dj_kill P E q state reason en now key j s = (Inr (), s')"
proof -
  obtain a where a: "dj_attempt E state key s = Inr a"
    by (cases "state = PeekReady") (auto simp: dj_attempt_def get_eq)
  obtain t where "maybe_store_dead_letter P E j \<lparr>dm_cause = CauseAdmin, dm_failed_at = now, dm_attempt = a,
      dm_last_reason = reason\<rparr> en s = (Inr (), t)" using maybe_store_total by blast
  with a show ?thesis by (simp add: dj_kill_def Let_def)
qed

lemma dj_target_total: "dj_target_of E q state key s \<noteq> DjError e"
  by (auto simp: dj_target_of_def get_eq split: option.splits peek_state.splits)

lemma dead_letter_jobs_total: "\<exists>r s'. dead_letter_jobs_loop P E q state reason en now out keys s = (Inr r, s')"
proof (induction keys arbitrary: out s)
  case (Cons key keys)
  show ?case
  proof (cases "dj_target_of E q state key s")
    case (DjJob j)
    obtain t where "dj_kill P E q state reason en now key j s = (Inr (), t)" using dj_kill_total by blast
    with DjJob Cons show ?thesis by (auto simp: get_eq Let_def split: option.splits sum.splits)
  qed (use Cons dj_target_total in \<open>auto simp: Let_def\<close>)
qed simp

lemma promote_total: "\<exists>s'. promote_entry P E k s = (Inr (), s')"
  by (auto simp: promote_entry_def get_eq Let_def split: option.splits sum.splits)

lemma lease_total: "\<exists>s'. lease_entry P E now en k s = (Inr (), s')"
proof -
  have "\<exists>s'. expire_dead_letter P E now en j i t = (Inr (), s')" for j i t
    using maybe_store_total [of j "\<lparr>dm_cause = CauseLeaseExpired, dm_failed_at = now, dm_attempt = if_attempt i,
         dm_last_reason = None\<rparr>" en t] by (auto simp: expire_dead_letter_def Let_def)
  then show ?thesis by (auto simp: lease_entry_def get_eq Let_def split: option.splits sum.splits)
qed

lemma dedup_total: "\<exists>s'. dedup_entry E now k q s = (Inr (), s')"
  by (auto simp: dedup_entry_def get_eq Let_def split: option.splits)

lemma sweep_scheduled_total: "\<exists>m s'. sweep_scheduled P E now n p s = (Inr m, s')"
proof (induction n arbitrary: p s)
  case (Suc n)
  show ?case
  proof (cases "ti_pop_due now (ix_scheduled (st_ix s))")
    case (Some e)
    obtain k q rest where "e = ((k, q), rest)" by (cases e) auto
    with Some Suc show ?thesis using promote_total [of k "on_scheduled (\<lambda>_. rest) s"] by auto
  qed simp
qed simp

lemma sweep_leases_total: "\<exists>m s'. sweep_leases P E now en n p s = (Inr m, s')"
proof (induction n arbitrary: p s)
  case (Suc n)
  show ?case
  proof (cases "ti_pop_due now (ix_leases (st_ix s))")
    case (Some e)
    obtain k q rest where "e = ((k, q), rest)" by (cases e) auto
    with Some Suc show ?thesis using lease_total [of now en k "on_leases (\<lambda>_. rest) s"] by auto
  qed simp
qed simp

lemma sweep_dedup_total: "\<exists>m s'. sweep_dedup E now n p s = (Inr m, s')"
proof (induction n arbitrary: p s)
  case (Suc n)
  show ?case
  proof (cases "ti_pop_due now (ix_dedup_timers (st_ix s))")
    case (Some e)
    obtain k q rest where "e = ((k, q), rest)" by (cases e) auto
    with Some Suc show ?thesis using dedup_total [of now k q "on_dedup_timers (\<lambda>_. rest) s"] by auto
  qed simp
qed simp

lemma sweep_total: "\<exists>n s'. apply_sweep P E now budget cutoff en s = (Inr n, s')"
proof -
  obtain n1 s1 where 1: "sweep_scheduled P E now budget 0 (sweep_closing E now s) = (Inr n1, s1)"
    using sweep_scheduled_total by blast
  obtain n2 s2 where 2: "sweep_leases P E now en budget n1 s1 = (Inr n2, s2)" using sweep_leases_total by blast
  obtain n3 s3 where "sweep_dedup E now budget n2 s2 = (Inr n3, s3)" using sweep_dedup_total by blast
  with 1 2 show ?thesis by (simp add: apply_sweep_def split: option.splits prod.splits)
qed

text \<open>The lease check, in full.\<close>

lemma leased_total:
  assumes "reps s A"
  shows "leased P E jid a s =
    (case fmlookup (a_jobs A) jid of
       None \<Rightarrow> Inl job_not_found
     | Some x \<Rightarrow> (case aj_place x of
         InFlight d a' \<Rightarrow>
           if a' = a then Inr ((mk_inflight P x d a)\<lparr>if_trace_context := tc_stored (j_trace_context (aj_job x))\<rparr>)
           else Inl attempt_mismatch
       | _ \<Rightarrow> Inl job_not_found))"
proof -
  note J = repsD(1) [OF assms]
  have g: "tx_get E (st_tx s) Inflight jid = Inr (Option.bind (fmlookup (a_jobs A) jid) (\<lambda>x. case aj_place x of
      InFlight d a \<Rightarrow> Some (Inflight_encode P (mk_inflight P x d a)) | _ \<Rightarrow> None))"
    by (simp add: get_eq jobs_rep_inflight [OF J])
  show ?thesis
  proof (cases "fmlookup (a_jobs A) jid")
    case (Some x)
    note ok = jobs_rep_ok [OF J Some]
    show ?thesis
    proof (cases "aj_place x")
      case (InFlight d a')
      with g Some inflight_decode [OF ok InFlight] show ?thesis by (auto simp: leased_def mk_inflight_def)
    qed (use g Some in \<open>simp_all add: leased_def\<close>)
  qed (use g in \<open>simp add: leased_def\<close>)
qed

lemma leased_not_internal: "reps s A \<Longrightarrow> leased P E jid a s = Inl e \<Longrightarrow> st_code e \<noteq> Internal"
  by (auto simp: leased_total job_not_found_def attempt_mismatch_def split: option.splits place.splits if_splits)

lemma nack_not_internal:
  assumes "reps s A" and "apply_nack P E req d en now s = (Inl e, s')"
  shows "st_code e \<noteq> Internal"
proof (cases "leased P E (nack_job_id req) (nack_attempt req) s")
  case (Inl e')
  with assms leased_not_internal show ?thesis by (auto simp: apply_nack_def)
next
  case (Inr i)
  have "maybe_store_dead_letter P E j m en s \<noteq> (Inl e', t)" for j m e' t
    using maybe_store_total [of j m en s] by auto
  with Inr assms(2) show ?thesis
    by (auto simp: apply_nack_def nack_dead_letter_def Let_def split: if_splits prod.splits sum.splits)
qed

lemma apply_op_no_internal:
  assumes rep: "reps s A" and aud: "audit_rep P (txv (st_tx s)) rs" "length rs < u64_max"
    and run: "apply_op P E op s = (Inl e, s')"
  shows "st_code e \<noteq> Internal"
proof (cases op)
  case (OpEnqueue jobs now)
  with run enqueue_total [of now "[]" jobs s] show ?thesis by (auto simp: wrap_Inl apply_enqueue_def)
next
  case (OpEnqueueAtomic jobs now)
  with run atomic_total [of now "[]" jobs s] show ?thesis
    by (auto simp: wrap_Inl apply_enqueue_atomic_def Let_def split: if_splits)
next
  case (OpReserve qs l m now)
  with run reserve_queues_total show ?thesis by (auto simp: wrap_Inl apply_reserve_def Let_def) (metis prod.inject sum.distinct(1))
next
  case (OpAck j a)
  with run leased_not_internal [OF rep] show ?thesis
    by (auto simp: wrap_Inl apply_ack_def Let_def split: sum.splits)
next
  case (OpNack r d en now)
  with run nack_not_internal [OF rep] show ?thesis by (auto simp: wrap_Inl)
next
  case (OpExtend r l now)
  with run leased_not_internal [OF rep] show ?thesis
    by (auto simp: wrap_Inl apply_extend_def Let_def split: sum.splits)
next
  case (OpDrainDeadLetters q m c)
  with run drain_total show ?thesis
    by (auto simp: wrap_Inl apply_drain_def Let_def split: prod.splits sum.splits) (metis prod.inject sum.distinct(1))
next
  case (OpRequeueDeadLetters q keys now)
  with run requeue_total show ?thesis
    by (auto simp: wrap_Inl apply_requeue_dead_letters_def) (metis prod.inject sum.distinct(1))
next
  case (OpDeadLetterJobs q st keys reason en now)
  with run dead_letter_jobs_total show ?thesis
    by (auto simp: wrap_Inl apply_dead_letter_jobs_def split: if_splits) (metis prod.inject sum.distinct(1))+
next
  case (OpDeleteDeadLetters q keys)
  with run show ?thesis by (simp split: prod.splits)
next
  case (OpPurgeQueueChunk q m)
  with run show ?thesis by (auto simp: wrap_Inl apply_purge_queue_chunk_def Let_def split: if_splits prod.splits)
next
  case (OpSweep now b c en)
  with run sweep_total show ?thesis by (auto simp: wrap_Inl) (metis prod.inject sum.distinct(1))
next
  case (OpAuditAppend r now)
  have "tx_get E (st_tx s) Meta AUDIT_SEQ_KEY = Inr (if rs = [] then None else Some (u64_be (length rs)))"
    using aud(1) by (simp add: get_eq audit_rep_def)
  with OpAuditAppend run aud(2) show ?thesis by (auto simp: wrap_Inl apply_audit_append_def Let_def split: if_splits)
qed (use run in auto)

end

end
