(* ===== verification/Enqueue_Spec.thy ===== *)
theory Enqueue_Spec
  imports Progress
begin

text \<open>
  The contract of enqueueing (\<open>apply_enqueue\<close>, \<open>apply_enqueue_atomic\<close> of \<open>src/storage.rs\<close>) as
  functions on the abstract queue, and the proof that the code computes them: the counters
  in the indexes give the number of live jobs, the rows give the deduplication records.
\<close>

section \<open>Depth\<close>

definition live :: "abs_queue \<Rightarrow> str \<Rightarrow> str set" where
  "live A q = {j. \<exists>x. fmlookup (a_jobs A) j = Some x \<and> aj_queue x = q}"

definition depth :: "abs_queue \<Rightarrow> str \<Rightarrow> nat" where
  "depth A q = card (live A q)"

lemma finite_live [simp]: "finite (live A q)"
  by (rule finite_subset [of _ "fmdom' (a_jobs A)"]) (auto simp: live_def fmlookup_dom'_iff)

text \<open>A map that is the image of another has as many selected keys as the other has owners.\<close>

lemma keyed_count:
  assumes "keyed f J M" and "key_inj ok f" and "\<And>j x. fmlookup J j = Some x \<Longrightarrow> ok j x"
  shows "fmcount p M = card {j. \<exists>x k v. fmlookup J j = Some x \<and> f j x = Some (k, v) \<and> p k v}"
proof -
  let ?S = "{j. \<exists>x k v. fmlookup J j = Some x \<and> f j x = Some (k, v) \<and> p k v}"
  let ?key = "\<lambda>j. fst (the (f j (the (fmlookup J j))))"
  have "{k. \<exists>v. fmlookup M k = Some v \<and> p k v} = ?key ` ?S"
  proof (intro equalityI subsetI)
    fix k assume "k \<in> {k. \<exists>v. fmlookup M k = Some v \<and> p k v}"
    then obtain v where "fmlookup M k = Some v" "p k v" by blast
    with keyed_lookupD [OF assms(1)] obtain j x where "fmlookup J j = Some x" "f j x = Some (k, v)" by blast
    with \<open>p k v\<close> show "k \<in> ?key ` ?S" by (intro image_eqI [of _ _ j]) auto
  next
    fix k assume "k \<in> ?key ` ?S"
    then obtain j x k' v where "fmlookup J j = Some x" "f j x = Some (k', v)" "p k' v" "k = k'" by auto
    with keyed_lookup [OF assms(1)] show "k \<in> {k. \<exists>v. fmlookup M k = Some v \<and> p k v}" by blast
  qed
  moreover have "inj_on ?key ?S"
  proof (rule inj_onI)
    fix i j assume "i \<in> ?S" "j \<in> ?S" "?key i = ?key j"
    then obtain x y k v w where "fmlookup J i = Some x" "fmlookup J j = Some y" "f i x = Some (k, v)" "f j y = Some (k, w)"
      by auto
    with key_injD [OF assms(2)] assms(3) show "i = j" by blast
  qed
  ultimately show ?thesis by (simp add: fmcount_def card_image)
qed

context storage
begin

lemma counts_by_place:
  assumes "reps s A"
  shows "queue_count (ri_by_queue (ix_ready (st_ix s))) q
      = card {j. \<exists>x a. fmlookup (a_jobs A) j = Some x \<and> aj_queue x = q \<and> aj_place x = InReady a}"
    and "queue_count (ti_by_queue (ix_scheduled (st_ix s))) q
      = card {j. \<exists>x d a. fmlookup (a_jobs A) j = Some x \<and> aj_queue x = q \<and> aj_place x = InScheduled d a}"
    and "queue_count (ti_by_queue (ix_leases (st_ix s))) q
      = card {j. \<exists>x d a. fmlookup (a_jobs A) j = Some x \<and> aj_queue x = q \<and> aj_place x = InFlight d a}"
proof -
  note J = repsD(1) [OF assms] and ok = jobs_rep_ok [OF repsD(1) [OF assms]]
  have c: "rix.consistent (ix_ready (st_ix s))" "tix.consistent (ix_scheduled (st_ix s))"
    "tix.consistent (ix_leases (st_ix s))"
    using J by (simp_all add: jobs_rep_def)
  have "{j. \<exists>x k v. fmlookup (a_jobs A) j = Some x \<and> rix_view P j x = Some (k, v) \<and> ri_owner k v = Some q}
      = {j. \<exists>x a. fmlookup (a_jobs A) j = Some x \<and> aj_queue x = q \<and> aj_place x = InReady a}"
  proof -
    have "rix_view P j x = Some (k, v) \<longleftrightarrow> aj_place x = InReady v \<and> k = rkey P x" for j x k v
      by (auto simp: rix_view_def split: place.splits)
    with rkey_owner [OF ok] show ?thesis by auto
  qed
  then show "queue_count (ri_by_queue (ix_ready (st_ix s))) q
      = card {j. \<exists>x a. fmlookup (a_jobs A) j = Some x \<and> aj_queue x = q \<and> aj_place x = InReady a}"
    using keyed_count [OF jobs_rep_keyed(2) [OF J] key_inj_rix ok] by (simp add: rix.count_eq [OF c(1)])
  have "{j. \<exists>x k v. fmlookup (a_jobs A) j = Some x \<and> six_view j x = Some (k, v) \<and> ti_owner k v = Some q}
      = {j. \<exists>x d a. fmlookup (a_jobs A) j = Some x \<and> aj_queue x = q \<and> aj_place x = InScheduled d a}"
    by (auto simp: six_view_Some ti_owner_def)
  then show "queue_count (ti_by_queue (ix_scheduled (st_ix s))) q
      = card {j. \<exists>x d a. fmlookup (a_jobs A) j = Some x \<and> aj_queue x = q \<and> aj_place x = InScheduled d a}"
    using keyed_count [OF jobs_rep_keyed(3) [OF J] key_inj_six ok] by (simp add: tix.count_eq [OF c(2)])
  have "lix_view j x = Some (k, v) \<longleftrightarrow> (\<exists>d a. aj_place x = InFlight d a \<and> k = TimerKey_encode d j \<and> aj_queue x = v)"
    for j x k v by (auto simp: lix_view_def split: place.splits)
  then have "{j. \<exists>x k v. fmlookup (a_jobs A) j = Some x \<and> lix_view j x = Some (k, v) \<and> ti_owner k v = Some q}
      = {j. \<exists>x d a. fmlookup (a_jobs A) j = Some x \<and> aj_queue x = q \<and> aj_place x = InFlight d a}"
    by (auto simp: ti_owner_def)
  then show "queue_count (ti_by_queue (ix_leases (st_ix s))) q
      = card {j. \<exists>x d a. fmlookup (a_jobs A) j = Some x \<and> aj_queue x = q \<and> aj_place x = InFlight d a}"
    using keyed_count [OF jobs_rep_keyed(4) [OF J] key_inj_lix ok] by (simp add: tix.count_eq [OF c(3)])
qed

lemma live_depth_eq:
  assumes "reps s A"
  shows "live_depth (st_ix s) q = depth A q"
proof -
  let ?R = "{j. \<exists>x a. fmlookup (a_jobs A) j = Some x \<and> aj_queue x = q \<and> aj_place x = InReady a}"
  let ?S = "{j. \<exists>x d a. fmlookup (a_jobs A) j = Some x \<and> aj_queue x = q \<and> aj_place x = InScheduled d a}"
  let ?F = "{j. \<exists>x d a. fmlookup (a_jobs A) j = Some x \<and> aj_queue x = q \<and> aj_place x = InFlight d a}"
  have "?R \<union> ?S \<union> ?F = live A q" unfolding live_def by (auto, metis place.exhaust)
  moreover have "finite ?R" "finite ?S" "finite ?F"
    by (rule finite_subset [OF _ finite_live [of A q]], auto simp: live_def)+
  moreover have "?R \<inter> ?S = {}" "(?R \<union> ?S) \<inter> ?F = {}" by auto
  ultimately have "card (live A q) = card ?R + card ?S + card ?F"
    by (metis (no_types, lifting) card_Un_disjoint finite_UnI)
  then show ?thesis by (simp add: live_depth_def counts_by_place [OF assms] depth_def)
qed

end

section \<open>The contract of a best-effort batch\<close>

definition closing_now :: "abs_queue \<Rightarrow> str \<Rightarrow> i64 \<Rightarrow> bool" where
  "closing_now A q now = (case fmlookup (a_closing A) q of Some deadline \<Rightarrow> deadline > now | None \<Rightarrow> False)"

text \<open>The job an idempotency key stands for while its window is open.\<close>

definition duplicate_of :: "abs_queue \<Rightarrow> enqueue_request \<Rightarrow> i64 \<Rightarrow> str option" where
  "duplicate_of A req now = (case dedup_key_of req of
     None \<Rightarrow> None
   | Some k \<Rightarrow> (case fmlookup (a_dedup A) k of
       None \<Rightarrow> None
     | Some u \<Rightarrow> if now < dv_deadline (dp_value u) then Some (dv_job_id (dp_value u)) else None))"

definition at_cap :: "abs_queue \<Rightarrow> prepared_job \<Rightarrow> bool" where
  "at_cap A pj = (case jl_max_queue_depth (pj_limits pj) of
     Some cap \<Rightarrow> depth A (er_queue (pj_req pj)) \<ge> cap | None \<Rightarrow> False)"

fun enqueue_spec :: "prost \<Rightarrow> i64 \<Rightarrow> prepared_job list \<Rightarrow> abs_queue \<Rightarrow> enqueue_result list \<times> abs_queue" where
  "enqueue_spec P now [] A = ([], A)"
| "enqueue_spec P now (pj # pjs) A =
     (let q = er_queue (pj_req pj);
          (r, B) =
            (if closing_now A q now then (Inl (queue_closing q), A)
             else case duplicate_of A (pj_req pj) now of
               Some jid \<Rightarrow> (Inr \<lparr>resp_job_id = jid, resp_deduplicated = True\<rparr>, A)
             | None \<Rightarrow>
                 if at_cap A pj then (Inl (queue_full q (the (jl_max_queue_depth (pj_limits pj)))), A)
                 else (Inr \<lparr>resp_job_id = pj_id pj, resp_deduplicated = False\<rparr>, accepted P pj now A));
          (rs, C) = enqueue_spec P now pjs B
      in (r # rs, C))"

lemma depth_accepted:
  assumes "fmlookup (a_jobs A) (pj_id pj) = None"
  shows "depth (accepted P pj now A) q = depth A q + (if er_queue (pj_req pj) = q then 1 else 0)"
proof -
  have "live (accepted P pj now A) q = (if er_queue (pj_req pj) = q then insert (pj_id pj) (live A q) else live A q)"
    using assms by (auto simp: live_def accepted_def new_ajob_def)
  moreover have "pj_id pj \<notin> live A q" using assms by (simp add: live_def)
  ultimately show ?thesis by (simp add: depth_def)
qed

lemma unused_accepted:
  "unused A (pj_id pj # ids) \<Longrightarrow> pj_id pj \<notin> set ids \<Longrightarrow> unused (accepted P pj now A) ids"
  by (auto simp: unused_def accepted_def)

text \<open>A queue whose jobs all carry the same cap never grows past it.\<close>

lemma enqueue_spec_cap:
  assumes "unused A (map pj_id pjs)" and "distinct (map pj_id pjs)"
    and "\<forall>pj \<in> set pjs. er_queue (pj_req pj) = q \<longrightarrow> jl_max_queue_depth (pj_limits pj) = Some cap"
  shows "depth (snd (enqueue_spec P now pjs A)) q \<le> max (depth A q) cap"
  using assms
proof (induction pjs arbitrary: A)
  case (Cons pj pjs)
  have fresh: "fmlookup (a_jobs A) (pj_id pj) = None" and u: "unused A (map pj_id pjs)"
    and d: "distinct (map pj_id pjs)" and n: "pj_id pj \<notin> set (map pj_id pjs)"
    using Cons.prems(1,2) by (auto simp: unused_def)
  have caps: "\<forall>pj \<in> set pjs. er_queue (pj_req pj) = q \<longrightarrow> jl_max_queue_depth (pj_limits pj) = Some cap"
    using Cons.prems(3) by simp
  have skip: "depth (snd (enqueue_spec P now pjs A)) q \<le> max (depth A q) cap"
    by (rule Cons.IH [OF u d caps])
  have take: "depth (snd (enqueue_spec P now pjs (accepted P pj now A))) q \<le> max (depth A q) cap"
    if "\<not> at_cap A pj"
  proof -
    have "unused (accepted P pj now A) (map pj_id pjs)"
      using Cons.prems(1) n by (intro unused_accepted) simp_all
    from Cons.IH [OF this d caps] have "depth (snd (enqueue_spec P now pjs (accepted P pj now A))) q
        \<le> max (depth (accepted P pj now A) q) cap" .
    moreover have "er_queue (pj_req pj) = q \<Longrightarrow> depth A q < cap"
      using that Cons.prems(3) by (simp add: at_cap_def)
    ultimately show ?thesis by (auto simp: depth_accepted [OF fresh] split: if_splits)
  qed
  show ?case using skip take by (auto simp: Let_def split: prod.splits option.splits if_splits)
qed simp

context reliable_storage
begin

lemma check_dedup_spec:
  assumes rep: "reps s A"
  shows "case duplicate_of A req now of
      Some jid \<Rightarrow> check_dedup E req now s = (Inr (Hit \<lparr>resp_job_id = jid, resp_deduplicated = True\<rparr>),
        on_cycle (deduplicated (er_queue req)) s)
    | None \<Rightarrow> \<exists>stale. check_dedup E req now s = (Inr (Miss stale), s)"
proof -
  obtain c t where c: "check_dedup E req now s = (Inr c, t)" using check_dedup_total by blast
  show ?thesis
  proof (cases c)
    case (Hit resp)
    from check_dedup_Hit [OF rep c [unfolded Hit]] c Hit show ?thesis by (auto simp: duplicate_of_def)
  next
    case (Miss stale)
    note m = check_dedup_Miss [OF rep c [unfolded Miss]]
    have "duplicate_of A req now = None"
      by (cases "dedup_key_of req") (auto simp: duplicate_of_def not_less split: option.splits dest: m(3))
    with c Miss m(1) show ?thesis by simp
  qed
qed

lemma enqueue_loop_spec:
  assumes "reps s A" and "list_all pj_ok pjs" and "unused A (map pj_id pjs)" and "distinct (map pj_id pjs)"
    and now: "0 \<le> now" "i64_ok now"
  shows "\<exists>s'. enqueue_loop P E now out pjs s = (Inr (out @ fst (enqueue_spec P now pjs A)), s')
    \<and> reps s' (snd (enqueue_spec P now pjs A))"
  using assms(1-4)
proof (induction pjs arbitrary: s A out)
  case (Cons pj pjs)
  note rep = Cons.prems(1)
  let ?q = "er_queue (pj_req pj)"
  have ok: "pj_ok pj" "list_all pj_ok pjs" using Cons.prems(2) by simp_all
  have fresh: "fmlookup (a_jobs A) (pj_id pj) = None" "fmlookup (a_dead A) (pj_id pj) = None"
    and u: "unused A (map pj_id pjs)" and d: "distinct (map pj_id pjs)" and n: "pj_id pj \<notin> set (map pj_id pjs)"
    using Cons.prems(3,4) by (auto simp: unused_def)
  have closing: "is_closing (st_ix s) ?q now \<longleftrightarrow> closing_now A ?q now"
    by (simp add: is_closing_def closing_now_def closing_index [OF rep])
  have full: "(case jl_max_queue_depth (pj_limits pj) of Some cap \<Rightarrow> live_depth (st_ix s) ?q \<ge> cap | None \<Rightarrow> False)
      \<longleftrightarrow> at_cap A pj"
    by (cases "jl_max_queue_depth (pj_limits pj)") (simp_all add: at_cap_def live_depth_eq [OF rep])
  note spec = check_dedup_spec [OF rep, of "pj_req pj" now]
  show ?case
  proof (cases "closing_now A ?q now")
    case True
    with Cons.IH [OF rep ok(2) u d, of "out @ [Inl (queue_closing ?q)]"] closing show ?thesis
      by (auto simp: Let_def split: prod.splits)
  next
    case nc: False
    show ?thesis
    proof (cases "duplicate_of A (pj_req pj) now")
      case (Some jid)
      let ?t = "on_cycle (deduplicated ?q) s"
      have "reps ?t A" using rep by simp
      from Cons.IH [OF this ok(2) u d, of "out @ [Inr \<lparr>resp_job_id = jid, resp_deduplicated = True\<rparr>]"]
        nc closing spec Some show ?thesis by (auto simp: Let_def split: prod.splits)
    next
      case None
      then obtain stale where c: "check_dedup E (pj_req pj) now s = (Inr (Miss stale), s)" using spec by auto
      show ?thesis
      proof (cases "at_cap A pj")
        case True
        with Cons.IH [OF rep ok(2) u d, of "out @ [Inl (queue_full ?q (the (jl_max_queue_depth (pj_limits pj))))]"]
          nc closing None c full show ?thesis by (auto simp: Let_def split: prod.splits)
      next
        case False
        obtain resp t where ins: "insert_job P E pj now stale s = (resp, t)" by fastforce
        note i = insert_job_refines [OF rep ok(1) now fresh check_dedup_Miss(2) [OF rep c] ins]
        have "unused (accepted P pj now A) (map pj_id pjs)"
          using Cons.prems(3) n by (intro unused_accepted) simp_all
        from Cons.IH [OF i(1) ok(2) this d, of "out @ [Inr resp]"] i(3) nc closing None c full False ins
        show ?thesis by (auto simp: Let_def split: prod.splits)
      qed
    qed
  qed
qed simp

end

section \<open>The contract of an atomic batch\<close>

definition batch_count :: "str \<Rightarrow> prepared_job list \<Rightarrow> nat" where
  "batch_count q pjs = length (filter (\<lambda>pj. er_queue (pj_req pj) = q) pjs)"

text \<open>The first job of a queue decides its cap.\<close>

definition batch_cap :: "str \<Rightarrow> prepared_job list \<Rightarrow> u64 option" where
  "batch_cap q pjs = (case filter (\<lambda>pj. er_queue (pj_req pj) = q) pjs of
     [] \<Rightarrow> None | pj # _ \<Rightarrow> jl_max_queue_depth (pj_limits pj))"

definition over_cap :: "abs_queue \<Rightarrow> prepared_job list \<Rightarrow> str \<Rightarrow> u64 option" where
  "over_cap A pjs q = (case batch_cap q pjs of
     Some cap \<Rightarrow> if depth A q + batch_count q pjs > cap then Some cap else None | None \<Rightarrow> None)"

fun atomic_accept :: "prost \<Rightarrow> i64 \<Rightarrow> prepared_job list \<Rightarrow> abs_queue \<Rightarrow> enqueue_response list \<times> abs_queue" where
  "atomic_accept P now [] A = ([], A)"
| "atomic_accept P now (pj # pjs) A =
     (let (r, B) = (case duplicate_of A (pj_req pj) now of
             Some jid \<Rightarrow> (\<lparr>resp_job_id = jid, resp_deduplicated = True\<rparr>, A)
           | None \<Rightarrow> (\<lparr>resp_job_id = pj_id pj, resp_deduplicated = False\<rparr>, accepted P pj now A));
          (rs, C) = atomic_accept P now pjs B
      in (r # rs, C))"

definition closing_jobs :: "abs_queue \<Rightarrow> prepared_job list \<Rightarrow> i64 \<Rightarrow> (u32 \<times> job_rejection) list" where
  "closing_jobs A pjs now =
     map (\<lambda>(i, pj). (of_nat i, queue_closing (er_queue (pj_req pj))))
       (filter (\<lambda>(i, pj). closing_now A (er_queue (pj_req pj)) now) (enumerate 0 pjs))"

definition full_jobs :: "abs_queue \<Rightarrow> prepared_job list \<Rightarrow> (u32 \<times> job_rejection) list" where
  "full_jobs A pjs = List.map_filter (\<lambda>(i, pj). map_option (\<lambda>cap. (of_nat i, queue_full (er_queue (pj_req pj)) cap))
     (over_cap A pjs (er_queue (pj_req pj)))) (enumerate 0 pjs)"

definition atomic_spec :: "prost \<Rightarrow> i64 \<Rightarrow> prepared_job list \<Rightarrow> abs_queue \<Rightarrow> atomic_enqueue_outcome \<times> abs_queue" where
  "atomic_spec P now pjs A =
     (if closing_jobs A pjs now \<noteq> [] then (Rejected (closing_jobs A pjs now), A)
      else if full_jobs A pjs \<noteq> [] then (Rejected (full_jobs A pjs), A)
      else (case atomic_accept P now pjs A of (rs, B) \<Rightarrow> (Committed rs, B)))"

lemma wanted_lookup:
  "fmlookup (wanted pjs) q = (if batch_count q pjs = 0 then None else Some (batch_count q pjs, batch_cap q pjs))"
proof -
  have "fmlookup (foldl bump_wanted m pjs) q =
      (if batch_count q pjs = 0 then fmlookup m q
       else Some (case fmlookup m q of Some (n, c) \<Rightarrow> (n + batch_count q pjs, c)
                  | None \<Rightarrow> (batch_count q pjs, batch_cap q pjs)))" for m
    by (induction pjs arbitrary: m)
       (auto simp: batch_count_def batch_cap_def bump_wanted_def Let_def split: option.splits prod.splits)
  then show ?thesis by (simp add: wanted_def)
qed

lemma map_filter_cong': "(\<And>x. x \<in> set xs \<Longrightarrow> f x = g x) \<Longrightarrow> List.map_filter f xs = List.map_filter g xs"
  by (induction xs) (auto simp: List.map_filter_simps split: option.splits)

lemma batch_count_pos: "batch_count q pjs \<noteq> 0 \<longleftrightarrow> (\<exists>pj \<in> set pjs. er_queue (pj_req pj) = q)"
  by (auto simp: batch_count_def filter_empty_conv)

lemma atomic_accept_depth:
  assumes "unused A (map pj_id pjs)" and "distinct (map pj_id pjs)"
  shows "depth (snd (atomic_accept P now pjs A)) q \<le> depth A q + batch_count q pjs"
  using assms
proof (induction pjs arbitrary: A)
  case (Cons pj pjs)
  have fresh: "fmlookup (a_jobs A) (pj_id pj) = None" and u: "unused A (map pj_id pjs)"
    and d: "distinct (map pj_id pjs)" and n: "pj_id pj \<notin> set (map pj_id pjs)"
    using Cons.prems by (auto simp: unused_def)
  have "unused (accepted P pj now A) (map pj_id pjs)"
    using Cons.prems(1) n by (intro unused_accepted) simp_all
  from Cons.IH [OF this d] Cons.IH [OF u d] show ?case
    by (auto simp: Let_def batch_count_def depth_accepted [OF fresh] split: prod.splits option.splits)
qed simp

text \<open>A committed batch leaves every queue within the cap its first job carried.\<close>

lemma atomic_spec_cap:
  assumes "unused A (map pj_id pjs)" and "distinct (map pj_id pjs)" and "atomic_spec P now pjs A = (Committed rs, B)"
    and "batch_cap q pjs = Some cap"
  shows "depth B q \<le> cap"
proof -
  have "full_jobs A pjs = []" and B: "B = snd (atomic_accept P now pjs A)"
    using assms(3) by (auto simp: atomic_spec_def split: if_splits prod.splits)
  have "filter (\<lambda>pj. er_queue (pj_req pj) = q) pjs \<noteq> []" using assms(4) by (auto simp: batch_cap_def)
  then obtain pj where "pj \<in> set pjs" "er_queue (pj_req pj) = q" by (auto simp: filter_empty_conv)
  with \<open>full_jobs A pjs = []\<close> have "over_cap A pjs q = None"
    by (auto simp: full_jobs_def map_filter_enumerate_Nil)
  then have "depth A q + batch_count q pjs \<le> cap" using assms(4) by (simp add: over_cap_def split: if_splits)
  with atomic_accept_depth [OF assms(1,2), of P now q] B show ?thesis by simp
qed

context reliable_storage
begin

lemma atomic_loop_spec:
  assumes "reps s A" and "list_all pj_ok pjs" and "unused A (map pj_id pjs)" and "distinct (map pj_id pjs)"
    and now: "0 \<le> now" "i64_ok now"
  shows "\<exists>s'. atomic_loop P E now out pjs s = (Inr (out @ fst (atomic_accept P now pjs A)), s')
    \<and> reps s' (snd (atomic_accept P now pjs A))"
  using assms(1-4)
proof (induction pjs arbitrary: s A out)
  case (Cons pj pjs)
  note rep = Cons.prems(1)
  have ok: "pj_ok pj" "list_all pj_ok pjs" using Cons.prems(2) by simp_all
  have fresh: "fmlookup (a_jobs A) (pj_id pj) = None" "fmlookup (a_dead A) (pj_id pj) = None"
    and u: "unused A (map pj_id pjs)" and d: "distinct (map pj_id pjs)" and n: "pj_id pj \<notin> set (map pj_id pjs)"
    using Cons.prems(3,4) by (auto simp: unused_def)
  note spec = check_dedup_spec [OF rep, of "pj_req pj" now]
  show ?case
  proof (cases "duplicate_of A (pj_req pj) now")
    case (Some jid)
    let ?t = "on_cycle (deduplicated (er_queue (pj_req pj))) s"
    have "reps ?t A" using rep by simp
    from Cons.IH [OF this ok(2) u d, of "out @ [\<lparr>resp_job_id = jid, resp_deduplicated = True\<rparr>]"] spec Some
    show ?thesis by (auto simp: Let_def split: prod.splits)
  next
    case None
    then obtain stale where c: "check_dedup E (pj_req pj) now s = (Inr (Miss stale), s)" using spec by auto
    obtain resp t where ins: "insert_job P E pj now stale s = (resp, t)" by fastforce
    note i = insert_job_refines [OF rep ok(1) now fresh check_dedup_Miss(2) [OF rep c] ins]
    have "unused (accepted P pj now A) (map pj_id pjs)"
      using Cons.prems(3) n by (intro unused_accepted) simp_all
    from Cons.IH [OF i(1) ok(2) this d, of "out @ [resp]"] i(3) None c ins
    show ?thesis by (auto simp: Let_def split: prod.splits)
  qed
qed simp

lemma full_queues_lookup:
  assumes "reps s A"
  shows "fmlookup (full_queues (st_ix s) (wanted pjs)) q = (if batch_count q pjs = 0 then None else over_cap A pjs q)"
proof -
  let ?f = "\<lambda>(q, (count, cap)). case cap of
      Some c \<Rightarrow> if live_depth (st_ix s) q + count > c then Some (q, c) else None | None \<Rightarrow> None"
  let ?kvs = "List.map_filter ?f (sorted_list_of_fmap (wanted pjs))"
  have mem: "(q, c) \<in> set ?kvs \<longleftrightarrow> batch_count q pjs \<noteq> 0 \<and> over_cap A pjs q = Some c" for q c
    unfolding map_filter_mem
    by (auto simp: set_sorted_list_of_fmap wanted_lookup over_cap_def live_depth_eq [OF assms] Bex_def
        split: option.splits if_splits)
  have "map_of (rev ?kvs) q = (if batch_count q pjs = 0 then None else over_cap A pjs q)"
  proof (cases "map_of (rev ?kvs) q")
    case None
    then have "q \<notin> fst ` set ?kvs" by (simp add: map_of_eq_None_iff)
    with mem None show ?thesis by (cases "over_cap A pjs q") force+
  next
    case (Some c)
    then have "(q, c) \<in> set ?kvs" using map_of_SomeD by force
    with mem Some show ?thesis by simp
  qed
  then show ?thesis by (simp add: full_queues_def collect_map_lookup)
qed

lemma apply_enqueue_atomic_spec:
  assumes rep: "reps s A" and "list_all pj_ok pjs" and "unused A (map pj_id pjs)" and "distinct (map pj_id pjs)"
    and now: "0 \<le> now" "i64_ok now"
  shows "\<exists>s'. apply_enqueue_atomic P E pjs now s = (Inr (fst (atomic_spec P now pjs A)), s')
    \<and> reps s' (snd (atomic_spec P now pjs A))
    \<and> (\<forall>rej. fst (atomic_spec P now pjs A) = Rejected rej \<longrightarrow> s' = s)"
proof -
  let ?full = "full_queues (st_ix s) (wanted pjs)"
  have closing: "atomic_closing (st_ix s) pjs now = closing_jobs A pjs now"
    by (simp add: atomic_closing_def closing_jobs_def is_closing_def closing_now_def closing_index [OF rep])
  have look: "fmlookup ?full (er_queue (pj_req pj)) = over_cap A pjs (er_queue (pj_req pj))" if "pj \<in> set pjs" for pj
  proof -
    have "batch_count (er_queue (pj_req pj)) pjs \<noteq> 0" unfolding batch_count_pos using that by blast
    then show ?thesis by (simp add: full_queues_lookup [OF rep])
  qed
  have full: "atomic_full ?full pjs = full_jobs A pjs"
    unfolding atomic_full_def full_jobs_def using look
    by (intro map_filter_cong') (auto simp: in_set_enumerate_eq)
  have none: "?full = fmempty \<longleftrightarrow> full_jobs A pjs = []"
  proof -
    have "?full = fmempty \<longleftrightarrow> (\<forall>q. fmlookup ?full q = None)" by (auto intro: fmap_ext)
    also have "\<dots> \<longleftrightarrow> (\<forall>pj \<in> set pjs. over_cap A pjs (er_queue (pj_req pj)) = None)"
      unfolding full_queues_lookup [OF rep] using batch_count_pos by auto
    finally show ?thesis by (simp add: full_jobs_def map_filter_enumerate_Nil)
  qed
  obtain s' where go: "atomic_loop P E now [] pjs s = (Inr (fst (atomic_accept P now pjs A)), s')"
    "reps s' (snd (atomic_accept P now pjs A))"
    using atomic_loop_spec [OF assms, of "[]"] by auto
  show ?thesis
  proof (cases "closing_jobs A pjs now \<noteq> [] \<or> full_jobs A pjs \<noteq> []")
    case True
    with rep closing full none show ?thesis
      by (auto simp: apply_enqueue_atomic_def atomic_spec_def Let_def)
  next
    case False
    with go closing none show ?thesis
      by (auto simp: apply_enqueue_atomic_def atomic_spec_def Let_def split: prod.splits)
  qed
qed

end

section \<open>The operations implement their specifications\<close>

context reliable_storage
begin

lemma enqueue_refines_spec:
  assumes "represents P (txv (st_tx s)) (st_ix s) A" and "list_all pj_ok pjs"
    and "unused A (map pj_id pjs)" and "distinct (map pj_id pjs)" and "0 \<le> now" and "i64_ok now"
  shows "\<exists>s'. apply_enqueue P E pjs now s = (Inr (fst (enqueue_spec P now pjs A)), s')
    \<and> represents P (txv (st_tx s')) (st_ix s') (snd (enqueue_spec P now pjs A))"
  using enqueue_loop_spec [OF assms(1) [folded reps_def] assms(2-6), of "[]"]
  by (simp add: apply_enqueue_def reps_def)

lemma atomic_refines_spec:
  assumes "represents P (txv (st_tx s)) (st_ix s) A" and "list_all pj_ok pjs"
    and "unused A (map pj_id pjs)" and "distinct (map pj_id pjs)" and "0 \<le> now" and "i64_ok now"
  shows "\<exists>s'. apply_enqueue_atomic P E pjs now s = (Inr (fst (atomic_spec P now pjs A)), s')
    \<and> represents P (txv (st_tx s')) (st_ix s') (snd (atomic_spec P now pjs A))
    \<and> (\<forall>rej. fst (atomic_spec P now pjs A) = Rejected rej \<longrightarrow> s' = s)"
  using apply_enqueue_atomic_spec [OF assms(1) [folded reps_def] assms(2-6)] by (simp add: reps_def)

end

end
