(* ===== verification/Server_Loop.thy ===== *)
theory Server_Loop
  imports Committer
begin

text \<open>
  Runs of the committer thread, including restarts: the states that a server can be in between
  two turns of the loop of \<open>run_committer\<close> (\<open>src/storage.rs\<close>). A run tracks the set of job ids
  handed out so far; ids are random version-4 UUIDs and never repeat. In every state of a run the
  database and the in-memory indexes stand for one abstract queue.
\<close>

section \<open>Runs\<close>

definition clock_ok :: "clock \<Rightarrow> bool" where
  "clock_ok ck \<longleftrightarrow> 0 \<le> ck_sweep ck \<and> i64_ok (ck_sweep ck) \<and> 0 \<le> ck_rpc ck \<and> i64_ok (ck_rpc ck)"

text \<open>A turn, or a stop and a new start from the committed database.\<close>

inductive run ::
    "prost \<Rightarrow> ('db, 'tx) engine \<Rightarrow> storage_params \<Rightarrow> 'db committer \<Rightarrow> str set \<Rightarrow> 'db committer \<Rightarrow> bool"
  for P E params c0 where
  start: "run P E params c0 {} c0"
| step: "run P E params c0 used c \<Longrightarrow> turn P E params c ck rpcs replies c' \<Longrightarrow> clock_ok ck \<Longrightarrow>
    list_all cmd_ok rpcs \<Longrightarrow> distinct (concat (map cmd_ids rpcs)) \<Longrightarrow>
    set (concat (map cmd_ids rpcs)) \<inter> used = {} \<Longrightarrow>
    run P E params c0 (used \<union> set (concat (map cmd_ids rpcs))) c'"
| restart: "run P E params c0 used c \<Longrightarrow> storage_open P E (co_db c) = (Inr ix, db) \<Longrightarrow>
    run P E params c0 used \<lparr>co_db = db, co_ix = ix, co_totals = admin_totals_default\<rparr>"

definition ids_within :: "abs_queue \<Rightarrow> str set \<Rightarrow> bool" where
  "ids_within A used \<longleftrightarrow> (\<forall>j. fmlookup (a_jobs A) j \<noteq> None \<or> fmlookup (a_dead A) j \<noteq> None \<longrightarrow> j \<in> used)"

lemma ids_within_after: "ids_within A used \<Longrightarrow> same_ids A B ids \<Longrightarrow> ids_within B (used \<union> set ids)"
  unfolding ids_within_def same_ids_def by (metis UnI1 UnI2)

inductive_cases turnE: "turn P E params c ck rpcs replies c'"

context reliable_storage
begin

lemma sweep_turn_refines:
  assumes rep: "represents P (dbv (co_db c)) (co_ix c) A" and ck: "clock_ok ck"
    and t: "sweep_turn P E params ck c = (c1, r1)" and np: "\<not> panicked r1"
  shows "\<exists>es B. arun A es B \<and> enqueues_only [] es \<and> represents P (dbv (co_db c1)) (co_ix c1) B"
proof (cases "sweep_due params (ck_due ck) (co_ix c)")
  case False
  with t rep show ?thesis by (intro exI [of _ "[]"] exI [of _ A]) (auto simp: sweep_turn_def)
next
  case True
  let ?r = "run_sweep_cycle P E params (ck_sweep ck) (co_db c) (co_ix c)"
  have "r1 = Some ?r" "co_db c1 = cr_db ?r" "co_ix c1 = cr_ix ?r"
    using t True by (auto simp: sweep_turn_def Let_def)
  note r = this
  from ck have now: "0 \<le> ck_sweep ck" "i64_ok (ck_sweep ck)" by (simp_all add: clock_ok_def)
  have "\<not> cr_panicked ?r" using np r by (simp add: panicked_def)
  from sweep_cycle_refines [OF rep now refl this] show ?thesis unfolding r .
qed

lemma rpc_turn_refines:
  assumes rep: "represents P (dbv (co_db c)) (co_ix c) A" and ck: "clock_ok ck" and ok: "batch_ok A rpcs"
    and t: "rpc_turn P E params ck rpcs c = (c1, r1)" and np: "\<not> panicked r1"
  shows "\<exists>es B. arun A es B \<and> enqueues_only (concat (map cmd_ids rpcs)) es \<and> represents P (dbv (co_db c1)) (co_ix c1) B"
proof -
  have same: ?thesis if "dbv (co_db c1) = dbv (co_db c)" "co_ix c1 = co_ix c"
    using that rep by (intro exI [of _ "[]"] exI [of _ A]) auto
  show ?thesis
  proof (cases "rpcs = []")
    case True
    with t show ?thesis by (intro same) (auto simp: rpc_turn_def)
  next
    case False
    let ?r = "run_rpc_cycle P E params (ck_rpc ck) rpcs (co_db c) (co_ix c)"
    have r: "r1 = Some ?r" "co_db c1 = cr_db ?r" "co_ix c1 = cr_ix ?r"
      using t False by (auto simp: rpc_turn_def Let_def)
    from ck have now: "0 \<le> ck_rpc ck" "i64_ok (ck_rpc ck)" by (simp_all add: clock_ok_def)
    have np': "\<not> cr_panicked ?r" using np r by (simp add: panicked_def)
    from rpc_cycle_refines [OF rep ok now refl np'] show ?thesis
    proof (elim disjE exE conjE)
      fix es B
      assume "arun A es B" "enqueues_only (concat (map cmd_ids rpcs)) es" "represents P (dbv (cr_db ?r)) (cr_ix ?r) B"
      then show ?thesis using r by metis
    qed (use r same in simp)
  qed
qed

text \<open>The invariant of the server: one abstract queue behind the database and the indexes.\<close>

lemma run_represents:
  assumes "represents P (dbv (co_db c0)) (co_ix c0) A0" and "a_jobs A0 = fmempty" and "a_dead A0 = fmempty"
    and "run P E params c0 used c"
  shows "\<exists>es A. arun A0 es A \<and> represents P (dbv (co_db c)) (co_ix c) A \<and> ids_within A used"
  using assms(4)
proof (induction rule: run.induct)
  case start
  then show ?case using assms(1-3) by (intro exI [of _ "[]"] exI [of _ A0]) (auto simp: ids_within_def)
next
  case (step used c ck rpcs replies c')
  from step.IH obtain es A where A: "arun A0 es A" "represents P (dbv (co_db c)) (co_ix c) A" "ids_within A used" by blast
  let ?ids = "concat (map cmd_ids rpcs)"
  from step.hyps(2) obtain c1 r1 r2 where t: "sweep_turn P E params ck c = (c1, r1)" "\<not> panicked r1"
    "rpc_turn P E params ck rpcs c1 = (c', r2)" "\<not> panicked r2" by (auto elim: turnE)
  obtain fs B where B: "arun A fs B" "enqueues_only [] fs" "represents P (dbv (co_db c1)) (co_ix c1) B"
    using sweep_turn_refines [OF A(2) step.hyps(3) t(1,2)] by blast
  have within: "ids_within B used" using ids_within_after [OF A(3) arun_ids [OF B(1,2)]] by simp
  then have "unused B ?ids" using step.hyps(6) unfolding ids_within_def unused_def by blast
  then have "batch_ok B rpcs" using step.hyps(4,5) by (simp add: batch_ok_def)
  then obtain gs C where C: "arun B gs C" "same_ids B C ?ids" "represents P (dbv (co_db c')) (co_ix c') C"
    using rpc_turn_refines [OF B(3) step.hyps(3) _ t(3,4)] arun_ids by blast
  from A(1) B(1) C(1) have "arun A0 (es @ fs @ gs) C" by (blast intro: arun_append)
  with C(3) ids_within_after [OF within C(2)] show ?case by blast
next
  case (restart used c ix db)
  then obtain es A where A: "arun A0 es A" "represents P (dbv (co_db c)) (co_ix c) A" "ids_within A used" by blast
  from storage_open_exact [OF A(2) restart.hyps(2)] A show ?case by auto
qed

end

end
