(* ===== verification/Example.thy ===== *)
theory Example
  imports Mem_Engine Enqueue_Spec Server_Loop
begin

text \<open>
  Concrete queues the properties are applied to: one job in each place, a dead letter, a request,
  all on the reference encoding and the in-memory engine.
\<close>

definition demo_job :: job where
  "demo_job = \<lparr>j_id = ''j1'', j_type = ''t'', j_payload = None, j_priority = 5, j_trace_context = None,
     j_enqueued_at = Some \<lparr>ts_seconds = 0, ts_nanos = 0\<rparr>, j_attempt = 1, j_max_attempts = 2,
     j_lease_expires_at = Some \<lparr>ts_seconds = 0, ts_nanos = 0\<rparr>, j_custom = fmempty, j_scheduled_at = None, j_queue = []\<rparr>"

definition demo_ajob :: "place \<Rightarrow> ajob" where
  "demo_ajob p = \<lparr>aj_queue = ''q'', aj_job = demo_job, aj_payload = None, aj_place = p\<rparr>"

definition demo :: "place \<Rightarrow> abs_queue" where
  "demo p = \<lparr>a_jobs = fmupd ''j1'' (demo_ajob p) fmempty, a_dead = fmempty, a_dedup = fmempty, a_closing = fmempty\<rparr>"

definition demo_adead :: adead where
  "demo_adead = dead_of prost_ref (demo_ajob (InFlight 0 2))
     \<lparr>dm_cause = CauseAttemptsExhausted, dm_failed_at = 0, dm_attempt = 2, dm_last_reason = None\<rparr>"

definition demo_dead :: abs_queue where
  "demo_dead = abs_empty\<lparr>a_dead := fmupd ''j1'' demo_adead fmempty\<rparr>"

definition demo_dead_key :: bytes where
  "demo_dead_key = dead_key ''j1'' demo_adead"

definition demo_audit :: audit_record where
  "demo_audit = \<lparr>au_actor = ''ops'', au_role = ''admin'', au_action = ''queue.delete'', au_details_json = ''{}''\<rparr>"

definition demo_st :: "abs_queue \<Rightarrow> rows st" where
  "demo_st A = \<lparr>st_ix = index_of prost_ref A, st_tx = rows_of prost_ref A, st_cyc = Cycle_new False\<rparr>"

definition demo_req :: enqueue_request where
  "demo_req = \<lparr>er_queue = ''q'', er_job_type = ''t'', er_payload = None, er_idempotency_key = Some ''k'',
     er_priority = None, er_max_attempts = None, er_trace_context = None, er_custom = fmempty, er_scheduled_at = None\<rparr>"

definition demo_pj :: prepared_job where
  "demo_pj = \<lparr>pj_id = ''j2'', pj_req = demo_req,
     pj_limits = \<lparr>jl_priority = 1, jl_max_attempts = 3, jl_dedup_window_ms = 1000, jl_max_queue_depth = Some 2\<rparr>\<rparr>"

lemma ref_millis [simp]: "timestamp_to_millis prost_ref \<lparr>ts_seconds = 0, ts_nanos = 0\<rparr> = 0"
  by (simp add: timestamp_to_millis_def prost_ref_def i64_saturating_add_def i64_saturating_mul_def trunc_div_def Let_def)

lemma demo_utf8 [simp]:
  "utf8_valid ''j1''" "utf8_valid ''j2''" "utf8_valid ''j3''" "utf8_valid ''q''" "utf8_valid ''t''" "utf8_valid ''k''"
  by code_simp+

lemma demo_queue_ok [simp]: "queue_ok ''q''"
  by (simp add: queue_ok_def)

lemma demo_ajob_ok: "place_ok 2 p \<Longrightarrow> ajob_ok prost_ref ''j1'' (demo_ajob p)"
  by (simp add: ajob_ok_def demo_ajob_def demo_job_def job_ok_def enq_ms_def ts_ok_def i32_ok_def custom_ok_def)

lemma demo_ok: "place_ok 2 p \<Longrightarrow> abs_ok prost_ref (demo p)"
  by (auto simp: abs_ok_def demo_def fmpred_iff demo_ajob_ok split: if_splits)

lemma abs_empty_ok: "abs_ok P abs_empty"
  by (simp add: abs_ok_def abs_empty_def)

lemma demo_adead_ok: "adead_ok ''j1'' demo_adead"
proof -
  have "ajob_ok prost_ref ''j1'' (demo_ajob (InFlight 0 2))" by (rule demo_ajob_ok) (simp add: place_ok_def)
  then show ?thesis unfolding demo_adead_def by (rule mem.dead_of_ok) (simp add: meta_ok_def)
qed

lemma demo_dead_ok: "abs_ok prost_ref demo_dead"
  using demo_adead_ok by (auto simp: abs_ok_def demo_dead_def abs_empty_def fmpred_iff split: if_splits)

lemma demo_dead_target: "DeadLetterKey_job_id demo_dead_key = Some ''j1''" "dead_key ''j1'' demo_adead = demo_dead_key"
    "dd_queue demo_adead = ''q''"
  using mem.dead_key_job_id [OF demo_adead_ok] by (simp_all add: demo_dead_key_def demo_adead_def dead_of_def demo_ajob_def)

lemma demo_rep:
  "abs_ok prost_ref A \<Longrightarrow> represents prost_ref (mem_view (st_tx (demo_st A))) (st_ix (demo_st A)) A"
  by (simp add: demo_st_def mem_view_def canonical_rep)

lemma demo_places [simp]: "place_ok 2 (InReady 1)" "place_ok 2 (InFlight 100 1)" "place_ok 2 (InScheduled 100 1)"
  by (simp_all add: place_ok_def)

lemma demo_pj_ok: "pj_ok demo_pj"
  by (simp add: pj_ok_def demo_pj_def demo_req_def custom_ok_def)

lemma demo_depth: "depth (demo p) ''q'' = 1"
proof -
  have "live (demo p) ''q'' = {''j1''}" by (auto simp: live_def demo_def demo_ajob_def)
  then show ?thesis by (simp add: depth_def)
qed

lemma demo_unused: "unused (demo p) ids \<longleftrightarrow> ''j1'' \<notin> set ids"
  by (auto simp: unused_def demo_def split: if_splits)

lemma demo_pj_simps [simp]:
  "pj_id demo_pj = ''j2''" "er_queue (pj_req demo_pj) = ''q''" "er_idempotency_key (pj_req demo_pj) = Some ''k''"
  "jl_max_queue_depth (pj_limits demo_pj) = Some 2" "jl_dedup_window_ms (pj_limits demo_pj) = 1000"
  by (simp_all add: demo_pj_def demo_req_def)

lemma demo_open [simp]: "\<not> closing_now (demo p) q now" "duplicate_of (demo p) req now = None"
  by (simp_all add: closing_now_def duplicate_of_def demo_def split: option.splits)

lemma demo_spec: "enqueue_spec P now [demo_pj] (demo p) =
    ([Inr \<lparr>resp_job_id = ''j2'', resp_deduplicated = False\<rparr>], accepted P demo_pj now (demo p))"
  by (simp add: at_cap_def demo_depth)

lemma demo_atomic_spec: "atomic_spec P now [demo_pj, demo_pj\<lparr>pj_id := ''j3''\<rparr>] (demo p) =
    (Rejected [(0, queue_full ''q'' 2), (1, queue_full ''q'' 2)], demo p)"
  by (simp add: atomic_spec_def closing_jobs_def full_jobs_def over_cap_def batch_cap_def batch_count_def
      demo_depth List.map_filter_simps)

lemma demo_dead_index: "card (fmdom' (ti_keys (ix_dead_letter (st_ix (demo_st demo_dead))))) = 1"
proof -
  have "represents prost_ref (mem_view (st_tx (demo_st demo_dead))) (st_ix (demo_st demo_dead)) demo_dead"
    by (rule demo_rep [OF demo_dead_ok])
  then have rep: "mem.reps (demo_st demo_dead) demo_dead" by (simp add: mem.reps_def)
  have "fmdom' (ti_keys (ix_dead_letter (st_ix (demo_st demo_dead)))) = {demo_dead_key}"
    using mem.dead_index [OF rep] by (auto simp: fmlookup_dom'_iff demo_dead_def demo_dead_key_def split: if_splits)
  then show ?thesis by simp
qed

section \<open>A committer\<close>

definition demo_params :: storage_params where
  "demo_params = \<lparr>sp_persist_mode = Buffer, sp_sweep_limit = 100, sp_dead_letter_retention_ms = 1000,
     sp_admin_enabled = True, sp_metrics_enabled = False\<rparr>"

definition demo_clock :: clock where
  "demo_clock = \<lparr>ck_due = 10, ck_sweep = 10, ck_fold1 = 10, ck_evict = 10, ck_wait = 10, ck_rpc = 10, ck_fold2 = 10\<rparr>"

definition demo_committer :: "abs_queue \<Rightarrow> rows committer" where
  "demo_committer A = \<lparr>co_db = rows_of prost_ref A, co_ix = index_of prost_ref A, co_totals = admin_totals_default\<rparr>"

lemma demo_committer_rep:
  "abs_ok prost_ref A \<Longrightarrow> represents prost_ref (mem_view (co_db (demo_committer A))) (co_ix (demo_committer A)) A"
  by (simp add: demo_committer_def mem_view_def canonical_rep)

lemma mem_no_panic: "\<not> cr_panicked (run_rpc_cycle P mem_engine params now rpcs db ix)"
    "\<not> cr_panicked (run_sweep_cycle P mem_engine params now db ix)"
  by (auto simp: run_rpc_cycle_def run_sweep_cycle_def commit_if_dirty_def commit_and_persist_def mem_engine_def Let_def
      split: prod.splits option.splits commit_outcome.splits sum.splits)

lemma mem_turn: "\<exists>replies c'. turn P mem_engine params c ck rpcs replies c'"
proof -
  obtain c1 r1 where 1: "sweep_turn P mem_engine params ck c = (c1, r1)" by fastforce
  obtain c2 r2 where 2: "rpc_turn P mem_engine params ck rpcs c1 = (c2, r2)" by fastforce
  have "\<not> panicked r1" "\<not> panicked r2"
    using 1 2 mem_no_panic by (auto simp: panicked_def sweep_turn_def rpc_turn_def Let_def split: if_splits)
  with turn.turn [OF 1 _ 2] show ?thesis by blast
qed

end
