(* ===== verification/Dead_Spec.thy ===== *)
theory Dead_Spec
  imports Enqueue_Spec
begin

text \<open>
  What the operations on dead letters of \<open>src/storage.rs\<close> promise, as functions on the abstract
  queue: the oldest records are drained first, a requeued record becomes a fresh ready job, a
  deleted record is gone, and a key that names no record of the queue is only counted.
\<close>

section \<open>Naming a record by its key\<close>

definition dead_target :: "abs_queue \<Rightarrow> str \<Rightarrow> bytes \<Rightarrow> (str \<times> adead) option" where
  "dead_target A q key = Option.bind (DeadLetterKey_job_id key) (\<lambda>j.
     case fmlookup (a_dead A) j of
       Some d \<Rightarrow> if dead_key j d = key \<and> dd_queue d = q then Some (j, d) else None
     | None \<Rightarrow> None)"

lemma dead_target_Some: "dead_target A q key = Some (j, d) \<Longrightarrow>
    fmlookup (a_dead A) j = Some d \<and> key = dead_key j d \<and> dd_queue d = q"
  by (auto simp: dead_target_def bind_eq_Some_conv split: option.splits if_splits)

definition revive :: "prost \<Rightarrow> i64 \<Rightarrow> str \<times> adead \<Rightarrow> abs_queue \<Rightarrow> abs_queue" where
  "revive P now t A = A\<lparr>a_jobs := fmupd (fst t) (revived P (snd t) now) (a_jobs A),
     a_dead := fmdrop (fst t) (a_dead A)\<rparr>"

definition bury :: "str \<times> adead \<Rightarrow> abs_queue \<Rightarrow> abs_queue" where
  "bury t A = A\<lparr>a_dead := fmdrop (fst t) (a_dead A)\<rparr>"

text \<open>Each key in turn: the record it names is handed to \<open>f\<close>, and its job id is reported.\<close>

fun by_key :: "(str \<times> adead \<Rightarrow> abs_queue \<Rightarrow> abs_queue) \<Rightarrow> str \<Rightarrow> bytes list \<Rightarrow> abs_queue \<Rightarrow> str list \<times> abs_queue" where
  "by_key f q [] A = ([], A)"
| "by_key f q (key # keys) A =
     (case dead_target A q key of
        None \<Rightarrow> by_key f q keys A
      | Some t \<Rightarrow> (let (ids, B) = by_key f q keys (f t A) in (fst t # ids, B)))"

lemma by_key_length: "length (fst (by_key f q keys A)) \<le> length keys"
  by (induction f q keys A rule: by_key.induct)
    (auto simp: Let_def split: option.splits prod.splits intro: le_SucI)

context reliable_storage
begin

lemma dead_target_key:
  assumes rep: "reps s A" and d: "fmlookup (a_dead A) j = Some d" and q: "dd_queue d = q"
  shows "dead_target A q (dead_key j d) = Some (j, d)"
proof -
  have "adead_ok j d" using repsD(2) [OF rep] d by (simp add: dead_rep_def)
  with d q dead_key_job_id show ?thesis by (simp add: dead_target_def)
qed

text \<open>A row of the dead-letter keyspace whose key reads as the queue's is a target, and only it.\<close>

lemma dead_target_row:
  assumes rep: "reps s A"
  shows "dead_target A q key = None \<Longrightarrow> DeadLetterKey_queue key = Some q \<Longrightarrow>
      fmlookup (txv (st_tx s) DeadLetter) key = None"
    and "dead_target A q key = Some (j, d) \<Longrightarrow> DeadLetterKey_queue key = Some q \<and> adead_ok j d
      \<and> fmlookup (txv (st_tx s) DeadLetter) key = Some (dlr_encode P (dd_record d))"
proof -
  assume t: "dead_target A q key = None" and k: "DeadLetterKey_queue key = Some q"
  show "fmlookup (txv (st_tx s) DeadLetter) key = None"
  proof (rule ccontr)
    assume "fmlookup (txv (st_tx s) DeadLetter) key \<noteq> None"
    then obtain b where "fmlookup (txv (st_tx s) DeadLetter) key = Some b" by blast
    from dead_row [OF rep this] obtain j d where d: "fmlookup (a_dead A) j = Some d" "key = dead_key j d" "adead_ok j d" .
    with k have "dd_queue d = q" by (simp add: dead_key_def adead_ok_def byte_simps)
    with dead_target_key [OF rep d(1)] d(2) t show False by simp
  qed
next
  assume "dead_target A q key = Some (j, d)"
  note t = dead_target_Some [OF this]
  then have ok: "adead_ok j d" using repsD(2) [OF rep] by (simp add: dead_rep_def)
  have "fmlookup (txv (st_tx s) DeadLetter) key = Some (dlr_encode P (dd_record d))"
    using repsD(2) [OF rep] t keyed_lookup [of "dview P" "a_dead A" "txv (st_tx s) DeadLetter" j d]
    by (simp add: dead_rep_def dview_def)
  with ok t show "DeadLetterKey_queue key = Some q \<and> adead_ok j d
      \<and> fmlookup (txv (st_tx s) DeadLetter) key = Some (dlr_encode P (dd_record d))"
    by (simp add: dead_key_def adead_ok_def byte_simps)
qed

lemma requeue_loop_spec:
  assumes "reps s A" and now: "0 \<le> now" "i64_ok now"
  shows "\<exists>s'. requeue_loop P E q now out keys s =
      (Inr \<lparr>ro_requeued = ro_requeued out + length (fst (by_key (revive P now) q keys A)),
            ro_missing = ro_missing out + (length keys - length (fst (by_key (revive P now) q keys A))),
            ro_job_ids = ro_job_ids out @ fst (by_key (revive P now) q keys A)\<rparr>, s')
    \<and> reps s' (snd (by_key (revive P now) q keys A))"
  using assms(1)
proof (induction keys arbitrary: s A out)
  case (Cons key keys)
  note rep = Cons.prems
  show ?case
  proof (cases "dead_target A q key")
    case None
    let ?m = "out\<lparr>ro_missing := ro_missing out + 1\<rparr>"
    have gone: "on_dead_letter (ti_del key) s = s" if "DeadLetterKey_queue key = Some q"
      using on_dead_letter_gone [OF rep] dead_target_row(1) [OF rep None that] by simp
    have "requeue_loop P E q now out (key # keys) s = requeue_loop P E q now ?m keys s"
      using gone dead_target_row(1) [OF rep None] by (simp add: get_eq Let_def)
    with None Cons.IH [OF rep, of ?m] by_key_length [of "revive P now" q keys A] show ?thesis
      by (auto simp: Suc_diff_le)
  next
    case (Some t)
    obtain j d where t: "t = (j, d)" by (cases t)
    note row = dead_target_row(2) [OF rep Some [unfolded t]] and tgt = dead_target_Some [OF Some [unfolded t]]
    obtain job where job: "dl_job (dd_record d) = Some job" "j_id job = j" using row by (auto simp: adead_ok_def)
    have rep1: "reps (requeue_one P E key job now s) (revive P now t A)"
      using requeue_one_refines [OF rep _ _ job(1) now] tgt row by (simp add: t revive_def)
    from Cons.IH [OF rep1, of "out\<lparr>ro_requeued := ro_requeued out + 1, ro_job_ids := ro_job_ids out @ [j]\<rparr>"]
    show ?thesis using Some t row job adead_ok_decode [of j d]
      by (auto simp: get_eq Let_def split: prod.splits)
  qed
qed simp

lemma delete_loop_spec:
  assumes "reps s A"
  shows "\<exists>s'. delete_loop E q out keys s =
      (\<lparr>do_deleted = do_deleted out + length (fst (by_key bury q keys A)),
        do_missing = do_missing out + (length keys - length (fst (by_key bury q keys A))),
        do_job_ids = do_job_ids out @ fst (by_key bury q keys A)\<rparr>, s')
    \<and> reps s' (snd (by_key bury q keys A))"
  using assms
proof (induction keys arbitrary: s A out)
  case (Cons key keys)
  note rep = Cons.prems
  show ?case
  proof (cases "dead_target A q key")
    case None
    let ?m = "out\<lparr>do_missing := do_missing out + 1\<rparr>"
    have "fmlookup (ti_keys (ix_dead_letter (st_ix s))) key \<noteq> Some q"
      using None dead_target_key [OF rep] unfolding dead_index [OF rep] by force
    with None Cons.IH [OF rep, of ?m] by_key_length [of bury q keys A] show ?thesis
      by (auto simp: Suc_diff_le)
  next
    case (Some t)
    obtain j d where t: "t = (j, d)" by (cases t)
    note tgt = dead_target_Some [OF Some [unfolded t]]
    have ix: "fmlookup (ti_keys (ix_dead_letter (st_ix s))) key = Some q"
      using tgt unfolding dead_index [OF rep] by auto
    have id: "DeadLetterKey_job_id key = Some j"
      using tgt repsD(2) [OF rep] by (auto simp: dead_rep_def dead_key_job_id)
    let ?s1 = "mark_dirty (del E DeadLetter key (on_dead_letter (ti_del key) s))"
    have "fmlookup (a_dead A) j = Some d" using tgt by simp
    then have rep1: "reps ?s1 (bury t A)" unfolding bury_def t fst_conv
      by (rule reps_dead_drop [OF rep]) (use tgt in \<open>simp_all add: view_simps\<close>)
    from Cons.IH [OF rep1, of "out\<lparr>do_deleted := do_deleted out + 1, do_job_ids := do_job_ids out @ [j]\<rparr>"]
    show ?thesis using Some t ix id by (auto simp: Let_def split: prod.splits)
  qed
qed simp

end

end
