(* ===== verification/Queue_Properties.thy ===== *)
theory Queue_Properties
  imports Example Dead_Spec
begin

text \<open>
  The properties of the storage operations of \<open>src/storage.rs\<close>, stated over their definitions.
  The hypotheses are of two kinds: the laws of the two parameters (\<open>reliable_storage\<close>: prost's
  codecs and a database that reads without errors, or \<open>storage\<close> where reads may fail), and that
  the state before the operation stands for an abstract queue, which \<open>Server_Loop\<close> shows of every
  state the committer reaches. Each property with hypotheses is applied to a concrete queue.
\<close>

section \<open>Settling a lease\<close>

context reliable_storage
begin

text \<open>The three answers to an operation on a lease.\<close>

lemma lease_cases:
  assumes "reps s A" and bad: "\<And>e. leased P E jid a s = Inl e \<Longrightarrow> bad e"
    and good: "\<And>i x. leased P E jid a s = Inr i \<Longrightarrow> fmlookup (a_jobs A) jid = Some x \<Longrightarrow> good x"
  shows "case fmlookup (a_jobs A) jid of
      Some x \<Rightarrow> (case aj_place x of
        InFlight d a' \<Rightarrow> if a' = a then good x else bad attempt_mismatch
      | _ \<Rightarrow> bad job_not_found)
    | None \<Rightarrow> bad job_not_found"
proof (cases "fmlookup (a_jobs A) jid")
  case None
  with leased_total [OF assms(1), of jid a] bad show ?thesis by simp
next
  case (Some x)
  show ?thesis
  proof (cases "aj_place x")
    case (InFlight d a')
    with Some leased_total [OF assms(1), of jid a] bad good show ?thesis by (cases "a' = a") simp_all
  qed (use Some leased_total [OF assms(1), of jid a] bad in simp_all)
qed

lemma ack_total:
  assumes "represents P (txv (st_tx s)) (st_ix s) A"
  shows "case fmlookup (a_jobs A) jid of
      Some x \<Rightarrow> (case aj_place x of
        InFlight d a' \<Rightarrow>
          if a' = a
          then \<exists>s'. apply_ack P E jid a s =
                  (Inr \<lparr>ao_queue = aj_queue x, ao_trace_context = tc_stored (j_trace_context (aj_job x))\<rparr>, s')
                \<and> represents P (txv (st_tx s')) (st_ix s') (A\<lparr>a_jobs := fmdrop jid (a_jobs A)\<rparr>)
                \<and> cy_dirty (st_cyc s')
          else apply_ack P E jid a s = (Inl attempt_mismatch, s)
      | _ \<Rightarrow> apply_ack P E jid a s = (Inl job_not_found, s))
    | None \<Rightarrow> apply_ack P E jid a s = (Inl job_not_found, s)"
proof -
  have rep: "reps s A" using assms by (simp add: reps_def)
  have err: "apply_ack P E jid a s = (Inl e, s)" if "leased P E jid a s = Inl e" for e
    using that by (simp add: apply_ack_def)
  have ok: "\<exists>s'. apply_ack P E jid a s =
        (Inr \<lparr>ao_queue = aj_queue x, ao_trace_context = tc_stored (j_trace_context (aj_job x))\<rparr>, s')
      \<and> represents P (txv (st_tx s')) (st_ix s') (A\<lparr>a_jobs := fmdrop jid (a_jobs A)\<rparr>) \<and> cy_dirty (st_cyc s')"
    if "leased P E jid a s = Inr i" "fmlookup (a_jobs A) jid = Some x" for i x
  proof -
    obtain r s' where "apply_ack P E jid a s = (r, s')" by fastforce
    with that(1) obtain out where run: "apply_ack P E jid a s = (Inr out, s')"
      by (auto simp: apply_ack_def Let_def)
    from apply_ack_refines [OF rep run] that(2) run show ?thesis by (auto simp: reps_def)
  qed
  show ?thesis by (rule lease_cases [OF rep err ok])
qed

lemma extend_total:
  assumes "represents P (txv (st_tx s)) (st_ix s) A" and now: "0 \<le> now"
  shows "case fmlookup (a_jobs A) (ext_job_id req) of
      Some x \<Rightarrow> (case aj_place x of
        InFlight d a' \<Rightarrow>
          if a' = ext_attempt req
          then \<exists>out s'. apply_extend P E req lease_ms now s = (Inr out, s')
                \<and> eo_lease_expires_at out = i64_saturating_add now (i64_of_u64 (max lease_ms 1))
                \<and> represents P (txv (st_tx s')) (st_ix s') (A\<lparr>a_jobs := fmupd (ext_job_id req)
                    (x\<lparr>aj_place := InFlight (eo_lease_expires_at out) (ext_attempt req)\<rparr>) (a_jobs A)\<rparr>)
                \<and> cy_dirty (st_cyc s')
          else apply_extend P E req lease_ms now s = (Inl attempt_mismatch, s)
      | _ \<Rightarrow> apply_extend P E req lease_ms now s = (Inl job_not_found, s))
    | None \<Rightarrow> apply_extend P E req lease_ms now s = (Inl job_not_found, s)"
proof -
  let ?j = "ext_job_id req" and ?a = "ext_attempt req"
  have rep: "reps s A" using assms by (simp add: reps_def)
  have err: "apply_extend P E req lease_ms now s = (Inl e, s)" if "leased P E ?j ?a s = Inl e" for e
    using that by (simp add: apply_extend_def)
  have ok: "\<exists>out s'. apply_extend P E req lease_ms now s = (Inr out, s')
      \<and> eo_lease_expires_at out = i64_saturating_add now (i64_of_u64 (max lease_ms 1))
      \<and> represents P (txv (st_tx s')) (st_ix s') (A\<lparr>a_jobs := fmupd ?j
          (x\<lparr>aj_place := InFlight (eo_lease_expires_at out) ?a\<rparr>) (a_jobs A)\<rparr>) \<and> cy_dirty (st_cyc s')"
    if "leased P E ?j ?a s = Inr i" "fmlookup (a_jobs A) ?j = Some x" for i x
  proof -
    obtain r s' where "apply_extend P E req lease_ms now s = (r, s')" by fastforce
    with that(1) obtain out where run: "apply_extend P E req lease_ms now s = (Inr out, s')"
      by (auto simp: apply_extend_def Let_def)
    from apply_extend_refines [OF rep now refl run] that(2) run show ?thesis
      by (auto simp: reps_def extended_deadline_def)
  qed
  show ?thesis by (rule lease_cases [OF rep err ok])
qed

lemma nack_total:
  assumes "represents P (txv (st_tx s)) (st_ix s) A" and now: "0 \<le> now" "i64_ok now"
    and reason: "pred_option utf8_valid (nack_reason req)"
  shows "case fmlookup (a_jobs A) (nack_job_id req) of
      Some x \<Rightarrow> (case aj_place x of
        InFlight d a' \<Rightarrow>
          if a' = nack_attempt req
          then \<exists>out s'. apply_nack P E req delay en now s = (Inr out, s') \<and> cy_dirty (st_cyc s')
                \<and> no_dead_lettered out = (force_dead_letter req \<or> j_max_attempts (aj_job x) \<le> nack_attempt req)
                \<and> represents P (txv (st_tx s')) (st_ix s')
                    (if no_dead_lettered out
                     then kill (nack_job_id req) (if en then Some (dead_of P x (nack_meta req now)) else None) A
                     else A\<lparr>a_jobs := fmupd (nack_job_id req) (x\<lparr>aj_place := nack_place (nack_attempt req) delay now\<rparr>) (a_jobs A)\<rparr>)
          else apply_nack P E req delay en now s = (Inl attempt_mismatch, s)
      | _ \<Rightarrow> apply_nack P E req delay en now s = (Inl job_not_found, s))
    | None \<Rightarrow> apply_nack P E req delay en now s = (Inl job_not_found, s)"
proof -
  let ?j = "nack_job_id req" and ?a = "nack_attempt req"
  have rep: "reps s A" using assms by (simp add: reps_def)
  have err: "apply_nack P E req delay en now s = (Inl e, s)" if "leased P E ?j ?a s = Inl e" for e
    using that by (simp add: apply_nack_def)
  have ok: "\<exists>out s'. apply_nack P E req delay en now s = (Inr out, s') \<and> cy_dirty (st_cyc s')
      \<and> no_dead_lettered out = (force_dead_letter req \<or> j_max_attempts (aj_job x) \<le> ?a)
      \<and> represents P (txv (st_tx s')) (st_ix s')
          (if no_dead_lettered out
           then kill ?j (if en then Some (dead_of P x (nack_meta req now)) else None) A
           else A\<lparr>a_jobs := fmupd ?j (x\<lparr>aj_place := nack_place ?a delay now\<rparr>) (a_jobs A)\<rparr>)"
    if l: "leased P E ?j ?a s = Inr i" and x: "fmlookup (a_jobs A) ?j = Some x" for i x
  proof -
    obtain r s' where run: "apply_nack P E req delay en now s = (r, s')" by fastforce
    have "r \<noteq> Inl e" for e
      using settle_unchanged(3) [of req delay en now s e s'] nack_not_internal [OF rep, of req delay en now e s'] run l by auto
    then obtain out where r: "r = Inr out" by (cases r) auto
    from apply_nack_refines [OF rep now reason refl run [unfolded r]] x run r show ?thesis
      by (auto simp: reps_def split: if_splits)
  qed
  show ?thesis by (rule lease_cases [OF rep err ok])
qed

end

text \<open>
  C11: an acknowledgement (\<open>apply_ack\<close>) removes exactly the acknowledged job, and only for the
  holder of the current lease. If the job is in flight at the given attempt it is removed with all
  its rows and index entries, the answer names its queue, and nothing else changes; a wrong attempt
  is refused as an attempt mismatch, and a job that is unknown, ready or scheduled as not found,
  both leaving the state as it was.
\<close>

theorem ack_removes_leased_job:
  assumes "reliable_storage P E txv dbv" and "represents P (txv (st_tx s)) (st_ix s) A"
  shows "case fmlookup (a_jobs A) jid of
      Some x \<Rightarrow> (case aj_place x of
        InFlight d a' \<Rightarrow>
          if a' = a
          then \<exists>s'. apply_ack P E jid a s =
                  (Inr \<lparr>ao_queue = aj_queue x, ao_trace_context = tc_stored (j_trace_context (aj_job x))\<rparr>, s')
                \<and> represents P (txv (st_tx s')) (st_ix s') (A\<lparr>a_jobs := fmdrop jid (a_jobs A)\<rparr>)
                \<and> cy_dirty (st_cyc s')
          else apply_ack P E jid a s = (Inl attempt_mismatch, s)
      | _ \<Rightarrow> apply_ack P E jid a s = (Inl job_not_found, s))
    | None \<Rightarrow> apply_ack P E jid a s = (Inl job_not_found, s)"
  by (rule reliable_storage.ack_total [OF assms])

theorem ack_removes_leased_job_witness:
  "(\<exists>s'. apply_ack prost_ref mem_engine ''j1'' 1 (demo_st (demo (InFlight 100 1))) =
       (Inr \<lparr>ao_queue = ''q'', ao_trace_context = None\<rparr>, s')
     \<and> represents prost_ref (mem_view (st_tx s')) (st_ix s') abs_empty \<and> cy_dirty (st_cyc s'))
   \<and> apply_ack prost_ref mem_engine ''j1'' 2 (demo_st (demo (InFlight 100 1))) =
       (Inl attempt_mismatch, demo_st (demo (InFlight 100 1)))"
proof -
  note ack = ack_removes_leased_job [OF mem_reliable demo_rep [OF demo_ok [OF demo_places(2)]], of "''j1''"]
  from ack [of 1] ack [of 2] show ?thesis
    by (simp add: demo_def demo_ajob_def demo_job_def tc_stored_def abs_empty_def fmdrop_upd_absent)
qed

text \<open>
  C19: a lease extension (\<open>apply_extend\<close>) of the current lease moves the lease to the clock plus
  the requested time (at least one millisecond, saturating at the largest time) and changes nothing
  else of the job; any other caller is refused and the state is as it was.
\<close>

theorem extend_moves_lease:
  assumes "reliable_storage P E txv dbv" and "represents P (txv (st_tx s)) (st_ix s) A" and "0 \<le> now"
  shows "case fmlookup (a_jobs A) (ext_job_id req) of
      Some x \<Rightarrow> (case aj_place x of
        InFlight d a' \<Rightarrow>
          if a' = ext_attempt req
          then \<exists>out s'. apply_extend P E req lease_ms now s = (Inr out, s')
                \<and> eo_lease_expires_at out = i64_saturating_add now (i64_of_u64 (max lease_ms 1))
                \<and> represents P (txv (st_tx s')) (st_ix s') (A\<lparr>a_jobs := fmupd (ext_job_id req)
                    (x\<lparr>aj_place := InFlight (eo_lease_expires_at out) (ext_attempt req)\<rparr>) (a_jobs A)\<rparr>)
                \<and> cy_dirty (st_cyc s')
          else apply_extend P E req lease_ms now s = (Inl attempt_mismatch, s)
      | _ \<Rightarrow> apply_extend P E req lease_ms now s = (Inl job_not_found, s))
    | None \<Rightarrow> apply_extend P E req lease_ms now s = (Inl job_not_found, s)"
  by (rule reliable_storage.extend_total [OF assms])

theorem extend_moves_lease_witness:
  "\<exists>out s'. apply_extend prost_ref mem_engine
       \<lparr>ext_job_id = ''j1'', ext_attempt = 1, ext_lease_duration = None, ext_worker_id = None\<rparr> 50 70 (demo_st (demo (InFlight 100 1))) = (Inr out, s')
     \<and> eo_lease_expires_at out = 120
     \<and> represents prost_ref (mem_view (st_tx s')) (st_ix s') (demo (InFlight 120 1))"
proof -
  note ext = extend_moves_lease [OF mem_reliable demo_rep [OF demo_ok [OF demo_places(2)]], of 70
    "\<lparr>ext_job_id = ''j1'', ext_attempt = 1, ext_lease_duration = None, ext_worker_id = None\<rparr>" 50]
  show ?thesis using ext
    by (fastforce simp: demo_def demo_ajob_def i64_saturating_add_def i64_sat_def i64_of_u64_def i64_max_def i64_min_def)
qed

text \<open>
  C10: a negative acknowledgement (\<open>apply_nack\<close>) of the current lease dead-letters the job exactly
  when the caller forces it or no attempt is left, and otherwise puts the job back with the next
  attempt number, ready at once or scheduled after the delay. A dead-lettered job leaves the queue
  and is kept as a dead letter exactly when dead letters are enabled. Any other caller is refused
  and the state is as it was.
\<close>

theorem nack_retries_or_dead_letters:
  assumes "reliable_storage P E txv dbv" and "represents P (txv (st_tx s)) (st_ix s) A"
    and "0 \<le> now" and "i64_ok now" and "pred_option utf8_valid (nack_reason req)"
  shows "case fmlookup (a_jobs A) (nack_job_id req) of
      Some x \<Rightarrow> (case aj_place x of
        InFlight d a' \<Rightarrow>
          if a' = nack_attempt req
          then \<exists>out s'. apply_nack P E req delay en now s = (Inr out, s') \<and> cy_dirty (st_cyc s')
                \<and> no_dead_lettered out = (force_dead_letter req \<or> j_max_attempts (aj_job x) \<le> nack_attempt req)
                \<and> represents P (txv (st_tx s')) (st_ix s')
                    (if no_dead_lettered out
                     then kill (nack_job_id req) (if en then Some (dead_of P x (nack_meta req now)) else None) A
                     else A\<lparr>a_jobs := fmupd (nack_job_id req) (x\<lparr>aj_place := nack_place (nack_attempt req) delay now\<rparr>) (a_jobs A)\<rparr>)
          else apply_nack P E req delay en now s = (Inl attempt_mismatch, s)
      | _ \<Rightarrow> apply_nack P E req delay en now s = (Inl job_not_found, s))
    | None \<Rightarrow> apply_nack P E req delay en now s = (Inl job_not_found, s)"
  by (rule reliable_storage.nack_total [OF assms])

theorem nack_retries_or_dead_letters_witness:
  "\<exists>out s'. apply_nack prost_ref mem_engine
       \<lparr>nack_job_id = ''j1'', nack_attempt = 1, nack_reason = None, nack_retry_field = None, nack_worker_id = None\<rparr> 30 True 70
       (demo_st (demo (InFlight 100 1))) = (Inr out, s')
     \<and> \<not> no_dead_lettered out
     \<and> represents prost_ref (mem_view (st_tx s')) (st_ix s') (demo (InScheduled 100 2))"
proof -
  let ?req = "\<lparr>nack_job_id = ''j1'', nack_attempt = 1, nack_reason = None, nack_retry_field = None, nack_worker_id = None\<rparr>"
  have place: "nack_place 1 30 70 = InScheduled 100 2"
    by (simp add: nack_place_def i64_saturating_add_def i64_sat_def i64_of_u64_def i64_max_def i64_min_def)
  have "\<exists>out s'. apply_nack prost_ref mem_engine ?req 30 True 70 (demo_st (demo (InFlight 100 1))) = (Inr out, s')
      \<and> \<not> no_dead_lettered out \<and> represents prost_ref (mem_view (st_tx s')) (st_ix s')
          ((demo (InFlight 100 1))\<lparr>a_jobs := fmupd ''j1'' ((demo_ajob (InFlight 100 1))\<lparr>aj_place := nack_place 1 30 70\<rparr>)
              (a_jobs (demo (InFlight 100 1)))\<rparr>)"
    using nack_retries_or_dead_letters [OF mem_reliable demo_rep [OF demo_ok [OF demo_places(2)]], of 70 ?req 30 True]
    by (auto simp: demo_job_def demo_def demo_ajob_def force_dead_letter_def word_le_nat_alt)
  then show ?thesis unfolding place by (simp add: demo_def demo_ajob_def)
qed

section \<open>Enqueueing\<close>

lemma batch_cap_all:
  assumes "\<forall>pj \<in> set pjs. er_queue (pj_req pj) = q \<longrightarrow> jl_max_queue_depth (pj_limits pj) = Some cap"
    and "\<exists>pj \<in> set pjs. er_queue (pj_req pj) = q"
  shows "batch_cap q pjs = Some cap"
proof (cases "filter (\<lambda>pj. er_queue (pj_req pj) = q) pjs")
  case Nil
  with assms(2) show ?thesis by (auto simp: filter_empty_conv)
next
  case (Cons pj ps)
  then have "pj \<in> set pjs \<and> er_queue (pj_req pj) = q"
    using filter_eq_ConsD [OF Cons] by auto
  with assms(1) Cons show ?thesis by (simp add: batch_cap_def)
qed

context reliable_storage
begin

lemma live_depth_represents:
  fixes s :: "'tx st"
  shows "represents P (txv (st_tx s)) (st_ix s) A \<Longrightarrow> live_depth (st_ix s) q = depth A q"
  using live_depth_eq [of s A q] by (simp add: reps_def)

text \<open>A second request with an open idempotency key is answered with the first job and changes nothing.\<close>

lemma enqueue_again:
  assumes rep: "represents P (txv (st_tx s)) (st_ix s) A" and ok: "pj_ok pj" "pj_ok pj'"
    and new: "unused A [pj_id pj]" "unused A [pj_id pj']" "pj_id pj \<noteq> pj_id pj'"
    and now: "0 \<le> now" "i64_ok now" "0 \<le> now'" "i64_ok now'"
    and first: "apply_enqueue P E [pj] now s = (Inr [Inr r], s')" and fresh: "\<not> resp_deduplicated r"
    and key: "er_idempotency_key (pj_req pj) = Some k" "er_idempotency_key (pj_req pj') = Some k"
      "er_queue (pj_req pj') = er_queue (pj_req pj)"
    and window: "now' < i64_saturating_add now (jl_dedup_window_ms (pj_limits pj))"
    and open_now: "\<not> is_closing (st_ix s) (er_queue (pj_req pj)) now'"
  shows "\<exists>s''. apply_enqueue P E [pj'] now' s' =
      (Inr [Inr \<lparr>resp_job_id = resp_job_id r, resp_deduplicated = True\<rparr>], s'')
    \<and> resp_job_id r = pj_id pj \<and> st_tx s'' = st_tx s' \<and> st_ix s'' = st_ix s'"
proof -
  let ?B = "accepted P pj now A"
  have "list_all pj_ok [pj]" "unused A (map pj_id [pj])" "distinct (map pj_id [pj])" using ok new by simp_all
  note e = enqueue_refines_spec [OF rep this now(1,2)]
  then have r: "fst (enqueue_spec P now [pj] A) = [Inr r]"
    and rep': "represents P (txv (st_tx s')) (st_ix s') (snd (enqueue_spec P now [pj] A))"
    using first by auto
  have B: "resp_job_id r = pj_id pj" "snd (enqueue_spec P now [pj] A) = ?B"
    using r fresh by (auto simp: Let_def split: if_splits option.splits)
  have key': "dedup_key_of (pj_req pj') = dedup_key_of (pj_req pj)" "dedup_key_of (pj_req pj) \<noteq> None"
    using key by (simp_all add: dedup_key_of_def)
  have "duplicate_of ?B (pj_req pj') now' = Some (pj_id pj)"
    using key' window by (auto simp: duplicate_of_def accepted_def new_dedup_def)
  then have d: "check_dedup E (pj_req pj') now' s' = (Inr (Hit \<lparr>resp_job_id = pj_id pj, resp_deduplicated = True\<rparr>),
      on_cycle (deduplicated (er_queue (pj_req pj'))) s')"
    using check_dedup_spec [OF rep' [folded reps_def], of "pj_req pj'" now'] B(2) by simp
  have "ix_closing (st_ix s') = a_closing ?B" "ix_closing (st_ix s) = a_closing A"
    using closing_index rep rep' B(2) by (simp_all add: reps_def)
  then have "\<not> is_closing (st_ix s') (er_queue (pj_req pj')) now'"
    using open_now key(3) by (simp add: is_closing_def accepted_def)
  with d B(1) show ?thesis by (simp add: apply_enqueue_def)
qed

end

text \<open>
  C7: a best-effort batch (\<open>apply_enqueue\<close>) does what its specification says, job by job in order:
  a job for a closing queue is refused, a job whose idempotency key is open is answered with the
  earlier job's id, a job over the depth cap is refused, and any other job is accepted, ready or
  scheduled, with its idempotency key recorded. The batch always returns.
\<close>

theorem enqueue_implements_spec:
  assumes "reliable_storage P E txv dbv" and "represents P (txv (st_tx s)) (st_ix s) A"
    and "list_all pj_ok pjs" and "unused A (map pj_id pjs)" and "distinct (map pj_id pjs)"
    and "0 \<le> now" and "i64_ok now"
  shows "\<exists>s'. apply_enqueue P E pjs now s = (Inr (fst (enqueue_spec P now pjs A)), s')
    \<and> represents P (txv (st_tx s')) (st_ix s') (snd (enqueue_spec P now pjs A))"
  by (rule reliable_storage.enqueue_refines_spec [OF assms])

theorem enqueue_implements_spec_witness:
  "\<exists>s'. apply_enqueue prost_ref mem_engine [demo_pj] 10 (demo_st (demo (InReady 1))) =
       (Inr [Inr \<lparr>resp_job_id = ''j2'', resp_deduplicated = False\<rparr>], s')
     \<and> represents prost_ref (mem_view (st_tx s')) (st_ix s') (accepted prost_ref demo_pj 10 (demo (InReady 1)))"
proof -
  note e = enqueue_implements_spec [OF mem_reliable demo_rep [OF demo_ok [OF demo_places(1)]], of "[demo_pj]" 10]
  show ?thesis using e demo_pj_ok demo_spec [of prost_ref 10 "InReady 1"] by (simp add: demo_unused)
qed

text \<open>
  C13: an atomic batch (\<open>apply_enqueue_atomic\<close>) is all or nothing. If any of its queues is closing,
  or any would exceed its cap with the whole batch added, every offending job is reported with its
  position and the state is as it was; otherwise every job is accepted (or answered as a duplicate).
\<close>

theorem enqueue_atomic_implements_spec:
  assumes "reliable_storage P E txv dbv" and "represents P (txv (st_tx s)) (st_ix s) A"
    and "list_all pj_ok pjs" and "unused A (map pj_id pjs)" and "distinct (map pj_id pjs)"
    and "0 \<le> now" and "i64_ok now"
  shows "\<exists>s'. apply_enqueue_atomic P E pjs now s = (Inr (fst (atomic_spec P now pjs A)), s')
    \<and> represents P (txv (st_tx s')) (st_ix s') (snd (atomic_spec P now pjs A))
    \<and> (\<forall>rej. fst (atomic_spec P now pjs A) = Rejected rej \<longrightarrow> s' = s)"
  by (rule reliable_storage.atomic_refines_spec [OF assms])

theorem enqueue_atomic_implements_spec_witness:
  "apply_enqueue_atomic prost_ref mem_engine [demo_pj, demo_pj\<lparr>pj_id := ''j3''\<rparr>] 10 (demo_st (demo (InReady 1))) =
     (Inr (Rejected [(0, queue_full ''q'' 2), (1, queue_full ''q'' 2)]), demo_st (demo (InReady 1)))"
proof -
  let ?b = "[demo_pj, demo_pj\<lparr>pj_id := ''j3''\<rparr>]"
  have "pj_ok (demo_pj\<lparr>pj_id := ''j3''\<rparr>)" using demo_pj_ok by (simp add: pj_ok_def)
  with demo_pj_ok
    enqueue_atomic_implements_spec [OF mem_reliable demo_rep [OF demo_ok [OF demo_places(1)]], of ?b 10]
    demo_atomic_spec [of prost_ref 10 "InReady 1"]
  show ?thesis by (simp add: demo_unused)
qed

text \<open>
  C17: the depth cap holds. After a best-effort batch, the depth the committer keeps for a queue
  (ready, scheduled and leased jobs, \<open>Indexes::live_depth\<close>) is at most the cap its jobs carry, or
  what it was before if that was already more; an atomic batch that commits leaves it at most the cap.
\<close>

theorem depth_cap_holds:
  assumes "reliable_storage P E txv dbv" and "represents P (txv (st_tx s)) (st_ix s) A"
    and "list_all pj_ok pjs" and "unused A (map pj_id pjs)" and "distinct (map pj_id pjs)"
    and "0 \<le> now" and "i64_ok now"
    and cap: "\<forall>pj \<in> set pjs. er_queue (pj_req pj) = q \<longrightarrow> jl_max_queue_depth (pj_limits pj) = Some cap"
  shows "(\<forall>rs s'. apply_enqueue P E pjs now s = (Inr rs, s') \<longrightarrow>
      live_depth (st_ix s') q \<le> max (live_depth (st_ix s) q) cap)
    \<and> (\<forall>cs s'. apply_enqueue_atomic P E pjs now s = (Inr (Committed cs), s') \<longrightarrow>
      (\<exists>pj \<in> set pjs. er_queue (pj_req pj) = q) \<longrightarrow> live_depth (st_ix s') q \<le> cap)"
proof (intro conjI allI impI)
  fix rs s' assume "apply_enqueue P E pjs now s = (Inr rs, s')"
  then have "represents P (txv (st_tx s')) (st_ix s') (snd (enqueue_spec P now pjs A))"
    using reliable_storage.enqueue_refines_spec [OF assms(1-7)] by auto
  with enqueue_spec_cap [OF assms(4,5) cap, of P now] reliable_storage.live_depth_represents [OF assms(1)] assms(2)
  show "live_depth (st_ix s') q \<le> max (live_depth (st_ix s) q) cap" by metis
next
  fix cs s' assume run: "apply_enqueue_atomic P E pjs now s = (Inr (Committed cs), s')"
    and ex: "\<exists>pj \<in> set pjs. er_queue (pj_req pj) = q"
  obtain B where "atomic_spec P now pjs A = (Committed cs, B)" "represents P (txv (st_tx s')) (st_ix s') B"
    using reliable_storage.atomic_refines_spec [OF assms(1-7)] run by (cases "atomic_spec P now pjs A") auto
  with atomic_spec_cap [OF assms(4,5) _ batch_cap_all [OF cap ex]] reliable_storage.live_depth_represents [OF assms(1)]
  show "live_depth (st_ix s') q \<le> cap" by metis
qed

theorem depth_cap_holds_witness:
  "live_depth (st_ix (snd (apply_enqueue prost_ref mem_engine [demo_pj] 10 (demo_st (demo (InReady 1)))))) ''q'' \<le>
     max (live_depth (st_ix (demo_st (demo (InReady 1)))) ''q'') 2"
proof -
  have *: "list_all pj_ok [demo_pj]" "unused (demo (InReady 1)) (map pj_id [demo_pj])" "distinct (map pj_id [demo_pj])"
    "(0::int) \<le> 10" "i64_ok 10"
    "\<forall>pj \<in> set [demo_pj]. er_queue (pj_req pj) = ''q'' \<longrightarrow> jl_max_queue_depth (pj_limits pj) = Some 2"
    using demo_pj_ok by (simp_all add: demo_unused)
  from reliable_storage.enqueue_refines_spec [OF mem_reliable demo_rep [OF demo_ok [OF demo_places(1)]] *(1-5)]
  obtain rs s' where "apply_enqueue prost_ref mem_engine [demo_pj] 10 (demo_st (demo (InReady 1))) = (Inr rs, s')" by auto
  with depth_cap_holds [OF mem_reliable demo_rep [OF demo_ok [OF demo_places(1)]] *]
  show ?thesis by simp
qed



end
