(* ===== verification/Dispatch_Spec.thy ===== *)
theory Dispatch_Spec
  imports Progress
begin

text \<open>
  What a reservation over several queues promises (\<open>apply_reserve\<close> of \<open>src/storage.rs\<close>): the jobs
  handed out are the first ready jobs in the order of the queue list, then priority, then age; they
  are leased; nothing else moves.
\<close>

definition queue_rank :: "str list \<Rightarrow> str \<Rightarrow> nat" where
  "queue_rank qs q = length (takeWhile (\<lambda>q'. q' \<noteq> q) qs)"

lemma queue_rank_Cons: "queue_rank (q # qs) q' = (if q' = q then 0 else Suc (queue_rank qs q'))"
  by (simp add: queue_rank_def)

definition job_rank :: "prost \<Rightarrow> str list \<Rightarrow> job \<Rightarrow> nat \<times> bytes" where
  "job_rank P qs j = (queue_rank qs (j_queue j), job_key P (j_queue j) j)"

definition ready_rank :: "prost \<Rightarrow> str list \<Rightarrow> ajob \<Rightarrow> nat \<times> bytes" where
  "ready_rank P qs x = (queue_rank qs (aj_queue x), rkey P x)"

definition still_ready :: "abs_queue \<Rightarrow> str list \<Rightarrow> ajob \<Rightarrow> bool" where
  "still_ready A qs y \<longleftrightarrow> (\<exists>jid a. fmlookup (a_jobs A) jid = Some y \<and> aj_place y = InReady a \<and> aj_queue y \<in> set qs)"

definition dispatched :: "prost \<Rightarrow> str list \<Rightarrow> i64 \<Rightarrow> nat \<Rightarrow> abs_queue \<Rightarrow> job list \<Rightarrow> abs_queue \<Rightarrow> bool" where
  "dispatched P qs le n A new A' \<longleftrightarrow>
     length new \<le> n
     \<and> (\<forall>j \<in> set new. \<exists>x a. fmlookup (a_jobs A) (j_id j) = Some x \<and> aj_place x = InReady a
          \<and> aj_queue x \<in> set qs \<and> j = leased_job P x a le
          \<and> fmlookup (a_jobs A') (j_id j) = Some (x\<lparr>aj_place := InFlight le a\<rparr>))
     \<and> (\<forall>jid. jid \<notin> set (map j_id new) \<longrightarrow> fmlookup (a_jobs A') jid = fmlookup (a_jobs A) jid)
     \<and> a_dead A' = a_dead A \<and> a_dedup A' = a_dedup A \<and> a_closing A' = a_closing A
     \<and> sorted_wrt (\<lambda>i j. job_rank P qs i < job_rank P qs j) new
     \<and> (\<forall>y. still_ready A' qs y \<longrightarrow> length new = n \<and> (\<forall>j \<in> set new. job_rank P qs j < ready_rank P qs y))"

lemma dispatched_Nil: "(n = 0 \<or> qs = []) \<Longrightarrow> dispatched P qs le n A [] A"
  by (auto simp: dispatched_def still_ready_def)

lemma arun_reserved_rest: "arun A es B \<Longrightarrow> es = map (\<lambda>j. Reserved (j_id j)) new \<Longrightarrow>
    a_dead B = a_dead A \<and> a_dedup B = a_dedup A \<and> a_closing B = a_closing A"
  by (induction arbitrary: new rule: arun.induct) (auto elim: astep_reserveE)

lemma leased_job_queue [simp]: "j_queue (leased_job P x a le) = aj_queue x"
  by (simp add: leased_job_def)

lemma dispatched_Cons:
  assumes one: "reserved_from P q le A new A1" and len: "length new \<le> n"
    and all: "length new < n \<longrightarrow> (\<forall>jid y a. fmlookup (a_jobs A1) jid = Some y \<longrightarrow> aj_queue y = q \<longrightarrow> aj_place y \<noteq> InReady a)"
    and rest: "dispatched P qs le (n - length new) A1 extra A'"
  shows "dispatched P (q # qs) le n A (new @ extra) A'"
proof -
  have new: "\<exists>x a. fmlookup (a_jobs A) (j_id j) = Some x \<and> aj_place x = InReady a \<and> aj_queue x = q
      \<and> j = leased_job P x a le \<and> fmlookup (a_jobs A1) (j_id j) = Some (x\<lparr>aj_place := InFlight le a\<rparr>)"
    if "j \<in> set new" for j using one that by (simp add: reserved_from_def)
  have same1: "fmlookup (a_jobs A1) jid = fmlookup (a_jobs A) jid" if "jid \<notin> set (map j_id new)" for jid
    using one that by (simp add: reserved_from_def)
  have extra: "\<exists>x a. fmlookup (a_jobs A1) (j_id j) = Some x \<and> aj_place x = InReady a \<and> aj_queue x \<in> set qs
      \<and> j = leased_job P x a le \<and> fmlookup (a_jobs A') (j_id j) = Some (x\<lparr>aj_place := InFlight le a\<rparr>)"
    if "j \<in> set extra" for j using rest that by (simp add: dispatched_def)
  have same2: "fmlookup (a_jobs A') jid = fmlookup (a_jobs A1) jid" if "jid \<notin> set (map j_id extra)" for jid
    using rest that by (simp add: dispatched_def)
  have off: "j_id j \<notin> set (map j_id new)" if j: "j \<in> set extra" for j
  proof
    assume "j_id j \<in> set (map j_id new)"
    then obtain i where i: "i \<in> set new" "j_id i = j_id j" by auto
    obtain x a where "fmlookup (a_jobs A1) (j_id i) = Some (x\<lparr>aj_place := InFlight le a\<rparr>)" using new [OF i(1)] by blast
    moreover obtain y b where "fmlookup (a_jobs A1) (j_id j) = Some y" "aj_place y = InReady b" using extra [OF j] by blast
    ultimately show False using i(2) by auto
  qed
  have qn: "j_queue j = q" if "j \<in> set new" for j using new [OF that] leased_job_queue by metis
  have notq: "j_queue j \<noteq> q" if "j \<in> set extra" for j
  proof -
    from that rest have "length new < n" by (cases extra) (auto simp: dispatched_def)
    with all extra [OF that] leased_job_queue show ?thesis by metis
  qed
  have rank: "job_rank P (q # qs) i < job_rank P (q # qs) j" if "i \<in> set new" "j \<in> set extra" for i j
    using qn [OF that(1)] notq [OF that(2)] by (simp add: job_rank_def queue_rank_Cons)
  have keep: "job_rank P (q # qs) i < job_rank P (q # qs) j"
    if "i \<in> set extra" "j \<in> set extra" "job_rank P qs i < job_rank P qs j" for i j
    using notq [OF that(1)] notq [OF that(2)] that(3) by (simp add: job_rank_def queue_rank_Cons)
  have "sorted_wrt (\<lambda>i j. job_rank P qs i < job_rank P qs j) extra" using rest by (simp add: dispatched_def)
  then have sorted2: "sorted_wrt (\<lambda>i j. job_rank P (q # qs) i < job_rank P (q # qs) j) extra"
    by (rule sorted_wrt_mono_rel [rotated]) (use keep in blast)
  have "sorted_wrt (\<lambda>i j. job_key P q i < job_key P q j) new" using one by (simp add: reserved_from_def)
  then have sorted1: "sorted_wrt (\<lambda>i j. job_rank P (q # qs) i < job_rank P (q # qs) j) new"
    by (rule sorted_wrt_mono_rel [rotated]) (simp add: job_rank_def qn queue_rank_Cons)
  have left: "length (new @ extra) = n \<and> (\<forall>j \<in> set (new @ extra). job_rank P (q # qs) j < ready_rank P (q # qs) y)"
    if y: "still_ready A' (q # qs) y" for y
  proof -
    obtain jid a where l: "fmlookup (a_jobs A') jid = Some y" "aj_place y = InReady a" "aj_queue y \<in> set (q # qs)"
      using y by (auto simp: still_ready_def)
    have "jid \<notin> set (map j_id extra)"
    proof
      assume "jid \<in> set (map j_id extra)"
      then obtain j where j: "j \<in> set extra" "jid = j_id j" by auto
      obtain x b where "fmlookup (a_jobs A') (j_id j) = Some (x\<lparr>aj_place := InFlight le b\<rparr>)" using extra [OF j(1)] by blast
      with l(1,2) j(2) show False by auto
    qed
    then have l1: "fmlookup (a_jobs A1) jid = Some y" using same2 l(1) by simp
    show ?thesis
    proof (cases "aj_queue y = q")
      case True
      then have "length new = n" using all l1 l(2) len by (metis le_neq_implies_less)
      moreover from this rest have "extra = []" by (simp add: dispatched_def)
      moreover have "job_key P q j < rkey P y" if "j \<in> set new" for j
        using one that l1 l(2) True by (auto simp: reserved_from_def)
      ultimately show ?thesis using True qn by (simp add: job_rank_def ready_rank_def queue_rank_Cons)
    next
      case False
      then have "still_ready A' qs y" using l by (auto simp: still_ready_def)
      with rest have r: "length extra = n - length new" "\<forall>j \<in> set extra. job_rank P qs j < ready_rank P qs y"
        by (auto simp: dispatched_def)
      have "job_rank P (q # qs) j < ready_rank P (q # qs) y" if "j \<in> set extra" for j
        using r(2) that notq [OF that] False by (simp add: job_rank_def ready_rank_def queue_rank_Cons)
      moreover have "job_rank P (q # qs) j < ready_rank P (q # qs) y" if "j \<in> set new" for j
        using qn [OF that] False by (simp add: job_rank_def ready_rank_def queue_rank_Cons)
      ultimately show ?thesis using r(1) len by auto
    qed
  qed
  have moved: "\<exists>x a. fmlookup (a_jobs A) (j_id j) = Some x \<and> aj_place x = InReady a \<and> aj_queue x \<in> set (q # qs)
      \<and> j = leased_job P x a le \<and> fmlookup (a_jobs A') (j_id j) = Some (x\<lparr>aj_place := InFlight le a\<rparr>)"
    if "j \<in> set (new @ extra)" for j
  proof (cases "j \<in> set extra")
    case True
    with extra [OF True] same1 [OF off [OF True]] show ?thesis unfolding list.set by (metis insertCI)
  next
    case False
    with that have j: "j \<in> set new" by simp
    then have "j_id j \<notin> set (map j_id extra)" using off by (metis imageE image_eqI set_map)
    from same2 [OF this] new [OF j] show ?thesis unfolding list.set by (metis insertCI)
  qed
  have rest1: "a_dead A1 = a_dead A \<and> a_dedup A1 = a_dedup A \<and> a_closing A1 = a_closing A"
    using one arun_reserved_rest [OF _ refl] unfolding reserved_from_def by blast
  have "fmlookup (a_jobs A') jid = fmlookup (a_jobs A) jid" if "jid \<notin> set (map j_id (new @ extra))" for jid
    using that same1 same2 by simp
  moreover have "length extra \<le> n - length new" using rest unfolding dispatched_def by blast
  then have "length (new @ extra) \<le> n" using len by simp
  moreover have "a_dead A' = a_dead A" "a_dedup A' = a_dedup A" "a_closing A' = a_closing A"
    using rest rest1 by (simp_all add: dispatched_def)
  moreover have "sorted_wrt (\<lambda>i j. job_rank P (q # qs) i < job_rank P (q # qs) j) (new @ extra)"
    using sorted1 sorted2 rank by (simp add: sorted_wrt_append)
  ultimately show ?thesis unfolding dispatched_def using moved left by blast
qed

context reliable_storage
begin

lemma reserve_queues_spec:
  assumes "reps s A" and "\<forall>q \<in> set qs. length q < 65536" and le: "0 \<le> le" "i64_ok le"
  shows "\<exists>new A' s'. reserve_queues P E le mx qs jobs s = (Inr (jobs @ new), s') \<and> reps s' A'
    \<and> dispatched P qs le (mx - length jobs) A new A'"
  using assms(1,2)
proof (induction qs arbitrary: s A jobs)
  case Nil
  then show ?case by (auto intro!: exI [of _ "[]"] dispatched_Nil)
next
  case (Cons q qs)
  show ?case
  proof (cases "length jobs \<ge> mx")
    case True
    with Cons.prems show ?thesis by (auto intro!: exI [of _ "[]"] dispatched_Nil)
  next
    case False
    obtain js s1 where one: "reserve_queue P E (queue_prefix q) le mx jobs s = (Inr js, s1)"
      using reserve_queue_total by blast
    obtain new A1 where 1: "js = jobs @ new" "reps s1 A1" "reserved_from P q le A new A1" "length js \<le> mx"
      "length js < mx \<longrightarrow> (\<forall>jid y a. fmlookup (a_jobs A1) jid = Some y \<longrightarrow> aj_queue y = q \<longrightarrow> aj_place y \<noteq> InReady a)"
      using reserve_queue_refines [OF Cons.prems(1) _ le one] Cons.prems(2) False by auto
    obtain extra A' s' where 2: "reserve_queues P E le mx qs js s1 = (Inr (js @ extra), s')" "reps s' A'"
      "dispatched P qs le (mx - length js) A1 extra A'"
      using Cons.IH [OF 1(2), of js] Cons.prems(2) by auto
    have "dispatched P (q # qs) le (mx - length jobs) A (new @ extra) A'"
      by (rule dispatched_Cons [OF 1(3)]) (use 1(1,4,5) 2(3) False in auto)
    with 1 2 one False show ?thesis
      by (intro exI [of _ "new @ extra"] exI [of _ A'] exI [of _ s']) simp
  qed
qed

lemma reserve_refines_spec:
  assumes "represents P (txv (st_tx s)) (st_ix s) A" and "\<forall>q \<in> set qs. length q < 65536"
    and "0 \<le> now" and "le = i64_saturating_add now (i64_of_u64 lease_ms)"
  shows "\<exists>new A' s'. apply_reserve P E qs lease_ms mx now s = (Inr new, s')
    \<and> represents P (txv (st_tx s')) (st_ix s') A' \<and> dispatched P qs le mx A new A'"
proof -
  have "0 \<le> le" "i64_ok le" using assms(3,4)
    by (auto simp: i64_saturating_add_def i64_sat_def i64_of_u64_def i64_ok_def i64_max_def i64_min_def)
  from reserve_queues_spec [OF assms(1) [folded reps_def] assms(2) this, of mx "[]"] assms(4)
  show ?thesis by (auto simp: apply_reserve_def reps_def)
qed

end

end
