(* ===== verification/Dispatch_Properties.thy ===== *)
theory Dispatch_Properties
  imports Example Dispatch_Spec
begin

text \<open>
  The properties of the dispatcher and the timers of \<open>src/storage.rs\<close>: reservations, the sweep and
  the deadline the committer sleeps until.
\<close>

section \<open>Reservations\<close>



section \<open>The sweep\<close>

context reliable_storage
begin

lemma sweep_refines_spec:
  assumes "represents P (txv (st_tx s)) (st_ix s) A" and "0 \<le> now" and "i64_ok now"
  shows "\<exists>s' js ls ks bs A'. apply_sweep P E now budget cutoff en s =
      (Inr (length js + length ls + length ks + length bs), s')
    \<and> represents P (txv (st_tx s')) (st_ix s') A' \<and> swept P now en js ls ks bs A A'
    \<and> picked (fmlookup (a_jobs A)) (scheduled_by now) budget js
    \<and> picked (fmlookup (a_jobs A)) (leased_until now) budget ls
    \<and> picked (fmlookup (a_dedup A)) (dedup_until now) budget ks
    \<and> (case cutoff of None \<Rightarrow> bs = []
       | Some c \<Rightarrow> picked (expired_dead P now en A ls) (failed_by c) budget bs)"
proof -
  obtain n s' where run: "apply_sweep P E now budget cutoff en s = (Inr n, s')" using sweep_total by blast
  from apply_sweep_exact [OF assms(1) [folded reps_def] assms(2,3) run] run show ?thesis
    unfolding reps_def by metis
qed

end

text \<open>
  C9: the sweep (\<open>apply_sweep\<close>) always returns and does exactly its work: scheduled jobs that are
  due become ready at their attempt; jobs whose lease has lapsed become ready at the next attempt,
  or, when no attempt is left, leave the queue and become dead letters if those are enabled;
  deduplication records whose window is over and dead letters past the retention cutoff are dropped;
  lapsed close tombstones are dropped; nothing else changes. Each phase takes at most the budget, and
  all that is due when it takes less. The count returned is the number of entries taken.
\<close>

theorem sweep_does_due_work:
  assumes "reliable_storage P E txv dbv" and "represents P (txv (st_tx s)) (st_ix s) A"
    and "0 \<le> now" and "i64_ok now"
  shows "\<exists>s' js ls ks bs A'. apply_sweep P E now budget cutoff en s =
      (Inr (length js + length ls + length ks + length bs), s')
    \<and> represents P (txv (st_tx s')) (st_ix s') A' \<and> swept P now en js ls ks bs A A'
    \<and> picked (fmlookup (a_jobs A)) (scheduled_by now) budget js
    \<and> picked (fmlookup (a_jobs A)) (leased_until now) budget ls
    \<and> picked (fmlookup (a_dedup A)) (dedup_until now) budget ks
    \<and> (case cutoff of None \<Rightarrow> bs = []
       | Some c \<Rightarrow> picked (expired_dead P now en A ls) (failed_by c) budget bs)"
  by (rule reliable_storage.sweep_refines_spec [OF assms])

theorem sweep_does_due_work_witness:
  "\<exists>n s' A'. apply_sweep prost_ref mem_engine 200 10 None True (demo_st (demo (InScheduled 100 1))) = (Inr n, s')
     \<and> represents prost_ref (mem_view (st_tx s')) (st_ix s') A'
     \<and> fmlookup (a_jobs A') ''j1'' = Some (demo_ajob (InReady 1))"
proof -
  obtain s' js ls ks A' where run:
      "apply_sweep prost_ref mem_engine 200 10 None True (demo_st (demo (InScheduled 100 1))) =
        (Inr (length js + length ls + length ks), s')"
    and rep: "represents prost_ref (mem_view (st_tx s')) (st_ix s') A'"
    and sw: "swept prost_ref 200 True js ls ks [] (demo (InScheduled 100 1)) A'"
    and js: "picked (fmlookup (a_jobs (demo (InScheduled 100 1)))) (scheduled_by 200) 10 js"
    using sweep_does_due_work [OF mem_reliable demo_rep [OF demo_ok [OF demo_places(3)]], of 200 10 None True]
    by auto
  have "\<forall>j \<in> set js. j = ''j1''" using js by (auto simp: picked_def demo_def split: if_splits)
  moreover have "distinct js" using js by (simp add: picked_def)
  ultimately have "length js \<le> 1" by (cases js; cases "tl js") auto
  then have "''j1'' \<in> set js"
    using js by (auto simp: picked_def demo_def demo_ajob_def scheduled_by_def)
  then have "fmlookup (a_jobs A') ''j1'' = Some (demo_ajob (InReady 1))"
    using sw by (simp add: swept_def demo_def demo_ajob_def promote_job_def)
  with run rep show ?thesis by blast
qed

section \<open>The next deadline\<close>

definition is_least :: "'a::linorder set \<Rightarrow> 'a option \<Rightarrow> bool" where
  "is_least D m = (case m of None \<Rightarrow> D = {} | Some d \<Rightarrow> d \<in> D \<and> (\<forall>e \<in> D. d \<le> e))"

lemma is_least_None [simp]: "is_least {} None"
  by (simp add: is_least_def)

lemma is_least_Un:
  assumes "is_least D m" and "is_least U (min_opt ms)"
  shows "is_least (D \<union> U) (min_opt (m # ms))"
  using assms by (cases m; cases "min_opt ms") (auto simp: is_least_def min_def dest: order.trans)

lemma is_least_values: "is_least (set xs) (min_opt (map Some xs))"
proof (induction xs)
  case (Cons x xs)
  have "is_least {x} (Some x)" by (simp add: is_least_def)
  from is_least_Un [OF this Cons.IH] show ?case by simp
qed (simp add: is_least_def)

lemma earliest_least:
  assumes "timer_keys_ok i"
  shows "is_least {deadline_of k | k q. fmlookup (ti_keys i) k = Some q} (ti_earliest i)"
proof (cases "first_entry (ti_keys i)")
  case None
  then have "ti_keys i = fmempty" by (simp add: first_entry_None)
  with None show ?thesis by (simp add: ti_earliest_def is_least_def)
next
  case (Some e)
  obtain k q where e: "e = (k, q)" by (cases e)
  note f = first_entry_Some [OF Some [unfolded e]]
  have "deadline_of k \<le> deadline_of k'" if "fmlookup (ti_keys i) k' = Some q'" for k' q'
    using assms f(1) f(2) [OF that] that by (auto simp: timer_keys_ok_def intro: deadline_mono)
  with f(1) show ?thesis by (auto simp: ti_earliest_def Some e is_least_def)
qed

text \<open>The times at which the queue needs the sweeper.\<close>

definition deadlines :: "abs_queue \<Rightarrow> u64 \<Rightarrow> i64 set" where
  "deadlines A retention_ms =
     {d. \<exists>j x a. fmlookup (a_jobs A) j = Some x \<and> (aj_place x = InScheduled d a \<or> aj_place x = InFlight d a)}
     \<union> {dv_deadline (dp_value u) | k u. fmlookup (a_dedup A) k = Some u}
     \<union> {d. \<exists>q. fmlookup (a_closing A) q = Some d}
     \<union> (if retention_ms = 0 then {}
        else {i64_saturating_add (dd_failed_at x) (i64_of_u64 retention_ms) | j x. fmlookup (a_dead A) j = Some x})"

lemma is_least_image:
  assumes "is_least D m" and "\<And>x y. x \<le> y \<Longrightarrow> f x \<le> f y"
  shows "is_least (f ` D) (map_option f m)"
  using assms by (cases m) (auto simp: is_least_def)

context storage
begin

lemma timer_deadlines:
  assumes rep: "reps s A"
  shows "{deadline_of k | k q. fmlookup (ti_keys (ix_scheduled (st_ix s))) k = Some q}
      = {d. \<exists>j x a. fmlookup (a_jobs A) j = Some x \<and> aj_place x = InScheduled d a}" (is "?S = _")
    and "{deadline_of k | k q. fmlookup (ti_keys (ix_leases (st_ix s))) k = Some q}
      = {d. \<exists>j x a. fmlookup (a_jobs A) j = Some x \<and> aj_place x = InFlight d a}" (is "?L = _")
    and "{deadline_of k | k q. fmlookup (ti_keys (ix_dedup_timers (st_ix s))) k = Some q}
      = {dv_deadline (dp_value u) | k u. fmlookup (a_dedup A) k = Some u}" (is "?U = _")
    and "{deadline_of k | k q. fmlookup (ti_keys (ix_dead_letter (st_ix s))) k = Some q}
      = {dd_failed_at x | j x. fmlookup (a_dead A) j = Some x}" (is "?D = _")
proof -
  note J = repsD(1) [OF rep] and D = repsD(2) [OF rep] and U = repsD(3) [OF rep]
  have six: "(fmlookup (ti_keys (ix_scheduled (st_ix s))) k = Some q) =
      (\<exists>j x. fmlookup (a_jobs A) j = Some x \<and> six_view j x = Some (k, q))" for k q
    using jobs_rep_keyed(3) [OF J] unfolding keyed_def by blast
  have lix: "(fmlookup (ti_keys (ix_leases (st_ix s))) k = Some q) =
      (\<exists>j x. fmlookup (a_jobs A) j = Some x \<and> lix_view j x = Some (k, q))" for k q
    using jobs_rep_keyed(4) [OF J] unfolding keyed_def by blast
  have uix: "(fmlookup (ti_keys (ix_dedup_timers (st_ix s))) k = Some q) =
      (\<exists>j u. fmlookup (a_dedup A) j = Some u \<and> uix_view j u = Some (k, q))" for k q
    using U unfolding dedup_rep_def keyed_def by blast
  have dl1: "deadline_of (TimerKey_encode d j) = d" if "fmlookup (a_jobs A) j = Some x" "aj_place x = InScheduled d a" for j x d a
    using place_deadline_ok(1) [OF jobs_rep_ok [OF J that(1)] that(2)] by (simp add: byte_simps)
  have dl2: "deadline_of (TimerKey_encode d j) = d" if "fmlookup (a_jobs A) j = Some x" "aj_place x = InFlight d a" for j x d a
    using place_deadline_ok(2) [OF jobs_rep_ok [OF J that(1)] that(2)] by (simp add: byte_simps)
  have dl3: "deadline_of (dedup_timer k u) = dv_deadline (dp_value u)" if "fmlookup (a_dedup A) k = Some u" for k u
    using U that by (simp add: dedup_rep_def adedup_ok_def dedup_timer_def byte_simps)
  have dl4: "deadline_of (dead_key j x) = dd_failed_at x" if "fmlookup (a_dead A) j = Some x" for j x
    using D that by (simp add: dead_rep_def adead_ok_def dead_key_def queue_ok_def byte_simps)
  show "?S = {d. \<exists>j x a. fmlookup (a_jobs A) j = Some x \<and> aj_place x = InScheduled d a}"
  proof (intro Collect_cong iffI)
    fix d assume "\<exists>k q. d = deadline_of k \<and> fmlookup (ti_keys (ix_scheduled (st_ix s))) k = Some q"
    then show "\<exists>j x a. fmlookup (a_jobs A) j = Some x \<and> aj_place x = InScheduled d a"
      unfolding six by (fastforce simp: six_view_def dest: dl1 split: place.splits)
  next
    fix d assume "\<exists>j x a. fmlookup (a_jobs A) j = Some x \<and> aj_place x = InScheduled d a"
    then obtain j x a where x: "fmlookup (a_jobs A) j = Some x" "aj_place x = InScheduled d a" by blast
    then have "six_view j x = Some (TimerKey_encode d j, aj_queue x)" by (simp add: six_view_def)
    with x dl1 [OF x] show "\<exists>k q. d = deadline_of k \<and> fmlookup (ti_keys (ix_scheduled (st_ix s))) k = Some q"
      unfolding six by metis
  qed
  show "?L = {d. \<exists>j x a. fmlookup (a_jobs A) j = Some x \<and> aj_place x = InFlight d a}"
  proof (intro Collect_cong iffI)
    fix d assume "\<exists>k q. d = deadline_of k \<and> fmlookup (ti_keys (ix_leases (st_ix s))) k = Some q"
    then show "\<exists>j x a. fmlookup (a_jobs A) j = Some x \<and> aj_place x = InFlight d a"
      unfolding lix by (fastforce simp: lix_view_def dest: dl2 split: place.splits)
  next
    fix d assume "\<exists>j x a. fmlookup (a_jobs A) j = Some x \<and> aj_place x = InFlight d a"
    then obtain j x a where x: "fmlookup (a_jobs A) j = Some x" "aj_place x = InFlight d a" by blast
    then have "lix_view j x = Some (TimerKey_encode d j, aj_queue x)" by (simp add: lix_view_def)
    with x dl2 [OF x] show "\<exists>k q. d = deadline_of k \<and> fmlookup (ti_keys (ix_leases (st_ix s))) k = Some q"
      unfolding lix by metis
  qed
  show "?U = {dv_deadline (dp_value u) | k u. fmlookup (a_dedup A) k = Some u}"
    unfolding uix uix_view_def using dl3 by (metis (no_types, lifting) option.inject prod.inject)
  show "?D = {dd_failed_at x | j x. fmlookup (a_dead A) j = Some x}"
    unfolding dead_index [OF rep] using dl4 by metis
qed

lemma next_deadline_least:
  fixes s :: "'tx st"
  assumes "represents P (txv (st_tx s)) (st_ix s) A"
  shows "is_least (deadlines A r) (next_deadline (st_ix s) r)"
proof -
  have rep: "reps s A" using assms by (simp add: reps_def)
  let ?D = "{dd_failed_at x | j x. fmlookup (a_dead A) j = Some x}"
  note t = timer_deadlines [OF rep] and ok = timer_keys_ok_reps [OF rep]
  have closing: "is_least {d. \<exists>q. fmlookup (a_closing A) q = Some d}
      (min_opt (map (Some \<circ> snd) (sorted_list_of_fmap (ix_closing (st_ix s)))))"
  proof -
    have "set (map snd (sorted_list_of_fmap (a_closing A))) = {d. \<exists>q. fmlookup (a_closing A) q = Some d}"
      by (auto simp: set_sorted_list_of_fmap image_iff) (metis set_sorted_list_of_fmap snd_conv)
    with is_least_values [of "map snd (sorted_list_of_fmap (a_closing A))"] closing_index [OF rep]
    show ?thesis by simp
  qed
  have dead: "is_least (if r = 0 then {} else (\<lambda>f. i64_saturating_add f (i64_of_u64 r)) ` ?D)
      (if r > 0 then map_option (\<lambda>f. i64_saturating_add f (i64_of_u64 r)) (ti_earliest (ix_dead_letter (st_ix s))) else None)"
    using is_least_image [OF earliest_least [OF ok(4), unfolded t(4)] i64_saturating_add_le] by simp
  have img: "(\<lambda>f. i64_saturating_add f (i64_of_u64 r)) ` ?D =
      {i64_saturating_add (dd_failed_at x) (i64_of_u64 r) | j x. fmlookup (a_dead A) j = Some x}" by blast
  have "is_least ({d. \<exists>j x a. fmlookup (a_jobs A) j = Some x \<and> aj_place x = InScheduled d a} \<union>
      ({d. \<exists>j x a. fmlookup (a_jobs A) j = Some x \<and> aj_place x = InFlight d a} \<union>
      ({dv_deadline (dp_value u) | k u. fmlookup (a_dedup A) k = Some u} \<union>
      ({d. \<exists>q. fmlookup (a_closing A) q = Some d} \<union>
      ((if r = 0 then {} else (\<lambda>f. i64_saturating_add f (i64_of_u64 r)) ` ?D) \<union> {}))))) (next_deadline (st_ix s) r)"
    unfolding next_deadline_def Let_def
    by (intro is_least_Un earliest_least [OF ok(1), unfolded t(1)] earliest_least [OF ok(2), unfolded t(2)]
        earliest_least [OF ok(3), unfolded t(3)] closing dead) simp
  then show ?thesis by (rule back_subst [of "\<lambda>D. is_least D _"]) (auto simp: deadlines_def img)
qed

end

text \<open>
  The committer sleeps exactly as long as it may: \<open>next_deadline\<close> is the earliest time at which
  a scheduled job, a lease, a deduplication record, a close tombstone or (with retention on) a dead
  letter is due, and there is none exactly when nothing is pending.
\<close>

lemma next_deadline_is_earliest:
  fixes s :: "'tx st"
  assumes "storage P E txv dbv" and "represents P (txv (st_tx s)) (st_ix s) A"
  shows "case next_deadline (st_ix s) retention_ms of
      None \<Rightarrow> deadlines A retention_ms = {}
    | Some d \<Rightarrow> d \<in> deadlines A retention_ms \<and> (\<forall>e \<in> deadlines A retention_ms. d \<le> e)"
  using storage.next_deadline_least [OF assms] by (simp add: is_least_def)

lemma next_deadline_is_earliest_witness:
  "case next_deadline (st_ix (demo_st (demo (InScheduled 100 1)))) 0 of
      None \<Rightarrow> deadlines (demo (InScheduled 100 1)) 0 = {}
    | Some d \<Rightarrow> d \<in> deadlines (demo (InScheduled 100 1)) 0 \<and> (\<forall>e \<in> deadlines (demo (InScheduled 100 1)) 0. d \<le> e)"
  by (rule next_deadline_is_earliest [OF mem.storage_axioms demo_rep [OF demo_ok [OF demo_places(3)]]])

end
