(* ===== verification/Server_Properties.thy ===== *)
theory Server_Properties
  imports Example
begin

text \<open>
  The properties of the committer thread and of opening a database (\<open>run_committer\<close>,
  \<open>run_rpc_cycle\<close>, \<open>run_sweep_cycle\<close>, \<open>apply_op\<close>, \<open>rebuild_indexes\<close> and \<open>Storage::open\<close> of
  \<open>src/storage.rs\<close>).
\<close>

section \<open>Runs\<close>

text \<open>
  C1: the invariant of the server. In every state reached from an empty database by turns of the
  committer loop (sweeps and batches of commands, whatever they are, with failed operations, refused
  commands and failed commits) and by restarts, the database and the in-memory indexes stand for one
  abstract queue: every job is in exactly one of ready, scheduled and in flight, every index mirrors
  its keyspace, no row is orphaned, and that queue was reached by steps of the job life cycle.
\<close>

theorem server_state_is_a_queue:
  assumes "reliable_storage P E txv dbv" and "represents P (dbv (co_db c0)) (co_ix c0) A0"
    and "a_jobs A0 = fmempty" and "a_dead A0 = fmempty" and "run P E params c0 used c"
  shows "\<exists>es A. arun A0 es A \<and> represents P (dbv (co_db c)) (co_ix c) A \<and> ids_within A used"
  by (rule reliable_storage.run_represents [OF assms])

theorem server_state_is_a_queue_witness:
  "\<exists>c. run prost_ref mem_engine demo_params (demo_committer abs_empty) {''j2''} c
     \<and> (\<exists>es A. arun abs_empty es A \<and> represents prost_ref (mem_view (co_db c)) (co_ix c) A \<and> ids_within A {''j2''})"
proof -
  let ?c0 = "demo_committer abs_empty" and ?rpcs = "[CmdOp (OpEnqueue [demo_pj] 0) 1]"
  obtain replies c where t: "turn prost_ref mem_engine demo_params ?c0 demo_clock ?rpcs replies c"
    using mem_turn by blast
  have "clock_ok demo_clock" "list_all cmd_ok ?rpcs" "concat (map cmd_ids ?rpcs) = [''j2'']"
    using demo_pj_ok by (simp_all add: clock_ok_def demo_clock_def)
  then have r: "run prost_ref mem_engine demo_params ?c0 ({} \<union> set (concat (map cmd_ids ?rpcs))) c"
    by (intro run.step [OF run.start t]) simp_all
  then have "run prost_ref mem_engine demo_params ?c0 {''j2''} c" by simp
  moreover from server_state_is_a_queue [OF mem_reliable demo_committer_rep [OF abs_empty_ok] _ _ this]
  have "\<exists>es A. arun abs_empty es A \<and> represents prost_ref (mem_view (co_db c)) (co_ix c) A \<and> ids_within A {''j2''}"
    by (simp add: abs_empty_def)
  ultimately show ?thesis by blast
qed

section \<open>Cycles\<close>

text \<open>
  C2: a batch of commands (\<open>run_rpc_cycle\<close>) is applied completely or not at all. Either all of it
  was applied in order and committed, and the database and the indexes stand for the queue after
  those steps; or the database holds what it held before, the indexes are again what they were, and
  no caller is told that an operation was done. So no success is reported that is not committed.
\<close>

theorem batch_commits_or_rolls_back:
  assumes "reliable_storage P E txv dbv" and "represents P (dbv db) ix A" and "batch_ok A rpcs"
    and "0 \<le> now" and "i64_ok now" and "r = run_rpc_cycle P E params now rpcs db ix" and "\<not> cr_panicked r"
  shows "(\<exists>es B. arun A es B \<and> enqueues_only (concat (map cmd_ids rpcs)) es \<and> represents P (dbv (cr_db r)) (cr_ix r) B
      \<and> (\<exists>b. apply_commands P E now rpcs \<lparr>b_st = begin_cycle E params db ix, b_sent = [], b_parked = []\<rparr> = (None, b)
          \<and> dbv (cr_db r) = txv (st_tx (b_st b))))
    \<or> dbv (cr_db r) = dbv db \<and> cr_ix r = ix \<and> (\<forall>x \<in> set (cr_replies r). \<not> is_done x)"
  by (rule reliable_storage.rpc_cycle_refines [OF assms])

theorem batch_commits_or_rolls_back_witness:
  "let r = run_rpc_cycle prost_ref mem_engine demo_params 10 [CmdOp (OpAck ''j1'' 1) 7]
      (rows_of prost_ref (demo (InFlight 100 1))) (index_of prost_ref (demo (InFlight 100 1)))
   in (\<exists>es B. arun (demo (InFlight 100 1)) es B \<and> represents prost_ref (mem_view (cr_db r)) (cr_ix r) B)"
proof -
  let ?A = "demo (InFlight 100 1)"
  let ?r = "run_rpc_cycle prost_ref mem_engine demo_params 10 [CmdOp (OpAck ''j1'' 1) 7] (rows_of prost_ref ?A) (index_of prost_ref ?A)"
  have rep: "represents prost_ref (mem_view (rows_of prost_ref ?A)) (index_of prost_ref ?A) ?A"
    using canonical_rep [OF demo_ok [OF demo_places(2)]] by (simp add: mem_view_def)
  have "batch_ok ?A [CmdOp (OpAck ''j1'' 1) 7]" by (simp add: batch_ok_def unused_def)
  from batch_commits_or_rolls_back [OF mem_reliable rep this _ _ refl mem_no_panic(1), of 10 demo_params]
  have "(\<exists>es B. arun ?A es B \<and> represents prost_ref (mem_view (cr_db ?r)) (cr_ix ?r) B)
      \<or> mem_view (cr_db ?r) = mem_view (rows_of prost_ref ?A) \<and> cr_ix ?r = index_of prost_ref ?A" by auto
  with rep show ?thesis unfolding Let_def by (metis arun_Nil)
qed

text \<open>
  C14: every caller is answered exactly once: whatever the batch holds and however it ends, the
  replies of a cycle that does not abort the process are one for each command, and go to the
  responders of the commands.
\<close>

theorem every_command_answered_once:
  assumes "\<not> cr_panicked (run_rpc_cycle P E params now rpcs db ix)"
  shows "mset (map fst (cr_replies (run_rpc_cycle P E params now rpcs db ix))) = mset (map cmd_resp rpcs)"
  by (rule rpc_cycle_replies [OF assms])

theorem every_command_answered_once_witness:
  "mset (map fst (cr_replies (run_rpc_cycle prost_ref mem_engine demo_params 10
      [CmdOp (OpAck ''j1'' 1) 7, CmdQueueDepths ''q'' 8] (\<lambda>_. fmempty) ix_default))) = {#7, 8#}"
  using every_command_answered_once [OF mem_no_panic(1), of prost_ref demo_params 10
      "[CmdOp (OpAck ''j1'' 1) 7, CmdQueueDepths ''q'' 8]" "\<lambda>_. fmempty" ix_default] by simp

text \<open>
  C15: an operation that is refused changes nothing. When \<open>apply_op\<close> returns an error that is not
  an internal one (not found, failed precondition, invalid argument), the transaction, the indexes
  and the metrics of the cycle are exactly what they were, whatever the state and the engine, so the
  rest of the batch can go on and commit.
\<close>

theorem refused_operation_changes_nothing:
  assumes "apply_op P E op s = (Inl e, s')" and "st_code e \<noteq> Internal"
  shows "s' = s"
  by (rule apply_op_rejected [OF assms])

theorem refused_operation_changes_nothing_witness:
  "snd (apply_op prost_ref mem_engine (OpDeadLetterJobs ''q'' PeekInflight [] None True 0) (demo_st abs_empty)) = demo_st abs_empty"
proof -
  let ?r = "apply_op prost_ref mem_engine (OpDeadLetterJobs ''q'' PeekInflight [] None True 0) (demo_st abs_empty)"
  have "?r = (Inl (Status InvalidArgument ''only ready or scheduled jobs can be dead-lettered''), snd ?r)"
    by (simp add: apply_dead_letter_jobs_def wrap_def)
  from refused_operation_changes_nothing [OF this] show ?thesis by simp
qed

text \<open>
  C16: on a store that reads without errors, in a state that stands for a queue, no operation fails
  with an internal error: it returns its outcome or a refusal. In particular no stored value is
  ever found corrupt, and every loop returns. The one resource that can run out is the 64-bit
  sequence number of the audit log.
\<close>

theorem no_internal_errors:
  assumes "reliable_storage P E txv dbv" and "represents P (txv (st_tx s)) (st_ix s) A"
    and "audit_rep P (txv (st_tx s)) rs" and "length rs < u64_max"
  shows "case apply_op P E op s of (Inl e, s') \<Rightarrow> st_code e \<noteq> Internal \<and> s' = s | (Inr out, s') \<Rightarrow> True"
proof -
  have "storage P E txv dbv" using assms(1) by (simp add: reliable_storage_def)
  with assms(2) have rep: "storage.reps P txv s A" by (simp add: storage.reps_def)
  note no = reliable_storage.apply_op_no_internal [OF assms(1) rep assms(3,4)]
  show ?thesis using no [of op] apply_op_rejected [of P E op s] by (cases "apply_op P E op s"; cases "fst (apply_op P E op s)") auto
qed

theorem no_internal_errors_witness:
  "case apply_op prost_ref mem_engine (OpAck ''j1'' 2) (demo_st (demo (InFlight 100 1))) of
     (Inl e, s') \<Rightarrow> st_code e \<noteq> Internal \<and> s' = demo_st (demo (InFlight 100 1)) | (Inr out, s') \<Rightarrow> True"
proof -
  have "audit_rep prost_ref (mem_view (st_tx (demo_st (demo (InFlight 100 1))))) []"
    by (simp add: image_of_empty audit_rep_def demo_st_def mem_view_def rows_of_def demo_def AUDIT_SEQ_KEY_def u64_max_def)
  from this show ?thesis
    by (rule no_internal_errors [where txv = mem_view, OF mem_reliable demo_rep [OF demo_ok [OF demo_places(2)]]])
      (simp add: u64_max_def)
qed

section \<open>Opening and recovery\<close>

text \<open>
  C12: recovery is exact. Whatever the committer has done, the indexes that a restart rebuilds from
  the committed database (\<open>rebuild_indexes\<close>, also used to resync after a failed commit) are equal to
  the indexes the committer holds: the same keys, the same values, the same per-queue counters and the
  same tombstones.
\<close>

theorem recovery_rebuilds_exact_indexes:
  assumes "reliable_storage P E txv dbv" and "represents P (dbv db) ix A"
  shows "rebuild_indexes P E db = Inr ix"
  by (rule reliable_storage.rebuild_exact [OF assms])

theorem recovery_rebuilds_exact_indexes_witness:
  "rebuild_indexes prost_ref mem_engine (rows_of prost_ref (demo (InReady 1))) = Inr (index_of prost_ref (demo (InReady 1)))"
  by (rule recovery_rebuilds_exact_indexes [OF mem_reliable])
    (use canonical_rep [OF demo_ok [OF demo_places(1)]] in \<open>simp add: mem_view_def\<close>)

end
