(* ===== verification/Admin_Properties.thy ===== *)
theory Admin_Properties
  imports Example Dead_Spec
begin

text \<open>
  The properties of the operator's operations of \<open>src/storage.rs\<close>: draining, requeueing and deleting
  dead letters, dead-lettering live jobs, purging and closing a queue, the audit log, the depth
  counters.
\<close>

section \<open>Draining dead letters\<close>

lemma arun_buried: "arun A (map Buried js) B \<Longrightarrow> B = A\<lparr>a_dead := fmdrop_set (set js) (a_dead A)\<rparr>"
proof (induction js arbitrary: A)
  case Nil
  then have "B = A" by auto
  moreover have "fmdrop_set {} (a_dead A) = a_dead A" by (intro fmap_ext) simp
  ultimately show ?case by simp
next
  case (Cons j js)
  then obtain C where C: "astep A (Buried j) C" "arun C (map Buried js) B" by (auto elim: arun_ConsE)
  then have "C = A\<lparr>a_dead := fmdrop j (a_dead A)\<rparr>" by (auto elim: astep.cases)
  moreover have "fmdrop_set (set js) (fmdrop j (a_dead A)) = fmdrop_set (set (j # js)) (a_dead A)"
    by (intro fmap_ext) auto
  ultimately show ?case using Cons.IH [OF C(2)] by simp
qed

definition wants :: "str option \<Rightarrow> adead \<Rightarrow> bool" where
  "wants queue d = (case queue of Some q \<Rightarrow> q = dd_queue d | None \<Rightarrow> True)"

text \<open>
  The records \<open>js\<close> that a drain takes: wanted, oldest first, at most \<open>mx\<close>; what is left of the
  wanted ones is younger and is there only because the limit was reached.
\<close>

definition drained :: "str option \<Rightarrow> nat \<Rightarrow> abs_queue \<Rightarrow> str list \<Rightarrow> bool" where
  "drained queue mx A js \<longleftrightarrow> distinct js \<and> length js \<le> mx
     \<and> (\<forall>j \<in> set js. \<exists>d. fmlookup (a_dead A) j = Some d \<and> wants queue d)
     \<and> sorted_wrt (\<lambda>i j. dead_key i (the (fmlookup (a_dead A) i)) < dead_key j (the (fmlookup (a_dead A) j))) js
     \<and> (\<forall>i d. fmlookup (a_dead A) i = Some d \<longrightarrow> wants queue d \<longrightarrow> i \<notin> set js \<longrightarrow>
          length js = mx \<and> (\<forall>j \<in> set js. dead_key j (the (fmlookup (a_dead A) j)) < dead_key i d))"

lemma sorted_take_before:
  fixes xs :: "'a::linorder list"
  assumes "sorted xs" "distinct xs" "y \<in> set xs" "y \<notin> set (take n xs)" "x \<in> set (take n xs)"
  shows "x < y"
proof -
  have app: "take n xs @ drop n xs = xs" by simp
  have y: "y \<in> set (drop n xs)" using assms(3,4) app by (metis Un_iff set_append)
  from assms(1) app have "x \<le> y" using y assms(5) by (metis sorted_append)
  moreover have "x \<noteq> y" using assms(4,5) by blast
  ultimately show ?thesis by simp
qed

context reliable_storage
begin

lemma drain_refines_spec:
  assumes "represents P (txv (st_tx s)) (st_ix s) A" and cap: "card (fmdom' (ti_keys (ix_dead_letter (st_ix s)))) \<le> cap"
  shows "\<exists>js s'. apply_drain P E queue mx cap s = (Inr (map (\<lambda>j. dd_record (the (fmlookup (a_dead A) j))) js), s')
    \<and> drained queue mx A js
    \<and> represents P (txv (st_tx s')) (st_ix s') (A\<lparr>a_dead := fmdrop_set (set js) (a_dead A)\<rparr>)"
proof -
  have rep: "reps s A" using assms by (simp add: reps_def)
  let ?L = "ti_iter_oldest (ix_dead_letter (st_ix s))" and ?f = "\<lambda>(k, q). case queue of Some want \<Rightarrow> want = q | None \<Rightarrow> True"
  let ?K = "map fst (filter ?f ?L)" and ?id = "\<lambda>k. the (DeadLetterKey_job_id k)"
  have all: "take cap ?L = ?L" using cap by (simp add: ti_iter_oldest_def length_sorted_list_of_fmap)
  obtain out s' where run: "apply_drain P E queue mx cap s = (Inr out, s')"
    using drain_total [of "drain_choose queue mx cap 0 [] ?L" "[]" s]
    by (auto simp: apply_drain_def Let_def split: prod.splits sum.splits if_splits)
  define js where "js = map ?id (take mx ?K)"
  note d = apply_drain_refines [OF rep run, unfolded all, folded js_def]
  obtain A' where A': "arun A (map Buried js) A'" "reps s' A'" using d(2) by blast
  have key: "DeadLetterKey_job_id (dead_key j x) = Some j" if "fmlookup (a_dead A) j = Some x" for j x
    using dead_key_job_id repsD(2) [OF rep] that by (simp add: dead_rep_def)
  let ?kd = "\<lambda>j. dead_key j (the (fmlookup (a_dead A) j))"
  have K: "k \<in> set ?K \<longleftrightarrow> (\<exists>j x. fmlookup (a_dead A) j = Some x \<and> wants queue x \<and> k = dead_key j x)" for k
  proof -
    have "k \<in> set ?K \<longleftrightarrow> (\<exists>q. (k, q) \<in> set ?L \<and> ?f (k, q))" by force
    also have "\<dots> \<longleftrightarrow> (\<exists>q. fmlookup (ti_keys (ix_dead_letter (st_ix s))) k = Some q \<and> ?f (k, q))"
      by (simp add: ti_iter_oldest_def set_sorted_list_of_fmap)
    also have "\<dots> \<longleftrightarrow> (\<exists>j x. fmlookup (a_dead A) j = Some x \<and> ?f (k, dd_queue x) \<and> k = dead_key j x)"
      unfolding dead_index [OF rep] by blast
    finally show ?thesis by (simp add: wants_def)
  qed
  have back_key: "?kd (?id k) = k \<and> (\<exists>x. fmlookup (a_dead A) (?id k) = Some x \<and> wants queue x)" if "k \<in> set ?K" for k
    using that key unfolding K by fastforce
  have "sorted ?K" "distinct ?K"
    unfolding ti_iter_oldest_def
    by (rule sorted_filter [OF sorted_fst_sorted_list_of_fmap], rule distinct_map_filter [OF distinct_fst_sorted_list_of_fmap])
  note K_order = this
  have kds: "map ?kd js = take mx ?K"
    unfolding js_def map_map using back_key by (intro map_idI) (auto dest: in_set_takeD)
  have "sorted_wrt (<) ?K" using K_order strict_sorted_iff by blast
  then have "sorted_wrt (<) (take mx ?K)" by (rule sorted_wrt_take)
  then have srt: "sorted_wrt (\<lambda>i j. ?kd i < ?kd j) js" unfolding kds [symmetric] by (simp add: sorted_wrt_map)
  have "distinct (map ?kd js)" unfolding kds by (rule distinct_take [OF K_order(2)])
  then have dist: "distinct js" by (simp add: distinct_map)
  have len: "length js = length (take mx ?K)" by (simp add: js_def)
  have left: "length js = mx \<and> (\<forall>j \<in> set js. ?kd j < dead_key i x)"
    if i: "fmlookup (a_dead A) i = Some x" "wants queue x" "i \<notin> set js" for i x
  proof -
    have in_K: "dead_key i x \<in> set ?K" using K i(1,2) by blast
    have out_K: "dead_key i x \<notin> set (take mx ?K)"
    proof
      assume "dead_key i x \<in> set (take mx ?K)"
      then have "?id (dead_key i x) \<in> set js" unfolding js_def set_map by (rule imageI)
      with key [OF i(1)] i(3) show False by simp
    qed
    then have "\<not> length ?K \<le> mx" using in_K by (metis take_all)
    moreover have "?kd j < dead_key i x" if "j \<in> set js" for j
    proof (rule sorted_take_before [OF K_order in_K out_K])
      show "?kd j \<in> set (take mx ?K)" unfolding kds [symmetric] set_map by (rule imageI [OF that])
    qed
    ultimately show ?thesis using len by simp
  qed
  have "\<forall>j \<in> set js. \<exists>x. fmlookup (a_dead A) j = Some x \<and> wants queue x"
    unfolding js_def using back_key by (auto dest: in_set_takeD)
  then have "drained queue mx A js" unfolding drained_def using dist srt left len by auto
  moreover have "represents P (txv (st_tx s')) (st_ix s') (A\<lparr>a_dead := fmdrop_set (set js) (a_dead A)\<rparr>)"
    using A' arun_buried by (auto simp: reps_def)
  ultimately show ?thesis using run d(1) by blast
qed

text \<open>Requeueing and deleting, over the keys a caller names.\<close>

lemma requeue_refines_spec:
  assumes "represents P (txv (st_tx s)) (st_ix s) A" and "0 \<le> now" and "i64_ok now"
    and "by_key (revive P now) q keys A = (ids, B)"
  shows "\<exists>s'. apply_requeue_dead_letters P E q keys now s =
      (Inr \<lparr>ro_requeued = length ids, ro_missing = length keys - length ids, ro_job_ids = ids\<rparr>, s')
    \<and> represents P (txv (st_tx s')) (st_ix s') B"
  using requeue_loop_spec [OF assms(1) [folded reps_def] assms(2,3), of q "\<lparr>ro_requeued = 0, ro_missing = 0, ro_job_ids = []\<rparr>" keys]
    assms(4) by (simp add: apply_requeue_dead_letters_def reps_def)

lemma delete_refines_spec:
  assumes "represents P (txv (st_tx s)) (st_ix s) A" and "by_key bury q keys A = (ids, B)"
  shows "\<exists>s'. apply_delete_dead_letters E q keys s =
      (\<lparr>do_deleted = length ids, do_missing = length keys - length ids, do_job_ids = ids\<rparr>, s')
    \<and> represents P (txv (st_tx s')) (st_ix s') B"
  using delete_loop_spec [OF assms(1) [folded reps_def], of q "\<lparr>do_deleted = 0, do_missing = 0, do_job_ids = []\<rparr>" keys]
    assms(2) by (simp add: apply_delete_dead_letters_def reps_def)

lemma purge_chunk_spec:
  assumes "represents P (txv (st_tx s)) (st_ix s) A" and q: "length q < 65536"
  shows "if in_flight A q
    then apply_purge_queue_chunk E q mx s = (Inl (Status FailedPrecondition ''queue has in-flight jobs''), s)
    else \<exists>s' n B. apply_purge_queue_chunk E q mx s = (Inr \<lparr>po_purged = n, po_remaining = has_entries B q\<rparr>, s')
      \<and> represents P (txv (st_tx s')) (st_ix s') B \<and> purged_from q A B
      \<and> n \<le> mx \<and> (has_entries B q \<longrightarrow> n = mx)"
proof -
  have rep: "reps s A" using assms by (simp add: reps_def)
  obtain r s' where run: "apply_purge_queue_chunk E q mx s = (r, s')" by fastforce
  show ?thesis
  proof (cases "in_flight A q")
    case True
    with apply_purge_refused [OF rep] show ?thesis by simp
  next
    case False
    from apply_purge_refines [OF rep q False run] run False show ?thesis unfolding reps_def by auto
  qed
qed

lemma depth_counts_spec:
  fixes s :: "'tx st"
  assumes "represents P (txv (st_tx s)) (st_ix s) A"
  shows "depth_counts (st_ix s) q =
    \<lparr>qd_ready = card {j. \<exists>x a. fmlookup (a_jobs A) j = Some x \<and> aj_queue x = q \<and> aj_place x = InReady a},
     qd_scheduled = card {j. \<exists>x d a. fmlookup (a_jobs A) j = Some x \<and> aj_queue x = q \<and> aj_place x = InScheduled d a},
     qd_inflight = card {j. \<exists>x d a. fmlookup (a_jobs A) j = Some x \<and> aj_queue x = q \<and> aj_place x = InFlight d a},
     qd_dead_letter = card {j. \<exists>x. fmlookup (a_dead A) j = Some x \<and> dd_queue x = q}\<rparr>"
proof -
  have rep: "reps s A" using assms by (simp add: reps_def)
  note D = repsD(2) [OF rep]
  have "tix.consistent (ix_dead_letter (st_ix s))" "keyed dix_view (a_dead A) (ti_keys (ix_dead_letter (st_ix s)))"
    using D by (simp_all add: dead_rep_def)
  then have "queue_count (ti_by_queue (ix_dead_letter (st_ix s))) q
      = card {j. \<exists>x. fmlookup (a_dead A) j = Some x \<and> dd_queue x = q}"
    using keyed_count [OF _ key_inj_dead(2), of "a_dead A" "ti_keys (ix_dead_letter (st_ix s))"] D
    by (simp add: tix.count_eq ti_owner_def dead_rep_def dix_view_def)
  with counts_by_place [OF rep] show ?thesis by (simp add: depth_counts_def)
qed

end



text \<open>
  C21: requeueing dead letters by key (\<open>apply_requeue_dead_letters\<close>) turns each record the keys name
  in the queue into a ready job on attempt 1 with the same id, queue and payload, enqueued now, and
  removes the record; a key that names no record of the queue, also one named twice, is counted as
  missing and changes nothing. The operation always returns.
\<close>

theorem requeue_revives_named_records:
  assumes "reliable_storage P E txv dbv" and "represents P (txv (st_tx s)) (st_ix s) A"
    and "0 \<le> now" and "i64_ok now" and "by_key (revive P now) q keys A = (ids, B)"
  shows "\<exists>s'. apply_requeue_dead_letters P E q keys now s =
      (Inr \<lparr>ro_requeued = length ids, ro_missing = length keys - length ids, ro_job_ids = ids\<rparr>, s')
    \<and> represents P (txv (st_tx s')) (st_ix s') B"
  by (rule reliable_storage.requeue_refines_spec [OF assms])

theorem requeue_revives_named_records_witness:
  "\<exists>s'. apply_requeue_dead_letters prost_ref mem_engine ''q'' [demo_dead_key, demo_dead_key] 50 (demo_st demo_dead) =
      (Inr \<lparr>ro_requeued = 1, ro_missing = 1, ro_job_ids = [''j1'']\<rparr>, s')
    \<and> represents prost_ref (mem_view (st_tx s')) (st_ix s') (revive prost_ref 50 (''j1'', demo_adead) demo_dead)"
proof -
  have "by_key (revive prost_ref 50) ''q'' [demo_dead_key, demo_dead_key] demo_dead =
      ([''j1''], revive prost_ref 50 (''j1'', demo_adead) demo_dead)"
    using demo_dead_target by (simp add: dead_target_def revive_def demo_dead_def split: option.splits)
  from requeue_revives_named_records [OF mem_reliable demo_rep [OF demo_dead_ok] _ _ this] show ?thesis by simp
qed

text \<open>
  Deleting dead letters by key (\<open>apply_delete_dead_letters\<close>) removes exactly the records the
  keys name in the queue and reports their job ids; every other key is counted as missing.
\<close>

lemma delete_removes_named_records:
  assumes "reliable_storage P E txv dbv" and "represents P (txv (st_tx s)) (st_ix s) A"
    and "by_key bury q keys A = (ids, B)"
  shows "\<exists>s'. apply_delete_dead_letters E q keys s =
      (\<lparr>do_deleted = length ids, do_missing = length keys - length ids, do_job_ids = ids\<rparr>, s')
    \<and> represents P (txv (st_tx s')) (st_ix s') B"
  by (rule reliable_storage.delete_refines_spec [OF assms])

lemma delete_removes_named_records_witness:
  "\<exists>s'. apply_delete_dead_letters mem_engine ''q'' [demo_dead_key, demo_dead_key] (demo_st demo_dead) =
      (\<lparr>do_deleted = 1, do_missing = 1, do_job_ids = [''j1'']\<rparr>, s')
    \<and> represents prost_ref (mem_view (st_tx s')) (st_ix s') abs_empty"
proof -
  have "by_key bury ''q'' [demo_dead_key, demo_dead_key] demo_dead = ([''j1''], abs_empty)"
    using demo_dead_target
    by (simp add: dead_target_def bury_def demo_dead_def abs_empty_def fmdrop_upd_absent split: option.splits)
  from delete_removes_named_records [OF mem_reliable demo_rep [OF demo_dead_ok] this] show ?thesis by simp
qed



text \<open>
  C24: the audit log is append-only and gapless. An append (\<open>apply_audit_append\<close>) that succeeds
  stores the record under the next number, counted from 1, keeps every earlier record under its
  number, and returns that number; one that fails leaves the state as it was.
\<close>

theorem audit_log_gapless:
  assumes "storage P E txv dbv" and "audit_rep P (txv (st_tx s)) rs"
  shows "case apply_audit_append P E rec now s of
      (Inr seq, s') \<Rightarrow> seq = length rs + 1 \<and> audit_rep P (txv (st_tx s')) (rs @ [(now, rec)])
    | (Inl e, s') \<Rightarrow> s' = s"
proof -
  obtain r s' where run: "apply_audit_append P E rec now s = (r, s')" by fastforce
  show ?thesis
  proof (cases r)
    case (Inl e)
    with run storage.audit_append_unchanged [OF assms(1)] show ?thesis by auto
  next
    case (Inr seq)
    with run storage.audit_append_refines [OF assms, of rec now seq s'] show ?thesis by simp
  qed
qed

theorem audit_log_gapless_witness:
  "case apply_audit_append prost_ref mem_engine demo_audit 5 (demo_st abs_empty) of
      (Inr seq, s') \<Rightarrow> seq = 1 \<and> audit_rep prost_ref (mem_view (st_tx s')) [(5, demo_audit)]
    | (Inl e, s') \<Rightarrow> s' = demo_st abs_empty"
proof -
  have "audit_rep prost_ref (mem_view (st_tx (demo_st abs_empty))) []"
    by (simp add: audit_rep_def demo_st_def mem_view_def rows_of_def abs_empty_def)
  then have "case apply_audit_append prost_ref mem_engine demo_audit 5 (demo_st abs_empty) of
      (Inr seq, s') \<Rightarrow> seq = length ([] :: (i64 \<times> audit_record) list) + 1 \<and> audit_rep prost_ref (mem_view (st_tx s')) ([] @ [(5, demo_audit)])
    | (Inl e, s') \<Rightarrow> s' = demo_st abs_empty"
    by (rule audit_log_gapless [OF mem.storage_axioms])
  then show ?thesis by (auto split: prod.splits sum.splits)
qed

end
