(* ===== verification/Base_Properties.thy ===== *)
theory Base_Properties
  imports Example
begin

text \<open>
  The properties of the layers under the storage engine: stored values and times
  (\<open>src/keys.rs\<close>, \<open>src/pb.rs\<close>), logged operations (\<open>src/op.rs\<close>), configuration
  (\<open>src/config.rs\<close>, \<open>src/queues.rs\<close>) and request checks (\<open>src/validate.rs\<close>).
\<close>

section \<open>Stored values and times\<close>

text \<open>
  C40: what is written is read back as it was: a ready key, its priority clamped to at most 9
  (\<open>ReadyKey\<close>), a job with its queue (\<open>JobValue\<close>), an audit record with its time (\<open>AuditValue\<close>), a
  deduplication record (\<open>DedupValue\<close>), a lease (\<open>Inflight\<close>), except that an empty trace context comes
  back as none, and an operation in its protobuf form. Times survive the wire: in milliseconds they
  become a timestamp and come back unchanged, for every \<open>i64\<close> but the lowest 808 values, and durations
  for every \<open>u64\<close>.
\<close>

theorem stored_values_round_trip:
  assumes "prost_laws P" and "queue_ok q" and "job_ok j" and "i64_ok ts" and "audit_ok r"
    and "i64_ok (dv_enqueued_at v)" and "i64_ok (dv_deadline v)" and "utf8_valid (dv_job_id v)" and "inflight_ok i"
    and "utf8_valid jid" and "- 9223372036854775000 \<le> ts" and "n \<le> u64_max"
  shows "ReadyKey_decode (ReadyKey_encode \<lparr>rk_queue = q, rk_priority = p, rk_enqueued_at = ts, rk_job_id = jid\<rparr>) =
      Some \<lparr>rk_queue = q, rk_priority = min p 9, rk_enqueued_at = ts, rk_job_id = jid\<rparr>
    \<and> JobValue_decode P (JobValue_encode P q j) = Inr (q, j)
    \<and> AuditValue_decode P (AuditValue_encode P ts r) = Some (ts, r)
    \<and> DedupValue_decode (DedupValue_encode v) = Some v
    \<and> Inflight_decode P (Inflight_encode P i) = Inr (i\<lparr>if_trace_context := tc_stored (if_trace_context i)\<rparr>)
    \<and> Op_from_proto (Op_to_proto op) = Inr op
    \<and> timestamp_to_millis P (millis_to_timestamp P ts) = ts \<and> duration_to_millis P (millis_to_duration n) = n"
proof -
  have "Op_from_proto (Op_to_proto op) = Inr op" by (cases op) simp_all
  then show ?thesis
    using assms prost_laws.JobValue_decode_encode prost_laws.AuditValue_decode_encode prost_laws.Inflight_decode_encode
      prost_laws.timestamp_to_millis_inverse prost_laws.duration_round_trip
    by (simp add: DedupValue_decode_encode ReadyKey_decode_encode ready_key_ok_def)
qed

theorem stored_values_round_trip_witness:
  "JobValue_decode prost_ref (JobValue_encode prost_ref ''q'' demo_job) = Inr (''q'', demo_job)"
proof -
  let ?i = "mk_inflight prost_ref (demo_ajob (InFlight 100 1)) 100 1"
  have job: "job_ok demo_job" using demo_ajob_ok [OF demo_places(2)] by (simp add: ajob_ok_def demo_ajob_def)
  have i: "inflight_ok ?i"
    using demo_ajob_ok [OF demo_places(2)] by (simp add: inflight_ok_def mk_inflight_def ajob_ok_def demo_ajob_def demo_job_def)
  have audit: "audit_ok demo_audit" unfolding audit_ok_def demo_audit_def by code_simp
  from stored_values_round_trip [OF ref.prost_laws_axioms demo_queue_ok job _ audit _ _ _ i, of 5
      "\<lparr>dv_enqueued_at = 0, dv_deadline = 5, dv_job_id = ''j1''\<rparr>" "''j1''" 0]
  show ?thesis by simp
qed

section \<open>Configuration\<close>



end
