(* ===== verification/Read_Handle.thy ===== *)
theory Read_Handle
  imports Recovery Admin_Ops
begin

text \<open>
  \<open>ReadHandle\<close> of \<open>src/storage.rs\<close>: reads of a snapshot of the committed database, off the committer
  thread. The keys come from a peek of the indexes, so a row may be gone by the time it is read;
  such keys are skipped. The lemmas say what the reads report of the abstract queue the database
  stands for, and that walking the pages of the audit log lists every matching entry once, the
  newest first.
\<close>

section \<open>Jobs and dead letters\<close>

text \<open>\<open>Result::ok\<close>.\<close>

definition result_ok :: "'e + 'a \<Rightarrow> 'a option" where
  "result_ok r = (case r of Inl _ \<Rightarrow> None | Inr v \<Rightarrow> Some v)"

lemma result_ok_Some [simp]: "result_ok r = Some v \<longleftrightarrow> r = Inr v"
  by (auto simp: result_ok_def split: sum.splits)

lemma result_ok_Inr [simp]: "result_ok (Inr v) = Some v"
  by simp

datatype admin_job_state = AdminReady | AdminScheduled | AdminInflight

record admin_job =
  adj_key :: bytes
  adj_state :: admin_job_state
  adj_job :: job

record admin_dead_letter =
  adl_key :: bytes
  adl_record :: dead_letter_record

definition load_job :: "prost \<Rightarrow> ('db, 'tx) engine \<Rightarrow> 'db \<Rightarrow> str \<Rightarrow> job option" where
  "load_job P E snap job_id = do {
     stored \<leftarrow> ok_flatten (snap_get E snap Jobs job_id);
     (queue, job) \<leftarrow> result_ok (JobValue_decode P stored);
     Some (case ok_flatten (snap_get E snap Payloads job_id) of
         Some b \<Rightarrow> job\<lparr>j_queue := queue, j_payload := payload_decode P b\<rparr>
       | None \<Rightarrow> job\<lparr>j_queue := queue\<rparr>) }"

definition resolve_ready_key :: "prost \<Rightarrow> ('db, 'tx) engine \<Rightarrow> 'db \<Rightarrow> bytes \<Rightarrow> admin_job option" where
  "resolve_ready_key P E snap key = do {
     rk \<leftarrow> ReadyKey_decode key;
     v \<leftarrow> ok_flatten (snap_get E snap Ready key);
     attempt \<leftarrow> u32_first v;
     job \<leftarrow> load_job P E snap (rk_job_id rk);
     Some \<lparr>adj_key = key, adj_state = AdminReady, adj_job = job\<lparr>j_attempt := attempt\<rparr>\<rparr> }"

definition resolve_ready :: "prost \<Rightarrow> ('db, 'tx) engine \<Rightarrow> 'db \<Rightarrow> bytes list \<Rightarrow> admin_job list" where
  "resolve_ready P E snap keys = List.map_filter (resolve_ready_key P E snap) keys"

definition resolve_scheduled_key :: "prost \<Rightarrow> ('db, 'tx) engine \<Rightarrow> 'db \<Rightarrow> bytes \<Rightarrow> admin_job option" where
  "resolve_scheduled_key P E snap key = do {
     raw \<leftarrow> TimerKey_job_id key;
     job_id \<leftarrow> from_utf8 raw;
     v \<leftarrow> ok_flatten (snap_get E snap Scheduled key);
     attempt \<leftarrow> u32_first v;
     job \<leftarrow> load_job P E snap job_id;
     Some \<lparr>adj_key = key, adj_state = AdminScheduled, adj_job = job\<lparr>j_attempt := attempt\<rparr>\<rparr> }"

definition resolve_scheduled :: "prost \<Rightarrow> ('db, 'tx) engine \<Rightarrow> 'db \<Rightarrow> bytes list \<Rightarrow> admin_job list" where
  "resolve_scheduled P E snap keys = List.map_filter (resolve_scheduled_key P E snap) keys"

definition resolve_inflight_key :: "prost \<Rightarrow> ('db, 'tx) engine \<Rightarrow> 'db \<Rightarrow> bytes \<Rightarrow> admin_job option" where
  "resolve_inflight_key P E snap key = do {
     raw \<leftarrow> TimerKey_job_id key;
     job_id \<leftarrow> from_utf8 raw;
     stored \<leftarrow> ok_flatten (snap_get E snap Inflight job_id);
     inflight \<leftarrow> result_ok (Inflight_decode P stored);
     if if_lease_expires_at inflight \<noteq> deadline_of key then None
     else do {
       job \<leftarrow> load_job P E snap job_id;
       Some \<lparr>adj_key = key, adj_state = AdminInflight,
         adj_job = job\<lparr>j_attempt := if_attempt inflight,
           j_lease_expires_at := Some (millis_to_timestamp P (if_lease_expires_at inflight))\<rparr>\<rparr> } }"

definition resolve_inflight :: "prost \<Rightarrow> ('db, 'tx) engine \<Rightarrow> 'db \<Rightarrow> bytes list \<Rightarrow> admin_job list" where
  "resolve_inflight P E snap keys = List.map_filter (resolve_inflight_key P E snap) keys"

definition resolve_dead_letter_key ::
    "prost \<Rightarrow> ('db, 'tx) engine \<Rightarrow> 'db \<Rightarrow> bytes \<Rightarrow> admin_dead_letter option" where
  "resolve_dead_letter_key P E snap key = do {
     stored \<leftarrow> ok_flatten (snap_get E snap DeadLetter key);
     record \<leftarrow> dlr_decode P stored;
     Some \<lparr>adl_key = key, adl_record = record\<rparr> }"

definition resolve_dead_letters ::
    "prost \<Rightarrow> ('db, 'tx) engine \<Rightarrow> 'db \<Rightarrow> bytes list \<Rightarrow> admin_dead_letter list" where
  "resolve_dead_letters P E snap keys = List.map_filter (resolve_dead_letter_key P E snap) keys"

definition queue_of_inflight_job ::
    "prost \<Rightarrow> ('db, 'tx) engine \<Rightarrow> 'db \<Rightarrow> str \<Rightarrow> status + str option" where
  "queue_of_inflight_job P E snap job_id =
     (case snap_get E snap Inflight job_id of
        Inl e \<Rightarrow> Inl (stg_err e)
      | Inr None \<Rightarrow> Inr None
      | Inr (Some stored) \<Rightarrow>
          (case Inflight_decode P stored of Inl e \<Rightarrow> Inl e | Inr i \<Rightarrow> Inr (Some (if_queue i))))"

text \<open>
  \<open>get_job\<close> looks a job up by id. The key is rebuilt from the job record, so a job that a nack has
  scheduled again is reported as ready; the clock is an argument.
\<close>

definition get_job :: "prost \<Rightarrow> ('db, 'tx) engine \<Rightarrow> 'db \<Rightarrow> i64 \<Rightarrow> str \<Rightarrow> admin_job option" where
  "get_job P E snap now job_id =
     (let inflight = do {
            stored \<leftarrow> ok_flatten (snap_get E snap Inflight job_id);
            result_ok (Inflight_decode P stored) }
      in do {
        job \<leftarrow> load_job P E snap job_id;
        (case inflight of
           Some i \<Rightarrow> Some \<lparr>adj_key = TimerKey_encode (if_lease_expires_at i) job_id, adj_state = AdminInflight,
             adj_job = job\<lparr>j_attempt := if_attempt i,
               j_lease_expires_at := Some (millis_to_timestamp P (if_lease_expires_at i))\<rparr>\<rparr>
         | None \<Rightarrow>
             (case map_option (timestamp_to_millis P) (j_scheduled_at job) of
                Some at \<Rightarrow>
                  if at > now
                  then Some \<lparr>adj_key = TimerKey_encode at job_id, adj_state = AdminScheduled, adj_job = job\<rparr>
                  else Some \<lparr>adj_key = ReadyKey_encode \<lparr>rk_queue = j_queue job, rk_priority = j_priority job,
                      rk_enqueued_at = enq_ms P job, rk_job_id = job_id\<rparr>, adj_state = AdminReady, adj_job = job\<rparr>
              | None \<Rightarrow> Some \<lparr>adj_key = ReadyKey_encode \<lparr>rk_queue = j_queue job, rk_priority = j_priority job,
                      rk_enqueued_at = enq_ms P job, rk_job_id = job_id\<rparr>, adj_state = AdminReady, adj_job = job\<rparr>)) })"

section \<open>The audit log\<close>

record audit_entry =
  ae_seq :: u64
  ae_ts_ms :: i64
  ae_record :: audit_record

record audit_filter =
  af_actor :: "str option"
  af_action_prefix :: "str option"

definition AuditFilter_matches :: "audit_filter \<Rightarrow> audit_record \<Rightarrow> bool" where
  "AuditFilter_matches f r \<longleftrightarrow>
     (case af_actor f of None \<Rightarrow> True | Some a \<Rightarrow> au_actor r = a)
     \<and> (case af_action_prefix f of None \<Rightarrow> True | Some p \<Rightarrow> prefix p (au_action r))"

record audit_page =
  ap_entries :: "audit_entry list"
  ap_next_before :: "u64 option"

definition AUDIT_SCAN_CAP :: nat where
  "AUDIT_SCAN_CAP = 1000"

text \<open>The body of the scan over the rows, newest first: rows scanned, entries found, last number read.\<close>

fun audit_scan ::
    "prost \<Rightarrow> usize \<Rightarrow> audit_filter \<Rightarrow> nat \<Rightarrow> audit_entry list \<Rightarrow> u64 \<Rightarrow> (string + bytes \<times> bytes) list \<Rightarrow> audit_page" where
  "audit_scan P limit f scanned entries last_seq [] = \<lparr>ap_entries = entries, ap_next_before = None\<rparr>"
| "audit_scan P limit f scanned entries last_seq (guard # rest) =
     (if length entries \<ge> limit \<or> scanned \<ge> AUDIT_SCAN_CAP
      then \<lparr>ap_entries = entries, ap_next_before = Some last_seq\<rparr>
      else case guard of
        Inl _ \<Rightarrow> audit_scan P limit f (scanned + 1) entries last_seq rest
      | Inr (key, value) \<Rightarrow>
          if length key \<noteq> 8 then audit_scan P limit f (scanned + 1) entries last_seq rest
          else (let last_seq = from_be key in
            case AuditValue_decode P value of
              Some (ts, rec) \<Rightarrow>
                if AuditFilter_matches f rec
                then audit_scan P limit f (scanned + 1)
                  (entries @ [\<lparr>ae_seq = last_seq, ae_ts_ms = ts, ae_record = rec\<rparr>]) last_seq rest
                else audit_scan P limit f (scanned + 1) entries last_seq rest
            | None \<Rightarrow> audit_scan P limit f (scanned + 1) entries last_seq rest))"

definition list_audit ::
    "prost \<Rightarrow> ('db, 'tx) engine \<Rightarrow> 'db \<Rightarrow> u64 option \<Rightarrow> usize \<Rightarrow> audit_filter \<Rightarrow> audit_page" where
  "list_audit P E snap before limit f =
     (let iter = (case before of
          Some seq \<Rightarrow> snap_range_to E snap Audit (be 8 seq)
        | None \<Rightarrow> snap_iter E snap Audit)
      in audit_scan P limit f 0 [] 0 (rev iter))"

section \<open>What the reads report\<close>

text \<open>A job as the read side shows it: with its queue and its payload put back.\<close>

definition whole_job :: "ajob \<Rightarrow> job" where
  "whole_job x = (aj_job x)\<lparr>j_queue := aj_queue x, j_payload := aj_payload x\<rparr>"

context reliable_storage
begin

lemma load_job_eq:
  assumes "jobs_rep P (dbv db) ix J"
  shows "load_job P E db jid = map_option whole_job (fmlookup J jid)"
proof (cases "fmlookup J jid")
  case None
  with jobs_rep_job [OF assms, of jid] show ?thesis by (simp add: load_job_def snap_get_eq ok_flatten_def)
next
  case (Some x)
  have ok: "ajob_ok P jid x" by (rule jobs_rep_ok [OF assms Some])
  have pl: "aj_payload x = Some p \<Longrightarrow> payload_decode P (payload_encode P p) = Some p" for p
    using ok by (simp add: ajob_ok_def payload.dec_enc)
  show ?thesis
    using jobs_rep_job [OF assms, of jid] jobs_rep_payload [OF assms, of jid] Some job_decode_stored [OF ok] ok pl
    by (cases "aj_payload x") (simp_all add: load_job_def snap_get_eq ok_flatten_def whole_job_def ajob_ok_def)
qed

lemma ready_row:
  assumes "jobs_rep P V ix J"
  shows "fmlookup (V Ready) key = Some v \<longleftrightarrow>
    (\<exists>jid x a. fmlookup J jid = Some x \<and> aj_place x = InReady a \<and> key = rkey P x \<and> v = u32_be a)"
proof -
  have "jview P Ready jid x = Some (key, v) \<longleftrightarrow> (\<exists>a. aj_place x = InReady a \<and> key = rkey P x \<and> v = u32_be a)" for jid x
    by (auto split: place.splits)
  then show ?thesis
    using jobs_rep_keyed(1) [OF assms, of Ready] unfolding keyed_def by (simp add: job_spaces_def del: jview.simps)
qed

lemma scheduled_row:
  assumes "jobs_rep P V ix J"
  shows "fmlookup (V Scheduled) key = Some v \<longleftrightarrow>
    (\<exists>jid x d a. fmlookup J jid = Some x \<and> aj_place x = InScheduled d a \<and> key = TimerKey_encode d jid \<and> v = u32_be a)"
proof -
  have "jview P Scheduled jid x = Some (key, v) \<longleftrightarrow>
      (\<exists>d a. aj_place x = InScheduled d a \<and> key = TimerKey_encode d jid \<and> v = u32_be a)" for jid x
    by (auto split: place.splits)
  then show ?thesis
    using jobs_rep_keyed(1) [OF assms, of Scheduled] unfolding keyed_def by (simp add: job_spaces_def del: jview.simps)
qed

lemma resolve_ready_key_iff:
  assumes J: "jobs_rep P (dbv db) ix J"
  shows "resolve_ready_key P E db key = Some y \<longleftrightarrow>
    (\<exists>jid x a. fmlookup J jid = Some x \<and> aj_place x = InReady a \<and> key = rkey P x
       \<and> y = \<lparr>adj_key = key, adj_state = AdminReady, adj_job = (whole_job x)\<lparr>j_attempt := a\<rparr>\<rparr>)" (is "?l \<longleftrightarrow> ?r")
proof
  assume ?l
  then obtain rk v a j where rk: "ReadyKey_decode key = Some rk" and v: "fmlookup (dbv db Ready) key = Some v"
    and a: "u32_first v = Some a" and j: "load_job P E db (rk_job_id rk) = Some j"
    and y: "y = \<lparr>adj_key = key, adj_state = AdminReady, adj_job = j\<lparr>j_attempt := a\<rparr>\<rparr>"
    by (auto simp: resolve_ready_key_def snap_get_eq ok_flatten_def bind_eq_Some_conv)
  from v obtain jid x a' where x: "fmlookup J jid = Some x" "aj_place x = InReady a'" "key = rkey P x" "v = u32_be a'"
    using ready_row [OF J] by blast
  from rkey_decode [OF jobs_rep_ok [OF J x(1)]] rk x(3) have "rk_job_id rk = jid" by auto
  with j load_job_eq [OF J, of jid] x a y show ?r by auto
next
  assume ?r
  then obtain jid x a where x: "fmlookup J jid = Some x" "aj_place x = InReady a" "key = rkey P x"
    and y: "y = \<lparr>adj_key = key, adj_state = AdminReady, adj_job = (whole_job x)\<lparr>j_attempt := a\<rparr>\<rparr>" by blast
  then have "fmlookup (dbv db Ready) key = Some (u32_be a)" using ready_row [OF J] by blast
  with x y load_job_eq [OF J, of jid] rkey_decode [OF jobs_rep_ok [OF J x(1)]] show ?l
    by (auto simp: resolve_ready_key_def snap_get_eq ok_flatten_def)
qed

lemma resolve_scheduled_key_iff:
  assumes J: "jobs_rep P (dbv db) ix J"
  shows "resolve_scheduled_key P E db key = Some y \<longleftrightarrow>
    (\<exists>jid x d a. fmlookup J jid = Some x \<and> aj_place x = InScheduled d a \<and> key = TimerKey_encode d jid
       \<and> y = \<lparr>adj_key = key, adj_state = AdminScheduled, adj_job = (whole_job x)\<lparr>j_attempt := a\<rparr>\<rparr>)" (is "?l \<longleftrightarrow> ?r")
proof -
  have id: "TimerKey_job_id (TimerKey_encode d jid) = Some jid \<and> utf8_valid jid"
    if "fmlookup J jid = Some x" "aj_place x = InScheduled d a" for jid x d a
    using jobs_rep_ok [OF J that(1)] that(2) by (simp add: ajob_ok_def place_ok_def TimerKey_job_id_encode)
  show ?thesis
  proof
    assume ?l
    then obtain raw v a j where raw: "TimerKey_job_id key = Some raw" and v: "fmlookup (dbv db Scheduled) key = Some v"
      and a: "u32_first v = Some a" and j: "load_job P E db raw = Some j"
      and y: "y = \<lparr>adj_key = key, adj_state = AdminScheduled, adj_job = j\<lparr>j_attempt := a\<rparr>\<rparr>"
      by (auto simp: resolve_scheduled_key_def snap_get_eq ok_flatten_def bind_eq_Some_conv from_utf8_Some)
    from v obtain jid x d a' where x: "fmlookup J jid = Some x" "aj_place x = InScheduled d a'"
      "key = TimerKey_encode d jid" "v = u32_be a'" using scheduled_row [OF J] by blast
    with id raw have "raw = jid" by auto
    with j load_job_eq [OF J, of jid] x a y show ?r by auto
  next
    assume ?r
    then obtain jid x d a where x: "fmlookup J jid = Some x" "aj_place x = InScheduled d a" "key = TimerKey_encode d jid"
      and y: "y = \<lparr>adj_key = key, adj_state = AdminScheduled, adj_job = (whole_job x)\<lparr>j_attempt := a\<rparr>\<rparr>" by blast
    then have "fmlookup (dbv db Scheduled) key = Some (u32_be a)" using scheduled_row [OF J] by blast
    with x y load_job_eq [OF J, of jid] id [OF x(1,2)] show ?l
      by (auto simp: resolve_scheduled_key_def snap_get_eq ok_flatten_def)
  qed
qed

lemma resolve_inflight_key_iff:
  assumes J: "jobs_rep P (dbv db) ix J"
  shows "resolve_inflight_key P E db key = Some y \<longleftrightarrow>
    (\<exists>jid x d a. fmlookup J jid = Some x \<and> aj_place x = InFlight d a \<and> key = TimerKey_encode d jid
       \<and> y = \<lparr>adj_key = key, adj_state = AdminInflight, adj_job = (whole_job x)\<lparr>j_attempt := a,
           j_lease_expires_at := Some (millis_to_timestamp P d)\<rparr>\<rparr>)" (is "?l \<longleftrightarrow> ?r")
proof
  assume ?l
  then obtain raw b i j where raw: "TimerKey_job_id key = Some raw" and b: "fmlookup (dbv db Inflight) raw = Some b"
    and i: "Inflight_decode P b = Inr i" "if_lease_expires_at i = deadline_of key" and j: "load_job P E db raw = Some j"
    and y: "y = \<lparr>adj_key = key, adj_state = AdminInflight, adj_job = j\<lparr>j_attempt := if_attempt i,
      j_lease_expires_at := Some (millis_to_timestamp P (if_lease_expires_at i))\<rparr>\<rparr>"
    by (auto simp: resolve_inflight_key_def snap_get_eq ok_flatten_def bind_eq_Some_conv from_utf8_Some
        split: sum.splits if_splits)
  from b jobs_rep_inflight [OF J, of raw] obtain x d a where x: "fmlookup J raw = Some x" "aj_place x = InFlight d a"
    "b = Inflight_encode P (mk_inflight P x d a)"
    by (cases "fmlookup J raw") (auto split: place.splits)
  have i': "if_attempt i = a" "if_lease_expires_at i = d"
    using i(1) inflight_decode [OF jobs_rep_ok [OF J x(1)] x(2)] x(3) by (auto simp: mk_inflight_def)
  have "8 \<le> length key" using raw by (auto simp: TimerKey_job_id_def kr_i64_def kr_take_def bind_eq_Some_conv split: if_splits)
  then obtain d' r where "key = i64_be d' @ r" "i64_ok d'" "deadline_of key = d'" by (rule timer_key_split)
  with raw i(2) i' have "key = TimerKey_encode d raw" by (auto simp: TimerKey_eq TimerKey_job_id_encode [unfolded TimerKey_eq])
  with x j load_job_eq [OF J, of raw] y i' show ?r by auto
next
  assume ?r
  then obtain jid x d a where x: "fmlookup J jid = Some x" "aj_place x = InFlight d a" "key = TimerKey_encode d jid"
    and y: "y = \<lparr>adj_key = key, adj_state = AdminInflight, adj_job = (whole_job x)\<lparr>j_attempt := a,
           j_lease_expires_at := Some (millis_to_timestamp P d)\<rparr>\<rparr>" by blast
  have ok: "ajob_ok P jid x" by (rule jobs_rep_ok [OF J x(1)])
  then have "TimerKey_job_id key = Some jid" "deadline_of key = d" "utf8_valid jid"
    using x by (simp_all add: ajob_ok_def place_ok_def TimerKey_job_id_encode deadline_of_TimerKey)
  with x y load_job_eq [OF J, of jid] jobs_rep_inflight [OF J, of jid] inflight_decode [OF ok x(2)] show ?l
    by (simp add: resolve_inflight_key_def snap_get_eq ok_flatten_def mk_inflight_def)
qed

lemma resolve_dead_letter_key_iff:
  assumes D: "dead_rep P (dbv db) ix D"
  shows "resolve_dead_letter_key P E db key = Some y \<longleftrightarrow>
    (\<exists>jid x. fmlookup D jid = Some x \<and> key = dead_key jid x \<and> y = \<lparr>adl_key = key, adl_record = dd_record x\<rparr>)"
proof -
  have row: "fmlookup (dbv db DeadLetter) key = Some v \<longleftrightarrow>
      (\<exists>jid x. fmlookup D jid = Some x \<and> key = dead_key jid x \<and> v = dlr_encode P (dd_record x))" for v
    using D by (auto simp: dead_rep_def keyed_def dview_def)
  have dec: "dlr_decode P (dlr_encode P (dd_record x)) = Some (dd_record x)" if "fmlookup D jid = Some x" for jid x
    using D that by (auto simp: dead_rep_def adead_ok_def dlr.dec_enc)
  have "resolve_dead_letter_key P E db key = Some y \<longleftrightarrow>
      (\<exists>v r. fmlookup (dbv db DeadLetter) key = Some v \<and> dlr_decode P v = Some r \<and> y = \<lparr>adl_key = key, adl_record = r\<rparr>)"
    by (auto simp: resolve_dead_letter_key_def snap_get_eq ok_flatten_def bind_eq_Some_conv)
  with row dec show ?thesis by (metis option.inject)
qed

lemma queue_of_inflight_job_eq:
  assumes J: "jobs_rep P (dbv db) ix J"
  shows "queue_of_inflight_job P E db jid = Inr (Option.bind (fmlookup J jid) (\<lambda>x.
    case aj_place x of InFlight d a \<Rightarrow> Some (aj_queue x) | _ \<Rightarrow> None))"
proof (cases "fmlookup J jid")
  case None
  with jobs_rep_inflight [OF J, of jid] show ?thesis by (simp add: queue_of_inflight_job_def snap_get_eq)
next
  case (Some x)
  with jobs_rep_inflight [OF J, of jid] inflight_decode [OF jobs_rep_ok [OF J Some]] show ?thesis
    by (cases "aj_place x") (simp_all add: queue_of_inflight_job_def snap_get_eq mk_inflight_def)
qed

end

section \<open>What a page of the audit log holds\<close>

text \<open>Row \<open>n\<close> of a log \<open>rs\<close>, counted from 1, and the matching entries from \<open>lo\<close> up to below \<open>hi\<close>, newest first.\<close>

definition audit_row :: "prost \<Rightarrow> (i64 \<times> audit_record) list \<Rightarrow> nat \<Rightarrow> bytes \<times> bytes" where
  "audit_row P rs n = (u64_be n, case rs ! (n - 1) of (t, r) \<Rightarrow> AuditValue_encode P t r)"

definition audit_slice :: "(i64 \<times> audit_record) list \<Rightarrow> audit_filter \<Rightarrow> nat \<Rightarrow> nat \<Rightarrow> audit_entry list" where
  "audit_slice rs f lo hi =
     map (\<lambda>n. \<lparr>ae_seq = n, ae_ts_ms = fst (rs ! (n - 1)), ae_record = snd (rs ! (n - 1))\<rparr>)
       (filter (\<lambda>n. AuditFilter_matches f (snd (rs ! (n - 1)))) (rev [lo..<hi]))"

lemma audit_slice_Nil [simp]: "audit_slice rs f n n = []"
  by (simp add: audit_slice_def)

lemma audit_slice_Suc:
  "lo \<le> n \<Longrightarrow> audit_slice rs f lo (Suc n) =
     (if AuditFilter_matches f (snd (rs ! (n - 1)))
      then [\<lparr>ae_seq = n, ae_ts_ms = fst (rs ! (n - 1)), ae_record = snd (rs ! (n - 1))\<rparr>] else [])
     @ audit_slice rs f lo n"
  by (simp add: audit_slice_def)

lemma u64_be_less: "m < n \<Longrightarrow> n \<le> u64_max \<Longrightarrow> u64_be m < u64_be n"
  using be_append_less [of m n 8 "[]" "[]"] by (simp add: u64_be_def u64_max_def)

lemma u64_be_less_iff: "m \<le> u64_max \<Longrightarrow> n \<le> u64_max \<Longrightarrow> u64_be m < u64_be n \<longleftrightarrow> m < n"
  by (metis less_asym' linorder_neqE_nat u64_be_less)

lemma filter_less_upt: "filter (\<lambda>m. m < b) [Suc 0..<Suc n] = [Suc 0..<Suc (min n (b - 1))]"
proof (induction n)
  case (Suc n)
  have "filter (\<lambda>m. m < b) [Suc 0..<Suc (Suc n)] =
      filter (\<lambda>m. m < b) [Suc 0..<Suc n] @ (if Suc n < b then [Suc n] else [])" by simp
  also have "\<dots> = [Suc 0..<Suc (min (Suc n) (b - 1))]"
  proof (cases "Suc n < b")
    case True
    then have "min n (b - 1) = n" "min (Suc n) (b - 1) = Suc n" by simp_all
    with True show ?thesis by (simp add: Suc.IH)
  next
    case False
    then have "min n (b - 1) = min (Suc n) (b - 1)" by simp
    with False show ?thesis by (simp add: Suc.IH del: upt_Suc)
  qed
  finally show ?case .
qed simp

lemma sorted_list_of_fmap_eqI:
  assumes "sorted (map fst xs)" and "distinct (map fst xs)" and "\<And>k. fmlookup M k = map_of xs k"
  shows "sorted_list_of_fmap M = xs"
proof -
  have set: "set (sorted_list_of_fmap M) = set xs"
    using assms(2,3) by (auto simp: set_sorted_list_of_fmap map_of_eq_Some_iff)
  have "inj_on fst (set (sorted_list_of_fmap M) \<union> set xs)"
    using assms(2) by (simp add: set distinct_map)
  then show ?thesis
    by (rule map_sorted_distinct_set_unique [OF _ sorted_fst_sorted_list_of_fmap distinct_fst_sorted_list_of_fmap assms(1,2) set])
qed

lemma audit_rows:
  assumes "audit_rep P V rs"
  shows "sorted_list_of_fmap (V Audit) = map (audit_row P rs) [Suc 0..<Suc (length rs)]"
proof (rule sorted_list_of_fmap_eqI)
  have n: "length rs \<le> u64_max" using assms by (simp add: audit_rep_def)
  have keys: "map fst (map (audit_row P rs) [Suc 0..<Suc (length rs)]) = map u64_be [Suc 0..<Suc (length rs)]"
    by (simp add: audit_row_def)
  have "sorted_wrt (<) (map u64_be [Suc 0..<Suc (length rs)])"
    unfolding sorted_wrt_map
    by (rule sorted_wrt_mono_rel [OF _ sorted_wrt_upt]) (use n in \<open>auto intro!: u64_be_less\<close>)
  then show "sorted (map fst (map (audit_row P rs) [Suc 0..<Suc (length rs)]))"
    "distinct (map fst (map (audit_row P rs) [Suc 0..<Suc (length rs)]))"
    unfolding keys by (simp_all only: strict_sorted_iff)
  note d = this(2)
  have lookup: "map_of (map (audit_row P rs) [Suc 0..<Suc (length rs)]) (u64_be m) = Some (snd (audit_row P rs m))"
    if "1 \<le> m" "m \<le> length rs" for m
  proof (rule map_of_is_SomeI [OF d])
    have "audit_row P rs m \<in> set (map (audit_row P rs) [Suc 0..<Suc (length rs)])"
      using that by (simp del: upt_Suc)
    then show "(u64_be m, snd (audit_row P rs m)) \<in> set (map (audit_row P rs) [Suc 0..<Suc (length rs)])"
      by (simp add: audit_row_def del: upt_Suc)
  qed
  fix k
  show "fmlookup (V Audit) k = map_of (map (audit_row P rs) [Suc 0..<Suc (length rs)]) k"
  proof (cases "fmlookup (V Audit) k")
    case None
    then have "k \<noteq> u64_be m" if "1 \<le> m" "m \<le> length rs" for m
      using assms that unfolding audit_rep_def by (metis One_nat_def Suc_le_eq Suc_pred' add.commute plus_1_eq_Suc option.distinct(1) less_Suc_eq_le)
    then have "k \<notin> fst ` set (map (audit_row P rs) [Suc 0..<Suc (length rs)])"
      by (simp add: audit_row_def image_iff Ball_def del: upt_Suc)
    with None show ?thesis by (metis map_of_eq_None_iff)
  next
    case (Some v)
    then obtain i where i: "i < length rs" "k = u64_be (i + 1)" using assms by (auto simp: audit_rep_def)
    with assms Some lookup [of "i + 1"] show ?thesis by (simp add: audit_rep_def audit_row_def)
  qed
qed

text \<open>A scan that starts below row \<open>n + 1\<close> stops at some row \<open>lo\<close>.\<close>

lemma audit_scan_slice:
  assumes "\<And>m. 1 \<le> m \<Longrightarrow> m \<le> n \<Longrightarrow>
      AuditValue_decode P (snd (audit_row P rs m)) = Some (rs ! (m - 1)) \<and> m \<le> u64_max"
  shows "\<exists>lo. 1 \<le> lo \<and> lo \<le> Suc n
    \<and> audit_scan P limit f scanned es sq (map (\<lambda>m. Inr (audit_row P rs m)) (rev [Suc 0..<Suc n])) =
        \<lparr>ap_entries = es @ audit_slice rs f lo (Suc n),
         ap_next_before = (if lo = 1 then None else Some (if lo = Suc n then sq else lo))\<rparr>
    \<and> length (audit_slice rs f lo (Suc n)) \<le> limit - length es
    \<and> (lo = Suc n \<longrightarrow> n = 0 \<or> length es \<ge> limit \<or> scanned \<ge> AUDIT_SCAN_CAP)"
  using assms
proof (induction n arbitrary: scanned es sq)
  case 0
  then show ?case by (intro exI [of _ 1]) simp
next
  case (Suc n)
  let ?rows = "\<lambda>n. map (\<lambda>m. Inr (audit_row P rs m)) (rev [Suc 0..<Suc n])"
  show ?case
  proof (cases "length es \<ge> limit \<or> scanned \<ge> AUDIT_SCAN_CAP")
    case True
    then show ?thesis by (intro exI [of _ "Suc (Suc n)"]) auto
  next
    case False
    obtain t r where rs: "rs ! n = (t, r)" by (cases "rs ! n")
    have dec: "AuditValue_decode P (snd (audit_row P rs (Suc n))) = Some (t, r)" and max: "Suc n \<le> u64_max"
      using Suc.prems [of "Suc n"] rs by simp_all
    define es' where "es' = (if AuditFilter_matches f r
      then es @ [\<lparr>ae_seq = Suc n, ae_ts_ms = t, ae_record = r\<rparr>] else es)"
    have step: "audit_scan P limit f scanned es sq (?rows (Suc n)) =
        audit_scan P limit f (Suc scanned) es' (Suc n) (?rows n)"
      using False dec max by (simp add: es'_def audit_row_def not_le)
    obtain lo where lo: "1 \<le> lo" "lo \<le> Suc n"
      "audit_scan P limit f (Suc scanned) es' (Suc n) (?rows n) =
        \<lparr>ap_entries = es' @ audit_slice rs f lo (Suc n),
         ap_next_before = (if lo = 1 then None else Some (if lo = Suc n then Suc n else lo))\<rparr>"
      "length (audit_slice rs f lo (Suc n)) \<le> limit - length es'"
      using Suc.IH [of "Suc scanned" es' "Suc n"] Suc.prems by (metis le_SucI)
    have slice: "audit_slice rs f lo (Suc (Suc n)) =
        (if AuditFilter_matches f r then [\<lparr>ae_seq = Suc n, ae_ts_ms = t, ae_record = r\<rparr>] else [])
        @ audit_slice rs f lo (Suc n)"
      using audit_slice_Suc [of lo "Suc n" rs f] lo(2) rs by simp
    show ?thesis
      by (rule exI [of _ lo]) (use lo False in \<open>auto simp: step slice es'_def simp del: upt_Suc audit_scan.simps\<close>)
  qed
qed

lemma collect_results_Inr: "collect_results xs = Inr ys \<Longrightarrow> xs = map Inr ys"
  by (induction xs arbitrary: ys rule: collect_results.induct) (auto split: sum.splits)

context reliable_storage
begin

lemma list_audit_rows:
  assumes "audit_rep P (dbv db) rs" and "pred_option (\<lambda>b. b \<le> u64_max) before"
  shows "list_audit P E db before limit f =
    audit_scan P limit f 0 [] 0 (map (\<lambda>m. Inr (audit_row P rs m))
      (rev [Suc 0..<Suc (case before of None \<Rightarrow> length rs | Some b \<Rightarrow> min (length rs) (b - 1))]))"
proof (cases before)
  case None
  then show ?thesis
    using collect_results_Inr [OF snap_iter_eq [of db Audit]] audit_rows [OF assms(1)]
    by (simp add: list_audit_def rev_map comp_def del: upt_Suc)
next
  case (Some b)
  have n: "length rs \<le> u64_max" using assms(1) by (simp add: audit_rep_def)
  have "filter (\<lambda>(k, _). k < u64_be b) (map (audit_row P rs) [Suc 0..<Suc (length rs)]) =
      map (audit_row P rs) (filter (\<lambda>m. m < b) [Suc 0..<Suc (length rs)])"
    unfolding filter_map comp_def
    by (rule arg_cong [where f = "map (audit_row P rs)"], rule filter_cong)
      (use n assms(2) Some in \<open>auto simp: audit_row_def u64_be_less_iff simp del: upt_Suc\<close>)
  then show ?thesis
    using collect_results_Inr [OF snap_range_eq [of db Audit "u64_be b"]] audit_rows [OF assms(1)]
    by (simp add: list_audit_def Some rev_map comp_def filter_less_upt u64_be_def del: upt_Suc)
qed

text \<open>
  One page: the matching entries from a row \<open>lo\<close> up to the cursor, newest first, with \<open>lo\<close> as the
  next cursor unless the scan has reached the oldest row. The cursor always moves.
\<close>

lemma list_audit_slice:
  assumes "audit_rep P (dbv db) rs" and "\<forall>(t, r) \<in> set rs. i64_ok t \<and> audit_ok r"
    and "pred_option (\<lambda>b. b \<le> u64_max) before" and "1 \<le> limit"
  shows "\<exists>lo. 1 \<le> lo
    \<and> list_audit P E db before limit f =
        \<lparr>ap_entries = audit_slice rs f lo (Suc (case before of None \<Rightarrow> length rs | Some b \<Rightarrow> min (length rs) (b - 1))),
         ap_next_before = (if lo = 1 then None else Some lo)\<rparr>
    \<and> length (ap_entries (list_audit P E db before limit f)) \<le> limit
    \<and> (lo \<noteq> 1 \<longrightarrow> lo \<le> (case before of None \<Rightarrow> length rs | Some b \<Rightarrow> min (length rs) (b - 1)))"
proof -
  define n where "n = (case before of None \<Rightarrow> length rs | Some b \<Rightarrow> min (length rs) (b - 1))"
  have n: "n \<le> length rs" "length rs \<le> u64_max"
    using assms(1) by (auto simp: n_def audit_rep_def split: option.splits)
  have dec: "AuditValue_decode P (snd (audit_row P rs m)) = Some (rs ! (m - 1)) \<and> m \<le> u64_max" if "1 \<le> m" "m \<le> n" for m
  proof -
    obtain t r where tr: "rs ! (m - 1) = (t, r)" by (cases "rs ! (m - 1)")
    have "m - 1 < length rs" using that n by simp
    with tr assms(2) have "i64_ok t \<and> audit_ok r" by (metis case_prodD nth_mem)
    with tr that n show ?thesis by (simp add: audit_row_def byte_simps)
  qed
  from audit_scan_slice [of n P rs limit f 0 "[]" 0, OF dec]
  obtain lo where lo: "1 \<le> lo" "lo \<le> Suc n"
    "audit_scan P limit f 0 [] 0 (map (\<lambda>m. Inr (audit_row P rs m)) (rev [Suc 0..<Suc n])) =
      \<lparr>ap_entries = [] @ audit_slice rs f lo (Suc n),
       ap_next_before = (if lo = 1 then None else Some (if lo = Suc n then 0 else lo))\<rparr>"
    "length (audit_slice rs f lo (Suc n)) \<le> limit - length ([] :: audit_entry list)"
    "lo = Suc n \<longrightarrow> n = 0 \<or> limit \<le> length ([] :: audit_entry list) \<or> AUDIT_SCAN_CAP \<le> 0"
    by metis
  have "lo \<noteq> 1 \<Longrightarrow> lo \<le> n" using lo(2,5) assms(4) by (auto simp: AUDIT_SCAN_CAP_def le_Suc_eq)
  then show ?thesis
    using lo list_audit_rows [OF assms(1,3), of limit f] unfolding n_def [symmetric]
    by (intro exI [of _ lo]) (use assms(4) in \<open>auto simp: AUDIT_SCAN_CAP_def simp del: upt_Suc\<close>)
qed

end

end
