(* ===== verification/Handle.thy ===== *)
theory Handle
  imports Committer Read_Handle
begin

text \<open>
  The client side of storage: the methods of \<open>Storage\<close> in \<open>src/storage.rs\<close>, which build an operation
  with its limits resolved, send it to the committer and unwrap the outcome. What the channel and
  the committer do with a command between sending and reply, other clients' commands included, is
  the record \<open>channel\<close>: a function of the state of the world that returns the reply and the state
  after it. The locale \<open>matching_channel\<close> says that an operation is answered with an outcome of its
  own kind; \<open>committer_channel\<close> is the committer of this development behind such a channel.
\<close>

section \<open>The channel\<close>

record ('db, 's) channel =
  ch_op :: "op \<Rightarrow> 's \<Rightarrow> (status + op_outcome) \<times> 's"
  ch_peek :: "peek_state \<Rightarrow> str \<Rightarrow> bytes option \<Rightarrow> usize \<Rightarrow> 's \<Rightarrow> (status + peek_page) \<times> 's"
  ch_depths :: "str \<Rightarrow> 's \<Rightarrow> (status + queue_depth_counts) \<times> 's"
  ch_snapshot :: "'s \<Rightarrow> 'db option"

text \<open>
  \<open>ch_snapshot\<close> is the snapshot that a blocking read task sees, or nothing when the task fails. The
  handle itself holds the registries and two values of the configuration.
\<close>

record handle =
  h_registry :: queue_registry
  h_boot_registry :: queue_registry
  h_drain_scan_cap :: usize
  h_dead_letter_enabled :: bool

definition storage_unavailable :: status where
  "storage_unavailable = Status Internal ''storage unavailable''"

definition mismatched_outcome :: status where
  "mismatched_outcome = Status Internal ''storage returned a mismatched op outcome''"

definition read_task_failed :: status where
  "read_task_failed = Status Internal ''storage read task failed''"

text \<open>\<open>match self.send_op(op).await? { Variant(v) => Ok(v), _ => Err(mismatched_outcome()) }\<close>.\<close>

definition send_op :: "('db, 's) channel \<Rightarrow> op \<Rightarrow> (op_outcome \<Rightarrow> 'a option) \<Rightarrow> 's \<Rightarrow> (status + 'a) \<times> 's" where
  "send_op ch op variant s =
     (case ch_op ch op s of
        (Inl e, s) \<Rightarrow> (Inl e, s)
      | (Inr outcome, s) \<Rightarrow>
          ((case variant outcome of Some v \<Rightarrow> Inr v | None \<Rightarrow> Inl mismatched_outcome), s))"

fun as_enqueue where "as_enqueue (OutEnqueue r) = Some r" | "as_enqueue _ = None"
fun as_enqueue_atomic where "as_enqueue_atomic (OutEnqueueAtomic r) = Some r" | "as_enqueue_atomic _ = None"
fun as_reserve where "as_reserve (OutReserve r) = Some r" | "as_reserve _ = None"
fun as_ack where "as_ack (OutAck r) = Some r" | "as_ack _ = None"
fun as_nack where "as_nack (OutNack r) = Some r" | "as_nack _ = None"
fun as_extend where "as_extend (OutExtend r) = Some r" | "as_extend _ = None"
fun as_drain where "as_drain (OutDrainDeadLetters r) = Some r" | "as_drain _ = None"
fun as_close where "as_close OutCloseQueue = Some ()" | "as_close _ = None"
fun as_open where "as_open OutOpenQueue = Some ()" | "as_open _ = None"
fun as_requeue where "as_requeue (OutRequeueDeadLetters r) = Some r" | "as_requeue _ = None"
fun as_dead_letter_jobs where "as_dead_letter_jobs (OutDeadLetterJobs r) = Some r" | "as_dead_letter_jobs _ = None"
fun as_delete where "as_delete (OutDeleteDeadLetters r) = Some r" | "as_delete _ = None"
fun as_purge where "as_purge (OutPurgeQueueChunk r) = Some r" | "as_purge _ = None"

section \<open>Preparing requests\<close>

text \<open>The ids of the new jobs are drawn at random by the code; they are an argument here.\<close>

definition prepare_jobs :: "handle \<Rightarrow> (nat \<Rightarrow> str) \<Rightarrow> enqueue_request list \<Rightarrow> prepared_job list" where
  "prepare_jobs h ids jobs =
     map (\<lambda>(i, req). PreparedJob_new (ids i) req (h_registry h) (h_boot_registry h)) (enumerate 0 jobs)"

definition storage_enqueue ::
    "('db, 's) channel \<Rightarrow> handle \<Rightarrow> (nat \<Rightarrow> str) \<Rightarrow> enqueue_request list \<Rightarrow> 's \<Rightarrow> (status + enqueue_result list) \<times> 's" where
  "storage_enqueue ch h ids jobs = send_op ch (OpEnqueue (prepare_jobs h ids jobs) 0) as_enqueue"

definition storage_enqueue_atomic ::
    "('db, 's) channel \<Rightarrow> handle \<Rightarrow> (nat \<Rightarrow> str) \<Rightarrow> enqueue_request list \<Rightarrow> 's \<Rightarrow> (status + atomic_enqueue_outcome) \<times> 's" where
  "storage_enqueue_atomic ch h ids jobs = send_op ch (OpEnqueueAtomic (prepare_jobs h ids jobs) 0) as_enqueue_atomic"

definition storage_reserve_once ::
    "('db, 's) channel \<Rightarrow> str list \<Rightarrow> u64 \<Rightarrow> usize \<Rightarrow> 's \<Rightarrow> (status + job list) \<times> 's" where
  "storage_reserve_once ch queues lease_ms max_jobs = send_op ch (OpReserve queues lease_ms max_jobs 0) as_reserve"

definition storage_ack :: "('db, 's) channel \<Rightarrow> str \<Rightarrow> u32 \<Rightarrow> 's \<Rightarrow> (status + ack_outcome) \<times> 's" where
  "storage_ack ch job_id attempt = send_op ch (OpAck job_id attempt) as_ack"

section \<open>Resolving the limits of a nack and of an extension\<close>

definition read_inflight_queue ::
    "prost \<Rightarrow> ('db, 'tx) engine \<Rightarrow> ('db, 's) channel \<Rightarrow> str \<Rightarrow> 's \<Rightarrow> status + str option" where
  "read_inflight_queue P E ch job_id s =
     (case ch_snapshot ch s of
        None \<Rightarrow> Inl read_task_failed
      | Some snap \<Rightarrow> queue_of_inflight_job P E snap job_id)"

definition resolve_retry_delay ::
    "prost \<Rightarrow> ('db, 'tx) engine \<Rightarrow> (str \<Rightarrow> u32 \<Rightarrow> u64) \<Rightarrow> ('db, 's) channel \<Rightarrow> handle \<Rightarrow> nack_request \<Rightarrow> 's \<Rightarrow> status + u64" where
  "resolve_retry_delay P E jitter ch h req s =
     (let explicit = (case Option.bind (nack_retry_field req) nr_strategy of
            Some (StrategyDelay delay) \<Rightarrow> Some (duration_to_millis P delay)
          | _ \<Rightarrow> None)
      in if explicit = None \<and> \<not> qr_any_retry_policy (h_registry h) then Inr 0
         else case read_inflight_queue P E ch (nack_job_id req) s of
           Inl e \<Rightarrow> Inl e
         | Inr None \<Rightarrow> Inr 0
         | Inr (Some queue) \<Rightarrow>
             (let policy = retry_policy_of (h_registry h) queue
              in Inr (case explicit of
                  Some ms \<Rightarrow> min ms (rp_max_schedule_horizon_ms policy)
                | None \<Rightarrow> policy_retry_delay_ms jitter policy (nack_attempt req) (nack_job_id req))))"

definition storage_nack ::
    "prost \<Rightarrow> ('db, 'tx) engine \<Rightarrow> (str \<Rightarrow> u32 \<Rightarrow> u64) \<Rightarrow> ('db, 's) channel \<Rightarrow> handle \<Rightarrow> nack_request \<Rightarrow> 's
       \<Rightarrow> (status + nack_outcome) \<times> 's" where
  "storage_nack P E jitter ch h req s =
     (case (case Option.bind (nack_retry_field req) nr_strategy of
              Some StrategyDeadLetter \<Rightarrow> Inr 0
            | _ \<Rightarrow> resolve_retry_delay P E jitter ch h req s) of
        Inl e \<Rightarrow> (Inl e, s)
      | Inr retry_delay_ms \<Rightarrow> send_op ch (OpNack req retry_delay_ms (h_dead_letter_enabled h) 0) as_nack s)"

definition resolve_extend_lease ::
    "prost \<Rightarrow> ('db, 'tx) engine \<Rightarrow> ('db, 's) channel \<Rightarrow> handle \<Rightarrow> extend_request \<Rightarrow> 's \<Rightarrow> status + u64" where
  "resolve_extend_lease P E ch h req s =
     (let requested = max (case ext_lease_duration req of
            Some d \<Rightarrow> duration_to_millis P d | None \<Rightarrow> 0) 1
      in if requested \<le> qr_min_max_lease_ms (h_registry h) then Inr requested
         else case read_inflight_queue P E ch (ext_job_id req) s of
           Inl e \<Rightarrow> Inl e
         | Inr None \<Rightarrow> Inl job_not_found
         | Inr (Some queue) \<Rightarrow> Inr (min requested (el_max_lease_duration_ms (effective (h_registry h) queue))))"

definition storage_extend ::
    "prost \<Rightarrow> ('db, 'tx) engine \<Rightarrow> ('db, 's) channel \<Rightarrow> handle \<Rightarrow> extend_request \<Rightarrow> 's \<Rightarrow> (status + extend_outcome) \<times> 's" where
  "storage_extend P E ch h req s =
     (case resolve_extend_lease P E ch h req s of
        Inl e \<Rightarrow> (Inl e, s)
      | Inr lease_ms \<Rightarrow> send_op ch (OpExtend req lease_ms 0) as_extend s)"

section \<open>The operator's methods\<close>

definition PURGE_CHUNK_MAX :: nat where
  "PURGE_CHUNK_MAX = 1000"

definition CLOSE_GRACE_MS :: i64 where
  "CLOSE_GRACE_MS = 30000"

definition storage_drain_dead_letters ::
    "('db, 's) channel \<Rightarrow> handle \<Rightarrow> str option \<Rightarrow> usize \<Rightarrow> 's \<Rightarrow> (status + dead_letter_record list) \<times> 's" where
  "storage_drain_dead_letters ch h queue mx = send_op ch (OpDrainDeadLetters queue mx (h_drain_scan_cap h)) as_drain"

definition storage_close_queue :: "('db, 's) channel \<Rightarrow> str \<Rightarrow> 's \<Rightarrow> (status + unit) \<times> 's" where
  "storage_close_queue ch queue = send_op ch (OpCloseQueue queue 0 CLOSE_GRACE_MS) as_close"

definition storage_open_queue :: "('db, 's) channel \<Rightarrow> str \<Rightarrow> 's \<Rightarrow> (status + unit) \<times> 's" where
  "storage_open_queue ch queue = send_op ch (OpOpenQueue queue) as_open"

definition storage_requeue_dead_letters ::
    "('db, 's) channel \<Rightarrow> str \<Rightarrow> bytes list \<Rightarrow> 's \<Rightarrow> (status + requeue_outcome) \<times> 's" where
  "storage_requeue_dead_letters ch queue keys = send_op ch (OpRequeueDeadLetters queue keys 0) as_requeue"

definition storage_dead_letter_jobs ::
    "('db, 's) channel \<Rightarrow> handle \<Rightarrow> str \<Rightarrow> peek_state \<Rightarrow> bytes list \<Rightarrow> str option \<Rightarrow> 's
       \<Rightarrow> (status + dead_letter_jobs_outcome) \<times> 's" where
  "storage_dead_letter_jobs ch h queue state keys reason =
     send_op ch (OpDeadLetterJobs queue state keys reason (h_dead_letter_enabled h) 0) as_dead_letter_jobs"

definition storage_delete_dead_letters ::
    "('db, 's) channel \<Rightarrow> str \<Rightarrow> bytes list \<Rightarrow> 's \<Rightarrow> (status + delete_outcome) \<times> 's" where
  "storage_delete_dead_letters ch queue keys = send_op ch (OpDeleteDeadLetters queue keys) as_delete"

definition storage_purge_queue_chunk ::
    "('db, 's) channel \<Rightarrow> str \<Rightarrow> usize \<Rightarrow> 's \<Rightarrow> (status + purge_outcome) \<times> 's" where
  "storage_purge_queue_chunk ch queue mx =
     send_op ch (OpPurgeQueueChunk queue (min (max mx 1) PURGE_CHUNK_MAX)) as_purge"

definition storage_append_audit ::
    "('db, 's) channel \<Rightarrow> audit_record \<Rightarrow> 's \<Rightarrow> (status + audit_entry) \<times> 's" where
  "storage_append_audit ch record =
     send_op ch (OpAuditAppend record 0) (\<lambda>out. case out of
       OutAuditAppend seq ts \<Rightarrow> Some \<lparr>ae_seq = seq, ae_ts_ms = ts, ae_record = record\<rparr> | _ \<Rightarrow> None)"

definition storage_peek_keys ::
    "('db, 's) channel \<Rightarrow> peek_state \<Rightarrow> str \<Rightarrow> bytes option \<Rightarrow> usize \<Rightarrow> 's \<Rightarrow> (status + peek_page) \<times> 's" where
  "storage_peek_keys ch state queue cursor limit = ch_peek ch state queue cursor limit"

definition storage_queue_depths :: "('db, 's) channel \<Rightarrow> str \<Rightarrow> 's \<Rightarrow> (status + queue_depth_counts) \<times> 's" where
  "storage_queue_depths ch queue = ch_depths ch queue"

section \<open>The contract of the channel\<close>

definition outcome_of :: "op \<Rightarrow> op_outcome \<Rightarrow> bool" where
  "outcome_of op out = (case op of
     OpEnqueue jobs _ \<Rightarrow> (\<exists>rs. out = OutEnqueue rs \<and> length rs = length jobs)
   | OpEnqueueAtomic jobs _ \<Rightarrow> (\<exists>r. out = OutEnqueueAtomic r \<and>
       (case r of Committed rs \<Rightarrow> length rs = length jobs | Rejected _ \<Rightarrow> True))
   | OpReserve _ _ _ _ \<Rightarrow> as_reserve out \<noteq> None
   | OpAck _ _ \<Rightarrow> as_ack out \<noteq> None
   | OpNack _ _ _ _ \<Rightarrow> as_nack out \<noteq> None
   | OpExtend _ _ _ \<Rightarrow> as_extend out \<noteq> None
   | OpDrainDeadLetters _ _ _ \<Rightarrow> as_drain out \<noteq> None
   | OpCloseQueue _ _ _ \<Rightarrow> as_close out \<noteq> None
   | OpOpenQueue _ \<Rightarrow> as_open out \<noteq> None
   | OpRequeueDeadLetters _ _ _ \<Rightarrow> as_requeue out \<noteq> None
   | OpDeadLetterJobs _ _ _ _ _ _ \<Rightarrow> as_dead_letter_jobs out \<noteq> None
   | OpDeleteDeadLetters _ _ \<Rightarrow> as_delete out \<noteq> None
   | OpPurgeQueueChunk _ _ \<Rightarrow> as_purge out \<noteq> None
   | OpSweep _ _ _ _ \<Rightarrow> (\<exists>n. out = OutSweep n)
   | OpAuditAppend _ _ \<Rightarrow> (\<exists>seq ts. out = OutAuditAppend seq ts))"

lemma enqueue_loop_length:
  "enqueue_loop P E now results jobs s = (Inr rs, s') \<Longrightarrow> length rs = length results + length jobs"
proof (induction jobs arbitrary: results s)
  case (Cons job jobs)
  then show ?case
    by (fastforce simp: Let_def split: if_splits prod.splits sum.splits dedup_check.splits dest!: Cons.IH)
qed simp

lemma atomic_loop_length:
  "atomic_loop P E now results jobs s = (Inr rs, s') \<Longrightarrow> length rs = length results + length jobs"
proof (induction jobs arbitrary: results s)
  case (Cons job jobs)
  then show ?case
    by (fastforce simp: Let_def split: if_splits prod.splits sum.splits dedup_check.splits dest!: Cons.IH)
qed simp

lemma atomic_outcome:
  assumes "apply_enqueue_atomic P E jobs now s = (Inr r, s')"
  shows "case r of Committed rs \<Rightarrow> length rs = length jobs | Rejected _ \<Rightarrow> True"
  using assms
  by (auto simp: apply_enqueue_atomic_def Let_def split: if_splits prod.splits sum.splits dest!: atomic_loop_length)

lemma wrap_outcome: "wrap c r = (Inr out, s') \<Longrightarrow> \<exists>v. r = (Inr v, s') \<and> out = c v"
  by (auto simp: wrap_def split: prod.splits sum.splits)

lemma apply_op_outcome: "apply_op P E op s = (Inr out, s') \<Longrightarrow> outcome_of op out"
  by (cases op) (auto simp: outcome_of_def apply_enqueue_def dest!: wrap_outcome enqueue_loop_length atomic_outcome
      split: prod.splits)

lemma outcome_of_stamp [simp]: "outcome_of (stamp now op) out = outcome_of op out"
  by (cases op) (simp_all add: outcome_of_def)

locale matching_channel =
  fixes ch :: "('db, 's) channel"
  assumes matching: "ch_op ch op s = (Inr out, s') \<Longrightarrow> outcome_of op out"
begin

text \<open>With the right variant a reply is passed on as it is: the fallback arm is never taken.\<close>

lemma send_op_passes:
  assumes "\<And>out. outcome_of op out \<Longrightarrow> variant out \<noteq> None"
  shows "send_op ch op variant s =
    (case ch_op ch op s of (Inl e, s) \<Rightarrow> (Inl e, s) | (Inr out, s) \<Rightarrow> (Inr (the (variant out)), s))"
proof (cases "ch_op ch op s")
  case (Pair r s')
  show ?thesis
  proof (cases r)
    case (Inr out)
    with Pair matching have "variant out \<noteq> None" by (intro assms) blast
    with Pair Inr show ?thesis by (auto simp: send_op_def)
  qed (simp add: send_op_def Pair)
qed

lemma send_op_matches:
  assumes "\<And>out. outcome_of op out \<Longrightarrow> variant out \<noteq> None" and "send_op ch op variant s = (Inl e, s')"
  shows "ch_op ch op s = (Inl e, s')"
  using send_op_passes [where op = op and variant = variant and s = s, OF assms(1)] assms(2) by (auto split: prod.splits sum.splits)

end

section \<open>The committer behind the channel\<close>

text \<open>
  One round trip through the committer: the thread may sweep first, then takes the command with
  whatever other clients have queued before and after it, under the clock readings of that turn. The
  world counts the turns; \<open>env\<close> gives what a turn brings. After a panic the process is gone.
\<close>

record turn_env =
  te_clock :: clock
  te_before :: "command list"
  te_after :: "command list"

record 'db world =
  w_committer :: "'db committer"
  w_tick :: nat
  w_gone :: bool

definition fresh_responder :: "command list \<Rightarrow> responder" where
  "fresh_responder cmds = Suc (foldr max (map cmd_resp cmds) 0)"

definition round_trip ::
    "prost \<Rightarrow> ('db, 'tx) engine \<Rightarrow> storage_params \<Rightarrow> (nat \<Rightarrow> turn_env) \<Rightarrow> (responder \<Rightarrow> command) \<Rightarrow> 'db world
       \<Rightarrow> (status + answer) \<times> 'db world" where
  "round_trip P E params env cmd_of w =
     (if w_gone w then (Inl storage_unavailable, w)
      else
        (let te = env (w_tick w);
             me = fresh_responder (te_before te @ te_after te);
             (c, r1) = sweep_turn P E params (te_clock te) (w_committer w);
             (c', r2) = rpc_turn P E params (te_clock te) (te_before te @ [cmd_of me] @ te_after te) c
         in if panicked r1 \<or> panicked r2 then (Inl storage_unavailable, w\<lparr>w_gone := True\<rparr>)
            else ((case List.find (\<lambda>(resp, _). resp = me) (case r2 of Some r \<Rightarrow> cr_replies r | None \<Rightarrow> []) of
                     Some (_, reply) \<Rightarrow> reply
                   | None \<Rightarrow> Inl storage_unavailable),
                  w\<lparr>w_committer := c', w_tick := Suc (w_tick w)\<rparr>)))"

definition committer_channel ::
    "prost \<Rightarrow> ('db, 'tx) engine \<Rightarrow> storage_params \<Rightarrow> (nat \<Rightarrow> turn_env) \<Rightarrow> ('db, 'db world) channel" where
  "committer_channel P E params env =
     \<lparr>ch_op = (\<lambda>op w. case round_trip P E params env (CmdOp op) w of
          (Inr (AnsOp out), w) \<Rightarrow> (Inr out, w) | (Inl e, w) \<Rightarrow> (Inl e, w) | (_, w) \<Rightarrow> (Inl storage_unavailable, w)),
      ch_peek = (\<lambda>state queue cursor limit w. case round_trip P E params env (CmdPeekKeys state queue cursor limit) w of
          (Inr (AnsPeek page), w) \<Rightarrow> (Inr page, w) | (Inl e, w) \<Rightarrow> (Inl e, w) | (_, w) \<Rightarrow> (Inl storage_unavailable, w)),
      ch_depths = (\<lambda>queue w. case round_trip P E params env (CmdQueueDepths queue) w of
          (Inr (AnsDepths d), w) \<Rightarrow> (Inr d, w) | (Inl e, w) \<Rightarrow> (Inl e, w) | (_, w) \<Rightarrow> (Inl storage_unavailable, w)),
      ch_snapshot = (\<lambda>w. if w_gone w then None else Some (co_db (w_committer w)))\<rparr>"

section \<open>Every reply answers its command\<close>

fun answers_cmd :: "command \<Rightarrow> answer \<Rightarrow> bool" where
  "answers_cmd (CmdOp op _) ans \<longleftrightarrow> (\<exists>out. ans = AnsOp out \<and> outcome_of op out)"
| "answers_cmd (CmdPeekKeys _ _ _ _ _) ans \<longleftrightarrow> (\<exists>page. ans = AnsPeek page)"
| "answers_cmd (CmdQueueDepths _ _) ans \<longleftrightarrow> (\<exists>d. ans = AnsDepths d)"

definition reply_typed :: "command set \<Rightarrow> reply \<Rightarrow> bool" where
  "reply_typed cs r \<longleftrightarrow> (case snd r of Inl _ \<Rightarrow> True
     | Inr ans \<Rightarrow> \<exists>cmd \<in> cs. cmd_resp cmd = fst r \<and> answers_cmd cmd ans)"

definition batch_typed :: "command set \<Rightarrow> 'tx batch \<Rightarrow> bool" where
  "batch_typed cs b \<longleftrightarrow> list_all (reply_typed cs) (b_sent b)
     \<and> list_all (\<lambda>p. reply_typed cs (pr_resp p, Inr (AnsOp (pr_outcome p)))) (b_parked b)"

lemma apply_command_typed:
  assumes "apply_command P E now cmd b = (r, b')" and "cmd \<in> cs" and "batch_typed cs b"
  shows "batch_typed cs b'"
proof (cases cmd)
  case (CmdOp op resp)
  obtain x s where x: "apply_op P E (stamp now op) (b_st b) = (x, s)" by fastforce
  show ?thesis
  proof (cases x)
    case (Inl e)
    with assms CmdOp x show ?thesis by (auto simp: batch_typed_def reject_def reply_typed_def)
  next
    case (Inr out)
    have "outcome_of op out" using apply_op_outcome [OF x [unfolded Inr]] by simp
    then have "reply_typed cs (resp, Inr (AnsOp out))" using assms(2) CmdOp by (force simp: reply_typed_def)
    with assms CmdOp x Inr show ?thesis by (auto simp: batch_typed_def)
  qed
qed (use assms in \<open>force simp: batch_typed_def reply_typed_def\<close>)+

lemma apply_commands_typed:
  assumes "apply_commands P E now rpcs b = (r, b')" and "set rpcs \<subseteq> cs" and "batch_typed cs b"
  shows "batch_typed cs b'"
  using assms
proof (induction rpcs arbitrary: b)
  case (Cons cmd rpcs)
  obtain x t where c: "apply_command P E now cmd b = (x, t)" by fastforce
  with Cons show ?case
    using apply_command_typed [OF c] by (cases x) auto
qed simp

lemma snd_fail_command [simp]: "snd (fail_command e cmd) = Inl e"
  by (cases cmd) simp_all

lemma find_reply: "List.find (\<lambda>(resp, _). resp = me) xs = Some (r, y) \<Longrightarrow> (me, y) \<in> set xs"
  by (induction xs) (auto split: if_splits)

lemma rpc_cycle_typed:
  assumes "x \<in> set (cr_replies (run_rpc_cycle P E params now rpcs db ix))"
  shows "reply_typed (set rpcs) x"
proof -
  obtain r b where c: "apply_commands P E now rpcs \<lparr>b_st = begin_cycle E params db ix, b_sent = [], b_parked = []\<rparr> = (r, b)"
    by fastforce
  have b: "batch_typed (set rpcs) b" using apply_commands_typed [OF c subset_refl] by (simp add: batch_typed_def)
  show ?thesis
    using assms c b
    by (auto simp: run_rpc_cycle_def Let_def batch_typed_def list_all_iff respond_def
        split: option.splits prod.splits commit_outcome.splits) (auto simp: reply_typed_def split: sum.splits)
qed

lemma fresh_responder: "cmd \<in> set cmds \<Longrightarrow> cmd_resp cmd \<noteq> fresh_responder cmds"
proof -
  have "cmd \<in> set cmds \<Longrightarrow> cmd_resp cmd \<le> foldr max (map cmd_resp cmds) 0" by (induction cmds) auto
  then show "cmd \<in> set cmds \<Longrightarrow> cmd_resp cmd \<noteq> fresh_responder cmds" by (auto simp: fresh_responder_def)
qed

lemma round_trip_typed:
  assumes "round_trip P E params env cmd_of w = (Inr ans, w')" and "\<And>r. cmd_resp (cmd_of r) = r"
  shows "\<exists>r. answers_cmd (cmd_of r) ans"
proof -
  define te where "te = env (w_tick w)"
  define me where "me = fresh_responder (te_before te @ te_after te)"
  obtain c r1 where s1: "sweep_turn P E params (te_clock te) (w_committer w) = (c, r1)" by fastforce
  obtain c' r2 where s2: "rpc_turn P E params (te_clock te) (te_before te @ cmd_of me # te_after te) c = (c', r2)" by fastforce
  from assms(1) obtain r where r: "r2 = Some r" "(me, Inr ans) \<in> set (cr_replies r)"
    by (auto simp: round_trip_def Let_def te_def [symmetric] me_def [symmetric] s1 s2
        split: if_splits option.splits prod.splits dest!: find_reply)
  have "r = run_rpc_cycle P E params (ck_rpc (te_clock te)) (te_before te @ cmd_of me # te_after te) (co_db c) (co_ix c)"
    using s2 r(1) by (simp add: rpc_turn_def Let_def)
  with r(2) have "reply_typed (set (te_before te @ cmd_of me # te_after te)) (me, Inr ans)"
    by (simp only: rpc_cycle_typed)
  then show ?thesis using fresh_responder [of _ "te_before te @ te_after te"] by (auto simp: reply_typed_def me_def)
qed

interpretation cch: matching_channel "committer_channel P E params env" for P E params env
proof
  fix op w out w'
  assume "ch_op (committer_channel P E params env) op w = (Inr out, w')"
  then have "round_trip P E params env (CmdOp op) w = (Inr (AnsOp out), w')"
    by (auto simp: committer_channel_def split: prod.splits sum.splits answer.splits)
  from round_trip_typed [OF this] show "outcome_of op out" by auto
qed

end
