(* ===== verification/Queue_Server.thy ===== *)
theory Queue_Server
  imports Handle
begin

text \<open>
  \<open>src/queue_server.rs\<close>: the gRPC service. Each handler checks the request, applies the limits in
  force and calls the storage handle. Spans and log lines are left out; the rejections a handler
  counts (\<open>record_rejected\<close>) are part of its result. The trace context that a request without one
  inherits from the current span is an argument, as are the clock and the ids of new jobs. A
  message that quotes a queue name is a constructor of \<open>serve_error\<close> with what it is built from.
\<close>

section \<open>Limits of the server\<close>

record server_limits =
  sl_max_reserve_batch :: u32
  sl_max_reserve_queues :: u32
  sl_max_wait_timeout_ms :: u64
  sl_max_enqueue_batch :: u32
  sl_max_queue_name_bytes :: u32
  sl_max_job_type_bytes :: u32
  sl_max_idempotency_key_bytes :: u32

definition ServerLimits_from_config :: "config \<Rightarrow> server_limits" where
  "ServerLimits_from_config c = \<lparr>
     sl_max_reserve_batch = lc_max_reserve_batch (cf_limits c),
     sl_max_reserve_queues = lc_max_reserve_queues (cf_limits c),
     sl_max_wait_timeout_ms = lc_max_wait_timeout_ms (cf_limits c),
     sl_max_enqueue_batch = lc_max_enqueue_batch (cf_limits c),
     sl_max_queue_name_bytes = lc_max_queue_name_bytes (cf_limits c),
     sl_max_job_type_bytes = lc_max_job_type_bytes (cf_limits c),
     sl_max_idempotency_key_bytes = lc_max_idempotency_key_bytes (cf_limits c)\<rparr>"

section \<open>Classifying a job\<close>

definition primitive_value_bytes :: "primitive_value \<Rightarrow> u64" where
  "primitive_value_bytes v = (case pv_value v of
     Some (StringValue s) \<Rightarrow> length s
   | Some (DoubleValue _) \<Rightarrow> 8
   | Some (IntValue _) \<Rightarrow> 8
   | Some (BoolValue _) \<Rightarrow> 1
   | None \<Rightarrow> 0)"

text \<open>\<open>x as i64\<close> of a \<open>u64\<close> keeps the bits.\<close>

definition u64_as_i64 :: "u64 \<Rightarrow> i64" where
  "u64_as_i64 n = (if int n \<le> i64_max then int n else int n - 18446744073709551616)"

text \<open>The loop over the custom attributes, in key order, adding up their bytes.\<close>

fun custom_size :: "u32 \<Rightarrow> u64 \<Rightarrow> (str \<times> primitive_value) list \<Rightarrow> job_rejection + u64" where
  "custom_size limit sum_bytes [] = Inr sum_bytes"
| "custom_size limit sum_bytes ((key, value) # rest) =
     (if length key > unat limit
      then Inl (JobRejection (Some (CustomKeyTooLong key limit (length key))))
      else custom_size limit (sum_bytes + length key + primitive_value_bytes value) rest)"

definition check_enqueue_limits ::
    "prost \<Rightarrow> i64 \<Rightarrow> enqueue_request \<Rightarrow> effective_limits \<Rightarrow> server_limits \<Rightarrow> job_rejection + unit" where
  "check_enqueue_limits P now job limits s =
     (let reject = (\<lambda>r. JobRejection (Some r)) in
      and_then (check_if (length (er_queue job) > unat (sl_max_queue_name_bytes s))
        (reject (QueueNameTooLong (sl_max_queue_name_bytes s) (length (er_queue job)))))
     (and_then (check_if (length (er_job_type job) > unat (sl_max_job_type_bytes s))
        (reject (JobTypeNameTooLong (sl_max_job_type_bytes s) (length (er_job_type job)))))
     (and_then (check_opt (\<lambda>allowed. check_if (er_job_type job \<notin> set allowed)
        (reject (JobTypeNotAllowed (er_job_type job) allowed))) (el_allowed_job_types limits))
     (and_then (check_opt (\<lambda>key. check_if (length key > unat (sl_max_idempotency_key_bytes s))
        (reject (IdempotencyKeyTooLong (sl_max_idempotency_key_bytes s) (length key)))) (er_idempotency_key job))
     (and_then (check_opt (\<lambda>payload. check_if (length (pl_data payload) > el_max_payload_bytes limits)
        (reject (PayloadTooLarge (el_max_payload_bytes limits) (length (pl_data payload))))) (er_payload job))
     (and_then (check_opt (\<lambda>payload. check_opt (\<lambda>allowed. check_if (pl_encoding payload \<notin> set allowed)
        (reject (EncodingNotAllowed (pl_encoding payload) allowed))) (el_allowed_encodings limits)) (er_payload job))
     (and_then (check_if (length (sorted_list_of_fmap (er_custom job)) > unat (el_max_custom_entries limits))
        (reject (CustomEntriesTooMany (el_max_custom_entries limits) (of_nat (length (sorted_list_of_fmap (er_custom job)))))))
     (and_then (case custom_size (el_max_custom_key_bytes limits) 0 (sorted_list_of_fmap (er_custom job)) of
          Inl r \<Rightarrow> Inl r
        | Inr custom_bytes \<Rightarrow> check_if (custom_bytes > el_max_custom_total_bytes limits)
            (reject (CustomMapTooLarge (el_max_custom_total_bytes limits) custom_bytes)))
       (check_opt (\<lambda>at. check_if
          (timestamp_to_millis P at > i64_saturating_add now (u64_as_i64 (el_max_schedule_horizon_ms limits)))
          (reject (ScheduledTooFar (Some (millis_to_duration (el_max_schedule_horizon_ms limits))) (Some at))))
         (er_scheduled_at job))))))))))"

definition classify_enqueue ::
    "prost \<Rightarrow> i64 \<Rightarrow> enqueue_request \<Rightarrow> queue_registry \<Rightarrow> bool \<Rightarrow> server_limits \<Rightarrow> job_rejection + unit" where
  "classify_enqueue P now job registry strict_queues server =
     (case enqueue_request_check job of
        Inl message \<Rightarrow> Inl (JobRejection (Some (InvalidRequest message)))
      | Inr _ \<Rightarrow>
          if strict_queues \<and> \<not> is_declared registry (er_queue job)
          then Inl (JobRejection (Some (UnknownQueue (er_queue job))))
          else check_enqueue_limits P now job (effective registry (er_queue job)) server)"

text \<open>The labels of a rejection and of a nack strategy. A rejection always has a reason.\<close>

fun reason_label :: "reason \<Rightarrow> string" where
  "reason_label (UnknownQueue _) = ''unknown_queue''"
| "reason_label (PayloadTooLarge _ _) = ''payload_too_large''"
| "reason_label (EncodingNotAllowed _ _) = ''encoding_not_allowed''"
| "reason_label (JobTypeNotAllowed _ _) = ''job_type_not_allowed''"
| "reason_label (CustomEntriesTooMany _ _) = ''custom_entries_too_many''"
| "reason_label (CustomMapTooLarge _ _) = ''custom_map_too_large''"
| "reason_label (CustomKeyTooLong _ _ _) = ''custom_key_too_long''"
| "reason_label (QueueNameTooLong _ _) = ''queue_name_too_long''"
| "reason_label (JobTypeNameTooLong _ _) = ''job_type_name_too_long''"
| "reason_label (IdempotencyKeyTooLong _ _) = ''idempotency_key_too_long''"
| "reason_label (ScheduledTooFar _ _) = ''scheduled_too_far''"
| "reason_label (InvalidRequest _) = ''invalid_request''"
| "reason_label (QueueFull _ _) = ''queue_full''"
| "reason_label (QueueClosing _) = ''queue_closing''"

definition rejection_label :: "job_rejection \<Rightarrow> string option" where
  "rejection_label r = map_option reason_label (rej_reason r)"

definition nack_strategy_label :: "nack_request \<Rightarrow> string" where
  "nack_strategy_label req = (case Option.bind (nack_retry_field req) nr_strategy of
     Some (StrategyDelay _) \<Rightarrow> ''delay''
   | Some StrategyDeadLetter \<Rightarrow> ''dead_letter''
   | _ \<Rightarrow> ''default'')"

text \<open>What a rejection is counted under: by the handler, and when found at commit time.\<close>

type_synonym rejected = "str \<times> string option"

definition record_rejected :: "enqueue_request \<Rightarrow> job_rejection \<Rightarrow> rejected" where
  "record_rejected job r = (er_queue job, rejection_label r)"

definition record_commit_rejection :: "job_rejection \<Rightarrow> rejected" where
  "record_commit_rejection r =
     ((case rej_reason r of Some (QueueFull queue _) \<Rightarrow> queue | _ \<Rightarrow> []), rejection_label r)"

section \<open>Serving an enqueue\<close>

datatype serve_error =
    ServeStatus status
  | QueueNameExceeds str u32
  | QueuesNotDeclared "str list"

record queue_server =
  qs_config :: config
  qs_registry :: queue_registry
  qs_handle :: handle
  qs_dead_letter_retention_enabled :: bool

definition with_trace_context :: "trace_context option \<Rightarrow> enqueue_request \<Rightarrow> enqueue_request" where
  "with_trace_context current job =
     (if er_trace_context job = None then job\<lparr>er_trace_context := current\<rparr> else job)"

definition commit_validated ::
    "('db, 's) channel \<Rightarrow> queue_server \<Rightarrow> trace_context option \<Rightarrow> (nat \<Rightarrow> str) \<Rightarrow> enqueue_request list \<Rightarrow> 's
       \<Rightarrow> (status + enqueue_result list) \<times> 's" where
  "commit_validated ch srv current ids valid =
     storage_enqueue ch (qs_handle srv) ids (map (with_trace_context current) valid)"

definition commit_validated_atomic ::
    "('db, 's) channel \<Rightarrow> queue_server \<Rightarrow> trace_context option \<Rightarrow> (nat \<Rightarrow> str) \<Rightarrow> enqueue_request list \<Rightarrow> 's
       \<Rightarrow> (status + atomic_enqueue_outcome) \<times> 's" where
  "commit_validated_atomic ch srv current ids valid =
     storage_enqueue_atomic ch (qs_handle srv) ids (map (with_trace_context current) valid)"

definition batch_size_check :: "server_limits \<Rightarrow> enqueue_request list \<Rightarrow> serve_error + unit" where
  "batch_size_check limits jobs =
     (if jobs = [] then Inl (ServeStatus (Status InvalidArgument ''batch must contain at least one job''))
      else if length jobs > unat (sl_max_enqueue_batch limits)
      then Inl (ServeStatus (Status InvalidArgument
        (''batch exceeds max_enqueue_batch ('' @ show_nat (unat (sl_max_enqueue_batch limits)) @ '')'')))
      else Inr ())"

text \<open>The outcome of one job of a batch, and the jobs of a batch with their classification.\<close>

datatype job_result = JobSuccess enqueue_response | JobRejected job_rejection

definition classified ::
    "prost \<Rightarrow> i64 \<Rightarrow> queue_server \<Rightarrow> enqueue_request list \<Rightarrow> (enqueue_request \<times> (job_rejection + unit)) list" where
  "classified P now srv jobs =
     map (\<lambda>job. (job, classify_enqueue P now job (qs_registry srv) (sv_strict_queues (cf_server (qs_config srv)))
        (ServerLimits_from_config (qs_config srv)))) jobs"

definition valid_jobs :: "(enqueue_request \<times> (job_rejection + unit)) list \<Rightarrow> enqueue_request list" where
  "valid_jobs cs = List.map_filter (\<lambda>(job, c). case c of Inr _ \<Rightarrow> Some job | Inl _ \<Rightarrow> None) cs"

definition rejected_jobs :: "(enqueue_request \<times> (job_rejection + unit)) list \<Rightarrow> rejected list" where
  "rejected_jobs cs = List.map_filter (\<lambda>(job, c). case c of Inr _ \<Rightarrow> None | Inl r \<Rightarrow> Some (record_rejected job r)) cs"

text \<open>
  The slots of the batch are filled in order: a job that was refused keeps its rejection, any other
  takes the next result of storage; \<open>None\<close> is the panic of a missing result.
\<close>

fun fill_slots ::
    "(enqueue_request \<times> (job_rejection + unit)) list \<Rightarrow> enqueue_result list \<Rightarrow> (job_result list \<times> rejected list) option" where
  "fill_slots [] rs = Some ([], [])"
| "fill_slots ((job, Inl r) # cs) rs = map_option (\<lambda>(xs, ms). (JobRejected r # xs, ms)) (fill_slots cs rs)"
| "fill_slots ((job, Inr _) # cs) [] = None"
| "fill_slots ((job, Inr _) # cs) (Inr resp # rs) =
     map_option (\<lambda>(xs, ms). (JobSuccess resp # xs, ms)) (fill_slots cs rs)"
| "fill_slots ((job, Inr _) # cs) (Inl r # rs) =
     map_option (\<lambda>(xs, ms). (JobRejected r # xs, record_commit_rejection r # ms)) (fill_slots cs rs)"

definition serve_enqueue_batch ::
    "prost \<Rightarrow> ('db, 's) channel \<Rightarrow> queue_server \<Rightarrow> i64 \<Rightarrow> trace_context option \<Rightarrow> (nat \<Rightarrow> str) \<Rightarrow> enqueue_request list \<Rightarrow> 's
       \<Rightarrow> ((serve_error + job_result list) \<times> rejected list) option \<times> 's" where
  "serve_enqueue_batch P ch srv now current ids jobs s =
     (case batch_size_check (ServerLimits_from_config (qs_config srv)) jobs of
        Inl e \<Rightarrow> (Some (Inl e, []), s)
      | Inr _ \<Rightarrow>
          (let cs = classified P now srv jobs
           in case commit_validated ch srv current ids (valid_jobs cs) s of
                (Inl e, s) \<Rightarrow> (Some (Inl (ServeStatus e), rejected_jobs cs), s)
              | (Inr results, s) \<Rightarrow>
                  (map_option (\<lambda>(slots, ms). (Inr slots, rejected_jobs cs @ ms)) (fill_slots cs results), s)))"

datatype atomic_response = AtomicSuccess "enqueue_response list" | AtomicRejection "(u32 \<times> job_rejection) list"

definition serve_enqueue_atomic ::
    "prost \<Rightarrow> ('db, 's) channel \<Rightarrow> queue_server \<Rightarrow> i64 \<Rightarrow> trace_context option \<Rightarrow> (nat \<Rightarrow> str) \<Rightarrow> enqueue_request list \<Rightarrow> 's
       \<Rightarrow> ((serve_error + atomic_response) \<times> rejected list) \<times> 's" where
  "serve_enqueue_atomic P ch srv now current ids jobs s =
     (case batch_size_check (ServerLimits_from_config (qs_config srv)) jobs of
        Inl e \<Rightarrow> ((Inl e, []), s)
      | Inr _ \<Rightarrow>
          (let cs = classified P now srv jobs;
               errors = List.map_filter (\<lambda>(i, (_, c)). case c of Inl r \<Rightarrow> Some (of_nat i, r) | Inr _ \<Rightarrow> None) (enumerate 0 cs)
           in if errors \<noteq> [] then ((Inr (AtomicRejection errors), rejected_jobs cs), s)
              else case commit_validated_atomic ch srv current ids (valid_jobs cs) s of
                (Inl e, s) \<Rightarrow> ((Inl (ServeStatus e), []), s)
              | (Inr (Committed responses), s) \<Rightarrow> ((Inr (AtomicSuccess responses), []), s)
              | (Inr (Rejected rejections), s) \<Rightarrow>
                  ((Inr (AtomicRejection rejections), map (\<lambda>(_, r). record_commit_rejection r) rejections), s)))"

section \<open>Serving a reservation\<close>

record reserve_params =
  rp_lease :: u64
  rp_max_jobs :: usize
  rp_wait :: u64

definition reserve_checks :: "queue_server \<Rightarrow> reserve_request \<Rightarrow> serve_error + unit" where
  "reserve_checks srv req =
     (let limits = ServerLimits_from_config (qs_config srv)
      in case reserve_request_check req of
           Inl message \<Rightarrow> Inl (ServeStatus (Status InvalidArgument message))
         | Inr _ \<Rightarrow>
             if length (rr_queues req) > unat (sl_max_reserve_queues limits)
             then Inl (ServeStatus (Status InvalidArgument
               (''reserve exceeds max_reserve_queues ('' @ show_nat (unat (sl_max_reserve_queues limits)) @ '')'')))
             else case List.find (\<lambda>q. length q > unat (sl_max_queue_name_bytes limits)) (rr_queues req) of
                 Some q \<Rightarrow> Inl (QueueNameExceeds q (sl_max_queue_name_bytes limits))
               | None \<Rightarrow>
                   (let unknown = filter (\<lambda>q. \<not> is_declared (qs_registry srv) q) (rr_queues req)
                    in if sv_strict_queues (cf_server (qs_config srv)) \<and> unknown \<noteq> []
                       then Inl (QueuesNotDeclared unknown) else Inr ()))"

definition reserve_params_of :: "prost \<Rightarrow> queue_server \<Rightarrow> reserve_request \<Rightarrow> reserve_params" where
  "reserve_params_of P srv req =
     (let limits = ServerLimits_from_config (qs_config srv);
          max_lease = (case map (\<lambda>q. el_max_lease_duration_ms (effective (qs_registry srv) q)) (rr_queues req) of
              [] \<Rightarrow> u64_max | m # ms \<Rightarrow> foldl min m ms)
      in \<lparr>rp_lease = max (min (case rr_lease_duration req of
              Some d \<Rightarrow> duration_to_millis P d | None \<Rightarrow> 0) max_lease) 1,
          rp_max_jobs = unat (min (max (unwrap_or (rr_max_jobs req) 1) 1) (sl_max_reserve_batch limits)),
          rp_wait = min (case rr_wait_timeout req of
              Some d \<Rightarrow> duration_to_millis P d | None \<Rightarrow> 0) (sl_max_wait_timeout_ms limits)\<rparr>)"

text \<open>
  The long poll: reserve, and while nothing is ready wait for a wake-up, the shutdown or the
  deadline. What the waiting sees in its n-th round is given by \<open>polls\<close>: the time, the shutdown flag
  and which branch of the \<open>select!\<close> fires. The loop may go on as long as it is woken.
\<close>

datatype wake = Woken | ShuttingDown | TimedOut

record poll =
  po_now :: u64
  po_shutdown :: bool
  po_wake :: wake

partial_function (option) reserve_loop ::
    "('db, 's) channel \<Rightarrow> str list \<Rightarrow> reserve_params \<Rightarrow> u64 \<Rightarrow> (nat \<Rightarrow> poll) \<Rightarrow> nat \<Rightarrow> 's
       \<Rightarrow> ((status + job list) \<times> 's) option" where
  "reserve_loop ch queues p deadline polls n s =
     (case storage_reserve_once ch queues (rp_lease p) (rp_max_jobs p) s of
        (Inl e, s) \<Rightarrow> Some (Inl e, s)
      | (Inr jobs, s) \<Rightarrow>
          if jobs \<noteq> [] then Some (Inr jobs, s)
          else if po_now (polls n) \<ge> deadline then Some (Inr [], s)
          else if po_shutdown (polls n) then Some (Inr [], s)
          else (case po_wake (polls n) of
              Woken \<Rightarrow> reserve_loop ch queues p deadline polls (Suc n) s
            | _ \<Rightarrow> Some (Inr [], s)))"

text \<open>
  A delivered job carries the trace context of the delivery span when tracing is on: \<open>deliver\<close> gives
  it for a job, or nothing.
\<close>

definition delivered :: "(job \<Rightarrow> trace_context option) \<Rightarrow> job \<Rightarrow> job" where
  "delivered deliver j = (case deliver j of Some ctx \<Rightarrow> j\<lparr>j_trace_context := Some ctx\<rparr> | None \<Rightarrow> j)"

definition serve_reserve ::
    "prost \<Rightarrow> ('db, 's) channel \<Rightarrow> queue_server \<Rightarrow> (job \<Rightarrow> trace_context option) \<Rightarrow> u64 \<Rightarrow> (nat \<Rightarrow> poll) \<Rightarrow> reserve_request \<Rightarrow> 's
       \<Rightarrow> ((serve_error + job list) \<times> 's) option" where
  "serve_reserve P ch srv deliver started polls req s =
     (case reserve_checks srv req of
        Inl e \<Rightarrow> Some (Inl e, s)
      | Inr _ \<Rightarrow>
          (let p = reserve_params_of P srv req
           in case reserve_loop ch (rr_queues req) p (started + rp_wait p) polls 0 s of
                None \<Rightarrow> None
              | Some (Inl e, s) \<Rightarrow> Some (Inl (ServeStatus e), s)
              | Some (Inr jobs, s) \<Rightarrow> Some (Inr (map (delivered deliver) jobs), s)))"

section \<open>Serving acknowledgements, extensions and drains\<close>

text \<open>\<open>validate::...(&req).map_err(Status::invalid_argument)?\<close>.\<close>

definition checked :: "check \<Rightarrow> ('s \<Rightarrow> (status + 'a) \<times> 's) \<Rightarrow> 's \<Rightarrow> (status + 'a) \<times> 's" where
  "checked c serve s = (case c of Inl message \<Rightarrow> (Inl (Status InvalidArgument message), s) | Inr _ \<Rightarrow> serve s)"

definition respond_with :: "('a \<Rightarrow> 'b) \<Rightarrow> (status + 'a) \<times> 's \<Rightarrow> (status + 'b) \<times> 's" where
  "respond_with f r = (case r of (Inl e, s) \<Rightarrow> (Inl e, s) | (Inr v, s) \<Rightarrow> (Inr (f v), s))"

definition serve_ack :: "('db, 's) channel \<Rightarrow> ack_request \<Rightarrow> 's \<Rightarrow> (status + str) \<times> 's" where
  "serve_ack ch req = checked (ack_request_check req)
     (\<lambda>s. respond_with (\<lambda>_. ack_job_id req) (storage_ack ch (ack_job_id req) (ack_attempt req) s))"

definition serve_nack ::
    "prost \<Rightarrow> ('db, 'tx) engine \<Rightarrow> (str \<Rightarrow> u32 \<Rightarrow> u64) \<Rightarrow> ('db, 's) channel \<Rightarrow> queue_server \<Rightarrow> nack_request \<Rightarrow> 's
       \<Rightarrow> (status + str \<times> bool) \<times> 's" where
  "serve_nack P E jitter ch srv req = checked (nack_request_check req)
     (\<lambda>s. respond_with (\<lambda>out. (nack_job_id req, no_dead_lettered out)) (storage_nack P E jitter ch (qs_handle srv) req s))"

definition serve_extend ::
    "prost \<Rightarrow> ('db, 'tx) engine \<Rightarrow> ('db, 's) channel \<Rightarrow> queue_server \<Rightarrow> extend_request \<Rightarrow> 's
       \<Rightarrow> (status + str \<times> timestamp) \<times> 's" where
  "serve_extend P E ch srv req = checked (extend_request_check req)
     (\<lambda>s. respond_with (\<lambda>out. (ext_job_id req, millis_to_timestamp P (eo_lease_expires_at out)))
       (storage_extend P E ch (qs_handle srv) req s))"

definition serve_drain_dead_letters ::
    "('db, 's) channel \<Rightarrow> queue_server \<Rightarrow> drain_request \<Rightarrow> 's \<Rightarrow> (status + dead_letter_record list) \<times> 's" where
  "serve_drain_dead_letters ch srv req = checked (drain_dead_letters_request_check req)
     (\<lambda>s. let mx = unat (min (max (unwrap_or (dr_max req) 1) 1) (lc_max_reserve_batch (cf_limits (qs_config srv))))
          in storage_drain_dead_letters ch (qs_handle srv) (dr_queue req) mx s)"

record server_info =
  si_server_version :: string
  si_supported_protocol_versions :: "string list"
  si_server_time :: timestamp
  si_restricts_encodings :: bool
  si_allowed_encodings :: "str list"
  si_max_payload_bytes :: u64
  si_max_custom_entries :: u32
  si_max_custom_total_bytes :: u64
  si_max_custom_key_bytes :: u32
  si_max_queue_name_bytes :: u32
  si_max_job_type_bytes :: u32
  si_max_idempotency_key_bytes :: u32
  si_max_schedule_horizon :: duration
  si_max_enqueue_batch :: u32
  si_max_reserve_batch :: u32
  si_max_reserve_queues :: u32
  si_max_wait_timeout :: duration
  si_max_lease_duration :: duration
  si_strict_queues :: bool
  si_dead_letter_retention_enabled :: bool

text \<open>The version is that of the build.\<close>

definition serve_get_server_info :: "prost \<Rightarrow> string \<Rightarrow> queue_server \<Rightarrow> i64 \<Rightarrow> server_info" where
  "serve_get_server_info P version srv now =
     (let defaults = effective (qs_registry srv) [];
          s = ServerLimits_from_config (qs_config srv)
      in \<lparr>si_server_version = version,
          si_supported_protocol_versions = [''v1''],
          si_server_time = millis_to_timestamp P now,
          si_restricts_encodings = (el_allowed_encodings defaults \<noteq> None),
          si_allowed_encodings = unwrap_or (el_allowed_encodings defaults) [],
          si_max_payload_bytes = el_max_payload_bytes defaults,
          si_max_custom_entries = el_max_custom_entries defaults,
          si_max_custom_total_bytes = el_max_custom_total_bytes defaults,
          si_max_custom_key_bytes = el_max_custom_key_bytes defaults,
          si_max_queue_name_bytes = sl_max_queue_name_bytes s,
          si_max_job_type_bytes = sl_max_job_type_bytes s,
          si_max_idempotency_key_bytes = sl_max_idempotency_key_bytes s,
          si_max_schedule_horizon = millis_to_duration (el_max_schedule_horizon_ms defaults),
          si_max_enqueue_batch = sl_max_enqueue_batch s,
          si_max_reserve_batch = sl_max_reserve_batch s,
          si_max_reserve_queues = sl_max_reserve_queues s,
          si_max_wait_timeout = millis_to_duration (sl_max_wait_timeout_ms s),
          si_max_lease_duration = millis_to_duration (el_max_lease_duration_ms defaults),
          si_strict_queues = sv_strict_queues (cf_server (qs_config srv)),
          si_dead_letter_retention_enabled = qs_dead_letter_retention_enabled srv\<rparr>)"

section \<open>Lemmas\<close>

text \<open>What storage answered for a job, as the result of the job.\<close>

definition result_of :: "enqueue_result \<Rightarrow> job_result" where
  "result_of r = (case r of Inr resp \<Rightarrow> JobSuccess resp | Inl rej \<Rightarrow> JobRejected rej)"

text \<open>The results of the jobs that were not refused at once, in order.\<close>

definition valid_results :: "(enqueue_request \<times> (job_rejection + unit)) list \<Rightarrow> job_result list \<Rightarrow> job_result list" where
  "valid_results cs results = map snd (filter (\<lambda>(c, _). c = Inr ()) (zip (map snd cs) results))"

lemma valid_results_simps [simp]:
  "valid_results [] [] = []"
  "valid_results ((job, Inl r) # cs) (x # xs) = valid_results cs xs"
  "valid_results ((job, Inr ()) # cs) (x # xs) = x # valid_results cs xs"
  by (simp_all add: valid_results_def)

lemma fill_slots_total:
  assumes "length rs = length (valid_jobs cs)"
  shows "\<exists>xs ms. fill_slots cs rs = Some (xs, ms) \<and> length xs = length cs
    \<and> (\<forall>i < length cs. \<forall>r. snd (cs ! i) = Inl r \<longrightarrow> xs ! i = JobRejected r)
    \<and> valid_results cs xs = map result_of rs"
  using assms
proof (induction cs rs rule: fill_slots.induct)
  case (2 job r cs rs)
  then obtain xs ms where "fill_slots cs rs = Some (xs, ms)" "length xs = length cs"
    "\<forall>i < length cs. \<forall>r. snd (cs ! i) = Inl r \<longrightarrow> xs ! i = JobRejected r"
    "valid_results cs xs = map result_of rs"
    by (auto simp: valid_jobs_def List.map_filter_simps)
  then show ?case by (auto simp: nth_Cons' gr0_conv_Suc)
next
  case (4 job u cs resp rs)
  then obtain xs ms where "fill_slots cs rs = Some (xs, ms)" "length xs = length cs"
    "\<forall>i < length cs. \<forall>r. snd (cs ! i) = Inl r \<longrightarrow> xs ! i = JobRejected r"
    "valid_results cs xs = map result_of rs"
    by (auto simp: valid_jobs_def List.map_filter_simps)
  then show ?case by (auto simp: nth_Cons' gr0_conv_Suc result_of_def)
next
  case (5 job u cs r rs)
  then obtain xs ms where "fill_slots cs rs = Some (xs, ms)" "length xs = length cs"
    "\<forall>i < length cs. \<forall>r. snd (cs ! i) = Inl r \<longrightarrow> xs ! i = JobRejected r"
    "valid_results cs xs = map result_of rs"
    by (auto simp: valid_jobs_def List.map_filter_simps)
  then show ?case by (auto simp: nth_Cons' gr0_conv_Suc result_of_def)
qed (auto simp: valid_jobs_def List.map_filter_simps)

lemma length_prepare_jobs [simp]: "length (prepare_jobs h ids jobs) = length jobs"
  by (simp add: prepare_jobs_def)

context matching_channel
begin

lemma commit_validated_length:
  assumes "commit_validated ch srv current ids jobs s = (Inr rs, s')"
  shows "ch_op ch (OpEnqueue (prepare_jobs (qs_handle srv) ids (map (with_trace_context current) jobs)) 0) s =
      (Inr (OutEnqueue rs), s') \<and> length rs = length jobs"
proof -
  let ?op = "OpEnqueue (prepare_jobs (qs_handle srv) ids (map (with_trace_context current) jobs)) 0"
  have sent: "send_op ch ?op as_enqueue s = (Inr rs, s')"
    using assms by (simp add: commit_validated_def storage_enqueue_def)
  then obtain out where out: "ch_op ch ?op s = (Inr out, s')" "as_enqueue out = Some rs"
    by (auto simp: send_op_def split: prod.splits sum.splits option.splits)
  from matching [OF out(1)] out show ?thesis by (auto simp: outcome_of_def)
qed

lemma enqueue_batch_total:
  assumes "serve_enqueue_batch P ch srv now current ids jobs s = (r, s')"
  shows "r \<noteq> None \<and> (\<forall>results ms. r = Some (Inr results, ms) \<longrightarrow>
    length results = length jobs
    \<and> (\<forall>i < length jobs. \<forall>rej. snd (classified P now srv jobs ! i) = Inl rej \<longrightarrow> results ! i = JobRejected rej)
    \<and> (\<exists>rs. ch_op ch (OpEnqueue (prepare_jobs (qs_handle srv) ids
            (map (with_trace_context current) (valid_jobs (classified P now srv jobs)))) 0) s = (Inr (OutEnqueue rs), s')
        \<and> valid_results (classified P now srv jobs) results = map result_of rs))"
proof (cases "batch_size_check (ServerLimits_from_config (qs_config srv)) jobs")
  case (Inl e)
  with assms show ?thesis by (auto simp: serve_enqueue_batch_def)
next
  case (Inr u)
  let ?cs = "classified P now srv jobs"
  obtain x t where c: "commit_validated ch srv current ids (valid_jobs ?cs) s = (x, t)" by fastforce
  show ?thesis
  proof (cases x)
    case Inl': (Inl e)
    with assms Inr c show ?thesis by (auto simp: serve_enqueue_batch_def Let_def)
  next
    case Inr': (Inr rs)
    from commit_validated_length [OF c [unfolded Inr']]
    have op: "ch_op ch (OpEnqueue (prepare_jobs (qs_handle srv) ids (map (with_trace_context current) (valid_jobs ?cs))) 0) s =
        (Inr (OutEnqueue rs), t)" and len: "length rs = length (valid_jobs ?cs)" by simp_all
    obtain xs ms where fill: "fill_slots ?cs rs = Some (xs, ms)" "length xs = length ?cs"
      "\<forall>i < length ?cs. \<forall>r. snd (?cs ! i) = Inl r \<longrightarrow> xs ! i = JobRejected r"
      "valid_results ?cs xs = map result_of rs"
      using fill_slots_total [OF len] by blast
    have r: "r = Some (Inr xs, rejected_jobs ?cs @ ms)" "s' = t"
      using assms Inr c Inr' fill(1) by (simp_all add: serve_enqueue_batch_def Let_def)
    have "length ?cs = length jobs" by (simp add: classified_def)
    with r op fill show ?thesis by auto
  qed
qed

end

text \<open>The long poll returns as soon as a round ends it.\<close>

lemma reserve_loop_returns:
  assumes "n \<le> m" and "po_now (polls m) \<ge> deadline \<or> po_shutdown (polls m) \<or> po_wake (polls m) \<noteq> Woken"
  shows "\<exists>r. reserve_loop ch queues p deadline polls n s = Some r"
  using assms(1)
proof (induction "m - n" arbitrary: n s)
  case 0
  then have "n = m" by simp
  with assms(2) show ?case
    by (subst reserve_loop.simps) (auto split: prod.splits sum.splits wake.splits)
next
  case (Suc k)
  then have "\<exists>r. reserve_loop ch queues p deadline polls (Suc n) t = Some r" for t by (intro Suc.hyps) auto
  then show ?case
    by (subst reserve_loop.simps) (auto split: prod.splits sum.splits wake.splits)
qed

lemma foldl_min_pos: "\<forall>x \<in> set (m # ms). (1 :: nat) \<le> x \<Longrightarrow> 1 \<le> foldl min m ms"
  by (induction ms arbitrary: m) auto

lemma check_enqueue_limits_Inr:
  assumes "check_enqueue_limits P now job l s = Inr ()"
  shows "length (er_queue job) \<le> unat (sl_max_queue_name_bytes s)"
    "length (er_job_type job) \<le> unat (sl_max_job_type_bytes s)"
    "pred_option (\<lambda>allowed. er_job_type job \<in> set allowed) (el_allowed_job_types l)"
    "pred_option (\<lambda>key. length key \<le> unat (sl_max_idempotency_key_bytes s)) (er_idempotency_key job)"
    "pred_option (\<lambda>p. length (pl_data p) \<le> el_max_payload_bytes l
       \<and> pred_option (\<lambda>allowed. pl_encoding p \<in> set allowed) (el_allowed_encodings l)) (er_payload job)"
    "card (fmdom' (er_custom job)) \<le> unat (el_max_custom_entries l)"
    "\<exists>n. custom_size (el_max_custom_key_bytes l) 0 (sorted_list_of_fmap (er_custom job)) = Inr n
       \<and> n \<le> el_max_custom_total_bytes l"
    "pred_option (\<lambda>at. timestamp_to_millis P at \<le>
       i64_saturating_add now (u64_as_i64 (el_max_schedule_horizon_ms l))) (er_scheduled_at job)"
  using assms
  by (auto simp: check_enqueue_limits_def Let_def check_if_Inr check_opt_Inr length_sorted_list_of_fmap not_less
      pred_option_def split: sum.splits)

lemma custom_size_Inr:
  "custom_size limit b kvs = Inr n \<Longrightarrow>
     n = b + sum_list (map (\<lambda>(k, v). length k + primitive_value_bytes v) kvs) \<and> (\<forall>(k, v) \<in> set kvs. length k \<le> unat limit)"
  by (induction limit b kvs rule: custom_size.induct) (auto split: if_splits)

end
