(* ===== verification/Linearize.thy ===== *)
theory Linearize
  imports Handle Server_Loop Enqueue_Spec
begin

text \<open>
  What a client of the storage handle may conclude from a reply. The committer takes the command
  together with whatever other clients have sent; an operation that is answered with an outcome took
  effect at one point of the batch, in a state that stands for a queue, and its effect is part of
  what was committed.
\<close>

section \<open>One command of a batch\<close>

lemma apply_commands_append:
  "apply_commands P E now (xs @ ys) b = (case apply_commands P E now xs b of
     (None, b) \<Rightarrow> apply_commands P E now ys b
   | (Some (fatal, rest), b) \<Rightarrow> (Some (fatal, rest @ ys), b))"
  by (induction xs arbitrary: b) (auto split: prod.splits sum.splits)

lemma apply_command_parked:
  assumes "apply_command P E now cmd b = (r, b')"
  shows "\<exists>ps. b_parked b' = b_parked b @ ps \<and> (\<forall>p \<in> set ps. pr_resp p = cmd_resp cmd)"
  using assms by (cases cmd) (auto split: prod.splits sum.splits)

lemma apply_commands_parked:
  assumes "apply_commands P E now rpcs b = (r, b')"
  shows "\<exists>ps. b_parked b' = b_parked b @ ps \<and> (\<forall>p \<in> set ps. pr_resp p \<in> cmd_resp ` set rpcs)"
  using assms
proof (induction rpcs arbitrary: b)
  case (Cons cmd rpcs)
  obtain x t where c: "apply_command P E now cmd b = (x, t)" by fastforce
  from apply_command_parked [OF c] obtain ps where
    1: "b_parked t = b_parked b @ ps" "\<forall>p \<in> set ps. pr_resp p = cmd_resp cmd" by blast
  show ?case
  proof (cases x)
    case (Inl e)
    with Cons.prems c 1 show ?thesis by auto
  next
    case (Inr u)
    with Cons.prems c have "apply_commands P E now rpcs t = (r, b')" by simp
    from Cons.IH [OF this] obtain qs where
      "b_parked b' = b_parked t @ qs" "\<forall>p \<in> set qs. pr_resp p \<in> cmd_resp ` set rpcs" by blast
    with 1 show ?thesis by (intro exI [of _ "ps @ qs"]) auto
  qed
qed simp

lemma batch_ok_append:
  "batch_ok A (xs @ ys) \<Longrightarrow>
     batch_ok A xs \<and> (\<forall>B. same_ids A B (concat (map cmd_ids xs)) \<longrightarrow> batch_ok B ys)"
  unfolding batch_ok_def using unused_after [of A _ "concat (map cmd_ids xs)" "concat (map cmd_ids ys)"] by auto

text \<open>A reply with the outcome of an operation is a parked one, and the cycle has committed.\<close>

lemma done_reply_committed:
  assumes "(me, Inr (AnsOp out)) \<in> set (cr_replies (run_rpc_cycle P E params now rpcs db ix))"
  obtains b db' where
    "apply_commands P E now rpcs \<lparr>b_st = begin_cycle E params db ix, b_sent = [], b_parked = []\<rparr> = (None, b)"
    "commit_if_dirty E (sp_persist_mode params) db (b_st b) = (CommitOk, db')"
    "\<lparr>pr_resp = me, pr_outcome = out\<rparr> \<in> set (b_parked b)"
    "cr_db (run_rpc_cycle P E params now rpcs db ix) = db'" "cr_ix (run_rpc_cycle P E params now rpcs db ix) = st_ix (b_st b)"
proof -
  obtain r b where c: "apply_commands P E now rpcs \<lparr>b_st = begin_cycle E params db ix, b_sent = [], b_parked = []\<rparr> = (r, b)"
    by fastforce
  obtain oc db' where o: "commit_if_dirty E (sp_persist_mode params) db (b_st b) = (oc, db')" by fastforce
  have sent: "(me, Inr (AnsOp out)) \<notin> set (b_sent b)"
    using apply_commands_replies [OF c] by (auto simp: list_all_iff is_done_def)
  have failed: "(me, Inr (AnsOp out)) \<notin> fail_command e ` X" "(me, Inr (AnsOp out)) \<notin> respond (Inl e) ` Y" for e X Y
    by (auto simp: respond_def) (metis Inl_Inr_False snd_conv snd_fail_command)
  have "r = None" "oc = CommitOk"
    using assms sent failed c o by (auto simp: run_rpc_cycle_def Let_def split: option.splits commit_outcome.splits)
  moreover from this have "\<lparr>pr_resp = me, pr_outcome = out\<rparr> \<in> set (b_parked b)"
    using assms sent c o by (auto simp: run_rpc_cycle_def Let_def respond_def) (metis (full_types) old.unit.exhaust pending_reply.surjective)
  ultimately show thesis using that c o by (simp add: run_rpc_cycle_def Let_def)
qed

context storage
begin

text \<open>Which ids are in use is a matter of the rows.\<close>

lemma reps_ids:
  assumes "reps s A" and "reps s B" and "unused A ids"
  shows "unused B ids"
proof -
  have "fmlookup (a_jobs B) j = None" if "fmlookup (a_jobs A) j = None" for j
    using jobs_rep_job [OF repsD(1) [OF assms(1)], of j] jobs_rep_job [OF repsD(1) [OF assms(2)], of j] that by simp
  moreover have "fmlookup (a_dead B) j = None" if none: "fmlookup (a_dead A) j = None" for j
  proof (rule ccontr)
    assume "fmlookup (a_dead B) j \<noteq> None"
    then obtain d where d: "fmlookup (a_dead B) j = Some d" by blast
    have rows: "keyed (dview P) (a_dead A) (txv (st_tx s) DeadLetter)" "keyed (dview P) (a_dead B) (txv (st_tx s) DeadLetter)"
      and ok: "fmpred adead_ok (a_dead A)" "fmpred adead_ok (a_dead B)"
      using repsD(2) [OF assms(1)] repsD(2) [OF assms(2)] by (simp_all add: dead_rep_def fmpred_iff)
    have "fmlookup (txv (st_tx s) DeadLetter) (dead_key j d) = Some (dlr_encode P (dd_record d))"
      using rows(2) d unfolding keyed_def dview_def by blast
    then obtain i e where "fmlookup (a_dead A) i = Some e" "dead_key i e = dead_key j d"
      using rows(1) unfolding keyed_def dview_def by auto
    then have "i = j" using ok d dead_key_job_id by (metis fmpredD option.inject)
    with none \<open>fmlookup (a_dead A) i = Some e\<close> show False by simp
  qed
  ultimately show ?thesis using assms(3) by (simp add: unused_def)
qed

lemma command_linearizes:
  assumes rep: "reps (b_st b0) A" and ok: "batch_ok A (before @ CmdOp op me # after)" and now: "0 \<le> now" "i64_ok now"
    and run: "apply_commands P E now (before @ CmdOp op me # after) b0 = (None, b3)" and b0: "b_parked b0 = []"
    and out: "\<lparr>pr_resp = me, pr_outcome = out\<rparr> \<in> set (b_parked b3)"
    and others: "me \<notin> cmd_resp ` (set before \<union> set after)"
  shows "quiet (b_st b0) (b_st b3) \<and> (\<exists>es B s s'. arun A es B \<and> enqueues_only (concat (map cmd_ids before)) es
    \<and> unused B (op_ids op) \<and> reps s B \<and> apply_op P E (stamp now op) s = (Inr out, s')
    \<and> (\<exists>B'. reps s' B') \<and> (\<forall>B'. reps s' B' \<longrightarrow>
         (\<exists>fs C. arun B' fs C \<and> enqueues_only (concat (map cmd_ids after)) fs \<and> reps (b_st b3) C)))"
proof -
  from run obtain b1 where 1: "apply_commands P E now before b0 = (None, b1)"
    and go: "apply_commands P E now (CmdOp op me # after) b1 = (None, b3)"
    by (auto simp: apply_commands_append split: prod.splits option.splits)
  obtain x b2 where c: "apply_command P E now (CmdOp op me) b1 = (x, b2)" by fastforce
  with go obtain u where x: "x = Inr u" and 3: "apply_commands P E now after b2 = (None, b3)" by (cases x) auto
  note before = batch_ok_append [OF ok]
  from apply_commands_refines [OF rep _ now 1] before obtain es B where
    B: "arun A es B" "reps (b_st b1) B" "quiet (b_st b0) (b_st b1)" "enqueues_only (concat (map cmd_ids before)) es" by blast
  have okB: "batch_ok B (CmdOp op me # after)" using before arun_ids [OF B(1,4)] by blast
  note mine = batch_ok_Cons [OF okB]
  from apply_command_refines [OF B(2) _ _ now c [unfolded x]] mine obtain fs B' where
    B': "arun B fs B'" "reps (b_st b2) B'" "enqueues_only (cmd_ids (CmdOp op me)) fs" "quiet (b_st b1) (b_st b2)"
    unfolding refined_def by auto
  have after: "batch_ok B' after" using mine arun_ids [OF B'(1,3)] by blast
  have C: "\<exists>fs C. arun B'' fs C \<and> enqueues_only (concat (map cmd_ids after)) fs \<and> reps (b_st b3) C \<and> quiet (b_st b2) (b_st b3)"
    if rep'': "reps (b_st b2) B''" for B''
  proof -
    have "batch_ok B'' after" using after reps_ids [OF B'(2) rep''] by (simp add: batch_ok_def)
    from apply_commands_refines [OF rep'' this now 3] show ?thesis by blast
  qed
  have "\<lparr>pr_resp = me, pr_outcome = out\<rparr> \<notin> set (b_parked b1)"
    using apply_commands_parked [OF 1] others b0 by force
  moreover have "\<lparr>pr_resp = me, pr_outcome = out\<rparr> \<in> set (b_parked b2)"
    using apply_commands_parked [OF 3] out others by force
  ultimately have "apply_op P E (stamp now op) (b_st b1) = (Inr out, b_st b2)"
    using c by (auto split: prod.splits sum.splits)
  moreover have "unused B (op_ids op)" using mine by simp
  moreover have "quiet (b_st b0) (b_st b3)" using B(3) B'(4) C [OF B'(2)] by (blast intro: quiet_trans)
  ultimately show ?thesis using B(1,2,4) C B'(2) by blast
qed

end

section \<open>One round trip\<close>

text \<open>The commands of the other clients in the turn to come, and the time the turn takes as now.\<close>

definition others :: "(nat \<Rightarrow> turn_env) \<Rightarrow> 'db world \<Rightarrow> command list" where
  "others env w = te_before (env (w_tick w)) @ te_after (env (w_tick w))"

definition turn_now :: "(nat \<Rightarrow> turn_env) \<Rightarrow> 'db world \<Rightarrow> i64" where
  "turn_now env w = ck_rpc (te_clock (env (w_tick w)))"

text \<open>A turn whose clock is sane and in which all commands are well formed, with ids that are new.\<close>

definition turn_ok :: "(nat \<Rightarrow> turn_env) \<Rightarrow> op \<Rightarrow> 'db world \<Rightarrow> abs_queue \<Rightarrow> bool" where
  "turn_ok env op w A \<longleftrightarrow> clock_ok (te_clock (env (w_tick w))) \<and> op_ok op \<and> list_all cmd_ok (others env w)
     \<and> distinct (op_ids op @ concat (map cmd_ids (others env w)))
     \<and> unused A (op_ids op @ concat (map cmd_ids (others env w)))"

lemma enqueues_only_mono: "enqueues_only ids es \<Longrightarrow> set ids \<subseteq> set ids' \<Longrightarrow> enqueues_only ids' es"
  by (auto simp: enqueues_only_def)

lemma turn_ok_batch:
  "turn_ok env op w A \<Longrightarrow> te = env (w_tick w) \<Longrightarrow> batch_ok A (te_before te @ CmdOp op me # te_after te)"
  by (auto simp: turn_ok_def batch_ok_def others_def)

context reliable_storage
begin

lemma round_trip_linearizes:
  assumes rep: "represents P (dbv (co_db (w_committer w))) (co_ix (w_committer w)) A" and ok: "turn_ok env op w A"
    and trip: "ch_op (committer_channel P E params env) op w = (Inr out, w')"
  shows "\<exists>es B s s'. arun A es B \<and> enqueues_only (concat (map cmd_ids (others env w))) es
    \<and> unused B (op_ids op) \<and> represents P (txv (st_tx s)) (st_ix s) B
    \<and> apply_op P E (stamp (turn_now env w) op) s = (Inr out, s')
    \<and> (\<exists>B'. represents P (txv (st_tx s')) (st_ix s') B')
    \<and> (\<forall>B'. represents P (txv (st_tx s')) (st_ix s') B' \<longrightarrow>
         (\<exists>fs C. arun B' fs C \<and> enqueues_only (concat (map cmd_ids (others env w))) fs
            \<and> represents P (dbv (co_db (w_committer w'))) (co_ix (w_committer w')) C))"
proof -
  define te where "te = env (w_tick w)"
  define me where "me = fresh_responder (te_before te @ te_after te)"
  let ?rpcs = "te_before te @ CmdOp op me # te_after te"
  have "round_trip P E params env (CmdOp op) w = (Inr (AnsOp out), w')"
    using trip by (auto simp: committer_channel_def split: prod.splits sum.splits answer.splits)
  moreover obtain c r1 where s1: "sweep_turn P E params (te_clock te) (w_committer w) = (c, r1)" by fastforce
  moreover obtain c' r2 where s2: "rpc_turn P E params (te_clock te) ?rpcs c = (c', r2)" by fastforce
  ultimately obtain r where r: "r2 = Some r" "(me, Inr (AnsOp out)) \<in> set (cr_replies r)" "w_committer w' = c'"
    and np: "\<not> panicked r1"
    by (auto simp: round_trip_def Let_def te_def [symmetric] me_def [symmetric]
        split: if_splits option.splits prod.splits dest!: find_reply)
  have ck: "clock_ok (te_clock te)" using ok by (simp add: turn_ok_def te_def)
  from sweep_turn_refines [OF rep ck s1 np] obtain es0 A1 where
    A1: "arun A es0 A1" "enqueues_only [] es0" "represents P (dbv (co_db c)) (co_ix c) A1" by blast
  have okA: "batch_ok A ([] @ ?rpcs)" using turn_ok_batch [OF ok te_def] by simp
  have okA1: "batch_ok A1 ?rpcs" using batch_ok_append [OF okA] arun_ids [OF A1(1,2)] by simp
  let ?now = "ck_rpc (te_clock te)"
  let ?r = "run_rpc_cycle P E params ?now ?rpcs (co_db c) (co_ix c)"
  have eq: "r = ?r" "co_db c' = cr_db ?r" "co_ix c' = cr_ix ?r"
    using s2 r(1) by (auto simp: rpc_turn_def Let_def)
  from r(2) [unfolded eq(1)] obtain b db' where
    cmds: "apply_commands P E ?now ?rpcs \<lparr>b_st = begin_cycle E params (co_db c) (co_ix c), b_sent = [], b_parked = []\<rparr> = (None, b)"
    and co: "commit_if_dirty E (sp_persist_mode params) (co_db c) (b_st b) = (CommitOk, db')"
    and mine: "\<lparr>pr_resp = me, pr_outcome = out\<rparr> \<in> set (b_parked b)"
    and db': "cr_db ?r = db'" "cr_ix ?r = st_ix (b_st b)" by (rule done_reply_committed)
  have start: "reps (b_st \<lparr>b_st = begin_cycle E params (co_db c) (co_ix c), b_sent = [], b_parked = []\<rparr>) A1"
    using begin_cycle_reps [OF A1(3)] by simp
  have now: "0 \<le> ?now" "i64_ok ?now" using ck by (simp_all add: clock_ok_def)
  have "me \<notin> cmd_resp ` (set (te_before te) \<union> set (te_after te))"
    using fresh_responder [of _ "te_before te @ te_after te"] by (force simp: me_def)
  note lin = command_linearizes [OF start okA1 now cmds _ mine this]
  then have q: "quiet (begin_cycle E params (co_db c) (co_ix c)) (b_st b)" by simp
  have mono: "enqueues_only (concat (map cmd_ids (others env w))) xs"
    if "enqueues_only (concat (map cmd_ids cs)) xs" "set cs \<subseteq> set (te_before te @ te_after te)" for cs xs
    using that by (elim enqueues_only_mono) (auto simp: others_def te_def)
  from lin obtain es B s s' where
    L: "arun A1 es B" "enqueues_only (concat (map cmd_ids (te_before te))) es" "unused B (op_ids op)" "reps s B"
      "apply_op P E (stamp ?now op) s = (Inr out, s')" "\<exists>B'. reps s' B'"
      "\<forall>B'. reps s' B' \<longrightarrow> (\<exists>fs C. arun B' fs C \<and> enqueues_only (concat (map cmd_ids (te_after te))) fs \<and> reps (b_st b) C)"
    by fastforce
  have "represents P (dbv (co_db (w_committer w'))) (co_ix (w_committer w')) C" if "reps (b_st b) C" for C
    using committed_rep(1) [OF co q that] eq db' r(3) by simp
  then have C: "\<forall>B'. reps s' B' \<longrightarrow> (\<exists>fs C. arun B' fs C \<and> enqueues_only (concat (map cmd_ids (others env w))) fs
      \<and> represents P (dbv (co_db (w_committer w'))) (co_ix (w_committer w')) C)"
    using L(7) mono [of "te_after te"] by (metis set_append sup_ge2)
  have "arun A (es0 @ es) B" using A1(1) L(1) by (rule arun_append)
  moreover have "enqueues_only (concat (map cmd_ids (others env w))) (es0 @ es)"
    using mono [OF L(2)] mono [of "[]" es0] A1(2) by simp
  ultimately show ?thesis using L(3-6) C unfolding reps_def turn_now_def te_def by blast
qed

text \<open>An answered batch of jobs has the results of the specification, in some state on the way.\<close>

lemma enqueue_linearizes:
  assumes rep: "represents P (dbv (co_db (w_committer w))) (co_ix (w_committer w)) A" and ok: "turn_ok env (OpEnqueue pjs 0) w A"
    and op: "ch_op (committer_channel P E params env) (OpEnqueue pjs 0) w = (Inr (OutEnqueue rs), w')"
  shows "\<exists>es B fs C. arun A es B \<and> rs = fst (enqueue_spec P (turn_now env w) pjs B)
    \<and> arun (snd (enqueue_spec P (turn_now env w) pjs B)) fs C
    \<and> represents P (dbv (co_db (w_committer w'))) (co_ix (w_committer w')) C"
proof -
  let ?now = "turn_now env w"
  have pjs: "list_all pj_ok pjs" "distinct (map pj_id pjs)" "0 \<le> ?now" "i64_ok ?now"
    using ok by (simp_all add: turn_ok_def clock_ok_def turn_now_def)
  obtain es B s s' where L: "arun A es B" "unused B (map pj_id pjs)" "represents P (txv (st_tx s)) (st_ix s) B"
    "apply_op P E (OpEnqueue pjs ?now) s = (Inr (OutEnqueue rs), s')"
    "\<And>B'. represents P (txv (st_tx s')) (st_ix s') B' \<Longrightarrow>
      \<exists>fs C. arun B' fs C \<and> enqueues_only (concat (map cmd_ids (others env w))) fs
        \<and> represents P (dbv (co_db (w_committer w'))) (co_ix (w_committer w')) C"
    using round_trip_linearizes [OF rep ok op] by auto
  from enqueue_refines_spec [OF L(3) pjs(1) L(2) pjs(2-4)] L(4)
  have "rs = fst (enqueue_spec P ?now pjs B)"
    "represents P (txv (st_tx s')) (st_ix s') (snd (enqueue_spec P ?now pjs B))" by (auto simp: wrap_def)
  with L(1,5) show ?thesis by blast
qed

end

end
