(* ===== verification/Service_Properties.thy ===== *)
theory Service_Properties
  imports Example Queue_Server Linearize
begin

text \<open>
  The properties of the gRPC service of \<open>src/queue_server.rs\<close>, of the client side of storage and of
  the reads off the committer thread (\<open>src/storage.rs\<close>), on the committer of this development.
\<close>

section \<open>Accepting a job\<close>








text \<open>
  A horizon beyond \<open>i64::MAX\<close>, which the configuration allows, wraps: a job for the present moment
  is then refused as scheduled too far. And a rejection because the queue is closing, found at
  commit time, is counted under an empty queue name.
\<close>

lemma wrapped_horizon_rejects:
  assumes "i64_max < int (el_max_schedule_horizon_ms l)" and "el_max_schedule_horizon_ms l \<le> u64_max"
    and "er_scheduled_at job = Some at" and "timestamp_to_millis P at = now" and "0 \<le> now"
  shows "check_enqueue_limits P now job l s \<noteq> Inr ()"
proof
  assume "check_enqueue_limits P now job l s = Inr ()"
  from check_enqueue_limits_Inr(8) [OF this] assms(3,4)
  have "now \<le> i64_saturating_add now (u64_as_i64 (el_max_schedule_horizon_ms l))" by simp
  moreover have "u64_as_i64 (el_max_schedule_horizon_ms l) < 0"
    using assms(1,2) by (simp add: u64_as_i64_def u64_max_def)
  ultimately show False
    using assms(5) by (auto simp: i64_saturating_add_def i64_sat_def i64_min_def)
qed

lemma closing_rejection_unlabelled:
  "record_commit_rejection (JobRejection (Some (QueueClosing q))) = ([], Some ''queue_closing'')"
  by (simp add: record_commit_rejection_def rejection_label_def)



lemma default_effective: "effective (from_config config_default) q = from_globals limits_default storage_default"
  by (simp add: effective_def from_config_def collect_map_def config_default_def Let_def)


section \<open>What the service hands to storage\<close>






text \<open>A server with the default configuration, and a world in which nobody else sends commands.\<close>

definition demo_server :: queue_server where
  "demo_server = \<lparr>qs_config = config_default, qs_registry = from_config config_default,
     qs_handle = \<lparr>h_registry = from_config config_default, h_boot_registry = from_config config_default,
       h_drain_scan_cap = 100, h_dead_letter_enabled = True\<rparr>, qs_dead_letter_retention_enabled = True\<rparr>"


section \<open>Operations on a shared committer\<close>

text \<open>
  C5: an operation that storage answers with an outcome took effect at one point in time. Whatever
  other clients have sent before and after it in the same batch, and whether or not the committer
  swept first, there is a queue state, reached from the state before by steps of the job life cycle,
  in which the operation was applied with just this outcome, and the committed database and the
  indexes stand for a state reached from its result. The only jobs that appear before and after it are
  those the other clients enqueued. So what \<open>apply_op\<close> is proved to do in any
  state is what a client of the handle can rely on.
\<close>

theorem answered_operation_takes_effect:
  assumes "reliable_storage P E txv dbv"
    and "represents P (dbv (co_db (w_committer w))) (co_ix (w_committer w)) A" and "turn_ok env op w A"
    and "ch_op (committer_channel P E params env) op w = (Inr out, w')"
  shows "\<exists>es B s s'. arun A es B \<and> enqueues_only (concat (map cmd_ids (others env w))) es
    \<and> unused B (op_ids op) \<and> represents P (txv (st_tx s)) (st_ix s) B
    \<and> apply_op P E (stamp (turn_now env w) op) s = (Inr out, s')
    \<and> (\<exists>B'. represents P (txv (st_tx s')) (st_ix s') B')
    \<and> (\<forall>B'. represents P (txv (st_tx s')) (st_ix s') B' \<longrightarrow>
         (\<exists>fs C. arun B' fs C \<and> enqueues_only (concat (map cmd_ids (others env w))) fs
            \<and> represents P (dbv (co_db (w_committer w'))) (co_ix (w_committer w')) C))"
  by (rule reliable_storage.round_trip_linearizes [OF assms])

definition demo_env :: "nat \<Rightarrow> turn_env" where
  "demo_env n = \<lparr>te_clock = demo_clock, te_before = [], te_after = [CmdQueueDepths ''q'' 1]\<rparr>"

definition demo_world :: "abs_queue \<Rightarrow> rows world" where
  "demo_world A = \<lparr>w_committer = demo_committer A, w_tick = 0, w_gone = False\<rparr>"

lemma mem_commit: "commit_if_dirty mem_engine mode db s = (CommitOk, if cy_dirty (st_cyc s) then st_tx s else db)"
  by (simp add: commit_if_dirty_def commit_and_persist_def mem_engine_def)

lemma demo_round_trip:
  assumes "\<not> sweep_due demo_params 10 (index_of prost_ref A)"
    and "apply_op prost_ref mem_engine (stamp 10 op) (begin_cycle mem_engine demo_params (rows_of prost_ref A) (index_of prost_ref A)) = (Inr out, s)"
  shows "\<exists>w'. ch_op (committer_channel prost_ref mem_engine demo_params demo_env) op (demo_world A) = (Inr out, w')"
proof -
  have sw: "sweep_turn prost_ref mem_engine demo_params demo_clock (demo_committer A) = (demo_committer A, None)"
    using assms(1) by (simp add: sweep_turn_def demo_clock_def demo_committer_def)
  let ?r = "run_rpc_cycle prost_ref mem_engine demo_params 10 [CmdOp op (Suc 1), CmdQueueDepths ''q'' 1]
      (rows_of prost_ref A) (index_of prost_ref A)"
  have replies: "cr_replies ?r = [(1, Inr (AnsDepths (depth_counts (st_ix s) ''q''))), (Suc 1, Inr (AnsOp out))]"
    using assms(2) by (simp add: run_rpc_cycle_def mem_commit respond_def Let_def)
  obtain c' where rpc: "rpc_turn prost_ref mem_engine demo_params demo_clock [CmdOp op (Suc 1), CmdQueueDepths ''q'' 1]
      (demo_committer A) = (c', Some ?r)"
    by (simp add: rpc_turn_def Let_def demo_clock_def demo_committer_def)
  show ?thesis
    by (simp add: committer_channel_def round_trip_def demo_world_def demo_env_def sw rpc [simplified] fresh_responder_def
        panicked_def mem_no_panic replies [simplified])
qed

lemma demo_quiet: "\<not> sweep_due demo_params 10 (index_of prost_ref abs_empty)"
  by (simp add: sweep_due_def next_deadline_def index_of_def abs_empty_def timers_of_def ti_earliest_def first_entry_def
      sorted_list_of_fmap_def sorted_list_of_fset.rep_eq load_timers_def ti_default_def Let_def)

lemma demo_enqueues:
  "\<exists>w'. ch_op (committer_channel prost_ref mem_engine demo_params demo_env) (OpEnqueue [demo_pj] 0) (demo_world abs_empty) =
     (Inr (OutEnqueue (fst (enqueue_spec prost_ref 10 [demo_pj] abs_empty))), w')"
proof -
  let ?s = "begin_cycle mem_engine demo_params (rows_of prost_ref abs_empty) (index_of prost_ref abs_empty)"
  have rep: "represents prost_ref (mem_view (st_tx ?s)) (st_ix ?s) abs_empty"
    using demo_committer_rep [OF abs_empty_ok] by (simp add: demo_committer_def begin_cycle_def mem_engine_def)
  from reliable_storage.enqueue_refines_spec [OF mem_reliable rep, of "[demo_pj]" 10] demo_pj_ok obtain s' where
    "apply_enqueue prost_ref mem_engine [demo_pj] 10 ?s = (Inr (fst (enqueue_spec prost_ref 10 [demo_pj] abs_empty)), s')"
    by (auto simp: unused_def abs_empty_def)
  then show ?thesis by (intro demo_round_trip [OF demo_quiet]) (simp add: wrap_def)
qed

lemma demo_turn_ok: "turn_ok demo_env (OpEnqueue [demo_pj] 0) (demo_world abs_empty) abs_empty"
  using demo_pj_ok by (simp add: turn_ok_def demo_env_def others_def clock_ok_def demo_clock_def unused_def abs_empty_def)

theorem answered_operation_takes_effect_witness:
  "\<exists>out w' C. ch_op (committer_channel prost_ref mem_engine demo_params demo_env) (OpEnqueue [demo_pj] 0) (demo_world abs_empty) =
     (Inr out, w') \<and> represents prost_ref (mem_view (co_db (w_committer w'))) (co_ix (w_committer w')) C"
proof -
  have rep: "represents prost_ref (mem_view (co_db (w_committer (demo_world abs_empty))))
      (co_ix (w_committer (demo_world abs_empty))) abs_empty"
    using demo_committer_rep [OF abs_empty_ok] by (simp add: demo_world_def)
  from demo_enqueues obtain w' where
    "ch_op (committer_channel prost_ref mem_engine demo_params demo_env) (OpEnqueue [demo_pj] 0) (demo_world abs_empty) =
      (Inr (OutEnqueue (fst (enqueue_spec prost_ref 10 [demo_pj] abs_empty))), w')" by blast
  with answered_operation_takes_effect [OF mem_reliable rep demo_turn_ok this] show ?thesis by blast
qed

section \<open>A batch of jobs, end to end\<close>




section \<open>Waiting for jobs\<close>

text \<open>
  C27: a reservation that passes the checks ends. With a configuration that passes validation the lease
  it asks for is at least 1 ms and at most the maximum of every queue named, the number of jobs is
  between 1 and the batch maximum and the wait is at most the configured maximum; once the clock has
  passed the start by that maximum, or the server shuts down, or a wait ends without a wake-up, the
  handler has returned, however often it was woken before without finding a job.
\<close>

theorem reserve_wait_ends:
  assumes "config_validate ratio_ok (qs_config srv) = Inr ()" and "qs_registry srv = from_config live_cfg"
    and "config_validate ratio_ok live_cfg = Inr ()" and "reserve_checks srv req = Inr ()"
    and "started + lc_max_wait_timeout_ms (cf_limits (qs_config srv)) \<le> po_now (polls n)
      \<or> po_shutdown (polls n) \<or> po_wake (polls n) \<noteq> Woken"
  shows "(\<exists>r. serve_reserve P ch srv deliver started polls req w = Some r)
    \<and> (let p = reserve_params_of P srv req
       in 1 \<le> rp_lease p \<and> (\<forall>q \<in> set (rr_queues req). rp_lease p \<le> el_max_lease_duration_ms (effective (qs_registry srv) q))
         \<and> 1 \<le> rp_max_jobs p \<and> rp_max_jobs p \<le> unat (lc_max_reserve_batch (cf_limits (qs_config srv)))
         \<and> rp_wait p \<le> lc_max_wait_timeout_ms (cf_limits (qs_config srv)))"
proof -
  let ?p = "reserve_params_of P srv req"
  have wait: "rp_wait ?p \<le> lc_max_wait_timeout_ms (cf_limits (qs_config srv))"
    by (simp add: reserve_params_of_def ServerLimits_from_config_def Let_def)
  have "1 \<le> lc_max_reserve_batch (cf_limits (qs_config srv))"
    using assms(1) by (simp add: config_validate_def validate_sections_def limits_garde_ok_def)
  then have jobs: "1 \<le> rp_max_jobs ?p" "rp_max_jobs ?p \<le> unat (lc_max_reserve_batch (cf_limits (qs_config srv)))"
    by (auto simp: reserve_params_of_def ServerLimits_from_config_def Let_def word_le_nat_alt max_def min_def)
  have max: "1 \<le> el_max_lease_duration_ms (effective (qs_registry srv) q)" for q
    using config_limits [OF assms(3), of q] assms(2) by (simp add: limits_ok_def effective_garde_ok_def)
  have lease: "rp_lease ?p \<le> el_max_lease_duration_ms (effective (qs_registry srv) q)" if "q \<in> set (rr_queues req)" for q
  proof (cases "rr_queues req")
    case (Cons q' qs)
    let ?m = "\<lambda>q. el_max_lease_duration_ms (effective (qs_registry srv) q)"
    have "foldl min (?m q') (map ?m qs) \<le> ?m q" using that Cons foldl_min_le [of "?m q'" "map ?m qs"] by auto
    with Cons max [of q] show ?thesis by (simp add: reserve_params_of_def Let_def)
  qed (use that in simp)
  have "1 \<le> rp_lease ?p" by (simp add: reserve_params_of_def Let_def)
  moreover have "\<exists>r. serve_reserve P ch srv deliver started polls req w = Some r"
  proof -
    have "\<exists>r. reserve_loop ch (rr_queues req) ?p (started + rp_wait ?p) polls 0 w = Some r"
      using assms(5) wait by (intro reserve_loop_returns [of 0 n]) auto
    with assms(4) show ?thesis by (auto simp: serve_reserve_def Let_def split: sum.splits)
  qed
  ultimately show ?thesis using jobs wait lease by (simp add: Let_def)
qed

theorem reserve_wait_ends_witness:
  "\<exists>r. serve_reserve prost_ref (committer_channel prost_ref mem_engine demo_params demo_env) demo_server (\<lambda>_. None) 0
     (\<lambda>n. \<lparr>po_now = n, po_shutdown = False, po_wake = Woken\<rparr>)
     \<lparr>rr_queues = [''q''], rr_wait_timeout = None, rr_lease_duration = Some \<lparr>dur_seconds = 1, dur_nanos = 0\<rparr>,
       rr_worker_id = None, rr_max_jobs = None\<rparr> (demo_world abs_empty) = Some r"
proof -
  let ?req = "\<lparr>rr_queues = [''q''], rr_wait_timeout = None, rr_lease_duration = Some \<lparr>dur_seconds = 1, dur_nanos = 0\<rparr>,
       rr_worker_id = None, rr_max_jobs = None\<rparr>"
  have "reserve_request_check ?req = Inr ()"
    by (simp add: reserve_request_check_def queue_name_Inr queue_name_error_None positive_def total_nanos_def check_if_Inr)
  moreover have "unat (sl_max_reserve_queues (ServerLimits_from_config config_default)) = 32"
    "unat (sl_max_queue_name_bytes (ServerLimits_from_config config_default)) = 512"
    "\<not> sv_strict_queues (cf_server config_default)"
    by (simp_all add: ServerLimits_from_config_def config_default_def limits_default_def server_default_def)
  ultimately have "reserve_checks demo_server ?req = Inr ()"
    by (simp add: reserve_checks_def demo_server_def Let_def)
  moreover have srv: "qs_config demo_server = config_default" "qs_registry demo_server = from_config config_default"
    by (simp_all add: demo_server_def)
  ultimately show ?thesis
    using reserve_wait_ends [where ratio_ok = "\<lambda>_. True" and srv = demo_server and live_cfg = config_default and req = ?req
        and started = 0 and polls = "\<lambda>n. \<lparr>po_now = n, po_shutdown = False, po_wake = Woken\<rparr>"
        and n = "lc_max_wait_timeout_ms (cf_limits config_default)" and P = prost_ref and deliver = "\<lambda>_. None"
        and ch = "committer_channel prost_ref mem_engine demo_params demo_env" and w = "demo_world abs_empty"]
    unfolding srv by (simp add: default_config_valid)
qed

section \<open>Limits resolved before sending\<close>

text \<open>The queue of a job in flight.\<close>

definition inflight_queue :: "abs_queue \<Rightarrow> str \<Rightarrow> str option" where
  "inflight_queue A jid = Option.bind (fmlookup (a_jobs A) jid) (\<lambda>x.
     case aj_place x of InFlight d a \<Rightarrow> Some (aj_queue x) | _ \<Rightarrow> None)"

text \<open>
  C34: the handle resolves the delay of a nack and the length of an extension as the settings of the
  job's own queue say, although it skips the read of the job's queue when no queue could make a
  difference: an explicit delay is capped by the queue's horizon, the default is the queue's retry
  policy, and an extension is capped by the queue's maximal lease. For a job that is not in flight,
  which the committer refuses, a delay of 0 is sent and an extension is refused or left uncapped. The
  delay of a policy is 0 when it has none; else it is the base delay, doubled with every attempt under
  exponential backoff without ever wrapping around, cut to the policy's maximum and to the horizon,
  and shortened by jitter by at most a quarter.
\<close>

theorem resolved_limits_match_queue:
  assumes "reliable_storage P E txv dbv"
    and "represents P (dbv (co_db (w_committer w))) (co_ix (w_committer w)) A" and "\<not> w_gone w"
    and "h_registry h = from_config cfg" and "ch = committer_channel P E params env"
  shows "resolve_retry_delay P E jitter ch h req w =
      Inr (case inflight_queue A (nack_job_id req) of None \<Rightarrow> 0
        | Some q \<Rightarrow> (case Option.bind (nack_retry_field req) nr_strategy of
            Some (StrategyDelay d) \<Rightarrow> min (duration_to_millis P d) (el_max_schedule_horizon_ms (effective (from_config cfg) q))
          | _ \<Rightarrow> policy_retry_delay_ms jitter (retry_policy_of (from_config cfg) q) (nack_attempt req) (nack_job_id req)))
    \<and> (let requested = max (case ext_lease_duration ext of Some d \<Rightarrow> duration_to_millis P d | None \<Rightarrow> 0) 1
       in case inflight_queue A (ext_job_id ext) of
         Some q \<Rightarrow> resolve_extend_lease P E ch h ext w =
           Inr (min requested (el_max_lease_duration_ms (effective (from_config cfg) q)))
       | None \<Rightarrow> resolve_extend_lease P E ch h ext w \<in> {Inr requested, Inl job_not_found})
    \<and> (let pol = retry_policy_of (from_config cfg) queue; d = policy_retry_delay_ms jitter pol attempt jid;
           grown = (case rp_retry_backoff pol of BackoffNone \<Rightarrow> rp_retry_delay_ms pol
             | BackoffExponential \<Rightarrow> min u64_max (rp_retry_delay_ms pol * 2 ^ (unat attempt - 1)));
           capped = min grown (min (rp_retry_delay_max_ms pol) (rp_max_schedule_horizon_ms pol))
       in if rp_retry_delay_ms pol = 0 then d = 0 else d \<le> capped \<and> capped - capped div 4 \<le> d)"
proof -
  have J: "jobs_rep P (dbv (co_db (w_committer w))) (co_ix (w_committer w)) (a_jobs A)"
    using assms(2) by (simp add: represents_def)
  have queue: "read_inflight_queue P E ch jid w = Inr (inflight_queue A jid)" for jid
    using reliable_storage.queue_of_inflight_job_eq [OF assms(1) J, of jid] assms(3,5)
    by (simp add: read_inflight_queue_def committer_channel_def inflight_queue_def)
  have off: "policy_retry_delay_ms jitter (retry_policy_of (from_config cfg) q) a jid = 0"
    if "\<not> qr_any_retry_policy (from_config cfg)" for q a jid
    using registry_summaries [of cfg q] that by (simp add: policy_retry_delay_ms_def policy_effective)
  have lease: "requested \<le> qr_min_max_lease_ms (from_config cfg) \<Longrightarrow>
      min requested (el_max_lease_duration_ms (effective (from_config cfg) q)) = requested" for requested q
    using registry_summaries [of cfg q] by simp
  note bounds = retry_delay_bounds [of jitter "retry_policy_of (from_config cfg) queue" attempt jid]
  show ?thesis
    by (intro conjI, goal_cases)
      ((auto simp: resolve_retry_delay_def resolve_extend_lease_def queue assms(4) off lease policy_effective Let_def
        split: option.splits strategy.splits)[2], unfold Let_def, rule bounds [unfolded Let_def])
qed

text \<open>A job in flight whose extension by two days is cut to the maximal lease.\<close>

theorem resolved_limits_match_queue_witness:
  "resolve_extend_lease prost_ref mem_engine (committer_channel prost_ref mem_engine demo_params demo_env) (qs_handle demo_server)
     \<lparr>ext_job_id = ''j1'', ext_attempt = 1, ext_lease_duration = Some \<lparr>dur_seconds = 172800, dur_nanos = 0\<rparr>, ext_worker_id = None\<rparr>
     (demo_world (demo (InFlight 100 1))) = Inr (el_max_lease_duration_ms (effective (from_config config_default) ''q''))"
proof -
  let ?ext = "\<lparr>ext_job_id = ''j1'', ext_attempt = 1, ext_lease_duration = Some \<lparr>dur_seconds = 172800, dur_nanos = 0\<rparr>, ext_worker_id = None\<rparr>"
  have rep: "represents prost_ref (mem_view (co_db (w_committer (demo_world (demo (InFlight 100 1))))))
      (co_ix (w_committer (demo_world (demo (InFlight 100 1))))) (demo (InFlight 100 1))"
    using demo_committer_rep [OF demo_ok [OF demo_places(2)]] by (simp add: demo_world_def)
  have q: "inflight_queue (demo (InFlight 100 1)) ''j1'' = Some ''q''"
    by (simp add: inflight_queue_def demo_def demo_ajob_def)
  have "duration_to_millis prost_ref \<lparr>dur_seconds = 172800, dur_nanos = 0\<rparr> = 172800000"
    by (simp add: duration_to_millis_def prost_ref_def Let_def u64_sat_def u64_max_def)
  then show ?thesis
    using resolved_limits_match_queue [where h = "qs_handle demo_server" and cfg = config_default and ext = ?ext
        and params = demo_params and env = demo_env, OF mem_reliable rep _ _ refl] q
    by (simp add: demo_world_def demo_server_def default_effective from_globals_def limits_default_def Let_def)
qed

end
