(* ===== verification/Read_Properties.thy ===== *)
theory Read_Properties
  imports Example Read_Handle
begin

text \<open>
  The properties of the reads that the admin interface takes from a snapshot of the committed
  database (\<open>ReadHandle\<close> of \<open>src/storage.rs\<close>).
\<close>

section \<open>Jobs and dead letters\<close>

context reliable_storage
begin

lemma get_job_cases:
  assumes J: "jobs_rep P (dbv db) ix J"
  shows "case fmlookup J jid of
      None \<Rightarrow> get_job P E db now jid = None
    | Some x \<Rightarrow> (\<exists>y. get_job P E db now jid = Some y \<and> j_queue (adj_job y) = aj_queue x \<and> j_id (adj_job y) = j_id (aj_job x)
        \<and> j_payload (adj_job y) = aj_payload x \<and> (adj_state y = AdminInflight \<longleftrightarrow> (\<exists>d a. aj_place x = InFlight d a))
        \<and> (\<forall>d a. aj_place x = InFlight d a \<longrightarrow> adj_key y = TimerKey_encode d jid \<and> j_attempt (adj_job y) = a))"
proof (cases "fmlookup J jid")
  case None
  then show ?thesis using load_job_eq [OF J, of jid] by (simp add: get_job_def Let_def)
next
  case (Some x)
  note inflight_decode [OF jobs_rep_ok [OF J Some]]
  with Some load_job_eq [OF J, of jid] jobs_rep_inflight [OF J, of jid] show ?thesis
    by (cases "aj_place x")
      (auto simp: get_job_def Let_def snap_get_eq ok_flatten_def whole_job_def mk_inflight_def split: option.splits)
qed

end

text \<open>The row of the admin interface for a job of the queue, by its state and its key there.\<close>

definition listed :: "prost \<Rightarrow> abs_queue \<Rightarrow> admin_job_state \<Rightarrow> bytes \<Rightarrow> admin_job \<Rightarrow> bool" where
  "listed P A state key y \<longleftrightarrow> (\<exists>jid x. fmlookup (a_jobs A) jid = Some x \<and> (case aj_place x of
     InReady a \<Rightarrow> state = AdminReady \<and> key = rkey P x
       \<and> y = \<lparr>adj_key = key, adj_state = state, adj_job = (whole_job x)\<lparr>j_attempt := a\<rparr>\<rparr>
   | InScheduled d a \<Rightarrow> state = AdminScheduled \<and> key = TimerKey_encode d jid
       \<and> y = \<lparr>adj_key = key, adj_state = state, adj_job = (whole_job x)\<lparr>j_attempt := a\<rparr>\<rparr>
   | InFlight d a \<Rightarrow> state = AdminInflight \<and> key = TimerKey_encode d jid
       \<and> y = \<lparr>adj_key = key, adj_state = state, adj_job = (whole_job x)\<lparr>j_attempt := a,
           j_lease_expires_at := Some (millis_to_timestamp P d)\<rparr>\<rparr>))"

lemma listed_simps:
  "listed P A AdminReady key y \<longleftrightarrow> (\<exists>jid x a. fmlookup (a_jobs A) jid = Some x \<and> aj_place x = InReady a \<and> key = rkey P x
     \<and> y = \<lparr>adj_key = key, adj_state = AdminReady, adj_job = (whole_job x)\<lparr>j_attempt := a\<rparr>\<rparr>)"
  "listed P A AdminScheduled key y \<longleftrightarrow> (\<exists>jid x d a. fmlookup (a_jobs A) jid = Some x \<and> aj_place x = InScheduled d a
     \<and> key = TimerKey_encode d jid \<and> y = \<lparr>adj_key = key, adj_state = AdminScheduled, adj_job = (whole_job x)\<lparr>j_attempt := a\<rparr>\<rparr>)"
  "listed P A AdminInflight key y \<longleftrightarrow> (\<exists>jid x d a. fmlookup (a_jobs A) jid = Some x \<and> aj_place x = InFlight d a
     \<and> key = TimerKey_encode d jid \<and> y = \<lparr>adj_key = key, adj_state = AdminInflight, adj_job = (whole_job x)\<lparr>j_attempt := a,
       j_lease_expires_at := Some (millis_to_timestamp P d)\<rparr>\<rparr>)"
  unfolding listed_def by (intro ex_cong1, rename_tac jid x, case_tac "aj_place x"; simp)+

text \<open>
  C35: the reads of the admin interface report the queue as it is. On a snapshot of a database that
  stands for a queue, a key is resolved to a job exactly when a job of that state has that key, and
  the job is shown with its queue, payload, attempt and lease; a dead-letter key is resolved exactly
  when there is such a record. A look-up by id finds the job exactly when it is live, and says that
  it is in flight exactly when it is.
\<close>

theorem admin_reads_exact:
  assumes "reliable_storage P E txv dbv" and "represents P (dbv db) ix A"
  shows "(resolve_ready_key P E db key = Some y \<longleftrightarrow> listed P A AdminReady key y)
    \<and> (resolve_scheduled_key P E db key = Some y \<longleftrightarrow> listed P A AdminScheduled key y)
    \<and> (resolve_inflight_key P E db key = Some y \<longleftrightarrow> listed P A AdminInflight key y)
    \<and> (resolve_dead_letter_key P E db key = Some z \<longleftrightarrow>
        (\<exists>jid d. fmlookup (a_dead A) jid = Some d \<and> key = dead_key jid d \<and> z = \<lparr>adl_key = key, adl_record = dd_record d\<rparr>))
    \<and> (case fmlookup (a_jobs A) jid of
        None \<Rightarrow> get_job P E db now jid = None
      | Some x \<Rightarrow> (\<exists>y. get_job P E db now jid = Some y \<and> j_queue (adj_job y) = aj_queue x \<and> j_id (adj_job y) = j_id (aj_job x)
          \<and> j_payload (adj_job y) = aj_payload x \<and> (adj_state y = AdminInflight \<longleftrightarrow> (\<exists>d a. aj_place x = InFlight d a))
          \<and> (\<forall>d a. aj_place x = InFlight d a \<longrightarrow> adj_key y = TimerKey_encode d jid \<and> j_attempt (adj_job y) = a)))"
proof -
  have J: "jobs_rep P (dbv db) ix (a_jobs A)" and D: "dead_rep P (dbv db) ix (a_dead A)"
    using assms(2) by (simp_all add: represents_def)
  note rules = reliable_storage.resolve_ready_key_iff reliable_storage.resolve_scheduled_key_iff
    reliable_storage.resolve_inflight_key_iff reliable_storage.get_job_cases
  show ?thesis
    unfolding listed_simps using rules [OF assms(1) J] reliable_storage.resolve_dead_letter_key_iff [OF assms(1) D]
    by (intro conjI) assumption+
qed

theorem admin_reads_exact_witness:
  "\<exists>y. get_job prost_ref mem_engine (rows_of prost_ref (demo (InFlight 100 1))) 50 ''j1'' = Some y
     \<and> adj_state y = AdminInflight \<and> adj_key y = TimerKey_encode 100 ''j1''"
proof -
  have rep: "represents prost_ref (mem_view (rows_of prost_ref (demo (InFlight 100 1))))
      (index_of prost_ref (demo (InFlight 100 1))) (demo (InFlight 100 1))"
    using canonical_rep [OF demo_ok [OF demo_places(2)]] by (simp add: mem_view_def)
  have "fmlookup (a_jobs (demo (InFlight 100 1))) ''j1'' = Some (demo_ajob (InFlight 100 1))"
    "aj_place (demo_ajob (InFlight 100 1)) = InFlight 100 1" by (simp_all add: demo_def demo_ajob_def)
  with admin_reads_exact [where dbv = mem_view and jid = "''j1''" and now = 50
      and key = "[]" and y = "the None" and z = "the None", OF mem_reliable rep] show ?thesis by auto
qed

section \<open>The audit log\<close>

text \<open>
  C37: a page of the audit log holds exactly the matching entries of an interval of the log that ends
  just below the cursor, newest first, at most as many as asked for. The page names the lower end of
  the interval as the next cursor, which lies below the one given, and names none only when the
  interval reaches the first entry. So paging shows every matching entry once and comes to an end,
  although a single page may read no more than a fixed number of rows.
\<close>

theorem audit_page_is_next_slice:
  assumes "reliable_storage P E txv dbv" and "audit_rep P (dbv db) rs" and "\<forall>(t, r) \<in> set rs. i64_ok t \<and> audit_ok r"
    and "pred_option (\<lambda>b. b \<le> u64_max) before" and "1 \<le> limit"
  shows "\<exists>lo. 1 \<le> lo
    \<and> list_audit P E db before limit f =
        \<lparr>ap_entries = audit_slice rs f lo (Suc (case before of None \<Rightarrow> length rs | Some b \<Rightarrow> min (length rs) (b - 1))),
         ap_next_before = (if lo = 1 then None else Some lo)\<rparr>
    \<and> length (ap_entries (list_audit P E db before limit f)) \<le> limit
    \<and> (lo \<noteq> 1 \<longrightarrow> lo \<le> (case before of None \<Rightarrow> length rs | Some b \<Rightarrow> min (length rs) (b - 1)))"
  by (rule reliable_storage.list_audit_slice [OF assms])

definition demo_log :: rows where
  "demo_log ks = (case ks of
     Audit \<Rightarrow> fmupd (u64_be 1) (AuditValue_encode prost_ref 7 demo_audit) fmempty
   | Meta \<Rightarrow> fmupd AUDIT_SEQ_KEY (u64_be 1) fmempty
   | _ \<Rightarrow> fmempty)"

theorem audit_page_is_next_slice_witness:
  "ap_entries (list_audit prost_ref mem_engine demo_log None 10 \<lparr>af_actor = Some ''ops'', af_action_prefix = Some ''queue.''\<rparr>) =
     [\<lparr>ae_seq = 1, ae_ts_ms = 7, ae_record = demo_audit\<rparr>]"
proof -
  have rep: "audit_rep prost_ref (mem_view demo_log) [(7, demo_audit)]"
    by (auto simp: audit_rep_def demo_log_def mem_view_def u64_max_def)
  have ok: "audit_ok demo_audit" unfolding audit_ok_def demo_audit_def by code_simp
  from audit_page_is_next_slice [where dbv = mem_view, OF mem_reliable rep, of None 10 "\<lparr>af_actor = Some ''ops'', af_action_prefix = Some ''queue.''\<rparr>"] ok
  show ?thesis
    by (auto simp: i64_ok_def i64_min_def i64_max_def audit_slice_def AuditFilter_matches_def demo_audit_def)
qed

end
