(* ===== verification/Admin_Auth.thy ===== *)
theory Admin_Auth
  imports Config Keys
begin

unbundle bit_operations_syntax

text \<open>
  Authentication and authorisation: the API keys of the gRPC service (\<open>src/auth.rs\<close>), the keys and
  sessions of the admin interface (\<open>src/admin/auth.rs\<close>), the roles its handlers require
  (\<open>src/admin/authz.rs\<close>) and the table of its routes (\<open>src/admin/mod.rs\<close>). A header is given as the
  text that \<open>to_str\<close> yields for it, if any. The hash, the random token of a session and the order in
  which a hash map is iterated are arguments; the lemmas hold for any.
\<close>

section \<open>API keys of the gRPC service\<close>

type_synonym api_key_policy = "str set option"

definition to_policy :: "api_key_entry list option \<Rightarrow> api_key_policy" where
  "to_policy api_keys = map_option (\<lambda>keys. ak_key ` set keys) api_keys"

definition set_keys :: "api_key_entry list option \<Rightarrow> api_key_policy \<Rightarrow> api_key_policy" where
  "set_keys api_keys _ = to_policy api_keys"

definition is_enforcing :: "api_key_policy \<Rightarrow> bool" where
  "is_enforcing policy \<longleftrightarrow> policy \<noteq> None"

definition interceptor_call :: "api_key_policy \<Rightarrow> str option \<Rightarrow> status + unit" where
  "interceptor_call policy authorization =
     (case policy of
        None \<Rightarrow> Inr ()
      | Some allowed \<Rightarrow>
          (case Option.bind authorization (strip_prefix ''Bearer '') of
             Some key \<Rightarrow> if key \<in> allowed then Inr () else Inl (Status Unauthenticated ''invalid API key'')
           | None \<Rightarrow> Inl (Status Unauthenticated
               ''missing API key; expected an `authorization: Bearer <key>` header'')))"

section \<open>Comparing keys\<close>

definition byte_at :: "bytes \<Rightarrow> nat \<Rightarrow> 8 word" where
  "byte_at a i = (if i < length a then of_nat (of_char (a ! i)) else 0)"

definition constant_time_eq :: "bytes \<Rightarrow> bytes \<Rightarrow> bool" where
  "constant_time_eq a b \<longleftrightarrow>
     foldl (\<lambda>diff i. diff OR ucast (byte_at a i XOR byte_at b i)) (of_nat (length a) XOR of_nat (length b) :: 64 word)
       [0..<max (length a) (length b)] = 0"

definition match_key :: "admin_key list \<Rightarrow> str \<Rightarrow> admin_key option" where
  "match_key keys presented =
     foldl (\<lambda>found key. if constant_time_eq (adk_key key) presented then Some key else found) None keys"

definition match_login :: "admin_key list \<Rightarrow> str \<Rightarrow> str \<Rightarrow> admin_key option" where
  "match_login keys name presented =
     foldl (\<lambda>found key.
       let name_ok = constant_time_eq (adk_name key) name; key_ok = constant_time_eq (adk_key key) presented
       in if name_ok \<and> key_ok then Some key else found) None keys"

section \<open>Sessions\<close>

record session =
  ss_key_name :: str
  ss_key_sha256 :: bytes
  ss_expires_ms :: i64

type_synonym session_store = "(str, session) fmap"

record auth_ctx =
  cx_name :: "str option"
  cx_role :: role

definition actor :: "auth_ctx \<Rightarrow> str" where
  "actor ctx = unwrap_or (cx_name ctx) ''local''"

record headers =
  hd_authorization :: "str option"
  hd_cookie :: "str option"

definition COOKIE_NAME :: str where
  "COOKIE_NAME = ''sepp_admin''"

definition MAX_SESSIONS :: nat where
  "MAX_SESSIONS = 1024"

text \<open>\<open>split(';')\<close>, \<open>trim\<close> and \<open>split_once('=')\<close> on header text, which is ASCII: a tab or visible characters.\<close>

fun split_on :: "char \<Rightarrow> str \<Rightarrow> str list" where
  "split_on c [] = [[]]"
| "split_on c (x # xs) =
     (if x = c then [] # split_on c xs
      else case split_on c xs of w # ws \<Rightarrow> (x # w) # ws | [] \<Rightarrow> [[x]])"

definition is_space :: "char \<Rightarrow> bool" where
  "is_space c \<longleftrightarrow> c = CHR '' '' \<or> c = CHR 0x09"

definition trim :: "str \<Rightarrow> str" where
  "trim s = rev (dropWhile is_space (rev (dropWhile is_space s)))"

definition split_once :: "char \<Rightarrow> str \<Rightarrow> (str \<times> str) option" where
  "split_once c s = (if c \<in> set s then Some (takeWhile (\<lambda>x. x \<noteq> c) s, tl (dropWhile (\<lambda>x. x \<noteq> c) s)) else None)"

fun find_map :: "('a \<Rightarrow> 'b option) \<Rightarrow> 'a list \<Rightarrow> 'b option" where
  "find_map f [] = None"
| "find_map f (x # xs) = (case f x of Some y \<Rightarrow> Some y | None \<Rightarrow> find_map f xs)"

definition cookie_token :: "headers \<Rightarrow> str option" where
  "cookie_token hs = Option.bind (hd_cookie hs) (\<lambda>raw.
     find_map (\<lambda>pair. Option.bind (split_once CHR ''='' (trim pair)) (\<lambda>(name, value).
       if name = COOKIE_NAME then Some value else None)) (split_on CHR '';'' raw))"

definition session_cookie :: "str \<Rightarrow> bool \<Rightarrow> str" where
  "session_cookie token secure =
     COOKIE_NAME @ ''='' @ token @ ''; HttpOnly; SameSite=Strict; Path=/'' @ (if secure then ''; Secure'' else [])"

definition clear_cookie :: "bool \<Rightarrow> str" where
  "clear_cookie secure =
     COOKIE_NAME @ ''=; HttpOnly; SameSite=Strict; Path=/; Max-Age=0'' @ (if secure then ''; Secure'' else [])"

definition bearer_key :: "headers \<Rightarrow> str option" where
  "bearer_key hs = Option.bind (hd_authorization hs) (strip_prefix ''Bearer '')"

section \<open>The middleware\<close>

datatype http_method = Get | Head | Post | Put | Delete | OtherMethod

text \<open>The next handler runs, with an identity attached or without one, or the request is refused.\<close>

datatype admission = Run "auth_ctx option" | Unauthorized string

definition ctx_of_key :: "admin_key \<Rightarrow> auth_ctx" where
  "ctx_of_key k = \<lparr>cx_name = Some (adk_name k), cx_role = adk_role k\<rparr>"

definition session_ctx ::
    "(bytes \<Rightarrow> bytes) \<Rightarrow> admin_key list \<Rightarrow> session_store \<Rightarrow> i64 \<Rightarrow> str \<Rightarrow> auth_ctx option" where
  "session_ctx sha256 keys sessions now token =
     Option.bind (fmlookup sessions token) (\<lambda>s.
       if ss_expires_ms s > now
       then map_option ctx_of_key
         (List.find (\<lambda>k. adk_name k = ss_key_name s \<and> sha256 (adk_key k) = ss_key_sha256 s) keys)
       else None)"

definition require ::
    "(bytes \<Rightarrow> bytes) \<Rightarrow> config \<Rightarrow> config \<Rightarrow> session_store \<Rightarrow> i64 \<Rightarrow> http_method \<Rightarrow> str \<Rightarrow> headers \<Rightarrow> admission" where
  "require sha256 config boot sessions now meth path hs =
     (if meth = Post \<and> path = ''/admin/api/v1/session'' then Run None
      else case ad_keys (cf_admin config) of
        None \<Rightarrow>
          if is_loopback (sa_ip (ad_listen_addr (cf_admin boot)))
          then Run (Some \<lparr>cx_name = None, cx_role = Admin\<rparr>)
          else Unauthorized ''admin keys were removed at runtime; restart required''
      | Some keys \<Rightarrow>
          (case Option.bind (bearer_key hs) (match_key keys) of
             Some matched \<Rightarrow> Run (Some (ctx_of_key matched))
           | None \<Rightarrow>
               (case Option.bind (cookie_token hs) (session_ctx sha256 keys sessions now) of
                  Some ctx \<Rightarrow> Run (Some ctx)
                | None \<Rightarrow> Unauthorized ''authentication required'')))"

section \<open>Logging in and out\<close>

text \<open>The record an admin action leaves; appending it is a task of its own that the action does not wait for.\<close>

definition audit_record_of :: "auth_ctx \<Rightarrow> string \<Rightarrow> string \<Rightarrow> audit_record" where
  "audit_record_of ctx action details =
     \<lparr>au_actor = actor ctx, au_role = role_display (cx_role ctx), au_action = action, au_details_json = details\<rparr>"

text \<open>\<open>min_by_key\<close>: the first entry whose expiry is least, in the order of the iteration.\<close>

fun min_by_expiry :: "(str \<times> session) list \<Rightarrow> str option" where
  "min_by_expiry [] = None"
| "min_by_expiry ((t, s) # rest) =
     (if \<forall>(_, r) \<in> set rest. ss_expires_ms s \<le> ss_expires_ms r then Some t else min_by_expiry rest)"

record login_reply =
  lr_cookie :: str
  lr_name :: str
  lr_role :: role
  lr_expires_at_ms :: i64

definition store_session ::
    "(session_store \<Rightarrow> (str \<times> session) list) \<Rightarrow> i64 \<Rightarrow> str \<Rightarrow> session \<Rightarrow> session_store \<Rightarrow> session_store" where
  "store_session iter now token session sessions =
     (let kept = fmfilter (\<lambda>t. case fmlookup sessions t of Some s \<Rightarrow> ss_expires_ms s > now | None \<Rightarrow> False) sessions;
          room = (if card (fmdom' kept) \<ge> MAX_SESSIONS
                  then (case min_by_expiry (iter kept) of Some oldest \<Rightarrow> fmdrop oldest kept | None \<Rightarrow> kept)
                  else kept)
      in fmupd token session room)"

definition login ::
    "(bytes \<Rightarrow> bytes) \<Rightarrow> (session_store \<Rightarrow> (str \<times> session) list) \<Rightarrow> config \<Rightarrow> config \<Rightarrow> str \<Rightarrow> i64 \<Rightarrow> i64 \<Rightarrow> str \<Rightarrow> str
       \<Rightarrow> session_store \<Rightarrow> (string + login_reply \<times> audit_record) \<times> session_store" where
  "login sha256 iter config boot token now_expiry now name key sessions =
     (case Option.bind (ad_keys (cf_admin config)) (\<lambda>keys. match_login keys name key) of
        None \<Rightarrow> (Inl ''invalid name or key'', sessions)
      | Some matched \<Rightarrow>
          (let expires_ms = i64_saturating_add now_expiry (i64_of_u64 (ad_session_ttl_ms (cf_admin config)));
               session = \<lparr>ss_key_name = adk_name matched, ss_key_sha256 = sha256 (adk_key matched), ss_expires_ms = expires_ms\<rparr>
           in (Inr (\<lparr>lr_cookie = session_cookie token (ad_tls_enabled (cf_admin boot)), lr_name = adk_name matched,
                     lr_role = adk_role matched, lr_expires_at_ms = expires_ms\<rparr>,
                    audit_record_of (ctx_of_key matched) ''session.login'' ''{}''),
               store_session iter now token session sessions)))"

definition logout ::
    "config \<Rightarrow> auth_ctx option \<Rightarrow> headers \<Rightarrow> session_store \<Rightarrow> (str \<times> audit_record option) \<times> session_store" where
  "logout boot ctx hs sessions =
     (let removed = Option.bind (cookie_token hs) (fmlookup sessions)
      in ((clear_cookie (ad_tls_enabled (cf_admin boot)),
           (if removed \<noteq> None then map_option (\<lambda>ctx. audit_record_of ctx ''session.logout'' ''{}'') ctx else None)),
          (case cookie_token hs of Some token \<Rightarrow> fmdrop token sessions | None \<Rightarrow> sessions)))"

text \<open>\<open>GET /session\<close>: the name and the role of the caller, and whether keys are configured.\<close>

definition session_info :: "config \<Rightarrow> auth_ctx option \<Rightarrow> str option \<times> role option \<times> bool" where
  "session_info config ctx =
     (let auth_enabled = (ad_keys (cf_admin config) \<noteq> None)
      in case ctx of Some c \<Rightarrow> (cx_name c, Some (cx_role c), auth_enabled) | None \<Rightarrow> (None, None, auth_enabled))"

section \<open>Roles and routes\<close>

record api_error =
  ap_status :: nat
  ap_code :: string
  ap_error :: string

definition ApiError_new :: "nat \<Rightarrow> string \<Rightarrow> string \<Rightarrow> api_error" where
  "ApiError_new status code error = \<lparr>ap_status = status, ap_code = code, ap_error = error\<rparr>"

definition extract_role :: "auth_ctx option \<Rightarrow> role \<Rightarrow> api_error + auth_ctx" where
  "extract_role extension required =
     (case extension of
        None \<Rightarrow> Inl (ApiError_new 401 ''unauthorized'' ''authentication required'')
      | Some ctx \<Rightarrow>
          if cx_role ctx < required
          then Inl (ApiError_new 403 ''forbidden'' (''this action requires the '' @ role_display required @ '' role''))
          else Inr ctx)"

datatype admin_handler =
    Login | SessionInfo | Logout | Overview | ListQueues | GetQueue | PutQueue | DeleteQueue | ListJobs | EnqueueJob
  | GetDeadLetter | DeadLetterJobs | RequeueDeadLetters | DeleteDeadLetters | GetJob | ListAudit | GetConfig | PutConfig
  | AddAuthKey | DisableAuth | DeleteAuthKey | ServerInfo | Events

text \<open>The extractor each handler takes as its parameter.\<close>

definition required_role :: "admin_handler \<Rightarrow> role option" where
  "required_role h = (case h of
     Login \<Rightarrow> None | SessionInfo \<Rightarrow> None | Logout \<Rightarrow> None
   | EnqueueJob \<Rightarrow> Some Operator | DeadLetterJobs \<Rightarrow> Some Operator | RequeueDeadLetters \<Rightarrow> Some Operator
   | DeleteDeadLetters \<Rightarrow> Some Operator
   | PutQueue \<Rightarrow> Some Admin | DeleteQueue \<Rightarrow> Some Admin | ListAudit \<Rightarrow> Some Admin | PutConfig \<Rightarrow> Some Admin
   | AddAuthKey \<Rightarrow> Some Admin | DisableAuth \<Rightarrow> Some Admin | DeleteAuthKey \<Rightarrow> Some Admin
   | _ \<Rightarrow> Some Viewer)"

text \<open>The routes below \<open>/admin/api/v1\<close>, by segment. A \<open>get\<close> route also serves \<open>HEAD\<close>; a parameter is not empty.\<close>

definition on_method ::
    "admin_handler option \<Rightarrow> admin_handler option \<Rightarrow> admin_handler option \<Rightarrow> admin_handler option \<Rightarrow> http_method \<Rightarrow> admin_handler option" where
  "on_method get post put delete meth = (case meth of
     Get \<Rightarrow> get | Head \<Rightarrow> get | Post \<Rightarrow> post | Put \<Rightarrow> put | Delete \<Rightarrow> delete | OtherMethod \<Rightarrow> None)"

fun api_route :: "str list \<Rightarrow> http_method \<Rightarrow> admin_handler option" where
  "api_route [a] meth =
     (if a = ''session'' then on_method (Some SessionInfo) (Some Login) None (Some Logout) meth
      else if a = ''overview'' then on_method (Some Overview) None None None meth
      else if a = ''queues'' then on_method (Some ListQueues) None None None meth
      else if a = ''audit'' then on_method (Some ListAudit) None None None meth
      else if a = ''config'' then on_method (Some GetConfig) None (Some PutConfig) None meth
      else if a = ''server-info'' then on_method (Some ServerInfo) None None None meth
      else if a = ''events'' then on_method (Some Events) None None None meth
      else None)"
| "api_route [a, b] meth =
     (if a = ''queues'' \<and> b \<noteq> [] then on_method (Some GetQueue) None (Some PutQueue) (Some DeleteQueue) meth
      else if a = ''jobs'' \<and> b \<noteq> [] then on_method (Some GetJob) None None None meth
      else if a = ''auth'' \<and> b = ''keys'' then on_method None (Some AddAuthKey) None (Some DisableAuth) meth
      else None)"
| "api_route [a, b, c] meth =
     (if a = ''queues'' \<and> b \<noteq> [] \<and> c = ''jobs'' then on_method (Some ListJobs) (Some EnqueueJob) None None meth
      else if a = ''queues'' \<and> b \<noteq> [] \<and> c = ''jobs:dead-letter'' then on_method None (Some DeadLetterJobs) None None meth
      else if a = ''queues'' \<and> b \<noteq> [] \<and> c = ''dead-letters:requeue'' then on_method None (Some RequeueDeadLetters) None None meth
      else if a = ''queues'' \<and> b \<noteq> [] \<and> c = ''dead-letters:delete'' then on_method None (Some DeleteDeadLetters) None None meth
      else if a = ''auth'' \<and> b = ''keys'' \<and> c \<noteq> [] then on_method None None None (Some DeleteAuthKey) meth
      else None)"
| "api_route [a, b, c, d] meth =
     (if a = ''queues'' \<and> b \<noteq> [] \<and> c = ''dead-letters'' \<and> d \<noteq> [] then on_method (Some GetDeadLetter) None None None meth
      else None)"
| "api_route _ meth = None"

definition admin_router :: "http_method \<Rightarrow> str \<Rightarrow> admin_handler option" where
  "admin_router meth path =
     Option.bind (strip_prefix ''/admin/api/v1/'' path) (\<lambda>rest. api_route (split_on CHR ''/'' rest) meth)"

text \<open>A request on a registered route: the middleware, then the extractor, then the handler.\<close>

datatype dispatched = NotRouted | Denied string | Forbidden api_error | Handled admin_handler "auth_ctx option"

definition admin_dispatch ::
    "(bytes \<Rightarrow> bytes) \<Rightarrow> config \<Rightarrow> config \<Rightarrow> session_store \<Rightarrow> i64 \<Rightarrow> http_method \<Rightarrow> str \<Rightarrow> headers \<Rightarrow> dispatched" where
  "admin_dispatch sha256 config boot sessions now meth path hs =
     (case admin_router meth path of
        None \<Rightarrow> NotRouted
      | Some h \<Rightarrow>
          (case require sha256 config boot sessions now meth path hs of
             Unauthorized message \<Rightarrow> Denied message
           | Run ctx \<Rightarrow>
               (case required_role h of
                  None \<Rightarrow> Handled h ctx
                | Some r \<Rightarrow> (case extract_role ctx r of Inl e \<Rightarrow> Forbidden e | Inr c \<Rightarrow> Handled h (Some c)))))"

section \<open>Lemmas\<close>

text \<open>The comparison looks at every byte, yet decides equality.\<close>

lemma foldl_or_zero:
  "foldl (\<lambda>diff i. diff OR f i) (d :: 'a::len word) is = 0 \<longleftrightarrow> d = 0 \<and> (\<forall>i \<in> set is. f i = 0)"
  by (induction "is" arbitrary: d) (auto simp: or_eq_0_iff)

lemma word_xor_eq_0: "(x :: 'a::len word) XOR y = 0 \<longleftrightarrow> x = y"
  by (auto simp: bit_eq_iff bit_xor_iff)

lemma ucast_byte_eq_0: "(ucast (x :: 8 word) :: 64 word) = 0 \<longleftrightarrow> x = 0"
  by transfer (simp add: take_bit_eq_mod)

lemma constant_time_eq_iff:
  assumes "length a < 18446744073709551616" and "length b < 18446744073709551616"
  shows "constant_time_eq a b \<longleftrightarrow> a = b"
proof
  assume "constant_time_eq a b"
  then have len: "(of_nat (length a) :: 64 word) = of_nat (length b)"
    and bytes: "\<forall>i < max (length a) (length b). byte_at a i = byte_at b i"
    by (simp_all add: constant_time_eq_def foldl_or_zero word_xor_eq_0 ucast_byte_eq_0)
  have l: "length a = length b"
    using len assms by (simp add: word_of_nat_eq_iff take_bit_nat_eq_self)
  show "a = b"
  proof (rule nth_equalityI [OF l])
    fix i
    assume "i < length a"
    with bytes l have "(of_nat (of_char (a ! i)) :: 8 word) = of_nat (of_char (b ! i))" by (simp add: byte_at_def)
    then have "(of_char (a ! i) :: nat) mod 256 = of_char (b ! i) mod 256"
      by (simp only: word_of_nat_eq_iff take_bit_eq_mod) simp
    then show "a ! i = b ! i" by simp
  qed
qed (unfold constant_time_eq_def foldl_or_zero, simp)

text \<open>Sizes in memory fit \<open>usize\<close>.\<close>

definition fits_usize :: "'a list \<Rightarrow> bool" where
  "fits_usize xs \<longleftrightarrow> length xs < 18446744073709551616"

definition keys_fit :: "config \<Rightarrow> bool" where
  "keys_fit config \<longleftrightarrow> (\<forall>keys. ad_keys (cf_admin config) = Some keys \<longrightarrow>
     list_all (\<lambda>k. fits_usize (adk_name k) \<and> fits_usize (adk_key k)) keys)"

lemma foldl_last_match:
  "foldl (\<lambda>found x. if p x then Some x else found) init xs = Some y \<Longrightarrow> init = Some y \<or> y \<in> set xs \<and> p y"
  by (induction xs arbitrary: init) (auto split: if_splits)

lemma match_key_Some:
  assumes "match_key keys presented = Some k" and "list_all (\<lambda>k. fits_usize (adk_key k)) keys" and "fits_usize presented"
  shows "k \<in> set keys \<and> adk_key k = presented"
  using foldl_last_match [OF assms(1) [unfolded match_key_def]] assms(2,3)
  by (auto simp: constant_time_eq_iff list_all_iff fits_usize_def)

lemma match_login_Some:
  assumes "match_login keys name presented = Some k"
    and "list_all (\<lambda>k. fits_usize (adk_name k) \<and> fits_usize (adk_key k)) keys" and "fits_usize name" and "fits_usize presented"
  shows "k \<in> set keys \<and> adk_name k = name \<and> adk_key k = presented"
  using foldl_last_match [OF assms(1) [unfolded match_login_def Let_def]] assms(2-)
  by (auto simp: constant_time_eq_iff list_all_iff fits_usize_def)

lemma min_by_expiry_Some: "min_by_expiry xs = Some t \<Longrightarrow> t \<in> fst ` set xs"
  by (induction xs) (auto split: if_splits)

lemma min_by_expiry_None: "min_by_expiry xs = None \<longleftrightarrow> xs = []"
proof (induction xs)
  case (Cons x xs)
  then show ?case by (cases x; cases xs) auto
qed simp

text \<open>Only a login request reaches a handler without an identity.\<close>

lemma login_path: "admin_router meth path = Some h \<Longrightarrow> meth = Post \<Longrightarrow> path = ''/admin/api/v1/session'' \<Longrightarrow> h = Login"
  by (simp add: admin_router_def strip_prefix_def on_method_def)

section \<open>The session store over time\<close>

text \<open>
  The states of the store, with the logins that have succeeded so far. Configurations, clocks, tokens
  and requests are whatever they are at the time.
\<close>

inductive sessions_reach ::
    "(bytes \<Rightarrow> bytes) \<Rightarrow> (session_store \<Rightarrow> (str \<times> session) list) \<Rightarrow> session_store \<Rightarrow> (str \<times> str) set \<Rightarrow> bool"
  for sha256 iter where
  start: "sessions_reach sha256 iter fmempty {}"
| login: "sessions_reach sha256 iter S L \<Longrightarrow> keys_fit config \<Longrightarrow> fits_usize name \<Longrightarrow> fits_usize key \<Longrightarrow>
    login sha256 iter config boot token t t' name key S = (r, S') \<Longrightarrow>
    sessions_reach sha256 iter S' (if r = Inl ''invalid name or key'' then L else insert (name, key) L)"
| logout: "sessions_reach sha256 iter S L \<Longrightarrow> logout boot ctx hs S = (r, S') \<Longrightarrow> sessions_reach sha256 iter S' L"

lemma store_session_lookup:
  "fmlookup (store_session iter now token s S) t = Some s' \<Longrightarrow> t = token \<and> s' = s \<or> fmlookup S t = Some s'"
  by (auto simp: store_session_def Let_def split: if_splits option.splits)

lemma fmap_size_filter: "card (fmdom' (fmfilter p m)) \<le> card (fmdom' m)"
  by (rule card_mono) (auto simp: fmlookup_dom'_iff)

lemma store_session_bounded:
  assumes "\<And>m. set (iter m) = {(t, s). fmlookup m t = Some s}" and "card (fmdom' S) \<le> MAX_SESSIONS"
  shows "card (fmdom' (store_session iter now token s S)) \<le> MAX_SESSIONS"
proof -
  define kept where "kept = fmfilter (\<lambda>t. case fmlookup S t of Some s \<Rightarrow> ss_expires_ms s > now | None \<Rightarrow> False) S"
  have k: "card (fmdom' kept) \<le> MAX_SESSIONS" unfolding kept_def using fmap_size_filter assms(2) le_trans by blast
  define room where "room = (if card (fmdom' kept) \<ge> MAX_SESSIONS
    then (case min_by_expiry (iter kept) of Some oldest \<Rightarrow> fmdrop oldest kept | None \<Rightarrow> kept) else kept)"
  have "card (fmdom' room) < MAX_SESSIONS"
  proof (cases "card (fmdom' kept) \<ge> MAX_SESSIONS")
    case True
    then have "fmdom' kept \<noteq> {}" by (auto simp: MAX_SESSIONS_def)
    then obtain t' s' where "fmlookup kept t' = Some s'" by (auto simp: fmlookup_dom'_iff)
    then have "iter kept \<noteq> []" using assms(1) [of kept] by force
    then obtain t where t: "min_by_expiry (iter kept) = Some t" using min_by_expiry_None by blast
    then have "t \<in> fmdom' kept" using min_by_expiry_Some [OF t] assms(1) [of kept] by (auto simp: fmlookup_dom'_iff)
    then have "card (fmdom' (fmdrop t kept)) < card (fmdom' kept)" by (metis card_Diff1_less finite_fmdom' fmdom'_drop)
    with True t k show ?thesis by (simp add: room_def)
  qed (simp add: room_def)
  moreover have "store_session iter now token s S = fmupd token s room"
    by (simp only: store_session_def room_def kept_def Let_def)
  ultimately show ?thesis by (simp add: card_insert_if)
qed

end
