(* ===== verification/Auth_Properties.thy ===== *)
theory Auth_Properties
  imports Admin_Auth Queues
begin

text \<open>
  The properties of authentication and authorisation (\<open>src/auth.rs\<close>, \<open>src/admin/auth.rs\<close>,
  \<open>src/admin/authz.rs\<close>, the routes of \<open>src/admin/mod.rs\<close>).
\<close>

section \<open>Sessions\<close>

lemma reach_sessions:
  assumes "sessions_reach sha256 iter S L" and "\<And>m. set (iter m) = {(t, s). fmlookup m t = Some s}"
  shows "card (fmdom' S) \<le> MAX_SESSIONS
    \<and> (\<forall>t s. fmlookup S t = Some s \<longrightarrow> (\<exists>key. (ss_key_name s, key) \<in> L \<and> ss_key_sha256 s = sha256 key))"
  using assms(1)
proof (induction rule: sessions_reach.induct)
  case (login S L config name key boot token t t' r S')
  show ?case
  proof (cases "Option.bind (ad_keys (cf_admin config)) (\<lambda>keys. match_login keys name key)")
    case None
    with login show ?thesis by (auto simp: login_def)
  next
    case (Some k)
    then obtain keys where keys: "ad_keys (cf_admin config) = Some keys" "match_login keys name key = Some k"
      by (auto simp: bind_eq_Some_conv)
    have k: "adk_name k = name" "adk_key k = key"
      using match_login_Some [OF keys(2)] login.hyps(2-4) keys(1) by (auto simp: keys_fit_def)
    obtain s where s: "S' = store_session iter t' token s S" "ss_key_name s = name" "ss_key_sha256 s = sha256 key"
      "r \<noteq> Inl ''invalid name or key''"
      using login.hyps(5) Some k by (auto simp: login_def Let_def)
    show ?thesis
      using login.IH s store_session_bounded [OF assms(2), of S t' token s] store_session_lookup [of iter t' token s S]
      by (auto simp: s(1)) (metis s(2,3))
  qed
next
  case (logout S L boot ctx hs r S')
  have "S' = (case cookie_token hs of Some token \<Rightarrow> fmdrop token S | None \<Rightarrow> S)"
    using logout.hyps(2) by (auto simp: logout_def Let_def)
  moreover have "card (fmdom' (fmdrop token S)) \<le> card (fmdom' S)" for token
    by (rule card_mono) auto
  ultimately show ?case
    using logout.IH by (auto split: option.splits intro: le_trans)
qed simp_all

text \<open>
  C36: however often clients log in and out, the store holds at most 1024 sessions, and every session
  in it carries the name and the hash of a key that somebody presented at a successful login.
\<close>

theorem admin_sessions_bounded:
  assumes "sessions_reach sha256 iter S L" and "\<And>m. set (iter m) = {(t, s). fmlookup m t = Some s}"
  shows "card (fmdom' S) \<le> MAX_SESSIONS
    \<and> (\<forall>t s. fmlookup S t = Some s \<longrightarrow> (\<exists>key. (ss_key_name s, key) \<in> L \<and> ss_key_sha256 s = sha256 key))"
  by (rule reach_sessions [OF assms])

text \<open>A configuration with one key, and the store after one login.\<close>

definition demo_admin_key :: admin_key where
  "demo_admin_key = \<lparr>adk_name = ''ops'', adk_key = ''secret'', adk_role = Operator\<rparr>"

definition demo_admin :: config where
  "demo_admin = config_default\<lparr>cf_admin := admin_default\<lparr>ad_keys := Some [demo_admin_key]\<rparr>\<rparr>"

definition demo_sha :: "bytes \<Rightarrow> bytes" where
  "demo_sha b = rev b"

definition demo_sessions :: session_store where
  "demo_sessions = snd (login demo_sha sorted_list_of_fmap demo_admin demo_admin ''tok'' 0 0 ''ops'' ''secret'' fmempty)"

lemma demo_iter: "set (sorted_list_of_fmap m) = {(t, s). fmlookup m t = Some s}"
  by (auto simp: set_sorted_list_of_fmap)

lemma demo_keys_fit: "keys_fit demo_admin"
  by (simp add: keys_fit_def demo_admin_def demo_admin_key_def fits_usize_def)

lemma demo_match: "match_login [demo_admin_key] ''ops'' ''secret'' = Some demo_admin_key"
  by (simp add: match_login_def demo_admin_key_def constant_time_eq_iff)

lemma demo_reach: "sessions_reach demo_sha sorted_list_of_fmap demo_sessions {(''ops'', ''secret'')}"
proof -
  obtain r where r: "login demo_sha sorted_list_of_fmap demo_admin demo_admin ''tok'' 0 0 ''ops'' ''secret'' fmempty = (r, demo_sessions)"
    unfolding demo_sessions_def by (metis prod.collapse)
  have "r \<noteq> Inl ''invalid name or key''" using r demo_match by (auto simp: login_def demo_admin_def Let_def)
  with sessions_reach.login [OF sessions_reach.start demo_keys_fit _ _ r] show ?thesis by (simp add: fits_usize_def)
qed

lemma demo_session: "fmlookup demo_sessions ''tok'' = Some \<lparr>ss_key_name = ''ops'', ss_key_sha256 = demo_sha ''secret'',
    ss_expires_ms = 43200000\<rparr>"
  using demo_match
  by (simp add: demo_sessions_def login_def demo_admin_def store_session_def Let_def demo_admin_key_def admin_default_def
      i64_saturating_add_def i64_sat_def i64_of_u64_def i64_max_def i64_min_def)

theorem admin_sessions_bounded_witness:
  "card (fmdom' demo_sessions) \<le> MAX_SESSIONS \<and> (\<exists>s key. fmlookup demo_sessions ''tok'' = Some s
     \<and> (ss_key_name s, key) \<in> {(''ops'', ''secret'')} \<and> ss_key_sha256 s = demo_sha key)"
  using admin_sessions_bounded [OF demo_reach demo_iter] demo_session by blast

section \<open>Requests\<close>

text \<open>
  The caller of a request has shown that it may act under an identity: by the key itself, by a session
  opened with a key of the same name and hash, or, without keys, by reaching a loopback listener.
\<close>

definition authenticated ::
    "(bytes \<Rightarrow> bytes) \<Rightarrow> config \<Rightarrow> config \<Rightarrow> session_store \<Rightarrow> (str \<times> str) set \<Rightarrow> i64 \<Rightarrow> headers \<Rightarrow> auth_ctx \<Rightarrow> bool" where
  "authenticated sha256 config boot S L now hs c = (case ad_keys (cf_admin config) of
     None \<Rightarrow> is_loopback (sa_ip (ad_listen_addr (cf_admin boot))) \<and> c = \<lparr>cx_name = None, cx_role = Admin\<rparr>
   | Some keys \<Rightarrow> \<exists>k \<in> set keys. c = ctx_of_key k
       \<and> (bearer_key hs = Some (adk_key k)
          \<or> (\<exists>token s key. cookie_token hs = Some token \<and> fmlookup S token = Some s \<and> now < ss_expires_ms s
              \<and> (adk_name k, key) \<in> L \<and> sha256 key = sha256 (adk_key k))))"

lemma session_ctx_Some:
  assumes "Option.bind (cookie_token hs) (session_ctx sha256 keys S now) = Some c"
    and "\<And>t s. fmlookup S t = Some s \<Longrightarrow> \<exists>key. (ss_key_name s, key) \<in> L \<and> ss_key_sha256 s = sha256 key"
    and "ad_keys (cf_admin config) = Some keys"
  shows "authenticated sha256 config boot S L now hs c"
proof -
  from assms(1) obtain token s k where t: "cookie_token hs = Some token" "fmlookup S token = Some s" "now < ss_expires_ms s"
    "List.find (\<lambda>k. adk_name k = ss_key_name s \<and> sha256 (adk_key k) = ss_key_sha256 s) keys = Some k" "c = ctx_of_key k"
    by (auto simp: bind_eq_Some_conv session_ctx_def split: if_splits)
  from t(4) have k: "k \<in> set keys" "adk_name k = ss_key_name s" "sha256 (adk_key k) = ss_key_sha256 s"
    by (auto simp: find_Some_iff)
  with assms(2) [OF t(2)] obtain key where "(adk_name k, key) \<in> L" "sha256 key = sha256 (adk_key k)" by metis
  with t k show ?thesis unfolding authenticated_def assms(3) by fastforce
qed

lemma require_authenticates:
  assumes run: "require sha256 config boot S now meth path hs = Run c0" and reach: "sessions_reach sha256 iter S L"
    and iter: "\<And>m. set (iter m) = {(t, s). fmlookup m t = Some s}"
    and fits: "keys_fit config" "pred_option fits_usize (bearer_key hs)"
    and not_login: "\<not> (meth = Post \<and> path = ''/admin/api/v1/session'')"
  shows "\<exists>c. c0 = Some c \<and> authenticated sha256 config boot S L now hs c"
proof (cases "ad_keys (cf_admin config)")
  case None
  with run not_login show ?thesis by (auto simp: require_def authenticated_def split: if_splits)
next
  case keys: (Some keys)
  have fit: "list_all (\<lambda>k. fits_usize (adk_key k)) keys" using fits(1) keys by (auto simp: keys_fit_def list_all_iff)
  show ?thesis
  proof (cases "Option.bind (bearer_key hs) (match_key keys)")
    case (Some k)
    then obtain b where b: "bearer_key hs = Some b" "match_key keys b = Some k" by (auto simp: bind_eq_Some_conv)
    have "k \<in> set keys \<and> adk_key k = b" by (rule match_key_Some [OF b(2) fit]) (use fits(2) b(1) in simp)
    with run not_login b keys show ?thesis by (auto simp: require_def authenticated_def)
  next
    case None
    with run not_login keys obtain c where c: "Option.bind (cookie_token hs) (session_ctx sha256 keys S now) = Some c" "c0 = Some c"
      by (auto simp: require_def split: option.splits if_splits)
    have "authenticated sha256 config boot S L now hs c"
      by (rule session_ctx_Some [OF c(1) _ keys]) (use reach_sessions [OF reach iter] in blast)
    with c(2) show ?thesis by blast
  qed
qed

text \<open>
  C4: no request gets past the admin interface's checks without a right to. When a request reaches a
  handler other than login, it carries an identity whose role is at least the one the handler
  requires. With keys configured, that identity is the name and the role of a key that is configured
  now, and the caller has presented that key in this request, or holds an unexpired session that was
  opened by presenting that name with a key of the same hash. Without keys, the server was started on
  a loopback address.
\<close>

theorem admin_requests_authorised:
  assumes "admin_dispatch sha256 config boot S now meth path hs = Handled h ctx" and "h \<noteq> Login"
    and "sessions_reach sha256 iter S L" and "\<And>m. set (iter m) = {(t, s). fmlookup m t = Some s}"
    and "keys_fit config" and "pred_option fits_usize (bearer_key hs)"
  shows "\<exists>c. ctx = Some c \<and> pred_option (\<lambda>r. r \<le> cx_role c) (required_role h)
    \<and> authenticated sha256 config boot S L now hs c"
proof -
  from assms(1) obtain c0 where route: "admin_router meth path = Some h"
    and run: "require sha256 config boot S now meth path hs = Run c0"
    and role: "case required_role h of None \<Rightarrow> ctx = c0 | Some r \<Rightarrow> \<exists>c. extract_role c0 r = Inr c \<and> ctx = Some c"
    by (auto simp: admin_dispatch_def split: option.splits admission.splits sum.splits)
  have "\<not> (meth = Post \<and> path = ''/admin/api/v1/session'')" using login_path [OF route] assms(2) by blast
  from require_authenticates [OF run assms(3-6) this] role show ?thesis
    by (auto simp: extract_role_def not_less split: option.splits if_splits)
qed

theorem admin_requests_authorised_witness:
  "\<exists>c. admin_dispatch demo_sha demo_admin demo_admin demo_sessions 5 Post ''/admin/api/v1/queues/q/jobs''
       \<lparr>hd_authorization = None, hd_cookie = Some ''theme=dark; sepp_admin=tok''\<rparr> = Handled EnqueueJob (Some c)
     \<and> authenticated demo_sha demo_admin demo_admin demo_sessions {(''ops'', ''secret'')} 5
       \<lparr>hd_authorization = None, hd_cookie = Some ''theme=dark; sepp_admin=tok''\<rparr> c"
proof -
  let ?hs = "\<lparr>hd_authorization = None, hd_cookie = Some ''theme=dark; sepp_admin=tok''\<rparr>"
  have token: "cookie_token ?hs = Some ''tok''"
    by (simp add: cookie_token_def trim_def is_space_def split_once_def COOKIE_NAME_def)
  have route: "admin_router Post ''/admin/api/v1/queues/q/jobs'' = Some EnqueueJob"
    by (simp add: admin_router_def strip_prefix_def on_method_def)
  have d: "admin_dispatch demo_sha demo_admin demo_admin demo_sessions 5 Post ''/admin/api/v1/queues/q/jobs'' ?hs =
      Handled EnqueueJob (Some \<lparr>cx_name = Some ''ops'', cx_role = Operator\<rparr>)"
    by (simp add: admin_dispatch_def route require_def token bearer_key_def session_ctx_def demo_session demo_admin_def
        demo_admin_key_def ctx_of_key_def required_role_def extract_role_def)
  from admin_requests_authorised [OF d _ demo_reach demo_iter demo_keys_fit] d show ?thesis
    by (simp add: bearer_key_def)
qed

section \<open>API keys\<close>

text \<open>The interceptor of the gRPC service lets a request pass exactly when no keys are set or it bears one of them.\<close>

lemma interceptor_call_iff:
  "interceptor_call (set_keys keys old) authorization = Inr () \<longleftrightarrow>
     (case keys of None \<Rightarrow> True | Some ks \<Rightarrow> \<exists>k \<in> set ks. authorization = Some (''Bearer '' @ ak_key k))"
  by (auto simp: interceptor_call_def set_keys_def to_policy_def strip_prefix_def bind_eq_Some_conv prefix_def
      split: option.splits if_splits)

end
