(* ===== verification/Config_Edit.thy ===== *)
theory Config_Edit
  imports Admin_Auth
begin

text \<open>
  \<open>src/admin/config_edit.rs\<close>: editing the configuration file through the admin interface. The documents
  are those of the crate toml_edit, so they are a parameter: a value \<open>T\<close> of the record \<open>toml\<close> over the
  types of tables, items and values. A document is used through the methods of its root table, which
  stands for it. The locale \<open>toml_laws\<close> states what the code relies on: a table is a map from keys to
  items, and what is put back through a mutable reference is what the next look-up finds. An instance
  with tables as finite maps follows.

  A JSON number is given by what its accessors yield. A JSON object is an association list.
\<close>

section \<open>JSON values\<close>

record json_number =
  jn_as_i64 :: "i64 option"
  jn_as_f64 :: "64 word option"

datatype json =
    JNull
  | JBool bool
  | JNumber json_number
  | JString str
  | JArray "json list"
  | JObject "(str \<times> json) list"

section \<open>Documents\<close>

record ('t, 'i, 'v) toml =
  table_new :: 't
  table_get :: "'t \<Rightarrow> str \<Rightarrow> 'i option"
  table_insert :: "'t \<Rightarrow> str \<Rightarrow> 'i \<Rightarrow> 't"
  table_put :: "'t \<Rightarrow> str \<Rightarrow> 'i \<Rightarrow> 't"
  table_remove :: "'t \<Rightarrow> str \<Rightarrow> 't"
  table_is_empty :: "'t \<Rightarrow> bool"
  item_value :: "'v \<Rightarrow> 'i"
  item_table :: "'t \<Rightarrow> 'i"
  item_tables :: "'t list \<Rightarrow> 'i"
  as_table :: "'i \<Rightarrow> 't option"
  put_table :: "'i \<Rightarrow> 't \<Rightarrow> 'i"
  as_tables :: "'i \<Rightarrow> 't list option"
  put_tables :: "'i \<Rightarrow> 't list \<Rightarrow> 'i"
  as_str :: "'i \<Rightarrow> str option"
  value_str :: "str \<Rightarrow> 'v"
  value_bool :: "bool \<Rightarrow> 'v"
  value_i64 :: "i64 \<Rightarrow> 'v"
  value_f64 :: "64 word \<Rightarrow> 'v"
  value_array :: "'v list \<Rightarrow> str \<Rightarrow> bool \<Rightarrow> 'v"
  value_inline :: "(str \<times> 'v) list \<Rightarrow> 'v"
  value_prefix :: "'v \<Rightarrow> str \<Rightarrow> 'v"

text \<open>
  \<open>table_insert\<close> adds or replaces an entry; \<open>table_put\<close> puts back an entry that was reached through
  \<open>get_mut\<close> or \<open>entry\<close>. An array carries its trailing text and whether a comma follows its last value.
\<close>

locale toml_laws =
  fixes T :: "('t, 'i, 'v) toml"
  assumes get_new: "table_get T (table_new T) k = None"
    and get_insert: "table_get T (table_insert T t k i) k' = (if k' = k then Some i else table_get T t k')"
    and get_put: "table_get T t k \<noteq> None \<Longrightarrow> table_get T (table_put T t k i) k' = (if k' = k then Some i else table_get T t k')"
    and get_remove: "table_get T (table_remove T t k) k' = (if k' = k then None else table_get T t k')"
    and is_empty: "table_is_empty T t \<longleftrightarrow> (\<forall>k. table_get T t k = None)"
    and as_item_table: "as_table T (item_table T t) = Some t"
    and as_put_table: "as_table T i \<noteq> None \<Longrightarrow> as_table T (put_table T i t) = Some t"
    and as_item_tables: "as_tables T (item_tables T ts) = Some ts"
    and as_put_tables: "as_tables T i \<noteq> None \<Longrightarrow> as_tables T (put_tables T i ts) = Some ts"
    and as_str_value: "as_str T (item_value T (value_str T s)) = Some s"

section \<open>Values\<close>

datatype edit_error =
    UnsupportedPath str
  | NotATable str
  | QueuesNotTables
  | UnknownQueueField str
  | NumberOutOfRange
  | ArrayOfNonScalars
  | NotAScalar

definition toml_number :: "('t, 'i, 'v) toml \<Rightarrow> json_number \<Rightarrow> edit_error + 'v" where
  "toml_number T n =
     (case jn_as_i64 n of
        Some i \<Rightarrow> Inr (value_i64 T i)
      | None \<Rightarrow> (case jn_as_f64 n of Some f \<Rightarrow> Inr (value_f64 T f) | None \<Rightarrow> Inl NumberOutOfRange))"

fun toml_scalar :: "('t, 'i, 'v) toml \<Rightarrow> json \<Rightarrow> edit_error + 'v" where
  "toml_scalar T (JString s) = Inr (value_str T s)"
| "toml_scalar T (JBool b) = Inr (value_bool T b)"
| "toml_scalar T (JNumber n) = toml_number T n"
| "toml_scalar T _ = Inl ArrayOfNonScalars"

fun toml_items :: "('t, 'i, 'v) toml \<Rightarrow> json list \<Rightarrow> edit_error + 'v list" where
  "toml_items T [] = Inr []"
| "toml_items T (item # items) =
     (case toml_scalar T item of
        Inl e \<Rightarrow> Inl e
      | Inr v \<Rightarrow> (case toml_items T items of Inl e \<Rightarrow> Inl e | Inr vs \<Rightarrow> Inr (v # vs)))"

fun toml_value :: "('t, 'i, 'v) toml \<Rightarrow> json \<Rightarrow> edit_error + 'v" where
  "toml_value T (JString s) = Inr (value_str T s)"
| "toml_value T (JBool b) = Inr (value_bool T b)"
| "toml_value T (JNumber n) = toml_number T n"
| "toml_value T (JArray items) =
     (case toml_items T items of Inl e \<Rightarrow> Inl e | Inr vs \<Rightarrow> Inr (value_array T vs [] False))"
| "toml_value T JNull = Inl NotAScalar"
| "toml_value T (JObject _) = Inl NotAScalar"

section \<open>Edits\<close>

definition QUEUE_FIELDS :: "string list" where
  "QUEUE_FIELDS = [''max_lease_duration_ms'', ''default_max_attempts'', ''max_attempts_ceiling'', ''default_priority'',
     ''retry_delay_ms'', ''retry_backoff'', ''retry_delay_max_ms'', ''max_payload_bytes'', ''allowed_encodings'',
     ''allowed_job_types'', ''max_schedule_horizon_ms'', ''max_custom_entries'', ''max_custom_total_bytes'',
     ''max_custom_key_bytes'', ''dedup_window_ms'', ''max_queue_depth'']"

text \<open>\<open>doc.entry(key).or_insert(item)\<close>: the entry's item, and the document that has it.\<close>

definition entry_or_insert :: "('t, 'i, 'v) toml \<Rightarrow> 't \<Rightarrow> str \<Rightarrow> 'i \<Rightarrow> 'i \<times> 't" where
  "entry_or_insert T doc key item =
     (case table_get T doc key of Some i \<Rightarrow> (i, doc) | None \<Rightarrow> (item, table_insert T doc key item))"

definition set_section_value :: "('t, 'i, 'v) toml \<Rightarrow> 't \<Rightarrow> str \<Rightarrow> str \<Rightarrow> json \<Rightarrow> edit_error + 't" where
  "set_section_value T doc section key val =
     (if val = JNull then
        Inr (case table_get T doc section of
               None \<Rightarrow> doc
             | Some item \<Rightarrow>
                 (case as_table T item of
                    None \<Rightarrow> doc
                  | Some table \<Rightarrow> table_put T doc section (put_table T item (table_remove T table key))))
      else
        (case toml_value T val of
           Inl e \<Rightarrow> Inl e
         | Inr v \<Rightarrow>
             (let (item, doc) = entry_or_insert T doc section (item_table T (table_new T))
              in case as_table T item of
                   None \<Rightarrow> Inl (NotATable section)
                 | Some table \<Rightarrow>
                     Inr (table_put T doc section (put_table T item (table_insert T table key (item_value T v)))))))"

definition entry_named :: "('t, 'i, 'v) toml \<Rightarrow> str \<Rightarrow> 't \<Rightarrow> bool" where
  "entry_named T name t \<longleftrightarrow> Option.bind (table_get T t ''name'') (as_str T) = Some name"

fun position :: "('a \<Rightarrow> bool) \<Rightarrow> 'a list \<Rightarrow> nat option" where
  "position p [] = None"
| "position p (x # xs) = (if p x then Some 0 else map_option Suc (position p xs))"

text \<open>The array of queue tables with the place of the wanted entry, and the item and document it is in.\<close>

definition queue_entry :: "('t, 'i, 'v) toml \<Rightarrow> 't \<Rightarrow> str \<Rightarrow> edit_error + 't list \<times> nat \<times> 'i \<times> 't" where
  "queue_entry T doc name =
     (let (item, doc) = entry_or_insert T doc ''queues'' (item_tables T [])
      in case as_tables T item of
           None \<Rightarrow> Inl QueuesNotTables
         | Some arr \<Rightarrow>
             (case position (entry_named T name) arr of
                Some idx \<Rightarrow> Inr (arr, idx, item, doc)
              | None \<Rightarrow>
                  Inr (arr @ [table_insert T (table_new T) ''name'' (item_value T (value_str T name))], length arr, item, doc)))"

definition ensure_queue :: "('t, 'i, 'v) toml \<Rightarrow> 't \<Rightarrow> str \<Rightarrow> edit_error + 't" where
  "ensure_queue T doc name =
     (case queue_entry T doc name of
        Inl e \<Rightarrow> Inl e
      | Inr (arr, _, item, doc) \<Rightarrow> Inr (table_put T doc ''queues'' (put_tables T item arr)))"

definition upsert_queue_field :: "('t, 'i, 'v) toml \<Rightarrow> 't \<Rightarrow> str \<Rightarrow> str \<Rightarrow> json \<Rightarrow> edit_error + 't" where
  "upsert_queue_field T doc name field val =
     (if field \<notin> set QUEUE_FIELDS then Inl (UnknownQueueField field)
      else
        (case (if val = JNull then Inr None else map_sum id Some (toml_value T val)) of
           Inl e \<Rightarrow> Inl e
         | Inr v \<Rightarrow>
             (case queue_entry T doc name of
                Inl e \<Rightarrow> Inl e
              | Inr (arr, idx, item, doc) \<Rightarrow>
                  (let table = (case v of
                         Some v \<Rightarrow> table_insert T (arr ! idx) field (item_value T v)
                       | None \<Rightarrow> table_remove T (arr ! idx) field)
                   in Inr (table_put T doc ''queues'' (put_tables T item (arr[idx := table])))))))"

definition apply_change :: "('t, 'i, 'v) toml \<Rightarrow> 't \<Rightarrow> str \<Rightarrow> json \<Rightarrow> edit_error + 't" where
  "apply_change T doc path val =
     (case split_on CHR ''.'' path of
        [section, key] \<Rightarrow> set_section_value T doc section key val
      | [a, name, field] \<Rightarrow> if a = ''queues'' then upsert_queue_field T doc name field val else Inl (UnsupportedPath path)
      | _ \<Rightarrow> Inl (UnsupportedPath path))"

definition api_keys_value :: "('t, 'i, 'v) toml \<Rightarrow> api_key_entry list \<Rightarrow> 'v" where
  "api_keys_value T entries =
     (let arr = map (\<lambda>e. value_inline T [(''name'', value_str T (ak_name e)), (''key'', value_str T (ak_key e))]) entries
      in if entries = [] then value_array T arr [] False
         else value_array T (map (\<lambda>v. value_prefix T v (CHR 0x0A # ''  '')) arr) [CHR 0x0A] True)"

definition set_api_keys :: "('t, 'i, 'v) toml \<Rightarrow> 't \<Rightarrow> api_key_entry list \<Rightarrow> edit_error + 't" where
  "set_api_keys T doc entries =
     (let (item, doc) = entry_or_insert T doc ''auth'' (item_table T (table_new T))
      in case as_table T item of
           None \<Rightarrow> Inl (NotATable ''auth'')
         | Some auth \<Rightarrow>
             Inr (table_put T doc ''auth'' (put_table T item
               (table_insert T (table_remove T auth ''api_keys'') ''api_keys'' (item_value T (api_keys_value T entries))))))"

definition remove_api_keys :: "('t, 'i, 'v) toml \<Rightarrow> 't \<Rightarrow> bool \<times> 't" where
  "remove_api_keys T doc =
     (case table_get T doc ''auth'' of
        None \<Rightarrow> (False, doc)
      | Some item \<Rightarrow>
          (case as_table T item of
             None \<Rightarrow> (False, doc)
           | Some auth \<Rightarrow>
               (let removed = table_get T auth ''api_keys'' \<noteq> None;
                    auth = table_remove T auth ''api_keys'';
                    doc = table_put T doc ''auth'' (put_table T item auth)
                in (removed, if table_is_empty T auth then table_remove T doc ''auth'' else doc))))"

definition remove_queue :: "('t, 'i, 'v) toml \<Rightarrow> 't \<Rightarrow> str \<Rightarrow> bool \<times> 't" where
  "remove_queue T doc name =
     (case table_get T doc ''queues'' of
        None \<Rightarrow> (False, doc)
      | Some item \<Rightarrow>
          (case as_tables T item of
             None \<Rightarrow> (False, doc)
           | Some arr \<Rightarrow>
               (let kept = filter (\<lambda>t. \<not> entry_named T name t) arr;
                    doc = table_put T doc ''queues'' (put_tables T item kept)
                in (length kept \<noteq> length arr, if kept = [] then table_remove T doc ''queues'' else doc))))"

section \<open>Lemmas\<close>

text \<open>
  What a document holds under a section and a key: nothing, the item, or the section itself where it
  is not a table.
\<close>

definition key_item :: "('t, 'i, 'v) toml \<Rightarrow> 't \<Rightarrow> str \<Rightarrow> str \<Rightarrow> ('i + 'i) option" where
  "key_item T doc section key =
     (case table_get T doc section of
        None \<Rightarrow> None
      | Some item \<Rightarrow> (case as_table T item of Some t \<Rightarrow> map_option Inl (table_get T t key) | None \<Rightarrow> Some (Inr item)))"

text \<open>The queue tables of a document.\<close>

definition queue_tables :: "('t, 'i, 'v) toml \<Rightarrow> 't \<Rightarrow> 't list" where
  "queue_tables T doc = unwrap_or (Option.bind (table_get T doc ''queues'') (as_tables T)) []"

lemma split_on_ne: "split_on c s \<noteq> []"
  by (induction s) (auto split: list.splits)

fun join_with :: "char \<Rightarrow> str list \<Rightarrow> str" where
  "join_with c [] = []"
| "join_with c [w] = w"
| "join_with c (w # ws) = w @ c # join_with c ws"

lemma join_split: "join_with c (split_on c s) = s"
proof (induction s)
  case (Cons x s)
  obtain w ws where w: "split_on c s = w # ws" using split_on_ne [of c s] by (cases "split_on c s") auto
  with Cons show ?case by (cases ws) auto
qed simp

lemma split_two: "split_on c s = [a, b] \<Longrightarrow> s = a @ c # b"
  using join_split [of c s] by simp

lemma map_sum_Some: "map_sum id Some r = Inr v \<longleftrightarrow> (\<exists>x. r = Inr x \<and> v = Some x)"
  by (cases r) auto

lemma position_Some: "position p xs = Some i \<Longrightarrow> i < length xs \<and> p (xs ! i) \<and> (\<forall>j < i. \<not> p (xs ! j))"
proof (induction xs arbitrary: i)
  case (Cons x xs)
  then show ?case by (auto split: if_splits simp: nth_Cons split: nat.splits)
qed simp

lemma position_None: "position p xs = None \<longleftrightarrow> (\<forall>x \<in> set xs. \<not> p x)"
  by (induction xs) auto

context toml_laws
begin

lemma entry_or_insert_get:
  "entry_or_insert T doc k i = (item, doc') \<Longrightarrow>
     table_get T doc' k = Some item \<and> (\<forall>k'. k' \<noteq> k \<longrightarrow> table_get T doc' k' = table_get T doc k')
     \<and> (table_get T doc k = Some item \<or> table_get T doc k = None \<and> item = i)"
  by (auto simp: entry_or_insert_def get_insert split: option.splits)

text \<open>Setting or removing a value leaves every other value as it was.\<close>

lemma set_section_keeps:
  assumes "set_section_value T doc s k val = Inr doc'" and "(s', k') \<noteq> (s, k)"
  shows "key_item T doc' s' k' = key_item T doc s' k'"
proof (cases "val = JNull")
  case True
  with assms show ?thesis
    by (auto simp: set_section_value_def key_item_def get_put get_remove as_put_table split: option.splits if_splits)
next
  case False
  then obtain v item doc1 table where v: "toml_value T val = Inr v"
    and e: "entry_or_insert T doc s (item_table T (table_new T)) = (item, doc1)"
    and t: "as_table T item = Some table"
    and d: "doc' = table_put T doc1 s (put_table T item (table_insert T table k (item_value T v)))"
    using assms(1) by (auto simp: set_section_value_def Let_def split: sum.splits prod.splits option.splits)
  note e = entry_or_insert_get [OF e]
  show ?thesis
  proof (cases "s' = s")
    case True
    then have "k' \<noteq> k" using assms(2) by simp
    with True t e d show ?thesis
      by (auto simp: key_item_def get_put get_insert get_new as_put_table as_item_table)
  next
    case False
    with e d show ?thesis by (simp add: key_item_def get_put)
  qed
qed

lemma queue_entry_spec:
  assumes "queue_entry T doc name = Inr (arr, idx, item, doc')"
  shows "table_get T doc' ''queues'' = Some item" "as_tables T item \<noteq> None"
    "\<forall>k. k \<noteq> ''queues'' \<longrightarrow> table_get T doc' k = table_get T doc k"
    "idx < length arr" "entry_named T name (arr ! idx)" "\<forall>j < idx. \<not> entry_named T name (arr ! j)"
    "arr = queue_tables T doc \<or> idx = length (queue_tables T doc)
       \<and> arr = queue_tables T doc @ [table_insert T (table_new T) ''name'' (item_value T (value_str T name))]"
proof -
  obtain i doc1 a where e: "entry_or_insert T doc ''queues'' (item_tables T []) = (i, doc1)" and a: "as_tables T i = Some a"
    and r: "case position (entry_named T name) a of
        Some n \<Rightarrow> arr = a \<and> idx = n
      | None \<Rightarrow> arr = a @ [table_insert T (table_new T) ''name'' (item_value T (value_str T name))] \<and> idx = length a"
      "item = i" "doc' = doc1"
    using assms by (auto simp: queue_entry_def split: prod.splits option.splits)
  note e = entry_or_insert_get [OF e]
  have qt: "queue_tables T doc = a"
    using e a by (auto simp: queue_tables_def as_item_tables)
  show "table_get T doc' ''queues'' = Some item" "as_tables T item \<noteq> None"
    "\<forall>k. k \<noteq> ''queues'' \<longrightarrow> table_get T doc' k = table_get T doc k"
    using e a r(2,3) by auto
  show "idx < length arr" "entry_named T name (arr ! idx)"
    using r(1) by (auto split: option.splits dest!: position_Some simp: entry_named_def get_insert as_str_value)
  show "\<forall>j < idx. \<not> entry_named T name (arr ! j)"
    using r(1) by (auto split: option.splits dest!: position_Some simp: position_None nth_append)
  show "arr = queue_tables T doc \<or> idx = length (queue_tables T doc)
       \<and> arr = queue_tables T doc @ [table_insert T (table_new T) ''name'' (item_value T (value_str T name))]"
    using r(1) qt by (auto split: option.splits)
qed

lemma queue_entry_put:
  assumes "queue_entry T doc name = Inr (arr, idx, item, doc')"
  shows "k \<noteq> ''queues'' \<Longrightarrow> table_get T (table_put T doc' ''queues'' i) k = table_get T doc k"
    "queue_tables T (table_put T doc' ''queues'' (put_tables T item ts)) = ts"
  using queue_entry_spec(1-3) [OF assms] by (simp_all add: get_put queue_tables_def as_put_tables)

lemma queue_edits_keep:
  "upsert_queue_field T doc name field val = Inr doc' \<Longrightarrow> k \<noteq> ''queues'' \<Longrightarrow> table_get T doc' k = table_get T doc k"
  "ensure_queue T doc name = Inr doc' \<Longrightarrow> k \<noteq> ''queues'' \<Longrightarrow> table_get T doc' k = table_get T doc k"
  by (auto simp: upsert_queue_field_def ensure_queue_def Let_def queue_entry_put split: if_splits sum.splits prod.splits)

text \<open>
  An edit of a queue changes the first entry with its name, or appends one; the entry's other fields
  and all other entries stay.
\<close>

lemma upsert_tables:
  assumes "upsert_queue_field T doc name field val = Inr doc'"
  obtains arr idx v where "idx < length arr" "entry_named T name (arr ! idx)" "\<forall>j < idx. \<not> entry_named T name (arr ! j)"
    "arr = queue_tables T doc \<or> idx = length (queue_tables T doc)
       \<and> arr = queue_tables T doc @ [table_insert T (table_new T) ''name'' (item_value T (value_str T name))]"
    "queue_tables T doc' = arr[idx := (case v of Some v \<Rightarrow> table_insert T (arr ! idx) field (item_value T v)
                                       | None \<Rightarrow> table_remove T (arr ! idx) field)]"
    "v = None \<longleftrightarrow> val = JNull" "field \<in> set QUEUE_FIELDS"
proof -
  obtain v where w: "(if val = JNull then Inr None else map_sum id Some (toml_value T val)) = Inr v"
    and f: "field \<in> set QUEUE_FIELDS"
    using assms by (auto simp: upsert_queue_field_def split: if_splits sum.splits)
  then have v: "v = None \<longleftrightarrow> val = JNull" by (auto simp: map_sum_Some split: if_splits)
  obtain arr idx item doc1 where q: "queue_entry T doc name = Inr (arr, idx, item, doc1)"
    and d: "doc' = table_put T doc1 ''queues'' (put_tables T item (arr[idx := (case v of
        Some v \<Rightarrow> table_insert T (arr ! idx) field (item_value T v) | None \<Rightarrow> table_remove T (arr ! idx) field)]))"
    using assms f unfolding upsert_queue_field_def w by (auto simp: Let_def split: sum.splits prod.splits)
  show thesis
    by (rule that [OF queue_entry_spec(4-7) [OF q] _ v f]) (simp add: d queue_entry_put [OF q])
qed

lemma remove_queue_tables:
  assumes "remove_queue T doc name = (removed, doc')"
  shows "queue_tables T doc' = filter (\<lambda>t. \<not> entry_named T name t) (queue_tables T doc)"
    "removed \<longleftrightarrow> (\<exists>t \<in> set (queue_tables T doc). entry_named T name t)"
    "k \<noteq> ''queues'' \<Longrightarrow> table_get T doc' k = table_get T doc k"
proof -
  have len: "length (filter p xs) \<noteq> length xs \<longleftrightarrow> (\<exists>x \<in> set xs. \<not> p x)" for p and xs :: "'t list"
    by (metis filter_True length_filter_less nat_neq_iff)
  show "queue_tables T doc' = filter (\<lambda>t. \<not> entry_named T name t) (queue_tables T doc)"
    using assms by (auto simp: remove_queue_def queue_tables_def Let_def get_put get_remove as_put_tables
        split: option.splits if_splits)
  show "removed \<longleftrightarrow> (\<exists>t \<in> set (queue_tables T doc). entry_named T name t)"
    using assms by (auto simp: remove_queue_def queue_tables_def Let_def len split: option.splits)
  show "k \<noteq> ''queues'' \<Longrightarrow> table_get T doc' k = table_get T doc k"
    using assms by (auto simp: remove_queue_def Let_def get_put get_remove split: option.splits if_splits)
qed

text \<open>Revoking the last key leaves an empty list, which denies everyone, not an absent one, which allows everyone.\<close>

lemma set_api_keys_item:
  assumes "set_api_keys T doc entries = Inr doc'"
  shows "key_item T doc' ''auth'' ''api_keys'' = Some (Inl (item_value T (api_keys_value T entries)))"
    "(s, k) \<noteq> (''auth'', ''api_keys'') \<Longrightarrow> key_item T doc' s k = key_item T doc s k"
proof -
  obtain item doc1 auth where e: "entry_or_insert T doc ''auth'' (item_table T (table_new T)) = (item, doc1)"
    and a: "as_table T item = Some auth"
    and d: "doc' = table_put T doc1 ''auth'' (put_table T item
        (table_insert T (table_remove T auth ''api_keys'') ''api_keys'' (item_value T (api_keys_value T entries))))"
    using assms by (auto simp: set_api_keys_def split: prod.splits option.splits)
  note e = entry_or_insert_get [OF e]
  show "key_item T doc' ''auth'' ''api_keys'' = Some (Inl (item_value T (api_keys_value T entries)))"
    using e a d by (simp add: key_item_def get_put get_insert as_put_table)
  show "key_item T doc' s k = key_item T doc s k" if "(s, k) \<noteq> (''auth'', ''api_keys'')"
    using e a d that
    by (cases "s = ''auth''") (auto simp: key_item_def get_put get_insert get_remove get_new as_put_table as_item_table)
qed

text \<open>No change by path reaches a value other than the one its path names.\<close>

lemma apply_change_keeps:
  assumes "apply_change T doc path val = Inr doc'" and "path \<noteq> s @ ''.'' @ k" and "s \<noteq> ''queues''"
  shows "key_item T doc' s k = key_item T doc s k"
proof -
  consider a b where "split_on CHR ''.'' path = [a, b]" "set_section_value T doc a b val = Inr doc'"
    | n f where "upsert_queue_field T doc n f val = Inr doc'"
    using assms(1) by (auto simp: apply_change_def split: list.splits if_splits)
  then show ?thesis
  proof cases
    case 1
    with split_two [OF 1(1)] assms(2) show ?thesis by (intro set_section_keeps) auto
  next
    case 2
    with assms(3) show ?thesis by (simp add: key_item_def queue_edits_keep)
  qed
qed

end

end
