(* ===== verification/Config_Watch.thy ===== *)
theory Config_Watch
  imports Queue_Server Admin_Auth
begin

unbundle bit_operations_syntax

text \<open>
  \<open>src/config_watch.rs\<close>: reloading the configuration while the server runs, and the settings that only
  a restart picks up. Layering the file and the environment into a \<open>Config\<close> is figment's work: a
  \<open>config_disk\<close> says which files exist and what figment extracts from them at the time of a reload.
  The validation that follows is the one of \<open>Config\<close>. The file system events are the steps of
  \<open>watch_reach\<close>.
\<close>

section \<open>Loading\<close>

datatype load_error = ConfigNotFound str | FigmentError string | ConfigInvalid config_error

record config_disk =
  cd_exists :: "str \<Rightarrow> bool"
  cd_figment :: "str \<Rightarrow> string + config"

definition DEFAULT_CONFIG_PATH :: str where
  "DEFAULT_CONFIG_PATH = ''./sepp.toml''"

definition Config_extract :: "(64 word \<Rightarrow> bool) \<Rightarrow> string + config \<Rightarrow> load_error + config" where
  "Config_extract ratio_ok figment =
     (case figment of
        Inl e \<Rightarrow> Inl (FigmentError e)
      | Inr cfg \<Rightarrow> (case config_validate ratio_ok cfg of Inl e \<Rightarrow> Inl (ConfigInvalid e) | Inr _ \<Rightarrow> Inr cfg))"

definition Config_load :: "(64 word \<Rightarrow> bool) \<Rightarrow> config_disk \<Rightarrow> str option \<Rightarrow> load_error + config" where
  "Config_load ratio_ok disk explicit_path =
     (let path = unwrap_or explicit_path DEFAULT_CONFIG_PATH
      in if explicit_path \<noteq> None \<and> \<not> cd_exists disk path then Inl (ConfigNotFound path)
         else Config_extract ratio_ok (cd_figment disk path))"

section \<open>Comparing configurations\<close>

text \<open>
  The derived \<open>PartialEq\<close> compares field by field; the one floating-point field, kept as its bits,
  compares as \<open>f64\<close> does: a NaN differs from everything and the two zeros are equal.
\<close>

definition f64_is_nan :: "64 word \<Rightarrow> bool" where
  "f64_is_nan x \<longleftrightarrow> x AND 0x7FFFFFFFFFFFFFFF > 0x7FF0000000000000"

definition f64_eq :: "64 word \<Rightarrow> 64 word \<Rightarrow> bool" where
  "f64_eq x y \<longleftrightarrow> \<not> f64_is_nan x \<and> \<not> f64_is_nan y
     \<and> (x = y \<or> x AND 0x7FFFFFFFFFFFFFFF = 0 \<and> y AND 0x7FFFFFFFFFFFFFFF = 0)"

definition tracing_eq :: "tracing_config \<Rightarrow> tracing_config \<Rightarrow> bool" where
  "tracing_eq a b \<longleftrightarrow> tr_enabled a = tr_enabled b \<and> tr_otlp_endpoint a = tr_otlp_endpoint b
     \<and> tr_service_name a = tr_service_name b \<and> f64_eq (tr_sample_ratio a) (tr_sample_ratio b)"

definition config_eq :: "config \<Rightarrow> config \<Rightarrow> bool" where
  "config_eq a b \<longleftrightarrow> cf_server a = cf_server b \<and> cf_auth a = cf_auth b \<and> cf_limits a = cf_limits b
     \<and> cf_storage a = cf_storage b \<and> cf_logging a = cf_logging b \<and> tracing_eq (cf_tracing a) (cf_tracing b)
     \<and> cf_metrics a = cf_metrics b \<and> cf_admin a = cf_admin b \<and> cf_queues a = cf_queues b"

section \<open>Settings that need a restart\<close>

definition dedup_overrides :: "config \<Rightarrow> (str \<times> i64) list" where
  "dedup_overrides cfg =
     sort (List.map_filter (\<lambda>q. map_option (\<lambda>w. (qc_name q, w)) (qc_dedup_window_ms q)) (cf_queues cfg))"

definition push_if :: "bool \<Rightarrow> string \<Rightarrow> string list \<Rightarrow> string list" where
  "push_if c name changed = (if c then changed @ [name] else changed)"

definition restart_only_changes :: "config \<Rightarrow> config \<Rightarrow> string list" where
  "restart_only_changes old new =
     (let a = cf_server old; b = cf_server new;
          changed = [];
          changed = push_if (sv_listen_addr a \<noteq> sv_listen_addr b) ''server.listen_addr'' changed;
          changed = push_if (sv_db_path a \<noteq> sv_db_path b) ''server.db_path'' changed;
          changed = push_if (sv_tls_cert_path a \<noteq> sv_tls_cert_path b) ''server.tls_cert_path'' changed;
          changed = push_if (sv_tls_key_path a \<noteq> sv_tls_key_path b) ''server.tls_key_path'' changed;
          changed = push_if (lc_max_message_bytes (cf_limits old) \<noteq> lc_max_message_bytes (cf_limits new))
            ''limits.max_message_bytes'' changed;
          a = cf_storage old; b = cf_storage new;
          changed = push_if (sc_persist_mode a \<noteq> sc_persist_mode b) ''storage.persist_mode'' changed;
          changed = push_if (sc_sweep_interval_ms a \<noteq> sc_sweep_interval_ms b) ''storage.sweep_interval_ms'' changed;
          changed = push_if (sc_sweep_limit a \<noteq> sc_sweep_limit b) ''storage.sweep_limit'' changed;
          changed = push_if (sc_dead_letter_retention_ms a \<noteq> sc_dead_letter_retention_ms b)
            ''storage.dead_letter_retention_ms'' changed;
          changed = push_if (sc_dedup_window_ms a \<noteq> sc_dedup_window_ms b) ''storage.dedup_window_ms'' changed;
          changed = push_if (dedup_overrides old \<noteq> dedup_overrides new) ''queues[].dedup_window_ms'' changed;
          changed = push_if (sc_command_queue_capacity a \<noteq> sc_command_queue_capacity b)
            ''storage.command_queue_capacity'' changed;
          changed = push_if (sc_cache_size_bytes a \<noteq> sc_cache_size_bytes b) ''storage.cache_size_bytes'' changed;
          changed = push_if (sc_max_journaling_size_bytes a \<noteq> sc_max_journaling_size_bytes b)
            ''storage.max_journaling_size_bytes'' changed;
          changed = push_if (sc_max_cached_files a \<noteq> sc_max_cached_files b) ''storage.max_cached_files'' changed;
          changed = push_if (sc_worker_threads a \<noteq> sc_worker_threads b) ''storage.worker_threads'' changed;
          changed = push_if (cf_logging old \<noteq> cf_logging new) ''logging'' changed;
          changed = push_if (\<not> tracing_eq (cf_tracing old) (cf_tracing new)) ''tracing'' changed;
          changed = push_if (cf_metrics old \<noteq> cf_metrics new) ''metrics'' changed;
          a = cf_admin old; b = cf_admin new;
          changed = push_if (ad_enabled a \<noteq> ad_enabled b) ''admin.enabled'' changed;
          changed = push_if (ad_listen_addr a \<noteq> ad_listen_addr b) ''admin.listen_addr'' changed;
          changed = push_if (ad_tls_cert_path a \<noteq> ad_tls_cert_path b) ''admin.tls_cert_path'' changed
      in push_if (ad_tls_key_path a \<noteq> ad_tls_key_path b) ''admin.tls_key_path'' changed)"

text \<open>The list that \<open>src/admin/routes.rs\<close> shows to operators.\<close>

definition RESTART_ONLY :: "string list" where
  "RESTART_ONLY = [
     ''server.listen_addr'', ''server.db_path'', ''server.tls_cert_path'', ''server.tls_key_path'',
     ''limits.max_message_bytes'', ''storage.persist_mode'', ''storage.sweep_interval_ms'', ''storage.sweep_limit'',
     ''storage.dead_letter_retention_ms'', ''storage.dedup_window_ms'', ''queues[].dedup_window_ms'',
     ''storage.command_queue_capacity'', ''storage.cache_size_bytes'', ''storage.max_journaling_size_bytes'',
     ''storage.max_cached_files'', ''storage.worker_threads'', ''logging'', ''tracing'', ''metrics'',
     ''admin.enabled'', ''admin.listen_addr'', ''admin.tls_cert_path'', ''admin.tls_key_path'']"

section \<open>Reloading\<close>

record reload_state =
  rs_config :: config
  rs_registry :: queue_registry
  rs_interceptor :: api_key_policy
  rs_reload_seq :: u64

text \<open>What \<open>main\<close> starts the watcher with.\<close>

definition reload_boot :: "config \<Rightarrow> reload_state" where
  "reload_boot cfg = \<lparr>rs_config = cfg, rs_registry = from_config cfg,
     rs_interceptor = to_policy (au_api_keys (cf_auth cfg)), rs_reload_seq = 0\<rparr>"

text \<open>
  \<open>path\<close> is the watched path as UTF-8, if it is. The three stores are one step here; a request served
  between them may see the new registry with the old keys, as a comment in the source says.
\<close>

definition apply_reload :: "(64 word \<Rightarrow> bool) \<Rightarrow> config_disk \<Rightarrow> str option \<Rightarrow> reload_state \<Rightarrow> reload_state" where
  "apply_reload ratio_ok disk path s =
     (case path of
        None \<Rightarrow> s
      | Some path_str \<Rightarrow>
          (case Config_load ratio_ok disk (Some path_str) of
             Inl _ \<Rightarrow> s
           | Inr new \<Rightarrow>
               if config_eq (rs_config s) new then s
               else s\<lparr>rs_registry := publish (rs_registry s) (from_config new),
                      rs_interceptor := set_keys (au_api_keys (cf_auth new)) (rs_interceptor s),
                      rs_config := new\<rparr>))"

text \<open>
  An event of the file watcher carries the file names of its paths. A matching one starts a loop that
  reloads and bumps the sequence number, once more for as long as further events have arrived; the
  list holds the disk as each pass finds it.
\<close>

datatype watch_event = WatchError | FileEvent "str option list"

primrec reload_passes ::
    "(64 word \<Rightarrow> bool) \<Rightarrow> str option \<Rightarrow> config_disk list \<Rightarrow> reload_state \<Rightarrow> reload_state" where
  "reload_passes ratio_ok path [] s = s"
| "reload_passes ratio_ok path (disk # disks) s =
     (let s = apply_reload ratio_ok disk path s
      in reload_passes ratio_ok path disks (s\<lparr>rs_reload_seq := rs_reload_seq s + 1\<rparr>))"

definition watch_step ::
    "(64 word \<Rightarrow> bool) \<Rightarrow> str option \<Rightarrow> str \<Rightarrow> watch_event \<Rightarrow> config_disk \<Rightarrow> config_disk list \<Rightarrow> reload_state \<Rightarrow> reload_state" where
  "watch_step ratio_ok path file_name ev disk disks s =
     (case ev of
        WatchError \<Rightarrow> s
      | FileEvent names \<Rightarrow>
          if \<not> list_ex (\<lambda>n. n = Some file_name) names then s
          else reload_passes ratio_ok path (disk # disks) s)"

inductive watch_reach :: "(64 word \<Rightarrow> bool) \<Rightarrow> config \<Rightarrow> reload_state \<Rightarrow> bool" for ratio_ok boot where
  boot: "watch_reach ratio_ok boot (reload_boot boot)"
| event: "watch_reach ratio_ok boot s \<Longrightarrow> watch_reach ratio_ok boot (watch_step ratio_ok path file_name ev disk disks s)"

section \<open>What the server takes from the configuration at boot\<close>

definition storage_params_of :: "config \<Rightarrow> storage_params" where
  "storage_params_of cfg = \<lparr>
     sp_persist_mode = sc_persist_mode (cf_storage cfg),
     sp_sweep_limit = sc_sweep_limit (cf_storage cfg),
     sp_dead_letter_retention_ms = sc_dead_letter_retention_ms (cf_storage cfg),
     sp_admin_enabled = ad_enabled (cf_admin cfg),
     sp_metrics_enabled = (mc_enabled (cf_metrics cfg) \<or> mc_prometheus_enabled (cf_metrics cfg))\<rparr>"

text \<open>
  The handle and the service of a server that booted with \<open>boot\<close> and has reloaded since. The shared
  registry and configuration are the current ones; the rest was copied at boot.
\<close>

definition open_handle :: "config \<Rightarrow> queue_registry \<Rightarrow> handle" where
  "open_handle boot live = \<lparr>
     h_registry = live,
     h_boot_registry = from_config boot,
     h_drain_scan_cap = sc_sweep_limit (cf_storage boot),
     h_dead_letter_enabled = (sc_dead_letter_retention_ms (cf_storage boot) > 0)\<rparr>"

definition running_server :: "config \<Rightarrow> reload_state \<Rightarrow> queue_server" where
  "running_server boot s = \<lparr>
     qs_config = rs_config s,
     qs_registry = rs_registry s,
     qs_handle = open_handle boot (rs_registry s),
     qs_dead_letter_retention_enabled = (sc_dead_letter_retention_ms (cf_storage boot) > 0)\<rparr>"

section \<open>Lemmas\<close>

text \<open>A change of the registry's generation is not visible through its queries.\<close>

lemma generation_irrelevant [simp]:
  "effective (r\<lparr>qr_generation := g\<rparr>) q = effective r q"
  "retry_policy_of (r\<lparr>qr_generation := g\<rparr>) q = retry_policy_of r q"
  "dedup_window_ms (r\<lparr>qr_generation := g\<rparr>) q = dedup_window_ms r q"
  "is_declared (r\<lparr>qr_generation := g\<rparr>) q = is_declared r q"
  by (simp_all add: effective_def retry_policy_of_def dedup_window_ms_def is_declared_def split: option.split)

lemma push_if_Nil [simp]: "push_if c n xs = [] \<longleftrightarrow> \<not> c \<and> xs = []"
  by (simp add: push_if_def)

lemma push_if_subseq: "subseq xs ys \<Longrightarrow> subseq (push_if c n xs) (ys @ [n])"
  by (auto simp: push_if_def list_emb_append_mono intro: subseq_order.trans)

text \<open>Whatever is reported stands in the list the operators are shown, in the same order.\<close>

lemma restart_only_listed: "subseq (restart_only_changes old new) RESTART_ONLY"
proof -
  have "\<exists>zs. subseq (restart_only_changes old new) zs \<and> zs = RESTART_ONLY"
    unfolding restart_only_changes_def Let_def
    by (rule exI, rule conjI, (rule push_if_subseq)+, rule list_emb_Nil, simp add: RESTART_ONLY_def)
  then show ?thesis by auto
qed

lemmas restart_none = restart_only_changes_def [unfolded Let_def]

lemma dedup_override:
  assumes "distinct (map qc_name (cf_queues cfg))"
  shows "Option.bind (fmlookup (qr_declared (from_config cfg)) q) qc_dedup_window_ms = Some w
    \<longleftrightarrow> (q, w) \<in> set (dedup_overrides cfg)"
proof -
  let ?kvs = "map (\<lambda>c. (qc_name c, c)) (cf_queues cfg)"
  have d: "distinct (map fst (rev ?kvs))" using assms by (simp add: comp_def rev_map [symmetric])
  have "fmlookup (qr_declared (from_config cfg)) q = Some c \<longleftrightarrow> c \<in> set (cf_queues cfg) \<and> qc_name c = q" for c
    using d by (auto simp: from_config_def Let_def collect_map_lookup map_of_eq_Some_iff)
  then show ?thesis
    by (auto simp: dedup_overrides_def bind_eq_Some_conv map_filter_mem)
qed

lemma same_dedup_windows:
  assumes "distinct (map qc_name (cf_queues a))" and "distinct (map qc_name (cf_queues b))"
    and "dedup_overrides a = dedup_overrides b" and "sc_dedup_window_ms (cf_storage a) = sc_dedup_window_ms (cf_storage b)"
  shows "dedup_window_ms (from_config a) q = dedup_window_ms (from_config b) q"
proof -
  have "Option.bind (fmlookup (qr_declared (from_config a)) q) qc_dedup_window_ms
      = Option.bind (fmlookup (qr_declared (from_config b)) q) qc_dedup_window_ms"
    using dedup_override [OF assms(1)] dedup_override [OF assms(2)] assms(3) by (metis option.exhaust)
  then show ?thesis using assms(4) by (simp add: dedup_window_ms_def from_config_def Let_def from_globals_def)
qed

text \<open>What the three shared values have in common at any time.\<close>

definition one_configuration :: "reload_state \<Rightarrow> bool" where
  "one_configuration s \<longleftrightarrow>
     rs_registry s = (from_config (rs_config s))\<lparr>qr_generation := qr_generation (rs_registry s)\<rparr>
     \<and> rs_interceptor s = to_policy (au_api_keys (cf_auth (rs_config s)))
     \<and> qr_generation (rs_registry s) \<le> rs_reload_seq s"

lemma apply_reload_cases:
  obtains "apply_reload ratio_ok disk path s = s"
  | new p where "path = Some p" "Config_load ratio_ok disk (Some p) = Inr new" "\<not> config_eq (rs_config s) new"
      "apply_reload ratio_ok disk path s = s\<lparr>rs_registry := publish (rs_registry s) (from_config new),
         rs_interceptor := to_policy (au_api_keys (cf_auth new)), rs_config := new\<rparr>"
proof (cases path)
  case None
  with that(1) show thesis by (simp add: apply_reload_def)
next
  case (Some p)
  with that show thesis
    by (cases "Config_load ratio_ok disk (Some p)"; cases "config_eq (rs_config s) (projr (Config_load ratio_ok disk (Some p)))")
      (simp_all add: apply_reload_def set_keys_def)
qed

lemma Config_load_valid: "Config_load ratio_ok disk path = Inr cfg \<Longrightarrow> config_validate ratio_ok cfg = Inr ()"
  by (auto simp: Config_load_def Config_extract_def Let_def split: if_splits sum.splits)

lemma reload_passes_keep:
  assumes "one_configuration s" and "config_validate ratio_ok (rs_config s) = Inr ()"
  shows "one_configuration (reload_passes ratio_ok path disks s)
    \<and> config_validate ratio_ok (rs_config (reload_passes ratio_ok path disks s)) = Inr ()
    \<and> rs_reload_seq (reload_passes ratio_ok path disks s) = rs_reload_seq s + length disks"
  using assms
proof (induction disks arbitrary: s)
  case (Cons disk disks)
  let ?t = "apply_reload ratio_ok disk path s"
  define u where "u = ?t\<lparr>rs_reload_seq := rs_reload_seq ?t + 1\<rparr>"
  have u: "one_configuration u \<and> config_validate ratio_ok (rs_config u) = Inr () \<and> rs_reload_seq u = rs_reload_seq s + 1"
  proof (cases rule: apply_reload_cases [of ratio_ok disk path s])
    case 1
    with Cons.prems show ?thesis by (simp add: u_def one_configuration_def)
  next
    case (2 new p)
    with Cons.prems Config_load_valid [OF 2(2)] show ?thesis by (simp add: u_def one_configuration_def publish_def)
  qed
  have "reload_passes ratio_ok path (disk # disks) s = reload_passes ratio_ok path disks u"
    by (simp add: u_def Let_def)
  with u Cons.IH [of u] show ?case by simp
qed simp

lemma watch_reach_keeps:
  assumes "watch_reach ratio_ok boot s" and "config_validate ratio_ok boot = Inr ()"
  shows "one_configuration s \<and> config_validate ratio_ok (rs_config s) = Inr ()"
  using assms(1)
proof (induction rule: watch_reach.induct)
  case boot
  with assms(2) show ?case by (simp add: one_configuration_def reload_boot_def from_config_def Let_def)
next
  case (event s path file_name ev disk disks)
  then show ?case using reload_passes_keep [of s ratio_ok path "disk # disks"]
    by (auto simp: watch_step_def split: watch_event.split)
qed

end
