(* ===== verification/Admin_Config.thy ===== *)
theory Admin_Config
  imports Config_Edit Config_Watch
begin

text \<open>
  The configuration handlers of \<open>src/admin/routes.rs\<close>: reading the configuration without its secrets,
  changing settings, declaring queues, and adding, revoking and disabling the worker API keys, with
  the file they edit (\<open>read_file\<close>, \<open>write_atomic\<close> of \<open>src/admin/config_edit.rs\<close>).

  A \<open>config_env\<close> bundles what is not in the repository: parsing and printing TOML documents, figment's
  reading of a text together with the environment, and the hash. Failures of the file system are the
  record \<open>file_faults\<close>. Handlers that write run under one lock, so the file changes under them only by
  their own writes. The names of environment variables are ASCII here. A message that quotes values
  is given by its fixed text and the values.
\<close>

section \<open>Errors\<close>

datatype error_text = Text string | Quoting string "str list" | EditText edit_error | LoadText load_error

record route_error =
  re_status :: nat
  re_code :: string
  re_error :: error_text
  re_rejection :: "(string option \<times> error_text) option"

definition RouteError_new :: "nat \<Rightarrow> string \<Rightarrow> error_text \<Rightarrow> route_error" where
  "RouteError_new status code error = \<lparr>re_status = status, re_code = code, re_error = error, re_rejection = None\<rparr>"

definition bad_request :: "string \<Rightarrow> error_text \<Rightarrow> route_error" where
  "bad_request code error = RouteError_new 400 code error"

definition not_found :: "error_text \<Rightarrow> route_error" where
  "not_found error = RouteError_new 404 ''not_found'' error"

definition internal :: "error_text \<Rightarrow> route_error" where
  "internal error = RouteError_new 500 ''internal'' error"

text \<open>The \<open>?\<close> operator.\<close>

definition try_then :: "'e + 'a \<Rightarrow> ('a \<Rightarrow> 'e + 'b) \<Rightarrow> 'e + 'b" where
  "try_then r f = (case r of Inl e \<Rightarrow> Inl e | Inr x \<Rightarrow> f x)"

definition map_err :: "('e \<Rightarrow> 'f) \<Rightarrow> 'e + 'a \<Rightarrow> 'f + 'a" where
  "map_err f r = (case r of Inl e \<Rightarrow> Inl (f e) | Inr x \<Rightarrow> Inr x)"

section \<open>The file\<close>

record config_file =
  fl_text :: "str option"
  fl_tmp :: "str option"

record file_faults =
  ff_read :: "string option"
  ff_write :: "(string \<times> str option) option"
  ff_remove :: "string option"
  ff_rename :: "string option"

definition no_faults :: file_faults where
  "no_faults = \<lparr>ff_read = None, ff_write = None, ff_remove = None, ff_rename = None\<rparr>"

definition read_file :: "file_faults \<Rightarrow> config_file \<Rightarrow> string + str" where
  "read_file faults file =
     (case ff_read faults of Some e \<Rightarrow> Inl e | None \<Rightarrow> Inr (unwrap_or (fl_text file) []))"

text \<open>A failed write of the temporary file may leave any text there.\<close>

definition write_atomic :: "file_faults \<Rightarrow> str \<Rightarrow> config_file \<Rightarrow> (string + unit) \<times> config_file" where
  "write_atomic faults contents file =
     (case ff_write faults of
        Some (e, partial) \<Rightarrow> (Inl e, file\<lparr>fl_tmp := partial\<rparr>)
      | None \<Rightarrow>
          (let file = file\<lparr>fl_tmp := Some contents\<rparr>;
               rename = (\<lambda>file. case ff_rename faults of
                   Some e \<Rightarrow> (Inl e, file)
                 | None \<Rightarrow> (Inr (), file\<lparr>fl_text := fl_tmp file, fl_tmp := None\<rparr>))
           in if fl_text file \<noteq> None
              then (case ff_remove faults of
                      Some e \<Rightarrow> (Inl e, file)
                    | None \<Rightarrow> rename (file\<lparr>fl_text := None\<rparr>))
              else rename file))"

definition hex_digit :: "nat \<Rightarrow> char" where
  "hex_digit n = char_of (if n < 10 then 48 + n else 87 + n)"

definition hex_byte :: "char \<Rightarrow> str" where
  "hex_byte b = [hex_digit (of_char b div 16), hex_digit (of_char b mod 16)]"

definition sha256_hex :: "(bytes \<Rightarrow> bytes) \<Rightarrow> bytes \<Rightarrow> str" where
  "sha256_hex sha256 bytes = concat (map hex_byte (sha256 bytes))"

section \<open>Pinned settings\<close>

definition to_upper :: "char \<Rightarrow> char" where
  "to_upper c = (if 97 \<le> (of_char c :: nat) \<and> (of_char c :: nat) \<le> 122 then char_of (of_char c - 32 :: nat) else c)"

definition to_lower :: "char \<Rightarrow> char" where
  "to_lower c = (if 65 \<le> (of_char c :: nat) \<and> (of_char c :: nat) \<le> 90 then char_of (of_char c + 32 :: nat) else c)"

fun replace_dunder :: "str \<Rightarrow> str" where
  "replace_dunder (a # b # cs) =
     (if a = CHR ''_'' \<and> b = CHR ''_'' then CHR ''.'' # replace_dunder cs else a # replace_dunder (b # cs))"
| "replace_dunder cs = cs"

definition env_pinned :: "str list \<Rightarrow> str list" where
  "env_pinned vars =
     sort (List.map_filter (\<lambda>k. map_option (\<lambda>rest. replace_dunder (map to_lower rest))
         (strip_prefix ''SEPP_'' (map to_upper k)))
       (filter (\<lambda>k. map to_lower k \<noteq> ''sepp_config'') vars))"

section \<open>Reading the configuration\<close>

text \<open>\<open>Value::get\<close> on an object, and replacing the value found by \<open>pointer_mut\<close> under two keys.\<close>

definition json_get :: "json \<Rightarrow> str \<Rightarrow> json option" where
  "json_get v key = (case v of JObject kvs \<Rightarrow> map_of kvs key | _ \<Rightarrow> None)"

definition map_field :: "str \<Rightarrow> (json \<Rightarrow> json) \<Rightarrow> json \<Rightarrow> json" where
  "map_field key f v = (case v of JObject kvs \<Rightarrow> JObject (map (\<lambda>(k, x). (k, if k = key then f x else x)) kvs) | _ \<Rightarrow> v)"

definition redact_list :: "str list \<Rightarrow> json \<Rightarrow> json" where
  "redact_list names v =
     (case v of
        JArray keys \<Rightarrow> JArray (map (\<lambda>k. JObject (map (\<lambda>f. (f, unwrap_or (json_get k f) JNull)) names)) keys)
      | _ \<Rightarrow> JNull)"

definition redact_config :: "json \<Rightarrow> json" where
  "redact_config v =
     (let v = map_field ''auth'' (map_field ''api_keys'' (redact_list [''name''])) v
      in map_field ''admin'' (map_field ''keys'' (redact_list [''name'', ''role''])) v)"

record 't config_env =
  ce_parse :: "str \<Rightarrow> string + 't"
  ce_print :: "'t \<Rightarrow> str"
  ce_figment :: "str \<Rightarrow> string + config"
  ce_ratio_ok :: "64 word \<Rightarrow> bool"
  ce_sha256 :: "bytes \<Rightarrow> bytes"
  ce_vars :: "str list"

definition from_toml_str :: "'t config_env \<Rightarrow> str \<Rightarrow> load_error + config" where
  "from_toml_str env text = Config_extract (ce_ratio_ok env) (ce_figment env text)"

record config_view =
  cv_effective :: json
  cv_etag :: str
  cv_env_pinned :: "str list"
  cv_restart_only :: "string list"
  cv_pending_restart :: "string list"

text \<open>\<open>serialized\<close> is what serde makes of the running configuration.\<close>

definition get_config ::
    "'t config_env \<Rightarrow> (string + json) \<Rightarrow> config \<Rightarrow> config \<Rightarrow> file_faults \<Rightarrow> config_file \<Rightarrow> route_error + config_view" where
  "get_config env serialized boot config faults file =
     try_then (map_err (\<lambda>e. internal (Text (''serializing config: '' @ e))) serialized) (\<lambda>effective.
     try_then (map_err (\<lambda>e. internal (Text (''hashing config file: '' @ e))) (read_file faults file)) (\<lambda>text.
     Inr \<lparr>cv_effective = redact_config effective,
          cv_etag = sha256_hex (ce_sha256 env) text,
          cv_env_pinned = env_pinned (ce_vars env),
          cv_restart_only = RESTART_ONLY,
          cv_pending_restart = restart_only_changes boot config\<rparr>))"

section \<open>Changing the configuration\<close>

definition read_config_file :: "file_faults \<Rightarrow> config_file \<Rightarrow> route_error + str" where
  "read_config_file faults file = map_err (\<lambda>e. internal (Text (''reading config file: '' @ e))) (read_file faults file)"

definition check_etag :: "'t config_env \<Rightarrow> str \<Rightarrow> str \<Rightarrow> route_error + unit" where
  "check_etag env current presented =
     check_if (sha256_hex (ce_sha256 env) current \<noteq> presented)
       (RouteError_new 412 ''etag_mismatch'' (Text ''config file changed; reload and retry''))"

definition parse_doc :: "'t config_env \<Rightarrow> str \<Rightarrow> route_error + 't" where
  "parse_doc env current =
     map_err (\<lambda>e. RouteError_new 422 ''invalid'' (Text (''config file is not valid TOML: '' @ e))) (ce_parse env current)"

text \<open>
  While a handler waits for the watcher it sees the running configuration once per change of the
  sequence number, until the sender is gone or the time is over (the end of the list).
\<close>

datatype observation = Running config | SenderGone

fun await_applied :: "config \<Rightarrow> observation list \<Rightarrow> bool" where
  "await_applied candidate [] = False"
| "await_applied candidate (Running c # os) = (if config_eq c candidate then True else await_applied candidate os)"
| "await_applied candidate (SenderGone # os) = False"

record change_reply =
  cr_applied :: bool
  cr_requires_restart :: "string list"
  cr_etag :: str

definition validate_and_write ::
    "'t config_env \<Rightarrow> config \<Rightarrow> observation list \<Rightarrow> file_faults \<Rightarrow> 't \<Rightarrow> config_file \<Rightarrow> (route_error + change_reply) \<times> config_file" where
  "validate_and_write env running observed faults doc file =
     (let candidate_text = ce_print env doc
      in case from_toml_str env candidate_text of
           Inl e \<Rightarrow> (Inl (RouteError_new 422 ''invalid'' (LoadText e)), file)
         | Inr candidate \<Rightarrow>
             (case write_atomic faults candidate_text file of
                (Inl e, file) \<Rightarrow> (Inl (internal (Text (''writing config file: '' @ e))), file)
              | (Inr _, file) \<Rightarrow>
                  (Inr \<lparr>cr_applied = await_applied candidate observed,
                        cr_requires_restart = restart_only_changes running candidate,
                        cr_etag = sha256_hex (ce_sha256 env) candidate_text\<rparr>, file)))"

text \<open>
  The end of every handler that writes: the edited document is validated and written, and the audit
  log gets one entry when that succeeded.
\<close>

type_synonym audit_note = "string \<times> json"
type_synonym change_result = "(route_error + change_reply) \<times> config_file \<times> audit_note list"

definition write_change ::
    "'t config_env \<Rightarrow> config \<Rightarrow> observation list \<Rightarrow> file_faults \<Rightarrow> audit_note \<Rightarrow> route_error + 't \<Rightarrow> config_file \<Rightarrow> change_result" where
  "write_change env running observed faults note edited file =
     (case edited of
        Inl e \<Rightarrow> (Inl e, file, [])
      | Inr doc \<Rightarrow>
          (case validate_and_write env running observed faults doc file of
             (Inl e, file) \<Rightarrow> (Inl e, file, [])
           | (Inr reply, file) \<Rightarrow> (Inr reply, file, [note])))"

fun edit_all :: "('t \<Rightarrow> 'c \<Rightarrow> edit_error + 't) \<Rightarrow> 't \<Rightarrow> 'c list \<Rightarrow> route_error + 't" where
  "edit_all f doc [] = Inr doc"
| "edit_all f doc (c # cs) =
     try_then (map_err (\<lambda>e. bad_request ''invalid_change'' (EditText e)) (f doc c)) (\<lambda>doc. edit_all f doc cs)"

definition strings_json :: "str list \<Rightarrow> json" where
  "strings_json xs = JArray (map JString xs)"

definition put_queue ::
    "('t, 'i, 'v) toml \<Rightarrow> 't config_env \<Rightarrow> config \<Rightarrow> observation list \<Rightarrow> file_faults \<Rightarrow> str \<Rightarrow> str \<Rightarrow> (str \<times> json) list
       \<Rightarrow> config_file \<Rightarrow> change_result" where
  "put_queue T env running observed faults name etag overrides file =
     write_change env running observed faults
       (''queue.put'', JObject [(''queue'', JString name), (''overrides'', strings_json (map fst overrides))])
       (try_then (read_config_file faults file) (\<lambda>current.
        try_then (check_etag env current etag) (\<lambda>_.
        try_then (parse_doc env current) (\<lambda>doc.
        try_then (map_err (\<lambda>e. bad_request ''invalid_change'' (EditText e)) (ensure_queue T doc name)) (\<lambda>doc.
        edit_all (\<lambda>doc (field, val). upsert_queue_field T doc name field val) doc overrides)))))
       file"

definition names_setting :: "str \<Rightarrow> str \<Rightarrow> bool" where
  "names_setting setting path \<longleftrightarrow> path = setting \<or> prefix (setting @ ''.'') path"

definition refuse_paths :: "(str \<Rightarrow> bool) \<Rightarrow> string \<Rightarrow> string \<Rightarrow> (str \<times> json) list \<Rightarrow> route_error + unit" where
  "refuse_paths refused code text changes =
     (case find (\<lambda>(path, _). refused path) changes of
        Some (path, _) \<Rightarrow> Inl (bad_request code (Quoting text [path]))
      | None \<Rightarrow> Inr ())"

definition put_config ::
    "('t, 'i, 'v) toml \<Rightarrow> 't config_env \<Rightarrow> config \<Rightarrow> observation list \<Rightarrow> file_faults \<Rightarrow> str \<Rightarrow> (str \<times> json) list
       \<Rightarrow> config_file \<Rightarrow> change_result" where
  "put_config T env running observed faults etag changes file =
     write_change env running observed faults
       (''config.put'', JObject [(''paths'', strings_json (map fst changes))])
       (try_then (read_config_file faults file) (\<lambda>current.
        try_then (check_etag env current etag) (\<lambda>_.
        try_then (refuse_paths (names_setting ''admin.keys'') ''admin_keys_immutable''
          '' cannot be changed through the admin API; edit sepp.toml on the server'' changes) (\<lambda>_.
        try_then (refuse_paths (names_setting ''auth.api_keys'') ''api_keys_immutable''
          '' can only be changed through the API key endpoints'' changes) (\<lambda>_.
        try_then (refuse_paths (\<lambda>p. p \<in> set (env_pinned (ce_vars env))) ''env_pinned''
          '' is pinned by an environment variable'' changes) (\<lambda>_.
        try_then (parse_doc env current) (\<lambda>doc.
        edit_all (\<lambda>doc (path, val). apply_change T doc path val) doc changes)))))))
       file"

section \<open>Worker API keys\<close>

definition reject_env_pinned_api_keys :: "'t config_env \<Rightarrow> route_error + unit" where
  "reject_env_pinned_api_keys env =
     check_if (''auth.api_keys'' \<in> set (env_pinned (ce_vars env)))
       (bad_request ''env_pinned'' (Text ''auth.api_keys is pinned by an environment variable''))"

definition parse_entries :: "'t config_env \<Rightarrow> str \<Rightarrow> route_error + api_key_entry list" where
  "parse_entries env current =
     try_then (map_err (\<lambda>e. RouteError_new 422 ''invalid'' (LoadText e)) (from_toml_str env current)) (\<lambda>cfg.
     Inr (unwrap_or (au_api_keys (cf_auth cfg)) []))"

text \<open>\<open>chars().any(char::is_control)\<close> on UTF-8: the ASCII controls, and U+0080 to U+009F in two bytes.\<close>

fun has_control :: "str \<Rightarrow> bool" where
  "has_control [] = False"
| "has_control (c # cs) =
     ((of_char c :: nat) < 0x20 \<or> (of_char c :: nat) = 0x7F
      \<or> (of_char c :: nat) = 0xC2 \<and> (case cs of d # _ \<Rightarrow> (of_char d :: nat) < 0xA0 | [] \<Rightarrow> False)
      \<or> has_control cs)"

definition auth_key_checks :: "str \<Rightarrow> str \<Rightarrow> route_error + unit" where
  "auth_key_checks name key =
     and_then (check_if (name = [] \<or> key = [])
        (bad_request ''invalid_argument'' (Text ''name and key must not be empty'')))
    (and_then (check_if (name = ''.'' \<or> name = ''..'' \<or> CHR ''/'' \<in> set name \<or> has_control name)
        (bad_request ''invalid_argument'' (Text ''name must not be \".\" or \"..\" or contain '/' or control characters'')))
       (check_if (\<not> list_all (\<lambda>b. 0x21 \<le> (of_char b :: nat) \<and> (of_char b :: nat) \<le> 0x7e) key)
        (bad_request ''invalid_argument'' (Text ''key must be visible ASCII''))))"

definition add_auth_key ::
    "('t, 'i, 'v) toml \<Rightarrow> 't config_env \<Rightarrow> config \<Rightarrow> observation list \<Rightarrow> file_faults \<Rightarrow> str \<Rightarrow> str \<Rightarrow> str
       \<Rightarrow> config_file \<Rightarrow> change_result" where
  "add_auth_key T env running observed faults etag name key file =
     write_change env running observed faults (''auth_key.add'', JObject [(''name'', JString name)])
       (try_then (auth_key_checks name key) (\<lambda>_.
        try_then (reject_env_pinned_api_keys env) (\<lambda>_.
        try_then (read_config_file faults file) (\<lambda>current.
        try_then (check_etag env current etag) (\<lambda>_.
        try_then (parse_doc env current) (\<lambda>doc.
        try_then (parse_entries env current) (\<lambda>entries.
        if list_ex (\<lambda>e. ak_name e = name) entries
        then Inl (bad_request ''invalid_change'' (Quoting ''an API key with this name already exists'' [name]))
        else if list_ex (\<lambda>e. ak_key e = key) entries
        then Inl (bad_request ''invalid_change'' (Text ''another API key already uses this key''))
        else map_err (\<lambda>e. bad_request ''invalid_change'' (EditText e))
          (set_api_keys T doc (entries @ [\<lparr>ak_name = name, ak_key = key\<rparr>])))))))))
       file"

text \<open>The \<open>If-Match\<close> header as text, if there is one.\<close>

definition require_if_match :: "str option \<Rightarrow> route_error + str" where
  "require_if_match header =
     (case header of
        Some presented \<Rightarrow> Inr presented
      | None \<Rightarrow> Inl (bad_request ''if_match_required'' (Text ''If-Match header with the config etag is required'')))"

definition delete_auth_key ::
    "('t, 'i, 'v) toml \<Rightarrow> 't config_env \<Rightarrow> config \<Rightarrow> observation list \<Rightarrow> file_faults \<Rightarrow> str \<Rightarrow> str option
       \<Rightarrow> config_file \<Rightarrow> change_result" where
  "delete_auth_key T env running observed faults name if_match file =
     write_change env running observed faults (''auth_key.revoke'', JObject [(''name'', JString name)])
       (try_then (require_if_match if_match) (\<lambda>presented.
        try_then (reject_env_pinned_api_keys env) (\<lambda>_.
        try_then (read_config_file faults file) (\<lambda>current.
        try_then (check_etag env current presented) (\<lambda>_.
        try_then (parse_doc env current) (\<lambda>doc.
        try_then (parse_entries env current) (\<lambda>entries.
        let kept = filter (\<lambda>e. ak_name e \<noteq> name) entries
        in if length kept = length entries
           then Inl (not_found (Quoting ''no API key with this name'' [name]))
           else map_err (\<lambda>e. bad_request ''invalid_change'' (EditText e)) (set_api_keys T doc kept))))))))
       file"

definition disable_auth ::
    "('t, 'i, 'v) toml \<Rightarrow> 't config_env \<Rightarrow> config \<Rightarrow> observation list \<Rightarrow> file_faults \<Rightarrow> str option
       \<Rightarrow> config_file \<Rightarrow> change_result" where
  "disable_auth T env running observed faults if_match file =
     write_change env running observed faults (''auth.disable'', JObject [])
       (try_then (require_if_match if_match) (\<lambda>presented.
        try_then (reject_env_pinned_api_keys env) (\<lambda>_.
        try_then (read_config_file faults file) (\<lambda>current.
        try_then (check_etag env current presented) (\<lambda>_.
        try_then (parse_doc env current) (\<lambda>doc.
        let (removed, doc) = remove_api_keys T doc
        in if \<not> removed then Inl (not_found (Text ''gRPC auth is already off'')) else Inr doc))))))
       file"

section \<open>Lemmas\<close>

lemma try_then_Inr [simp]: "try_then r f = Inr y \<longleftrightarrow> (\<exists>x. r = Inr x \<and> f x = Inr y)"
  by (cases r) (auto simp: try_then_def)

lemma map_err_Inr [simp]: "map_err f r = Inr x \<longleftrightarrow> r = Inr x"
  by (cases r) (auto simp: map_err_def)

lemma removed_Inr [simp]:
  "(case p of (removed, doc) \<Rightarrow> if \<not> removed then Inl e else Inr doc) = Inr d \<longleftrightarrow> p = (True, d)"
  by (cases p) auto

lemma check_etag_Inr [simp]:
  "check_etag env current presented = Inr u \<longleftrightarrow> sha256_hex (ce_sha256 env) current = presented"
  by (simp add: check_etag_def)

lemma read_config_file_Inr: "read_config_file faults file = Inr current \<Longrightarrow> current = unwrap_or (fl_text file) []"
  by (auto simp: read_config_file_def read_file_def split: option.splits)

lemma refuse_paths_Inr [simp]: "refuse_paths p code text changes = Inr u \<longleftrightarrow> (\<forall>(path, v) \<in> set changes. \<not> p path)"
  by (auto simp: refuse_paths_def find_None_iff find_Some_iff split: option.splits) (use nth_mem in fastforce)

text \<open>
  A write leaves the new text, or the old one, or, when the last step fails, none: the old file is
  removed before the new one is renamed into its place.
\<close>

lemma write_atomic_cases:
  assumes "write_atomic faults contents file = (r, file')"
  obtains "r = Inr ()" "fl_text file' = Some contents" "fl_tmp file' = None"
  | e where "r = Inl e" "fl_text file' = fl_text file \<or> fl_text file' = None \<and> ff_rename faults \<noteq> None"
  using assms by (auto simp: write_atomic_def Let_def split: option.splits if_splits prod.splits)

lemma await_applied_seen: "await_applied candidate os \<Longrightarrow> \<exists>c. Running c \<in> set os \<and> config_eq c candidate"
  by (induction candidate os rule: await_applied.induct) (auto split: if_splits)

definition change_written ::
    "'t config_env \<Rightarrow> config \<Rightarrow> observation list \<Rightarrow> 't \<Rightarrow> change_reply \<Rightarrow> config_file \<Rightarrow> bool" where
  "change_written env running observed doc reply file' \<longleftrightarrow>
     (\<exists>cfg. fl_text file' = Some (ce_print env doc) \<and> from_toml_str env (ce_print env doc) = Inr cfg
        \<and> cr_etag reply = sha256_hex (ce_sha256 env) (ce_print env doc)
        \<and> cr_requires_restart reply = restart_only_changes running cfg
        \<and> (cr_applied reply \<longrightarrow> (\<exists>c. Running c \<in> set observed \<and> config_eq c cfg)))"

lemma write_change_cases:
  assumes "write_change env running observed faults note edited file = (r, file', notes)"
  obtains e where "edited = Inl e" "r = Inl e" "file' = file" "notes = []"
  | doc e where "edited = Inr doc" "r = Inl e" "notes = []"
      "fl_text file' = fl_text file \<or> fl_text file' = None \<and> ff_rename faults \<noteq> None"
  | doc reply where "edited = Inr doc" "r = Inr reply" "notes = [note]" "change_written env running observed doc reply file'"
proof (cases edited)
  case (Inr doc)
  show thesis
  proof (cases "from_toml_str env (ce_print env doc)")
    case (Inl e)
    with Inr assms that(2) show thesis by (auto simp: write_change_def validate_and_write_def)
  next
    case cfg: (Inr cfg)
    obtain w f where w: "write_atomic faults (ce_print env doc) file = (w, f)" by fastforce
    show thesis
    proof (cases rule: write_atomic_cases [OF w])
      case 1
      let ?reply = "\<lparr>cr_applied = await_applied cfg observed, cr_requires_restart = restart_only_changes running cfg,
        cr_etag = sha256_hex (ce_sha256 env) (ce_print env doc)\<rparr>"
      have "r = Inr ?reply" "notes = [note]" "file' = f"
        using Inr cfg w 1 assms by (auto simp: write_change_def validate_and_write_def)
      moreover have "change_written env running observed doc ?reply f"
        using cfg 1 await_applied_seen [of cfg observed] by (simp add: change_written_def)
      ultimately show thesis using that(3) Inr by simp
    next
      case (2 e)
      with Inr cfg w assms that(2) show thesis by (auto simp: write_change_def validate_and_write_def)
    qed
  qed
qed (use assms that(1) in \<open>simp add: write_change_def\<close>)

lemma from_toml_str_valid: "from_toml_str env text = Inr cfg \<Longrightarrow> config_validate (ce_ratio_ok env) cfg = Inr ()"
  by (auto simp: from_toml_str_def Config_extract_def split: sum.splits)

context toml_laws
begin

text \<open>The changes of a request reach neither of the two key lists.\<close>

lemma edit_all_keeps:
  "edit_all (\<lambda>doc (path, val). apply_change T doc path val) doc changes = Inr doc' \<Longrightarrow> s \<noteq> ''queues'' \<Longrightarrow>
     \<forall>(path, v) \<in> set changes. path \<noteq> s @ ''.'' @ k \<Longrightarrow> key_item T doc' s k = key_item T doc s k"
proof (induction changes arbitrary: doc)
  case (Cons c changes)
  obtain path val where c: "c = (path, val)" by (cases c)
  with Cons.prems obtain doc1 where "apply_change T doc path val = Inr doc1"
    and rest: "edit_all (\<lambda>doc (path, val). apply_change T doc path val) doc1 changes = Inr doc'"
    by auto
  then have "key_item T doc1 s k = key_item T doc s k" using Cons.prems c by (intro apply_change_keeps) auto
  with Cons.IH [OF rest] Cons.prems show ?case by auto
qed simp

lemma edit_queue_keeps:
  "edit_all (\<lambda>doc (field, val). upsert_queue_field T doc name field val) doc overrides = Inr doc' \<Longrightarrow> s \<noteq> ''queues'' \<Longrightarrow>
     table_get T doc' s = table_get T doc s"
proof (induction overrides arbitrary: doc)
  case (Cons c overrides)
  then show ?case by (cases c) (auto dest: queue_edits_keep(1))
qed simp

lemma remove_api_keys_item:
  assumes "remove_api_keys T doc = (True, doc')"
  shows "key_item T doc' ''auth'' ''api_keys'' = None"
    "(s, k) \<noteq> (''auth'', ''api_keys'') \<Longrightarrow> key_item T doc' s k = key_item T doc s k"
proof -
  obtain item auth where a: "table_get T doc ''auth'' = Some item" "as_table T item = Some auth"
    and d: "doc' = (let auth = table_remove T auth ''api_keys''; doc = table_put T doc ''auth'' (put_table T item auth)
        in if table_is_empty T auth then table_remove T doc ''auth'' else doc)"
    using assms by (auto simp: remove_api_keys_def Let_def split: option.splits)
  show "key_item T doc' ''auth'' ''api_keys'' = None"
    using a d by (simp add: Let_def key_item_def get_put get_remove as_put_table)
  show "key_item T doc' s k = key_item T doc s k" if "(s, k) \<noteq> (''auth'', ''api_keys'')"
    using a d that by (cases "s = ''auth''") (auto simp: Let_def key_item_def get_put get_remove as_put_table is_empty)
qed

end

lemma written_text:
  assumes "write_change env running observed faults entry edited file = (Inr reply, file', notes)"
  obtains doc where "edited = Inr doc" "fl_text file' = Some (ce_print env doc)"
  using assms by (cases rule: write_change_cases) (auto simp: change_written_def)

end
