(* ===== verification/Toml_Ref.thy ===== *)
theory Toml_Ref
  imports Config_Edit
begin

text \<open>
  TOML documents without their comments and white space, with tables as finite maps: they meet the
  laws that the editing code assumes of toml_edit.
\<close>

datatype ref_value =
    VStr str
  | VBool bool
  | VInt i64
  | VFloat "64 word"
  | VArray "ref_value list"
  | VInline "(str \<times> ref_value) list"

datatype ref_item =
    RValue ref_value
  | RTable "(str, ref_item) fmap"
  | RTables "(str, ref_item) fmap list"

type_synonym ref_table = "(str, ref_item) fmap"

definition ref_as_table :: "ref_item \<Rightarrow> ref_table option" where
  "ref_as_table i = (case i of RTable t \<Rightarrow> Some t | _ \<Rightarrow> None)"

definition ref_as_tables :: "ref_item \<Rightarrow> ref_table list option" where
  "ref_as_tables i = (case i of RTables ts \<Rightarrow> Some ts | _ \<Rightarrow> None)"

definition ref_as_str :: "ref_item \<Rightarrow> str option" where
  "ref_as_str i = (case i of RValue (VStr s) \<Rightarrow> Some s | _ \<Rightarrow> None)"

definition toml_ref :: "(ref_table, ref_item, ref_value) toml" where
  "toml_ref = \<lparr>
     table_new = fmempty,
     table_get = fmlookup,
     table_insert = (\<lambda>t k i. fmupd k i t),
     table_put = (\<lambda>t k i. fmupd k i t),
     table_remove = (\<lambda>t k. fmdrop k t),
     table_is_empty = (\<lambda>t. t = fmempty),
     item_value = RValue,
     item_table = RTable,
     item_tables = RTables,
     as_table = ref_as_table,
     put_table = (\<lambda>_. RTable),
     as_tables = ref_as_tables,
     put_tables = (\<lambda>_. RTables),
     as_str = ref_as_str,
     value_str = VStr,
     value_bool = VBool,
     value_i64 = VInt,
     value_f64 = VFloat,
     value_array = (\<lambda>vs _ _. VArray vs),
     value_inline = VInline,
     value_prefix = (\<lambda>v _. v)\<rparr>"

lemma toml_ref_laws: "toml_laws toml_ref"
proof
  fix t :: ref_table
  show "table_is_empty toml_ref t \<longleftrightarrow> (\<forall>k. table_get toml_ref t k = None)"
    by (auto simp: toml_ref_def intro: fmap_ext)
qed (simp_all add: toml_ref_def ref_as_table_def ref_as_tables_def ref_as_str_def)

interpretation rtoml: toml_laws toml_ref
  by (rule toml_ref_laws)

end
