(* ===== verification/Config_Properties.thy ===== *)
theory Config_Properties
  imports Admin_Config Toml_Ref Auth_Properties Prost_Ref
begin

text \<open>
  The properties of reloading the configuration (\<open>src/config_watch.rs\<close>) and of editing it through the
  admin interface.
\<close>

section \<open>Reloading\<close>


text \<open>A file that declares a queue and an API key, found by one reload pass.\<close>

definition demo_reloaded :: config where
  "demo_reloaded = config_default\<lparr>cf_queues := [queue_default\<lparr>qc_name := ''mail''\<rparr>],
     cf_auth := \<lparr>au_api_keys = Some [\<lparr>ak_name = ''pool'', ak_key = ''s1''\<rparr>]\<rparr>\<rparr>"

definition demo_disk :: config_disk where
  "demo_disk = \<lparr>cd_exists = (\<lambda>_. True), cd_figment = (\<lambda>_. Inr demo_reloaded)\<rparr>"

definition demo_reload_state :: reload_state where
  "demo_reload_state = watch_step (\<lambda>_. True) (Some ''sepp.toml'') ''sepp.toml'' (FileEvent [Some ''sepp.toml'']) demo_disk []
     (reload_boot config_default)"

lemma demo_reloaded_valid: "config_validate (\<lambda>_. True) demo_reloaded = Inr ()"
  by (simp add: demo_reloaded_def config_validate_def validate_sections_def validate_admin_def validate_queues_def config_default_def
      server_default_def limits_default_def storage_default_def tracing_default_def metrics_default_def admin_default_def
      logging_default_def server_garde_ok_def limits_garde_ok_def storage_garde_ok_def nonempty_opt_def tls_pair_check_def
      limits_ok_def effective_garde_ok_def from_globals_def is_loopback_def Let_def word_le_nat_alt merged_with_def queue_default_def
      queue_name_error_def)

lemma demo_reload_reached: "watch_reach (\<lambda>_. True) config_default demo_reload_state"
  unfolding demo_reload_state_def by (rule watch_reach.event [OF watch_reach.boot])

lemma demo_reload_config: "rs_config demo_reload_state = demo_reloaded"
proof -
  have "Config_load (\<lambda>_. True) demo_disk (Some ''sepp.toml'') = Inr demo_reloaded"
    by (simp add: Config_load_def Config_extract_def demo_disk_def demo_reloaded_valid)
  moreover have "\<not> config_eq config_default demo_reloaded"
    by (simp add: config_eq_def demo_reloaded_def config_default_def)
  ultimately show ?thesis
    by (simp add: demo_reload_state_def watch_step_def reload_boot_def apply_reload_def Let_def)
qed


section \<open>Pending restarts\<close>

lemma no_restart_fields:
  assumes "restart_only_changes old new = []"
  shows "cf_storage old = cf_storage new" "dedup_overrides old = dedup_overrides new" "cf_metrics old = cf_metrics new"
    "ad_enabled (cf_admin old) = ad_enabled (cf_admin new)"
  using assms unfolding restart_none by simp_all

lemma valid_config_names:
  assumes "config_validate ratio_ok cfg = Inr ()"
  shows "distinct (map qc_name (cf_queues cfg))"
proof -
  have "validate_queues_from (cf_limits cfg) (from_globals (cf_limits cfg) (cf_storage cfg)) [] (cf_queues cfg) = Inr ()"
    using assms by (simp add: config_validate_def validate_queues_def Let_def)
  then show ?thesis using validate_queues_from_Inr by blast
qed

lemma prepare_jobs_cong:
  assumes "\<And>q. effective (h_registry h) q = effective (h_registry h') q"
    and "\<And>q. dedup_window_ms (h_boot_registry h) q = dedup_window_ms (h_boot_registry h') q"
  shows "prepare_jobs h ids jobs = prepare_jobs h' ids jobs"
  using assms by (simp add: prepare_jobs_def PreparedJob_new_def JobLimits_resolve_def)

lemma serve_enqueue_cong:
  assumes "qs_config a = qs_config b"
    and "\<And>q. effective (qs_registry a) q = effective (qs_registry b) q" "\<And>q. is_declared (qs_registry a) q = is_declared (qs_registry b) q"
    and "\<And>ids jobs. prepare_jobs (qs_handle a) ids jobs = prepare_jobs (qs_handle b) ids jobs"
  shows "serve_enqueue_batch P ch a now current ids jobs = serve_enqueue_batch P ch b now current ids jobs"
    "serve_enqueue_atomic P ch a now current ids jobs = serve_enqueue_atomic P ch b now current ids jobs"
proof -
  have c: "classified P now a jobs = classified P now b jobs" by (auto simp: classified_def classify_enqueue_def assms(1-3) split: sum.split)
  have v: "commit_validated ch a current ids js = commit_validated ch b current ids js"
    "commit_validated_atomic ch a current ids js = commit_validated_atomic ch b current ids js" for js
    by (simp_all add: commit_validated_def commit_validated_atomic_def storage_enqueue_def storage_enqueue_atomic_def assms(4))
  show "serve_enqueue_batch P ch a now current ids jobs = serve_enqueue_batch P ch b now current ids jobs"
    by (intro ext) (simp only: serve_enqueue_batch_def c v assms(1) cong del: sum.case_cong_weak option.case_cong_weak prod.case_cong_weak)
  show "serve_enqueue_atomic P ch a now current ids jobs = serve_enqueue_atomic P ch b now current ids jobs"
    by (intro ext) (simp only: serve_enqueue_atomic_def c v assms(1) cong del: sum.case_cong_weak option.case_cong_weak prod.case_cong_weak)
qed

text \<open>
  C30: settings that the server copies at boot are exactly covered by the list of pending restarts. When
  nothing is pending, the storage engine's parameters and the handle's limits are the ones a restart
  would take from the current configuration, and the enqueue handlers behave as those of a server
  just restarted on it, deduplication windows included. Whatever is reported as pending appears, in
  order, in the list of restart-only settings that operators are shown.
\<close>

theorem nothing_pending_means_up_to_date:
  assumes "watch_reach ratio_ok boot s" and "config_validate ratio_ok boot = Inr ()"
    and "restart_only_changes boot (rs_config s) = []"
  shows "storage_params_of (rs_config s) = storage_params_of boot
    \<and> cf_storage (rs_config s) = cf_storage boot
    \<and> h_drain_scan_cap (qs_handle (running_server boot s)) = sc_sweep_limit (cf_storage (rs_config s))
    \<and> h_dead_letter_enabled (qs_handle (running_server boot s)) = (sc_dead_letter_retention_ms (cf_storage (rs_config s)) > 0)
    \<and> serve_enqueue_batch P ch (running_server boot s) now current ids jobs
        = serve_enqueue_batch P ch (running_server (rs_config s) (reload_boot (rs_config s))) now current ids jobs
    \<and> serve_enqueue_atomic P ch (running_server boot s) now current ids jobs
        = serve_enqueue_atomic P ch (running_server (rs_config s) (reload_boot (rs_config s))) now current ids jobs
    \<and> subseq (restart_only_changes old new) RESTART_ONLY"
proof -
  let ?a = "running_server boot s" and ?b = "running_server (rs_config s) (reload_boot (rs_config s))"
  note f = no_restart_fields [OF assms(3)]
  have s: "one_configuration s" "config_validate ratio_ok (rs_config s) = Inr ()"
    using watch_reach_keeps [OF assms(1,2)] by auto
  then have reg: "rs_registry s = (from_config (rs_config s))\<lparr>qr_generation := qr_generation (rs_registry s)\<rparr>"
    by (simp add: one_configuration_def)
  have eff: "effective (rs_registry s) q = effective (from_config (rs_config s)) q"
    "is_declared (rs_registry s) q = is_declared (from_config (rs_config s)) q" for q
    by (subst reg, simp)+
  have "dedup_window_ms (from_config boot) q = dedup_window_ms (from_config (rs_config s)) q" for q
    by (rule same_dedup_windows [OF valid_config_names [OF assms(2)] valid_config_names [OF s(2)] f(2)]) (simp add: f(1))
  then have prep: "prepare_jobs (qs_handle ?a) i js = prepare_jobs (qs_handle ?b) i js" for i js
    by (intro prepare_jobs_cong) (simp_all add: running_server_def open_handle_def reload_boot_def eff)
  note serve = serve_enqueue_cong [of ?a ?b, OF _ _ _ prep]
  show ?thesis
    by (intro conjI serve) (simp_all add: running_server_def open_handle_def reload_boot_def storage_params_of_def f eff restart_only_listed)
qed

definition demo_down :: "(unit, unit) channel" where
  "demo_down = \<lparr>ch_op = (\<lambda>_ s. (Inl storage_unavailable, s)), ch_peek = (\<lambda>_ _ _ _ s. (Inl storage_unavailable, s)),
     ch_depths = (\<lambda>_ s. (Inl storage_unavailable, s)), ch_snapshot = (\<lambda>_. None)\<rparr>"

theorem nothing_pending_means_up_to_date_witness:
  "storage_params_of (rs_config demo_reload_state) = storage_params_of config_default
    \<and> sc_sweep_limit (cf_storage (rs_config demo_reload_state)) = 10000"
proof -
  have "restart_only_changes config_default (rs_config demo_reload_state) = []"
    unfolding restart_none demo_reload_config
    by (simp add: demo_reloaded_def config_default_def queue_default_def dedup_overrides_def map_filter_simps tracing_eq_def f64_eq_def
        f64_is_nan_def tracing_default_def)
  note up = nothing_pending_means_up_to_date [OF demo_reload_reached default_config_valid this, of prost_ref
      demo_down 0 None "\<lambda>_. ''j''" "[]" config_default config_default]
  have "storage_params_of (rs_config demo_reload_state) = storage_params_of config_default"
    "cf_storage (rs_config demo_reload_state) = cf_storage config_default" using up by blast+
  then show ?thesis by (simp add: config_default_def storage_default_def)
qed

section \<open>Editing the configuration\<close>







section \<open>The lists of keys\<close>







end
