(* ===== verification/Metrics.thy ===== *)
theory Metrics
  imports Committer Config
begin

text \<open>
  What the server reports about itself: the instruments of \<open>src/metrics.rs\<close> and the end of a turn of the
  committer in \<open>src/storage.rs\<close>, which publishes the depths to the gauges and the snapshot to the admin
  interface. Instruments are OpenTelemetry's; the model keeps the calls that the program makes on
  them. A duration is a number of nanoseconds and its conversion to a float an argument.
\<close>

section \<open>Snapshots\<close>

record queue_depth_snapshot =
  ds_ready :: "(str, u64) fmap"
  ds_scheduled :: "(str, u64) fmap"
  ds_inflight :: "(str, u64) fmap"
  ds_dead_letter :: "(str, u64) fmap"

definition queue_depth_snapshot_default :: queue_depth_snapshot where
  "queue_depth_snapshot_default = \<lparr>ds_ready = fmempty, ds_scheduled = fmempty, ds_inflight = fmempty, ds_dead_letter = fmempty\<rparr>"

definition Indexes_snapshot :: "indexes \<Rightarrow> queue_depth_snapshot" where
  "Indexes_snapshot ix =
     \<lparr>ds_ready = ri_by_queue (ix_ready ix), ds_scheduled = ti_by_queue (ix_scheduled ix),
      ds_inflight = ti_by_queue (ix_leases ix), ds_dead_letter = ti_by_queue (ix_dead_letter ix)\<rparr>"

record admin_snapshot =
  sn_ts_ms :: i64
  sn_depths :: queue_depth_snapshot
  sn_totals :: "(str, queue_totals) fmap"
  sn_command_queue_len :: usize

definition admin_snapshot_default :: admin_snapshot where
  "admin_snapshot_default = \<lparr>sn_ts_ms = 0, sn_depths = queue_depth_snapshot_default, sn_totals = fmempty, sn_command_queue_len = 0\<rparr>"

section \<open>Instruments\<close>

type_synonym attributes = "(string \<times> str) list"

datatype instrument =
    U64Counter string
  | F64Histogram string string
  | U64ObservableGauge string

datatype 'f effect =
    SpanRecord string str
  | LogError string str
  | LogDebug string str
  | CounterAdd instrument u64 attributes
  | HistogramRecord instrument 'f attributes

record metrics =
  mt_enabled :: bool
  mt_requests :: instrument
  mt_request_duration_ms :: instrument
  mt_jobs_enqueued :: instrument
  mt_jobs_reserved :: instrument
  mt_jobs_acked :: instrument
  mt_jobs_nacked :: instrument
  mt_jobs_dead_lettered :: instrument
  mt_jobs_deduplicated :: instrument
  mt_jobs_rejected :: instrument
  mt_reserve_empty :: instrument
  mt_sweep_promotions :: instrument
  mt_sweep_lease_redeliveries :: instrument
  mt_sweep_dedup_expirations :: instrument
  mt_dead_letters_expired :: instrument
  mt_dead_letters_drained :: instrument
  mt_commit_duration_ms :: instrument
  mt_queue_depths :: queue_depth_snapshot

definition Metrics_new :: "bool \<Rightarrow> metrics" where
  "Metrics_new enabled =
     \<lparr>mt_enabled = enabled,
      mt_requests = U64Counter ''sepp.requests'',
      mt_request_duration_ms = F64Histogram ''sepp.request.duration'' ''ms'',
      mt_jobs_enqueued = U64Counter ''sepp.jobs.enqueued'',
      mt_jobs_reserved = U64Counter ''sepp.jobs.reserved'',
      mt_jobs_acked = U64Counter ''sepp.jobs.acked'',
      mt_jobs_nacked = U64Counter ''sepp.jobs.nacked'',
      mt_jobs_dead_lettered = U64Counter ''sepp.jobs.dead_lettered'',
      mt_jobs_deduplicated = U64Counter ''sepp.jobs.deduplicated'',
      mt_jobs_rejected = U64Counter ''sepp.jobs.rejected'',
      mt_reserve_empty = U64Counter ''sepp.reserve.empty'',
      mt_sweep_promotions = U64Counter ''sepp.sweep.promotions'',
      mt_sweep_lease_redeliveries = U64Counter ''sepp.sweep.lease_redeliveries'',
      mt_sweep_dedup_expirations = U64Counter ''sepp.sweep.dedup_expirations'',
      mt_dead_letters_expired = U64Counter ''sepp.dead_letters.expired'',
      mt_dead_letters_drained = U64Counter ''sepp.dead_letters.drained'',
      mt_commit_duration_ms = F64Histogram ''sepp.commit.duration'' ''ms'',
      mt_queue_depths = queue_depth_snapshot_default\<rparr>"

definition is_enabled :: "metrics \<Rightarrow> bool" where
  "is_enabled mt = mt_enabled mt"

definition observe_failure :: "(status \<Rightarrow> str) \<Rightarrow> string \<Rightarrow> status + 'a \<Rightarrow> 'f effect list" where
  "observe_failure show method result =
     (case result of
        Inr _ \<Rightarrow> []
      | Inl status \<Rightarrow>
          SpanRecord ''error'' (show status) #
          (if st_code status \<in> {Internal, Unknown, DataLoss}
           then [SpanRecord ''otel.status_code'' ''error'', LogError method (show status)]
           else [LogDebug method (show status)]))"

definition observe :: "(status \<Rightarrow> str) \<Rightarrow> (nat \<Rightarrow> 'f) \<Rightarrow> metrics \<Rightarrow> string \<Rightarrow> nat \<Rightarrow> status + 'a \<Rightarrow> 'f effect list" where
  "observe show millis mt method elapsed result =
     observe_failure show method result @
     (if \<not> mt_enabled mt then []
      else
        [CounterAdd (mt_requests mt) 1
           [(''method'', method), (''outcome'', case result of Inr _ \<Rightarrow> ''ok'' | Inl _ \<Rightarrow> ''error'')],
         HistogramRecord (mt_request_duration_ms mt) (millis elapsed) [(''method'', method)]])"

definition add_by_queue :: "instrument \<Rightarrow> (str, u64) fmap \<Rightarrow> 'f effect list" where
  "add_by_queue counter counts = map (\<lambda>(queue, n). CounterAdd counter n [(''queue'', queue)]) (sorted_list_of_fmap counts)"

definition flush_cycle :: "metrics \<Rightarrow> cycle_metrics \<Rightarrow> 'f effect list" where
  "flush_cycle mt m =
     (if \<not> mt_enabled mt then []
      else
        add_by_queue (mt_jobs_enqueued mt) (cm_enqueued_by_queue m)
        @ add_by_queue (mt_jobs_reserved mt) (cm_reserved_by_queue m)
        @ add_by_queue (mt_jobs_acked mt) (cm_acked_by_queue m)
        @ add_by_queue (mt_jobs_nacked mt) (cm_nacked_by_queue m)
        @ add_by_queue (mt_jobs_deduplicated mt) (cm_deduplicated_by_queue m)
        @ add_by_queue (mt_sweep_promotions mt) (cm_sweep_promotions_by_queue m)
        @ add_by_queue (mt_sweep_lease_redeliveries mt) (cm_sweep_lease_redeliveries_by_queue m)
        @ add_by_queue (mt_sweep_dedup_expirations mt) (cm_sweep_dedup_expirations_by_queue m)
        @ map (\<lambda>((queue, cause), n). CounterAdd (mt_jobs_dead_lettered mt) n [(''queue'', queue), (''cause'', cause)])
            (sorted_list_of_fmap (cm_dead_lettered_by_queue_cause m))
        @ (if cm_dead_letters_expired m > 0 then [CounterAdd (mt_dead_letters_expired mt) (cm_dead_letters_expired m) []] else [])
        @ (if cm_dead_letters_drained m > 0 then [CounterAdd (mt_dead_letters_drained mt) (cm_dead_letters_drained m) []] else []))"

text \<open>A name that a client made up does not become a label.\<close>

definition record_rejected :: "metrics \<Rightarrow> str \<Rightarrow> string \<Rightarrow> 'f effect list" where
  "record_rejected mt queue reason =
     (if mt_enabled mt
      then (let queue = (if reason \<in> {''unknown_queue'', ''queue_name_too_long'', ''invalid_request''} then ''_rejected'' else queue)
            in [CounterAdd (mt_jobs_rejected mt) 1 [(''queue'', queue), (''reason'', reason)]])
      else [])"

definition record_reserve_empty :: "metrics \<Rightarrow> str list \<Rightarrow> 'f effect list" where
  "record_reserve_empty mt queues =
     (if mt_enabled mt then map (\<lambda>queue. CounterAdd (mt_reserve_empty mt) 1 [(''queue'', queue)]) queues else [])"

definition record_commit :: "(nat \<Rightarrow> 'f) \<Rightarrow> metrics \<Rightarrow> nat \<Rightarrow> 'f effect list" where
  "record_commit millis mt elapsed =
     (if mt_enabled mt then [HistogramRecord (mt_commit_duration_ms mt) (millis elapsed) []] else [])"

definition set_queue_depths :: "queue_depth_snapshot \<Rightarrow> metrics \<Rightarrow> metrics" where
  "set_queue_depths snapshot mt = (if mt_enabled mt then mt\<lparr>mt_queue_depths := snapshot\<rparr> else mt)"

text \<open>What the callbacks of the gauges observe when the reader collects them.\<close>

definition gauge_by_queue :: "string \<Rightarrow> (str, u64) fmap \<Rightarrow> instrument \<times> (u64 \<times> attributes) list" where
  "gauge_by_queue name depths =
     (U64ObservableGauge name, map (\<lambda>(queue, depth). (depth, [(''queue'', queue)])) (sorted_list_of_fmap depths))"

definition queue_depth_gauges :: "metrics \<Rightarrow> (instrument \<times> (u64 \<times> attributes) list) list" where
  "queue_depth_gauges mt =
     [gauge_by_queue ''sepp.queue.ready'' (ds_ready (mt_queue_depths mt)),
      gauge_by_queue ''sepp.queue.scheduled'' (ds_scheduled (mt_queue_depths mt)),
      gauge_by_queue ''sepp.queue.inflight'' (ds_inflight (mt_queue_depths mt)),
      gauge_by_queue ''sepp.queue.dead_lettered'' (ds_dead_letter (mt_queue_depths mt))]"

definition command_queue_gauge :: "u64 \<Rightarrow> instrument \<times> (u64 \<times> attributes) list" where
  "command_queue_gauge depth = (U64ObservableGauge ''sepp.command_queue.depth'', [(depth, [])])"

section \<open>The Prometheus endpoint\<close>

record scrape_reply =
  sr_status :: nat
  sr_content_type :: "str option"
  sr_body :: str

text \<open>Gathering and encoding the registry is the crate's, with its content type; it may fail.\<close>

definition scrape_response :: "'e + str \<Rightarrow> str \<Rightarrow> str \<Rightarrow> scrape_reply" where
  "scrape_response encoded format_type path =
     (if path \<noteq> ''/metrics'' then \<lparr>sr_status = 404, sr_content_type = None, sr_body = ''try /metrics'' @ [CHR 0x0A]\<rparr>
      else case encoded of
          Inl _ \<Rightarrow> \<lparr>sr_status = 500, sr_content_type = None, sr_body = ''# encoding error'' @ [CHR 0x0A]\<rparr>
        | Inr buf \<Rightarrow> \<lparr>sr_status = 200, sr_content_type = Some format_type, sr_body = buf\<rparr>)"

text \<open>
  Setting the exporters up. Building an exporter and binding the listener may fail; the error of the
  first that does is returned. A guard holds the readers of the provider, if any, and whether the
  scrape endpoint runs.
\<close>

datatype metric_reader = PeriodicReader str u64 | PrometheusReader

record metrics_guard =
  mg_provider :: "metric_reader list option"
  mg_prometheus_server :: bool

record 'e metrics_setup =
  ms_otlp_exporter :: "str \<Rightarrow> 'e option"
  ms_prometheus_exporter :: "'e option"
  ms_bind :: "socket_addr \<Rightarrow> 'e option"

definition failed_or :: "'e option \<Rightarrow> 'a \<Rightarrow> 'e + 'a" where
  "failed_or e x = (case e of Some e \<Rightarrow> Inl e | None \<Rightarrow> Inr x)"

definition metrics_init :: "'e metrics_setup \<Rightarrow> metrics_config \<Rightarrow> 'e + metrics_guard" where
  "metrics_init su cfg =
     (if \<not> mc_enabled cfg \<and> \<not> mc_prometheus_enabled cfg then Inr \<lparr>mg_provider = None, mg_prometheus_server = False\<rparr>
      else
        (let otlp = (if mc_enabled cfg
               then failed_or (ms_otlp_exporter su (mc_otlp_endpoint cfg)) [PeriodicReader (mc_otlp_endpoint cfg) (mc_export_interval_ms cfg)]
               else Inr []) in
         case otlp of
           Inl e \<Rightarrow> Inl e
         | Inr builder \<Rightarrow>
             (case (if mc_prometheus_enabled cfg then failed_or (ms_prometheus_exporter su) (builder @ [PrometheusReader])
                    else Inr builder) of
                Inl e \<Rightarrow> Inl e
              | Inr provider \<Rightarrow>
                  (case (if mc_prometheus_enabled cfg then failed_or (ms_bind su (mc_prometheus_listen_addr cfg)) True
                         else Inr False) of
                     Inl e \<Rightarrow> Inl e
                   | Inr server \<Rightarrow> Inr \<lparr>mg_provider = Some provider, mg_prometheus_server = server\<rparr>))))"

end
