(* ===== verification/Admin_Routes.thy ===== *)
theory Admin_Routes
  imports Admin_Config Metrics
begin

text \<open>
  The handlers of \<open>src/admin/routes.rs\<close> that read and change queues, jobs and dead letters: the JSON
  they answer with, the storage calls they make, the loop that empties a queue before it is deleted,
  and the audit entries they leave (\<open>src/admin/authz.rs\<close>). Base64, the text of a JSON value and the
  conversion of an integer to \<open>f64\<close> are the record \<open>codec\<close>. An audit entry is appended in the
  background after the answer; a handler returns the entries it asks for.
\<close>

section \<open>Codecs and errors\<close>

record codec =
  b64_encode :: "bytes \<Rightarrow> str"
  b64_decode :: "str \<Rightarrow> bytes option"
  f64_of_int :: "int \<Rightarrow> 64 word"
  json_text :: "json \<Rightarrow> str"
  json_parse :: "str \<Rightarrow> json option"

definition from_status :: "status \<Rightarrow> route_error" where
  "from_status st =
     (let (http, code) = (case st_code st of
          InvalidArgument \<Rightarrow> (400, ''invalid_argument'')
        | NotFound \<Rightarrow> (404, ''not_found'')
        | FailedPrecondition \<Rightarrow> (409, ''failed_precondition'')
        | ResourceExhausted \<Rightarrow> (409, ''resource_exhausted'')
        | _ \<Rightarrow> (500, ''internal''))
      in RouteError_new http code (Text (st_message st)))"

definition decode_b64 :: "codec \<Rightarrow> string \<Rightarrow> str \<Rightarrow> route_error + bytes" where
  "decode_b64 K field s =
     (case b64_decode K s of
        Some b \<Rightarrow> Inr b
      | None \<Rightarrow> Inl (bad_request ''invalid_argument'' (Text (field @ '' is not valid base64''))))"

text \<open>A storage call, the error turned into a response, and a read of the snapshot on a blocking task.\<close>

definition call :: "(status + 'a) \<times> 's \<Rightarrow> (route_error + 'a) \<times> 's" where
  "call r = (map_err from_status (fst r), snd r)"

definition resolve_blocking :: "('db, 's) channel \<Rightarrow> 's \<Rightarrow> ('db \<Rightarrow> 'a) \<Rightarrow> route_error + 'a" where
  "resolve_blocking ch s work =
     (case ch_snapshot ch s of
        Some snap \<Rightarrow> Inr (work snap)
      | None \<Rightarrow> Inl (internal (Text ''blocking read failed'')))"

section \<open>JSON of queues, jobs and dead letters\<close>

definition json_int :: "codec \<Rightarrow> int \<Rightarrow> json" where
  "json_int K i = JNumber \<lparr>jn_as_i64 = (if i64_ok i then Some i else None), jn_as_f64 = Some (f64_of_int K i)\<rparr>"

definition f64_is_finite :: "64 word \<Rightarrow> bool" where
  "f64_is_finite x \<longleftrightarrow> x AND 0x7FF0000000000000 \<noteq> 0x7FF0000000000000"

definition json_f64 :: "64 word \<Rightarrow> json" where
  "json_f64 d = (if f64_is_finite d then JNumber \<lparr>jn_as_i64 = None, jn_as_f64 = Some d\<rparr> else JNull)"

definition prim_json :: "codec \<Rightarrow> primitive_value \<Rightarrow> json" where
  "prim_json K v =
     (case pv_value v of
        Some (StringValue s) \<Rightarrow> JString s
      | Some (DoubleValue d) \<Rightarrow> json_f64 d
      | Some (IntValue i) \<Rightarrow> json_int K i
      | Some (BoolValue b) \<Rightarrow> JBool b
      | None \<Rightarrow> JNull)"

definition custom_json :: "codec \<Rightarrow> (str, primitive_value) fmap \<Rightarrow> json" where
  "custom_json K custom = JObject (map (\<lambda>(k, v). (k, prim_json K v)) (sorted_list_of_fmap custom))"

definition INLINE_PAYLOAD_MAX :: nat where
  "INLINE_PAYLOAD_MAX = 4096"

definition payload_json :: "codec \<Rightarrow> payload option \<Rightarrow> bool \<Rightarrow> json" where
  "payload_json K payload full =
     (case payload of
        Some p \<Rightarrow>
          JObject ([(''encoding'', JString (pl_encoding p)), (''size_bytes'', json_int K (int (length (pl_data p))))]
            @ (if full \<or> length (pl_data p) \<le> INLINE_PAYLOAD_MAX
               then [(''data_b64'', JString (b64_encode K (pl_data p)))] else []))
      | None \<Rightarrow>
          JObject ([(''encoding'', JString []), (''size_bytes'', json_int K 0)]
            @ (if full then [(''data_b64'', JString [])] else [])))"

definition millis_or_zero :: "prost \<Rightarrow> timestamp option \<Rightarrow> int" where
  "millis_or_zero P t = unwrap_or (map_option (timestamp_to_millis P) t) 0"

definition scheduled_field :: "prost \<Rightarrow> codec \<Rightarrow> job \<Rightarrow> (str \<times> json) list" where
  "scheduled_field P K job =
     (case map_option (timestamp_to_millis P) (j_scheduled_at job) of
        Some at \<Rightarrow> [(''scheduled_at_ms'', json_int K at)] | None \<Rightarrow> [])"

definition job_json :: "prost \<Rightarrow> codec \<Rightarrow> admin_job \<Rightarrow> bool \<Rightarrow> (str \<times> json) list" where
  "job_json P K aj full =
     (let job = adj_job aj in
      [(''id'', JString (j_id job)), (''key_b64'', JString (b64_encode K (adj_key aj))), (''job_type'', JString (j_type job)),
       (''priority'', json_int K (uint (j_priority job))), (''attempt'', json_int K (uint (j_attempt job))),
       (''max_attempts'', json_int K (uint (j_max_attempts job))),
       (''enqueued_at_ms'', json_int K (millis_or_zero P (j_enqueued_at job))),
       (''custom'', custom_json K (j_custom job)), (''payload'', payload_json K (j_payload job) full)]
      @ scheduled_field P K job
      @ (if adj_state aj = AdminInflight
         then [(''lease_expires_at_ms'', json_int K (millis_or_zero P (j_lease_expires_at job)))] else []))"

definition state_label :: "admin_job_state \<Rightarrow> string" where
  "state_label state = (case state of AdminReady \<Rightarrow> ''ready'' | AdminScheduled \<Rightarrow> ''scheduled'' | AdminInflight \<Rightarrow> ''inflight'')"

definition cause_label :: "int \<Rightarrow> string" where
  "cause_label cause =
     (if cause = cause_i32 CauseAttemptsExhausted then ''attempts_exhausted''
      else if cause = cause_i32 CauseRejected then ''rejected''
      else if cause = cause_i32 CauseLeaseExpired then ''lease_expired''
      else if cause = cause_i32 CauseAdmin then ''admin''
      else ''unspecified'')"

text \<open>A record without a job is shown with the default one, all of whose fields are empty.\<close>

definition job_default :: job where
  "job_default = \<lparr>j_id = [], j_type = [], j_payload = None, j_priority = 0, j_trace_context = None, j_enqueued_at = None,
     j_attempt = 0, j_max_attempts = 0, j_lease_expires_at = None, j_custom = fmempty, j_scheduled_at = None, j_queue = []\<rparr>"

definition dead_letter_json :: "prost \<Rightarrow> codec \<Rightarrow> admin_dead_letter \<Rightarrow> bool \<Rightarrow> (str \<times> json) list" where
  "dead_letter_json P K d full =
     (let record = adl_record d; job = unwrap_or (dl_job record) job_default in
      [(''id'', JString (j_id job)), (''key_b64'', JString (b64_encode K (adl_key d))), (''job_type'', JString (j_type job)),
       (''priority'', json_int K (uint (j_priority job))), (''attempt'', json_int K (uint (dl_final_attempt record))),
       (''max_attempts'', json_int K (uint (j_max_attempts job))),
       (''enqueued_at_ms'', json_int K (millis_or_zero P (j_enqueued_at job))),
       (''failed_at_ms'', json_int K (millis_or_zero P (dl_failed_at record))),
       (''cause'', JString (cause_label (dl_cause record))),
       (''custom'', custom_json K (j_custom job)), (''payload'', payload_json K (j_payload job) full)]
      @ scheduled_field P K job
      @ (case dl_last_reason record of Some reason \<Rightarrow> [(''last_reason'', JString reason)] | None \<Rightarrow> []))"

section \<open>Queues\<close>

definition opt_json :: "('a \<Rightarrow> json) \<Rightarrow> 'a option \<Rightarrow> json" where
  "opt_json f x = (case x of Some v \<Rightarrow> f v | None \<Rightarrow> JNull)"

definition backoff_json :: "retry_backoff \<Rightarrow> json" where
  "backoff_json b = JString (case b of BackoffNone \<Rightarrow> ''none'' | BackoffExponential \<Rightarrow> ''exponential'')"

definition effective_json :: "codec \<Rightarrow> effective_limits \<Rightarrow> json" where
  "effective_json K e =
     (let u64 = (\<lambda>n. json_int K (int n)); u32 = (\<lambda>w. json_int K (uint (w :: u32))) in JObject [
        (''max_lease_duration_ms'', u64 (el_max_lease_duration_ms e)),
        (''default_max_attempts'', u32 (el_default_max_attempts e)),
        (''max_attempts_ceiling'', u32 (el_max_attempts_ceiling e)),
        (''default_priority'', u32 (el_default_priority e)),
        (''retry_delay_ms'', u64 (el_retry_delay_ms e)),
        (''retry_backoff'', backoff_json (el_retry_backoff e)),
        (''retry_delay_max_ms'', u64 (el_retry_delay_max_ms e)),
        (''max_payload_bytes'', u64 (el_max_payload_bytes e)),
        (''allowed_encodings'', opt_json strings_json (el_allowed_encodings e)),
        (''allowed_job_types'', opt_json strings_json (el_allowed_job_types e)),
        (''max_schedule_horizon_ms'', u64 (el_max_schedule_horizon_ms e)),
        (''max_custom_entries'', u32 (el_max_custom_entries e)),
        (''max_custom_total_bytes'', u64 (el_max_custom_total_bytes e)),
        (''max_custom_key_bytes'', u32 (el_max_custom_key_bytes e)),
        (''dedup_window_ms'', json_int K (el_dedup_window_ms e)),
        (''max_queue_depth'', opt_json u64 (el_max_queue_depth e))])"

text \<open>
  A queue in a listing, from the snapshot that the committer publishes. How serde shows the overrides
  of a queue is an argument.
\<close>

definition queue_json ::
    "codec \<Rightarrow> (queue_config \<Rightarrow> json) \<Rightarrow> admin_snapshot \<Rightarrow> queue_registry \<Rightarrow> config \<Rightarrow> str \<Rightarrow> json" where
  "queue_json K serialize snapshot registry config name =
     (let depth = (\<lambda>m. json_int K (int (unwrap_or (fmlookup m name) 0)));
          overrides = find (\<lambda>q. qc_name q = name) (cf_queues config)
      in JObject [
        (''name'', JString name),
        (''declared'', JBool (overrides \<noteq> None)),
        (''depths'', JObject [(''ready'', depth (ds_ready (sn_depths snapshot))), (''scheduled'', depth (ds_scheduled (sn_depths snapshot))),
           (''inflight'', depth (ds_inflight (sn_depths snapshot))),
           (''dead_lettered'', depth (ds_dead_letter (sn_depths snapshot)))]),
        (''overrides'', opt_json serialize overrides),
        (''effective'', effective_json K (effective registry name))])"

definition listed_queues :: "admin_snapshot \<Rightarrow> config \<Rightarrow> str list" where
  "listed_queues snapshot config =
     (let depths = sn_depths snapshot
      in sorted_list_of_set (fmdom' (ds_ready depths) \<union> fmdom' (ds_scheduled depths) \<union> fmdom' (ds_inflight depths)
           \<union> fmdom' (ds_dead_letter depths) \<union> fmdom' (sn_totals snapshot) \<union> qc_name ` set (cf_queues config)))"

definition list_queues ::
    "codec \<Rightarrow> (queue_config \<Rightarrow> json) \<Rightarrow> admin_snapshot \<Rightarrow> queue_registry \<Rightarrow> config \<Rightarrow> json" where
  "list_queues K serialize snapshot registry config =
     JArray (map (queue_json K serialize snapshot registry config) (listed_queues snapshot config))"

definition get_queue ::
    "codec \<Rightarrow> (queue_config \<Rightarrow> json) \<Rightarrow> admin_snapshot \<Rightarrow> queue_registry \<Rightarrow> config \<Rightarrow> str \<Rightarrow> json" where
  "get_queue K serialize snapshot registry config name = queue_json K serialize snapshot registry config name"

section \<open>Listings\<close>

definition peek_state_of :: "str option \<Rightarrow> route_error + peek_state" where
  "peek_state_of state =
     (if state = Some ''ready'' then Inr PeekReady
      else if state = Some ''scheduled'' then Inr PeekScheduled
      else if state = Some ''inflight'' then Inr PeekInflight
      else if state = Some ''dead_letter'' then Inr PeekDeadLetter
      else Inl (bad_request ''invalid_argument''
        (Quoting ''state must be ready|scheduled|inflight|dead_letter, got '' [unwrap_or state []])))"

record job_listing =
  jl_jobs :: "json list"
  jl_next_cursor :: "str option"
  jl_truncated :: bool

definition listed_jobs :: "prost \<Rightarrow> ('db, 'tx) engine \<Rightarrow> codec \<Rightarrow> peek_state \<Rightarrow> bytes list \<Rightarrow> 'db \<Rightarrow> json list" where
  "listed_jobs P E K state keys snap =
     (case state of
        PeekReady \<Rightarrow> map (\<lambda>j. JObject (job_json P K j False)) (resolve_ready P E snap keys)
      | PeekScheduled \<Rightarrow> map (\<lambda>j. JObject (job_json P K j False)) (resolve_scheduled P E snap keys)
      | PeekInflight \<Rightarrow> map (\<lambda>j. JObject (job_json P K j False)) (resolve_inflight P E snap keys)
      | PeekDeadLetter \<Rightarrow> map (\<lambda>d. JObject (dead_letter_json P K d False)) (resolve_dead_letters P E snap keys))"

definition list_jobs ::
    "prost \<Rightarrow> ('db, 'tx) engine \<Rightarrow> codec \<Rightarrow> ('db, 's) channel \<Rightarrow> str \<Rightarrow> str option \<Rightarrow> str option \<Rightarrow> usize option \<Rightarrow> 's
       \<Rightarrow> (route_error + job_listing) \<times> 's" where
  "list_jobs P E K ch name state cursor limit s =
     (case try_then (peek_state_of state) (\<lambda>st.
           map_sum id (Pair st) (case cursor of None \<Rightarrow> Inr None | Some c \<Rightarrow> map_sum id Some (decode_b64 K ''cursor'' c))) of
        Inl e \<Rightarrow> (Inl e, s)
      | Inr (st, cursor) \<Rightarrow>
          (case call (storage_peek_keys ch st name cursor (clamp_nat 1 100 (unwrap_or limit 50)) s) of
             (Inl e, s) \<Rightarrow> (Inl e, s)
           | (Inr page, s) \<Rightarrow>
               (try_then (resolve_blocking ch s (listed_jobs P E K st (pp_keys page))) (\<lambda>jobs.
                  Inr \<lparr>jl_jobs = jobs, jl_next_cursor = map_option (b64_encode K) (pp_next_cursor page),
                       jl_truncated = pp_truncated page\<rparr>), s)))"

definition route_get_job ::
    "prost \<Rightarrow> ('db, 'tx) engine \<Rightarrow> codec \<Rightarrow> ('db, 's) channel \<Rightarrow> i64 \<Rightarrow> str \<Rightarrow> 's \<Rightarrow> route_error + json" where
  "route_get_job P E K ch now job_id s =
     try_then (resolve_blocking ch s (\<lambda>snap. get_job P E snap now job_id)) (\<lambda>found.
     case found of
       None \<Rightarrow> Inl (not_found (Text ''job not found''))
     | Some job \<Rightarrow> Inr (JObject (job_json P K job True
         @ [(''queue'', JString (j_queue (adj_job job))), (''state'', JString (state_label (adj_state job)))])))"

definition get_dead_letter ::
    "prost \<Rightarrow> ('db, 'tx) engine \<Rightarrow> codec \<Rightarrow> ('db, 's) channel \<Rightarrow> str \<Rightarrow> str \<Rightarrow> 's \<Rightarrow> route_error + json" where
  "get_dead_letter P E K ch name key_b64 s =
     try_then (decode_b64 K ''key'' key_b64) (\<lambda>key.
     if DeadLetterKey_queue key \<noteq> Some name then Inl (not_found (Text ''dead-letter record not found''))
     else try_then (resolve_blocking ch s (\<lambda>snap. resolve_dead_letters P E snap [key])) (\<lambda>found.
       case rev found of
         [] \<Rightarrow> Inl (not_found (Text ''dead-letter record not found''))
       | record # _ \<Rightarrow> Inr (JObject (dead_letter_json P K record True))))"

definition audit_json :: "codec \<Rightarrow> audit_entry \<Rightarrow> json" where
  "audit_json K e =
     (let r = ae_record e in JObject [
        (''seq'', json_int K (int (ae_seq e))), (''ts_ms'', json_int K (ae_ts_ms e)), (''actor'', JString (au_actor r)),
        (''role'', JString (au_role r)), (''action'', JString (au_action r)),
        (''details'', unwrap_or (json_parse K (au_details_json r)) (JString (au_details_json r)))])"

definition nonempty :: "str option \<Rightarrow> str option" where
  "nonempty s = (if s = Some [] then None else s)"

definition route_list_audit ::
    "prost \<Rightarrow> ('db, 'tx) engine \<Rightarrow> codec \<Rightarrow> ('db, 's) channel \<Rightarrow> u64 option \<Rightarrow> usize option \<Rightarrow> str option \<Rightarrow> str option \<Rightarrow> 's
       \<Rightarrow> route_error + json list \<times> u64 option" where
  "route_list_audit P E K ch before limit actor_name action_prefix s =
     (let limit = clamp_nat 1 100 (unwrap_or limit 50);
          f = \<lparr>af_actor = nonempty actor_name, af_action_prefix = nonempty action_prefix\<rparr>
      in try_then (resolve_blocking ch s (\<lambda>snap. list_audit P E snap before limit f)) (\<lambda>page.
         Inr (map (audit_json K) (ap_entries page), ap_next_before page)))"

section \<open>Enqueueing from the interface\<close>

record enqueue_body =
  eb_job_type :: str
  eb_payload :: "(str \<times> str option \<times> str option) option"
  eb_priority :: "u32 option"
  eb_max_attempts :: "u32 option"
  eb_scheduled_at_ms :: "i64 option"
  eb_idempotency_key :: "str option"
  eb_custom :: "(str \<times> json) list option"

fun custom_from_json :: "(str \<times> json) list \<Rightarrow> route_error + (str \<times> primitive_value) list" where
  "custom_from_json [] = Inr []"
| "custom_from_json ((key, val) # rest) =
     try_then (case val of
          JString s \<Rightarrow> Inr (StringValue s)
        | JBool b \<Rightarrow> Inr (BoolValue b)
        | JNumber n \<Rightarrow> Inr (case jn_as_i64 n of Some i \<Rightarrow> IntValue i | None \<Rightarrow> DoubleValue (unwrap_or (jn_as_f64 n) 0))
        | _ \<Rightarrow> Inl (bad_request ''invalid_argument'' (Quoting ''custom entry must be a string, number, or bool'' [key]))) (\<lambda>v.
     try_then (custom_from_json rest) (\<lambda>vs. Inr ((key, PrimitiveValue (Some v)) # vs)))"

text \<open>The detail of a rejection: the text of its arm with the names it quotes; \<open>None\<close> is the panic of a rejection without a reason.\<close>

definition rejection_detail :: "job_rejection \<Rightarrow> error_text option" where
  "rejection_detail rejection = map_option (\<lambda>reason. case reason of
       UnknownQueue q \<Rightarrow> Quoting ''queue is not declared (strict mode)'' [q]
     | PayloadTooLarge limit actual \<Rightarrow> Text (''payload is '' @ show_nat actual @ '' bytes; the limit is '' @ show_nat limit)
     | EncodingNotAllowed e allowed \<Rightarrow> Quoting ''encoding is not allowed; allowed:'' (e # allowed)
     | JobTypeNotAllowed t allowed \<Rightarrow> Quoting ''job_type is not allowed; allowed:'' (t # allowed)
     | CustomEntriesTooMany limit actual \<Rightarrow>
         Text (''custom map has '' @ show_nat (unat actual) @ '' entries; the limit is '' @ show_nat (unat limit))
     | CustomMapTooLarge limit actual \<Rightarrow> Text (''custom map is '' @ show_nat actual @ '' bytes; the limit is '' @ show_nat limit)
     | CustomKeyTooLong key limit actual \<Rightarrow>
         Quoting (''custom key is '' @ show_nat actual @ '' bytes; the limit is '' @ show_nat (unat limit)) [key]
     | QueueNameTooLong limit actual \<Rightarrow> Text (''queue name is '' @ show_nat actual @ '' bytes; the limit is '' @ show_nat (unat limit))
     | JobTypeNameTooLong limit actual \<Rightarrow> Text (''job_type is '' @ show_nat actual @ '' bytes; the limit is '' @ show_nat (unat limit))
     | IdempotencyKeyTooLong limit actual \<Rightarrow>
         Text (''idempotency_key is '' @ show_nat actual @ '' bytes; the limit is '' @ show_nat (unat limit))
     | ScheduledTooFar _ _ \<Rightarrow> Text ''scheduled_at exceeds the schedule horizon''
     | InvalidRequest message \<Rightarrow> Text message
     | QueueFull q limit \<Rightarrow> Quoting (''queue is at capacity (max_queue_depth='' @ show_nat limit @ '')'') [q]
     | QueueClosing q \<Rightarrow> Quoting ''queue is being deleted and is not accepting new jobs'' [q])
     (rej_reason rejection)"

definition rejected_error :: "job_rejection \<Rightarrow> route_error option" where
  "rejected_error rejection = map_option (\<lambda>detail.
     \<lparr>re_status = 422, re_code = ''rejected'', re_error = detail, re_rejection = Some (rejection_label rejection, detail)\<rparr>)
     (rejection_detail rejection)"

definition payload_of :: "codec \<Rightarrow> (str \<times> str option \<times> str option) option \<Rightarrow> route_error + payload option" where
  "payload_of K body =
     (case body of
        None \<Rightarrow> Inr None
      | Some (encoding, data_b64, data_text) \<Rightarrow>
          map_sum id (\<lambda>data. Some \<lparr>pl_data = data, pl_encoding = encoding\<rparr>)
            (case (data_b64, data_text) of
               (Some b64, _) \<Rightarrow> decode_b64 K ''payload.data_b64'' b64
             | (None, Some text) \<Rightarrow> Inr text
             | (None, None) \<Rightarrow> Inl (bad_request ''invalid_argument'' (Text ''payload requires data_b64 or data_text''))))"

definition enqueue_request_of :: "prost \<Rightarrow> codec \<Rightarrow> str \<Rightarrow> enqueue_body \<Rightarrow> route_error + enqueue_request" where
  "enqueue_request_of P K name body =
     try_then (payload_of K (eb_payload body)) (\<lambda>payload.
     try_then (custom_from_json (unwrap_or (eb_custom body) [])) (\<lambda>custom.
     Inr \<lparr>er_queue = name, er_job_type = eb_job_type body, er_payload = payload,
          er_idempotency_key = eb_idempotency_key body, er_priority = eb_priority body,
          er_max_attempts = eb_max_attempts body, er_trace_context = None, er_custom = collect_map custom,
          er_scheduled_at = map_option (millis_to_timestamp P) (eb_scheduled_at_ms body)\<rparr>))"

type_synonym 's acted = "(route_error + json) \<times> audit_note list \<times> 's"

text \<open>\<open>None\<close> is the panic of a rejection without a reason.\<close>

definition enqueue_job ::
    "prost \<Rightarrow> codec \<Rightarrow> ('db, 's) channel \<Rightarrow> handle \<Rightarrow> config \<Rightarrow> queue_registry \<Rightarrow> i64 \<Rightarrow> (nat \<Rightarrow> str) \<Rightarrow> str \<Rightarrow> enqueue_body \<Rightarrow> 's
       \<Rightarrow> 's acted option" where
  "enqueue_job P K ch h cfg registry now ids name body s =
     (case enqueue_request_of P K name body of
        Inl e \<Rightarrow> Some (Inl e, [], s)
      | Inr req \<Rightarrow>
          (case classify_enqueue P now req registry (sv_strict_queues (cf_server cfg)) (ServerLimits_from_config cfg) of
             Inl rejection \<Rightarrow> map_option (\<lambda>e. (Inl e, [], s)) (rejected_error rejection)
           | Inr _ \<Rightarrow>
               (case call (storage_enqueue ch h ids [req] s) of
                  (Inl e, s) \<Rightarrow> Some (Inl e, [], s)
                | (Inr results, s) \<Rightarrow>
                    (case rev results of
                       [] \<Rightarrow> Some (Inl (internal (Text ''storage returned no enqueue result'')), [], s)
                     | Inr resp # _ \<Rightarrow>
                         Some (Inr (JObject [(''job_id'', JString (resp_job_id resp))]),
                           [(''job.enqueue'', JObject [(''queue'', JString (er_queue req)), (''job_id'', JString (resp_job_id resp)),
                              (''job_type'', JString (er_job_type req))])], s)
                     | Inl rejection # _ \<Rightarrow> map_option (\<lambda>e. (Inl e, [], s)) (rejected_error rejection)))))"

section \<open>Dead-letter operations\<close>

definition DEAD_LETTER_KEYS_MAX :: nat where
  "DEAD_LETTER_KEYS_MAX = 100"

fun decode_each :: "codec \<Rightarrow> str list \<Rightarrow> route_error + bytes list" where
  "decode_each K [] = Inr []"
| "decode_each K (k # ks) =
     try_then (decode_b64 K ''keys_b64'' k) (\<lambda>b. try_then (decode_each K ks) (\<lambda>bs. Inr (b # bs)))"

definition decode_keys :: "codec \<Rightarrow> str list \<Rightarrow> route_error + bytes list" where
  "decode_keys K keys_b64 =
     (if length keys_b64 > DEAD_LETTER_KEYS_MAX
      then Inl (bad_request ''invalid_argument'' (Text (''at most '' @ show_nat DEAD_LETTER_KEYS_MAX @ '' keys per request'')))
      else decode_each K keys_b64)"

definition bulk_details :: "codec \<Rightarrow> str \<Rightarrow> string \<Rightarrow> u64 \<Rightarrow> str list \<Rightarrow> str option \<Rightarrow> json" where
  "bulk_details K name label n job_ids reason =
     JObject ([(''queue'', JString name), (label, json_int K (int n)), (''job_ids'', strings_json job_ids)]
       @ (case nonempty reason of Some r \<Rightarrow> [(''reason'', JString r)] | None \<Rightarrow> []))"

definition bulk_reply :: "codec \<Rightarrow> string \<Rightarrow> u64 \<Rightarrow> u64 \<Rightarrow> json" where
  "bulk_reply K label n missing = JObject [(label, json_int K (int n)), (''missing'', json_int K (int missing))]"

definition dead_letter_jobs ::
    "codec \<Rightarrow> ('db, 's) channel \<Rightarrow> handle \<Rightarrow> str \<Rightarrow> str \<Rightarrow> str list \<Rightarrow> str option \<Rightarrow> 's \<Rightarrow> 's acted" where
  "dead_letter_jobs K ch h name state keys_b64 reason s =
     (case try_then (if state = ''ready'' then Inr PeekReady else if state = ''scheduled'' then Inr PeekScheduled
              else Inl (bad_request ''invalid_argument'' (Quoting ''state must be ready or scheduled, got '' [state])))
            (\<lambda>st. map_sum id (Pair st) (decode_keys K keys_b64)) of
        Inl e \<Rightarrow> (Inl e, [], s)
      | Inr (st, keys) \<Rightarrow>
          (case call (storage_dead_letter_jobs ch h name st keys reason s) of
             (Inl e, s) \<Rightarrow> (Inl e, [], s)
           | (Inr out, s) \<Rightarrow>
               (Inr (bulk_reply K ''dead_lettered'' (djo_dead_lettered out) (djo_missing out)),
                [(''jobs.dead_letter'', bulk_details K name ''dead_lettered'' (djo_dead_lettered out) (djo_job_ids out) reason)], s)))"

definition requeue_dead_letters ::
    "codec \<Rightarrow> ('db, 's) channel \<Rightarrow> str \<Rightarrow> str list \<Rightarrow> str option \<Rightarrow> 's \<Rightarrow> 's acted" where
  "requeue_dead_letters K ch name keys_b64 reason s =
     (case decode_keys K keys_b64 of
        Inl e \<Rightarrow> (Inl e, [], s)
      | Inr keys \<Rightarrow>
          (case call (storage_requeue_dead_letters ch name keys s) of
             (Inl e, s) \<Rightarrow> (Inl e, [], s)
           | (Inr out, s) \<Rightarrow>
               (Inr (bulk_reply K ''requeued'' (ro_requeued out) (ro_missing out)),
                [(''dead_letters.requeue'', bulk_details K name ''requeued'' (ro_requeued out) (ro_job_ids out) reason)], s)))"

definition delete_dead_letters ::
    "codec \<Rightarrow> ('db, 's) channel \<Rightarrow> str \<Rightarrow> str list \<Rightarrow> str option \<Rightarrow> 's \<Rightarrow> 's acted" where
  "delete_dead_letters K ch name keys_b64 reason s =
     (case decode_keys K keys_b64 of
        Inl e \<Rightarrow> (Inl e, [], s)
      | Inr keys \<Rightarrow>
          (case call (storage_delete_dead_letters ch name keys s) of
             (Inl e, s) \<Rightarrow> (Inl e, [], s)
           | (Inr out, s) \<Rightarrow>
               (Inr (bulk_reply K ''deleted'' (do_deleted out) (do_missing out)),
                [(''dead_letters.delete'', bulk_details K name ''deleted'' (do_deleted out) (do_job_ids out) reason)], s)))"

section \<open>Deleting a queue\<close>

definition PURGE_CHUNK :: nat where
  "PURGE_CHUNK = 1000"

definition purge_error :: "status \<Rightarrow> route_error" where
  "purge_error st =
     (if st_code st = FailedPrecondition then RouteError_new 409 ''inflight'' (Text (st_message st)) else from_status st)"

text \<open>The loop may go on as long as entries of the queue remain; not to return is \<open>None\<close>.\<close>

partial_function (option) drain_loop ::
    "('db, 's) channel \<Rightarrow> str \<Rightarrow> u64 \<Rightarrow> 's \<Rightarrow> ((route_error + u64) \<times> 's) option" where
  "drain_loop ch name purged s =
     (case storage_purge_queue_chunk ch name PURGE_CHUNK s of
        (Inl st, s) \<Rightarrow> Some (Inl (purge_error st), s)
      | (Inr outcome, s) \<Rightarrow>
          (let purged = purged + po_purged outcome
           in if \<not> po_remaining outcome then Some (Inr purged, s)
              else (case storage_close_queue ch name s of
                      (Inl st, s) \<Rightarrow> Some (Inl (from_status st), s)
                    | (Inr _, s) \<Rightarrow> drain_loop ch name purged s)))"

definition drain_queue ::
    "('db, 's) channel \<Rightarrow> str \<Rightarrow> bool \<Rightarrow> 's \<Rightarrow> ((route_error + u64) \<times> 's) option" where
  "drain_queue ch name purge s =
     (case call (storage_queue_depths ch name s) of
        (Inl e, s) \<Rightarrow> Some (Inl e, s)
      | (Inr depths, s) \<Rightarrow>
          if qd_inflight depths > 0
          then Some (Inl (RouteError_new 409 ''inflight'' (Text ''queue has in-flight jobs'')), s)
          else if \<not> purge \<and> (qd_ready depths > 0 \<or> qd_scheduled depths > 0 \<or> qd_dead_letter depths > 0)
          then Some (Inl (RouteError_new 409 ''not_empty'' (Text ''queue holds jobs; pass purge=true to delete them'')), s)
          else drain_loop ch name 0 s)"

text \<open>
  The handler checks the etag, closes the queue, empties it, opens it again whatever came of that, and
  then takes the queue out of the file. Its answer is the number of entries purged and the etag.
\<close>

definition delete_precheck :: "'t config_env \<Rightarrow> file_faults \<Rightarrow> str option \<Rightarrow> config_file \<Rightarrow> route_error + str" where
  "delete_precheck env faults if_match file =
     try_then (require_if_match if_match) (\<lambda>presented.
     try_then (read_config_file faults file) (\<lambda>current.
     try_then (check_etag env current presented) (\<lambda>_. Inr current)))"

definition finish_deletion ::
    "('t, 'i, 'v) toml \<Rightarrow> 't config_env \<Rightarrow> codec \<Rightarrow> config \<Rightarrow> observation list \<Rightarrow> file_faults \<Rightarrow> str \<Rightarrow> str \<Rightarrow> route_error + u64
       \<Rightarrow> config_file \<Rightarrow> (route_error + u64 \<times> str) \<times> audit_note list \<times> config_file" where
  "finish_deletion T env K running observed faults name current drained file =
     (case try_then drained (\<lambda>purged. try_then (parse_doc env current) (\<lambda>doc. Inr (purged, doc))) of
        Inl e \<Rightarrow> (Inl e, [], file)
      | Inr (purged, doc) \<Rightarrow>
          (let (removed, doc) = remove_queue T doc name;
               (written, file) =
                 (if removed
                  then (let (r, file) = validate_and_write env running observed faults doc file
                        in (map_sum id cr_etag r, file))
                  else (Inr (sha256_hex (ce_sha256 env) current), file))
           in case written of
                Inl e \<Rightarrow> (Inl e, [], file)
              | Inr etag \<Rightarrow>
                  (Inr (purged, etag),
                   [(''queue.delete'', JObject [(''queue'', JString name), (''purged'', json_int K (int purged))])], file)))"

definition delete_queue ::
    "('t, 'i, 'v) toml \<Rightarrow> 't config_env \<Rightarrow> codec \<Rightarrow> ('db, 's) channel \<Rightarrow> config \<Rightarrow> observation list \<Rightarrow> file_faults \<Rightarrow> str \<Rightarrow> bool option
       \<Rightarrow> str option \<Rightarrow> config_file \<Rightarrow> 's \<Rightarrow> (((route_error + u64 \<times> str) \<times> audit_note list \<times> config_file) \<times> 's) option" where
  "delete_queue T env K ch running observed faults name purge if_match file s =
     (case delete_precheck env faults if_match file of
        Inl e \<Rightarrow> Some ((Inl e, [], file), s)
      | Inr current \<Rightarrow>
          (case call (storage_close_queue ch name s) of
             (Inl e, s) \<Rightarrow> Some ((Inl e, [], file), s)
           | (Inr _, s) \<Rightarrow>
               (case drain_queue ch name (unwrap_or purge False) s of
                  None \<Rightarrow> None
                | Some (drained, s) \<Rightarrow>
                    (let s = snd (storage_open_queue ch name s)
                     in Some (finish_deletion T env K running observed faults name current drained file, s)))))"

section \<open>The audit entry of an action\<close>

definition store_audit :: "codec \<Rightarrow> auth_ctx \<Rightarrow> audit_note \<Rightarrow> audit_record" where
  "store_audit K ctx entry =
     \<lparr>au_actor = actor ctx, au_role = role_display (cx_role ctx), au_action = fst entry, au_details_json = json_text K (snd entry)\<rparr>"

definition run_audit :: "codec \<Rightarrow> ('db, 's) channel \<Rightarrow> auth_ctx \<Rightarrow> audit_note \<Rightarrow> 's \<Rightarrow> str option \<times> 's" where
  "run_audit K ch ctx entry s =
     (case storage_append_audit ch (store_audit K ctx entry) s of
        (Inr e, s) \<Rightarrow> (Some (json_text K (audit_json K e)), s)
      | (Inl _, s) \<Rightarrow> (None, s))"

end
