(* ===== verification/Drain.thy ===== *)
theory Drain
  imports Admin_Routes Linearize
begin

text \<open>
  Emptying a queue ends (\<open>drain_queue\<close> of \<open>src/admin/routes.rs\<close>): every chunk that leaves something
  behind has removed a thousand entries, and as long as nobody enqueues, nothing else adds any.
\<close>

section \<open>Counting entries\<close>

definition fmsize :: "('k, 'v) fmap \<Rightarrow> nat" where
  "fmsize m = card (fmdom' m)"

definition entries :: "abs_queue \<Rightarrow> nat" where
  "entries A = fmsize (a_jobs A) + fmsize (a_dead A) + fmsize (a_dedup A)"

lemma fmsize_upd: "fmsize (fmupd k v m) = (if fmlookup m k = None then Suc (fmsize m) else fmsize m)"
  by (auto simp: fmsize_def card_insert_if fmlookup_dom'_iff)

lemma fmsize_drop: "fmlookup m k = Some v \<Longrightarrow> fmsize m = Suc (fmsize (fmdrop k m))"
  by (metis card_Suc_Diff1 finite_fmdom' fmdom'_drop fmdom'I fmsize_def)

lemma astep_entries:
  "astep A e B \<Longrightarrow> \<forall>j. e \<noteq> Enqueued j \<Longrightarrow> \<forall>k. e \<noteq> DedupSet k \<Longrightarrow> entries B \<le> entries A"
  by (induction rule: astep.induct)
    (auto simp: entries_def kill_def fmsize_upd dest: fmsize_drop split: option.splits)

lemma arun_entries: "arun A es B \<Longrightarrow> enqueues_only [] es \<Longrightarrow> entries B \<le> entries A"
proof (induction rule: arun.induct)
  case (arun_Cons A e B es C)
  then have "enqueues_only [] es" "\<forall>j. e \<noteq> Enqueued j" "\<forall>k. e \<noteq> DedupSet k" by (auto simp: enqueues_only_def)
  with arun_Cons astep_entries [OF arun_Cons(1)] show ?case by (meson le_trans)
qed simp

lemma arun_purge_entries: "arun A es B \<Longrightarrow> list_all purge_event es \<Longrightarrow> entries A = entries B + length es"
proof (induction rule: arun.induct)
  case (arun_Cons A e B es C)
  have "entries A = Suc (entries B)"
    using arun_Cons(1,4)
    by (cases rule: astep.cases)
      (auto simp: purge_event_def entries_def dest: fmsize_drop)
  with arun_Cons show ?case by simp
qed simp

section \<open>The loop\<close>

lemma finish_deletion_result:
  assumes "finish_deletion T env K running observed faults name current drained file = (r, notes, file')"
  shows "case r of Inl _ \<Rightarrow> notes = [] | Inr (n, etag) \<Rightarrow> drained = Inr n \<and> length notes = 1"
proof (cases "try_then drained (\<lambda>purged. try_then (parse_doc env current) (\<lambda>doc. Inr (purged, doc)))")
  case (Inl e)
  with assms show ?thesis by (auto simp: finish_deletion_def)
next
  case (Inr x)
  then have "drained = Inr (fst x)" by auto
  with assms Inr show ?thesis by (cases x) (auto simp: finish_deletion_def Let_def split: prod.splits sum.splits if_splits)
qed

text \<open>Other clients do as they like, but enqueue nothing.\<close>

definition nobody_enqueues :: "(nat \<Rightarrow> turn_env) \<Rightarrow> bool" where
  "nobody_enqueues env \<longleftrightarrow> (\<forall>n. clock_ok (te_clock (env n))
     \<and> list_all (\<lambda>c. cmd_ok c \<and> cmd_ids c = []) (te_before (env n) @ te_after (env n)))"

lemma nobody_enqueues_turn:
  assumes "nobody_enqueues env" and "op_ok op" and "op_ids op = []"
  shows "turn_ok env op w A" "concat (map cmd_ids (others env w)) = []"
proof -
  have "list_all (\<lambda>c. cmd_ok c \<and> cmd_ids c = []) (others env w)" "clock_ok (te_clock (env (w_tick w)))"
    using assms(1) unfolding nobody_enqueues_def others_def by blast+
  moreover from this(1) show none: "concat (map cmd_ids (others env w)) = []" by (simp add: list_all_iff)
  ultimately show "turn_ok env op w A" using assms(2,3) unfolding turn_ok_def none by (simp add: unused_def list_all_iff)
qed

context reliable_storage
begin

lemma trip_entries:
  assumes rep: "represents P (dbv (co_db (w_committer w))) (co_ix (w_committer w)) A" and env: "nobody_enqueues env"
    and op: "op_ok op" "op_ids op = []"
    and trip: "ch_op (committer_channel P E params env) op w = (Inr out, w')"
  obtains B s s' where "reps s B" "apply_op P E (stamp (turn_now env w) op) s = (Inr out, s')" "entries B \<le> entries A"
    "\<And>B'. reps s' B' \<Longrightarrow> \<exists>C. represents P (dbv (co_db (w_committer w'))) (co_ix (w_committer w')) C \<and> entries C \<le> entries B'"
proof -
  note turn = nobody_enqueues_turn [OF env op]
  obtain es B s s' where L: "arun A es B" "enqueues_only [] es" "represents P (txv (st_tx s)) (st_ix s) B"
    "apply_op P E (stamp (turn_now env w) op) s = (Inr out, s')"
    "\<forall>B'. represents P (txv (st_tx s')) (st_ix s') B' \<longrightarrow> (\<exists>fs C. arun B' fs C \<and> enqueues_only [] fs
        \<and> represents P (dbv (co_db (w_committer w'))) (co_ix (w_committer w')) C)"
    using round_trip_linearizes [OF rep turn(1) trip] unfolding turn(2) by blast
  show thesis
  proof (rule that)
    show "reps s B" using L(3) by (simp add: reps_def)
    show "apply_op P E (stamp (turn_now env w) op) s = (Inr out, s')" by (rule L(4))
    show "entries B \<le> entries A" by (rule arun_entries [OF L(1,2)])
    show "\<exists>C. represents P (dbv (co_db (w_committer w'))) (co_ix (w_committer w')) C \<and> entries C \<le> entries B'"
      if "reps s' B'" for B'
      using L(5) that arun_entries unfolding reps_def by blast
  qed
qed

lemma purge_trip:
  assumes rep: "represents P (dbv (co_db (w_committer w))) (co_ix (w_committer w)) A" and env: "nobody_enqueues env"
    and q: "length q < 65536"
    and trip: "storage_purge_queue_chunk (committer_channel P E params env) q mx w = (Inr po, w')"
  shows "\<exists>C. represents P (dbv (co_db (w_committer w'))) (co_ix (w_committer w')) C \<and> entries C + po_purged po \<le> entries A
    \<and> (po_remaining po \<longrightarrow> po_purged po = min (max mx 1) PURGE_CHUNK_MAX)"
proof -
  let ?op = "OpPurgeQueueChunk q (min (max mx 1) PURGE_CHUNK_MAX)"
  have op: "ch_op (committer_channel P E params env) ?op w = (Inr (OutPurgeQueueChunk po), w')"
    using trip by (auto simp: storage_purge_queue_chunk_def send_op_def split: prod.splits sum.splits option.splits elim!: as_purge.elims)
  obtain B s s' where L: "reps s B" "apply_op P E (stamp (turn_now env w) ?op) s = (Inr (OutPurgeQueueChunk po), s')"
    "entries B \<le> entries A"
    "\<And>B'. reps s' B' \<Longrightarrow> \<exists>C. represents P (dbv (co_db (w_committer w'))) (co_ix (w_committer w')) C \<and> entries C \<le> entries B'"
    by (rule trip_entries [OF rep env _ _ op]) (use q in auto)
  have run: "apply_purge_queue_chunk E q (min (max mx 1) PURGE_CHUNK_MAX) s = (Inr po, s')"
    using L(2) by (auto simp: wrap_Inr)
  have free: "\<not> in_flight B q" using run apply_purge_refused [OF L(1), of q] by auto
  from apply_purge_refines [OF L(1) q free run] obtain es B' where
    p: "arun B es B'" "list_all purge_event es" "reps s' B'" "po = \<lparr>po_purged = length es, po_remaining = has_entries B' q\<rparr>"
      "has_entries B' q \<longrightarrow> length es = min (max mx 1) PURGE_CHUNK_MAX" by auto
  from L(4) [OF p(3)] obtain C where
    C: "represents P (dbv (co_db (w_committer w'))) (co_ix (w_committer w')) C" "entries C \<le> entries B'" by blast
  with arun_purge_entries [OF p(1,2)] L(3) p(4,5) show ?thesis by (intro exI [of _ C]) simp
qed

text \<open>Any other round trip.\<close>

lemma trip_keeps:
  assumes rep: "represents P (dbv (co_db (w_committer w))) (co_ix (w_committer w)) A" and env: "nobody_enqueues env"
    and cmd: "\<And>r. cmd_ok (cmd_of r)" "\<And>r. cmd_ids (cmd_of r) = []"
    and trip: "round_trip P E params env cmd_of w = (Inr ans, w')"
  shows "\<exists>C. represents P (dbv (co_db (w_committer w'))) (co_ix (w_committer w')) C \<and> entries C \<le> entries A"
proof -
  define te where "te = env (w_tick w)"
  define me where "me = fresh_responder (te_before te @ te_after te)"
  let ?rpcs = "te_before te @ cmd_of me # te_after te"
  obtain c r1 where s1: "sweep_turn P E params (te_clock te) (w_committer w) = (c, r1)" by fastforce
  obtain c' r2 where s2: "rpc_turn P E params (te_clock te) ?rpcs c = (c', r2)" by fastforce
  have np: "\<not> panicked r1" "\<not> panicked r2" "w_committer w' = c'"
    using trip s1 s2
    by (auto simp: round_trip_def Let_def te_def [symmetric] me_def [symmetric] split: if_splits option.splits prod.splits)
  have te: "clock_ok (te_clock te)" "list_all (\<lambda>c. cmd_ok c \<and> cmd_ids c = []) (te_before te @ te_after te)"
    using env unfolding nobody_enqueues_def te_def by blast+
  then have ids: "concat (map cmd_ids ?rpcs) = []" and ok: "list_all cmd_ok ?rpcs" using cmd by (auto simp: list_all_iff)
  from sweep_turn_refines [OF rep te(1) s1 np(1)] obtain es B where
    B: "arun A es B" "enqueues_only [] es" "represents P (dbv (co_db c)) (co_ix c) B" by blast
  have "batch_ok B ?rpcs" using ok ids unfolding batch_ok_def ids by (simp add: unused_def)
  from rpc_turn_refines [OF B(3) te(1) this s2 np(2)] obtain fs C where
    C: "arun B fs C" "enqueues_only [] fs" "represents P (dbv (co_db c')) (co_ix c') C" unfolding ids by blast
  have "entries C \<le> entries A" using arun_entries [OF B(1,2)] arun_entries [OF C(1,2)] by simp
  with C(3) np(3) show ?thesis by blast
qed

lemma close_trip:
  assumes "represents P (dbv (co_db (w_committer w))) (co_ix (w_committer w)) A" and "nobody_enqueues env" and "utf8_valid q"
    and trip: "storage_close_queue (committer_channel P E params env) q w = (Inr u, w')"
  shows "\<exists>C. represents P (dbv (co_db (w_committer w'))) (co_ix (w_committer w')) C \<and> entries C \<le> entries A"
proof -
  have "\<exists>ans. round_trip P E params env (CmdOp (OpCloseQueue q 0 CLOSE_GRACE_MS)) w = (Inr ans, w')"
    using trip by (auto simp: storage_close_queue_def send_op_def committer_channel_def split: prod.splits sum.splits answer.splits)
  with trip_keeps [OF assms(1,2), of "CmdOp (OpCloseQueue q 0 CLOSE_GRACE_MS)"] assms(3) show ?thesis by auto
qed

lemma depths_trip:
  assumes "represents P (dbv (co_db (w_committer w))) (co_ix (w_committer w)) A" and "nobody_enqueues env"
    and trip: "storage_queue_depths (committer_channel P E params env) q w = (Inr d, w')"
  shows "\<exists>C. represents P (dbv (co_db (w_committer w'))) (co_ix (w_committer w')) C \<and> entries C \<le> entries A"
proof -
  have "\<exists>ans. round_trip P E params env (CmdQueueDepths q) w = (Inr ans, w')"
    using trip by (auto simp: storage_queue_depths_def committer_channel_def split: prod.splits sum.splits answer.splits)
  with trip_keeps [OF assms(1,2), of "CmdQueueDepths q"] show ?thesis by auto
qed

lemma drain_loop_ends:
  assumes "represents P (dbv (co_db (w_committer w))) (co_ix (w_committer w)) A" and env: "nobody_enqueues env"
    and q: "length q < 65536" "utf8_valid q"
  shows "\<exists>r w'. drain_loop (committer_channel P E params env) q purged w = Some (r, w')
    \<and> (\<forall>n. r = Inr n \<longrightarrow> n \<le> purged + entries A)"
  using assms(1)
proof (induction "entries A" arbitrary: A w purged rule: less_induct)
  case less
  let ?ch = "committer_channel P E params env"
  obtain r1 w1 where p: "storage_purge_queue_chunk ?ch q PURGE_CHUNK w = (r1, w1)" by fastforce
  show ?case
  proof (cases r1)
    case (Inl st)
    with p show ?thesis by (subst drain_loop.simps) simp
  next
    case (Inr po)
    from purge_trip [OF less.prems env q(1) p [unfolded Inr]] obtain B where
      B: "represents P (dbv (co_db (w_committer w1))) (co_ix (w_committer w1)) B" "entries B + po_purged po \<le> entries A"
      and rem: "po_remaining po \<longrightarrow> po_purged po = 1000" by (auto simp: PURGE_CHUNK_def PURGE_CHUNK_MAX_def)
    show ?thesis
    proof (cases "po_remaining po")
      case False
      with p Inr B(2) show ?thesis by (subst drain_loop.simps) simp
    next
      case True
      obtain r2 w2 where c: "storage_close_queue ?ch q w1 = (r2, w2)" by fastforce
      show ?thesis
      proof (cases r2)
        case (Inl st)
        with True p Inr c show ?thesis by (subst drain_loop.simps) (simp add: Let_def)
      next
        case r2: (Inr u)
        from close_trip [OF B(1) env q(2) c [unfolded r2]] obtain C where
          C: "represents P (dbv (co_db (w_committer w2))) (co_ix (w_committer w2)) C" "entries C \<le> entries B" by blast
        have "entries C < entries A" using C(2) B(2) rem True by simp
        from less.hyps [OF this C(1), of "purged + po_purged po"] obtain r w' where
          "drain_loop ?ch q (purged + po_purged po) w2 = Some (r, w')"
          "\<forall>n. r = Inr n \<longrightarrow> n \<le> purged + po_purged po + entries C" by blast
        with True p Inr c r2 C(2) B(2) show ?thesis by (subst drain_loop.simps) (auto simp: Let_def)
      qed
    qed
  qed
qed

lemma drain_queue_ends:
  assumes "represents P (dbv (co_db (w_committer w))) (co_ix (w_committer w)) A" and "nobody_enqueues env"
    and "length q < 65536" and "utf8_valid q"
  shows "\<exists>r w'. drain_queue (committer_channel P E params env) q purge w = Some (r, w') \<and> (\<forall>n. r = Inr n \<longrightarrow> n \<le> entries A)"
proof -
  let ?ch = "committer_channel P E params env"
  obtain r1 w1 where d: "storage_queue_depths ?ch q w = (r1, w1)" by fastforce
  show ?thesis
  proof (cases r1)
    case (Inl st)
    with d show ?thesis by (simp add: drain_queue_def call_def map_err_def)
  next
    case (Inr depths)
    from depths_trip [OF assms(1,2) d [unfolded Inr]] obtain C where
      C: "represents P (dbv (co_db (w_committer w1))) (co_ix (w_committer w1)) C" "entries C \<le> entries A" by blast
    from drain_loop_ends [OF C(1) assms(2-4), of params 0] C(2) d Inr show ?thesis
      by (auto simp: drain_queue_def call_def map_err_def intro: le_trans)
  qed
qed

end

end
