(* ===== verification/Route_Properties.thy ===== *)
theory Route_Properties
  imports Drain Service_Properties Config_Properties
begin

text \<open>
  The properties of the handlers of the admin interface that work on queues and jobs
  (\<open>src/admin/routes.rs\<close>).
\<close>

section \<open>Deleting a queue\<close>




end
