(* ===== verification/Replay.thy ===== *)
theory Replay
  imports Server_Loop Mem_Engine
begin

text \<open>
  Replaying a recorded stream of operations, the contract of \<open>src/storage/replay_tests.rs\<close>: an operation
  carries everything its apply function needs, so what it does depends on the rows and the indexes
  alone and not on the engine that holds the rows, the parameters of the node or whether metrics are
  collected. \<open>plain\<close> forgets all of these; every apply function commutes with it.
\<close>

section \<open>Forgetting the engine\<close>

text \<open>
  A cycle continued after another one has what both did; the metrics are dropped.
\<close>

definition plain_cycle :: "cycle \<Rightarrow> cycle \<Rightarrow> cycle" where
  "plain_cycle c0 c = \<lparr>cy_dirty = (cy_dirty c \<or> cy_dirty c0), cy_new_ready = cy_new_ready c |\<union>| cy_new_ready c0,
     cy_metrics = None\<rparr>"

definition plain :: "cycle \<Rightarrow> ('tx \<Rightarrow> rows) \<Rightarrow> 'tx st \<Rightarrow> rows st" where
  "plain c0 txv s = \<lparr>st_ix = st_ix s, st_tx = txv (st_tx s), st_cyc = plain_cycle c0 (st_cyc s)\<rparr>"

definition plain_result :: "cycle \<Rightarrow> ('tx \<Rightarrow> rows) \<Rightarrow> 'r \<times> 'tx st \<Rightarrow> 'r \<times> rows st" where
  "plain_result c0 txv r = (case r of (x, s) \<Rightarrow> (x, plain c0 txv s))"

named_theorems plain_simps \<open>apply functions commute with forgetting the engine\<close>

lemma plain_result_pair [plain_simps]: "plain_result c0 txv (x, s) = (x, plain c0 txv s)"
  by (simp add: plain_result_def)

lemma plain_result_case [plain_simps]:
  "(case plain_result c0 txv r of (x, s) \<Rightarrow> g x s) = (case r of (x, s) \<Rightarrow> g x (plain c0 txv s))"
  by (cases r) (simp add: plain_result_def)

lemma plain_ix [plain_simps]: "st_ix (plain c0 txv s) = st_ix s"
  by (simp add: plain_def)

lemma plain_on [plain_simps]:
  "on_ready f (plain c0 txv s) = plain c0 txv (on_ready f s)"
  "on_scheduled g (plain c0 txv s) = plain c0 txv (on_scheduled g s)"
  "on_leases g (plain c0 txv s) = plain c0 txv (on_leases g s)"
  "on_dedup_timers g (plain c0 txv s) = plain c0 txv (on_dedup_timers g s)"
  "on_dead_letter g (plain c0 txv s) = plain c0 txv (on_dead_letter g s)"
  "on_closing h (plain c0 txv s) = plain c0 txv (on_closing h s)"
  "mark_dirty (plain c0 txv s) = plain c0 txv (mark_dirty s)"
  "new_ready q (plain c0 txv s) = plain c0 txv (new_ready q s)"
  by (simp_all add: plain_def plain_cycle_def st_defs)

lemma plain_count [plain_simps]:
  "on_cycle (enqueued q) (plain c0 txv s) = plain c0 txv (on_cycle (enqueued q) s)"
  "on_cycle (reserved q) (plain c0 txv s) = plain c0 txv (on_cycle (reserved q) s)"
  "on_cycle (acked q) (plain c0 txv s) = plain c0 txv (on_cycle (acked q) s)"
  "on_cycle (nacked q) (plain c0 txv s) = plain c0 txv (on_cycle (nacked q) s)"
  "on_cycle (deduplicated q) (plain c0 txv s) = plain c0 txv (on_cycle (deduplicated q) s)"
  "on_cycle (queue_purged q) (plain c0 txv s) = plain c0 txv (on_cycle (queue_purged q) s)"
  "on_cycle (dead_lettered q cause) (plain c0 txv s) = plain c0 txv (on_cycle (dead_lettered q cause) s)"
  "on_cycle (sweep_promotion q) (plain c0 txv s) = plain c0 txv (on_cycle (sweep_promotion q) s)"
  "on_cycle (sweep_lease_redelivery q) (plain c0 txv s) = plain c0 txv (on_cycle (sweep_lease_redelivery q) s)"
  "on_cycle (sweep_dedup_expiration q) (plain c0 txv s) = plain c0 txv (on_cycle (sweep_dedup_expiration q) s)"
  "on_cycle (dead_letter_expired n) (plain c0 txv s) = plain c0 txv (on_cycle (dead_letter_expired n) s)"
  "on_cycle (dead_letter_drained n) (plain c0 txv s) = plain c0 txv (on_cycle (dead_letter_drained n) s)"
  by (simp_all add: plain_def plain_cycle_def on_cycle_def metric_defs)

context reliable_engine
begin

lemma plain_tx [plain_simps]: "tx_get mem_engine (st_tx (plain c0 txv s)) ks k = tx_get E (st_tx s) ks k"
  by (simp add: plain_def mem_engine_def get_eq)

lemma plain_put [plain_simps]: "put mem_engine ks k v (plain c0 txv s) = plain c0 txv (put E ks k v s)"
  and plain_del [plain_simps]: "del mem_engine ks k (plain c0 txv s) = plain c0 txv (del E ks k s)"
  by (simp_all add: plain_def put_def del_def mem_engine_def view_simps)

lemmas plain_splits = sum.split option.split prod.split

section \<open>Settling\<close>

lemma plain_leased [plain_simps]: "leased P mem_engine j a (plain c0 txv s) = leased P E j a s"
  by (simp add: leased_def plain_simps)

lemma plain_ack [plain_simps]: "apply_ack P mem_engine j a (plain c0 txv s) = plain_result c0 txv (apply_ack P E j a s)"
  by (simp add: apply_ack_def plain_simps Let_def split: plain_splits)

lemma plain_read_dead [plain_simps]:
  "read_dead_letter_job P mem_engine (st_tx (plain c0 txv s)) j = read_dead_letter_job P E (st_tx s) j"
  by (simp add: read_dead_letter_job_def plain_simps split: plain_splits)

lemma plain_store_dead [plain_simps]:
  "maybe_store_dead_letter P mem_engine j meta en (plain c0 txv s) = plain_result c0 txv (maybe_store_dead_letter P E j meta en s)"
  by (simp add: maybe_store_dead_letter_def plain_simps Let_def split: plain_splits)

lemma plain_nack [plain_simps]:
  "apply_nack P mem_engine req delay en now (plain c0 txv s) = plain_result c0 txv (apply_nack P E req delay en now s)"
  by (simp add: apply_nack_def nack_dead_letter_def nack_retry_def plain_simps Let_def split: plain_splits)

lemma plain_extend [plain_simps]:
  "apply_extend P mem_engine req ms now (plain c0 txv s) = plain_result c0 txv (apply_extend P E req ms now s)"
  by (simp add: apply_extend_def plain_simps Let_def split: plain_splits)

section \<open>Dead letters\<close>

lemma plain_drain_take [plain_simps]:
  "drain_take P mem_engine ks out (plain c0 txv s) = plain_result c0 txv (drain_take P E ks out s)"
  by (induction ks arbitrary: out s) (simp_all add: plain_simps split: plain_splits)

lemma plain_drain [plain_simps]:
  "apply_drain P mem_engine q mx cap (plain c0 txv s) = plain_result c0 txv (apply_drain P E q mx cap s)"
  by (simp add: apply_drain_def plain_simps Let_def split: plain_splits)

lemma plain_requeue_one [plain_simps]:
  "requeue_one P mem_engine k j now (plain c0 txv s) = plain c0 txv (requeue_one P E k j now s)"
  by (simp add: requeue_one_def plain_simps Let_def split: option.split)

lemma plain_requeue_loop [plain_simps]:
  "requeue_loop P mem_engine q now out ks (plain c0 txv s) = plain_result c0 txv (requeue_loop P E q now out ks s)"
  by (induction ks arbitrary: out s) (simp_all add: plain_simps Let_def split: plain_splits)

lemma plain_dj [plain_simps]:
  "dj_target_of mem_engine q st k (plain c0 txv s) = dj_target_of E q st k s"
  "dj_attempt mem_engine st k (plain c0 txv s) = dj_attempt E st k s"
  "dj_drop_index st k (plain c0 txv s) = plain c0 txv (dj_drop_index st k s)"
  unfolding dj_target_of_def dj_attempt_def dj_drop_index_def plain_tx plain_ix plain_on by simp_all

lemma plain_dj_kill [plain_simps]:
  "dj_kill P mem_engine q st r en now k j (plain c0 txv s) = plain_result c0 txv (dj_kill P E q st r en now k j s)"
  by (simp add: dj_kill_def plain_simps Let_def split: plain_splits)

lemma plain_dj_loop [plain_simps]:
  "dead_letter_jobs_loop P mem_engine q st r en now out ks (plain c0 txv s) =
     plain_result c0 txv (dead_letter_jobs_loop P E q st r en now out ks s)"
  by (induction ks arbitrary: out s) (simp_all add: plain_simps Let_def split: plain_splits dj_target.split)

lemma plain_delete_loop [plain_simps]:
  "delete_loop mem_engine q out ks (plain c0 txv s) = plain_result c0 txv (delete_loop E q out ks s)"
  by (induction ks arbitrary: out s) (simp_all add: plain_simps)

section \<open>Enqueueing\<close>

lemma plain_check_dedup [plain_simps]:
  "check_dedup mem_engine req now (plain c0 txv s) = plain_result c0 txv (check_dedup E req now s)"
  by (simp add: check_dedup_def plain_simps Let_def split: plain_splits)

lemma plain_insert_job [plain_simps]:
  "insert_job P mem_engine pj now stale (plain c0 txv s) = plain_result c0 txv (insert_job P E pj now stale s)"
  by (simp add: insert_job_def insert_job_place_def insert_job_dedup_def plain_simps Let_def split: option.split)

lemma plain_enqueue_loop [plain_simps]:
  "enqueue_loop P mem_engine now out jobs (plain c0 txv s) = plain_result c0 txv (enqueue_loop P E now out jobs s)"
  by (induction jobs arbitrary: out s) (simp_all add: plain_simps Let_def split: plain_splits dedup_check.split)

lemma plain_atomic_loop [plain_simps]:
  "atomic_loop P mem_engine now out jobs (plain c0 txv s) = plain_result c0 txv (atomic_loop P E now out jobs s)"
  by (induction jobs arbitrary: out s) (simp_all add: plain_simps Let_def split: plain_splits dedup_check.split)

section \<open>Reserving\<close>

lemma plain_reserve_entry [plain_simps]:
  "reserve_entry P mem_engine le k a (plain c0 txv s) = plain_result c0 txv (reserve_entry P E le k a s)"
  by (simp add: reserve_entry_def reserve_lease_def reserve_purge_def plain_simps Let_def split: plain_splits)

lemma plain_reserve_queue [plain_simps]:
  "reserve_queue P mem_engine pre le mx jobs (plain c0 txv s) = plain_result c0 txv (reserve_queue P E pre le mx jobs s)"
proof (induction "card (fmdom' (ri_keys (ix_ready (st_ix s))))" arbitrary: jobs s rule: less_induct)
  case less
  show ?case
  proof (cases "ri_pop_front pre (ix_ready (st_ix s))")
    case None
    then show ?thesis by (simp add: reserve_queue.simps [of P] plain_simps)
  next
    case (Some x)
    then obtain k a rest where pop: "ri_pop_front pre (ix_ready (st_ix s)) = Some ((k, a), rest)" by (metis surj_pair)
    obtain r s' where e: "reserve_entry P E le k a (on_ready (\<lambda>_. rest) s) = (r, s')" by fastforce
    note IH = less [OF reserve_entry_smaller [OF pop e]]
    show ?thesis
      by (simp add: reserve_queue.simps [of P _ _ _ _ _ "plain c0 txv s"] reserve_queue.simps [of P _ _ _ _ _ s] plain_simps pop e IH
          split: plain_splits)
  qed
qed

lemma plain_reserve_queues [plain_simps]:
  "reserve_queues P mem_engine le mx qs jobs (plain c0 txv s) = plain_result c0 txv (reserve_queues P E le mx qs jobs s)"
  by (induction qs arbitrary: jobs s) (simp_all add: plain_simps split: plain_splits)

section \<open>Sweeping\<close>

lemma plain_sweep_closing [plain_simps]:
  "sweep_closing mem_engine now (plain c0 txv s) = plain c0 txv (sweep_closing E now s)"
proof -
  have "foldl (\<lambda>s (q, _). mark_dirty (del mem_engine Meta (closing_key q) s)) (plain c0 txv s) qs =
      plain c0 txv (foldl (\<lambda>s (q, _). mark_dirty (del E Meta (closing_key q) s)) s qs)" for qs :: "(str \<times> i64) list"
    by (induction qs arbitrary: s) (auto simp: plain_simps)
  then show ?thesis by (simp add: sweep_closing_def plain_simps Let_def)
qed

lemma plain_promote [plain_simps]:
  "promote_entry P mem_engine k (plain c0 txv s) = plain_result c0 txv (promote_entry P E k s)"
  by (simp add: promote_entry_def plain_simps Let_def split: plain_splits)

lemma plain_sweep_scheduled [plain_simps]:
  "sweep_scheduled P mem_engine now n n0 (plain c0 txv s) = plain_result c0 txv (sweep_scheduled P E now n n0 s)"
  by (induction n arbitrary: n0 s) (simp_all add: plain_simps split: plain_splits)

lemma plain_lease_entry [plain_simps]:
  "lease_entry P mem_engine now en k (plain c0 txv s) = plain_result c0 txv (lease_entry P E now en k s)"
  by (simp add: lease_entry_def expire_dead_letter_def expire_redeliver_def plain_simps Let_def split: plain_splits)

lemma plain_sweep_leases [plain_simps]:
  "sweep_leases P mem_engine now en n n0 (plain c0 txv s) = plain_result c0 txv (sweep_leases P E now en n n0 s)"
  by (induction n arbitrary: n0 s) (simp_all add: plain_simps split: plain_splits)

lemma plain_dedup_entry [plain_simps]:
  "dedup_entry mem_engine now k q (plain c0 txv s) = plain_result c0 txv (dedup_entry E now k q s)"
  by (simp add: dedup_entry_def plain_simps Let_def split: plain_splits)

lemma plain_sweep_dedup [plain_simps]:
  "sweep_dedup mem_engine now n n0 (plain c0 txv s) = plain_result c0 txv (sweep_dedup E now n n0 s)"
  by (induction n arbitrary: n0 s) (simp_all add: plain_simps split: plain_splits)

lemma plain_sweep_retention [plain_simps]:
  "sweep_retention mem_engine cutoff n n0 (plain c0 txv s) = plain_result c0 txv (sweep_retention E cutoff n n0 s)"
  by (induction n arbitrary: n0 s) (simp_all add: plain_simps split: plain_splits)

lemma plain_sweep [plain_simps]:
  "apply_sweep P mem_engine now budget cutoff en (plain c0 txv s) = plain_result c0 txv (apply_sweep P E now budget cutoff en s)"
  by (simp add: apply_sweep_def plain_simps Let_def split: plain_splits)

section \<open>Administration\<close>

lemma plain_purge_ready [plain_simps]:
  "purge_ready mem_engine pre n n0 (plain c0 txv s) = plain_result c0 txv (purge_ready E pre n n0 s)"
  by (induction n arbitrary: n0 s) (simp_all add: plain_simps purge_ready_entry_def Let_def split: plain_splits)

lemma plain_purge_phase:
  assumes "\<And>s. index' (plain c0 txv s) = index s" and "\<And>k s. entry' k (plain c0 txv s) = plain c0 txv (entry k s)"
  shows "purge_phase index' entry' q mx (plain_result c0 txv ps) = plain_result c0 txv (purge_phase index entry q mx ps)"
proof -
  have "foldl (\<lambda>s k. entry' k s) (plain c0 txv s) ks = plain c0 txv (foldl (\<lambda>s k. entry k s) s ks)" for ks s
    by (induction ks arbitrary: s) (simp_all add: assms(2))
  then show ?thesis by (simp add: purge_phase_def plain_simps assms(1) Let_def split: prod.split)
qed

lemma plain_purge_entry [plain_simps]:
  "purge_scheduled_entry mem_engine k (plain c0 txv s) = plain c0 txv (purge_scheduled_entry E k s)"
  "purge_dead_letter_entry mem_engine k (plain c0 txv s) = plain c0 txv (purge_dead_letter_entry E k s)"
  "purge_dedup_entry mem_engine k (plain c0 txv s) = plain c0 txv (purge_dedup_entry E k s)"
  by (simp_all add: purge_scheduled_entry_def purge_dead_letter_entry_def purge_dedup_entry_def plain_simps Let_def split: option.split)

lemma plain_purge_chunk [plain_simps]:
  "apply_purge_queue_chunk mem_engine q mx (plain c0 txv s) = plain_result c0 txv (apply_purge_queue_chunk E q mx s)"
  by (simp add: apply_purge_queue_chunk_def plain_simps Let_def
      plain_purge_phase [where index' = "\<lambda>s. ix_scheduled (st_ix s)" and index = "\<lambda>s. ix_scheduled (st_ix s)"]
      plain_purge_phase [where index' = "\<lambda>s. ix_dead_letter (st_ix s)" and index = "\<lambda>s. ix_dead_letter (st_ix s)"]
      plain_purge_phase [where index' = "\<lambda>s. ix_dedup_timers (st_ix s)" and index = "\<lambda>s. ix_dedup_timers (st_ix s)"] split: prod.split)

lemma plain_close_open [plain_simps]:
  "apply_close_queue mem_engine q now grace (plain c0 txv s) = plain c0 txv (apply_close_queue E q now grace s)"
  "apply_open_queue mem_engine q (plain c0 txv s) = plain c0 txv (apply_open_queue E q s)"
  by (simp_all add: apply_close_queue_def apply_open_queue_def plain_simps Let_def)

lemma plain_audit [plain_simps]:
  "apply_audit_append P mem_engine r now (plain c0 txv s) = plain_result c0 txv (apply_audit_append P E r now s)"
  by (simp add: apply_audit_append_def plain_simps Let_def split: plain_splits)

lemma plain_op: "apply_op P mem_engine op (plain c0 txv s) = plain_result c0 txv (apply_op P E op s)"
  by (cases op) (simp_all add: wrap_def apply_enqueue_def apply_enqueue_atomic_def apply_reserve_def apply_requeue_dead_letters_def
      apply_dead_letter_jobs_def apply_delete_dead_letters_def plain_simps Let_def split: plain_splits)

end

section \<open>The replay harness\<close>

text \<open>
  \<open>Harness\<close> of \<open>replay_tests.rs\<close>: a store with its parameters and indexes, without a committer. An
  internal error or a failed commit is a panic of the harness, here \<open>None\<close>.
\<close>

record 'db harness =
  hn_db :: 'db
  hn_params :: storage_params
  hn_indexes :: indexes

definition harness_open :: "prost \<Rightarrow> ('db, 'tx) engine \<Rightarrow> 'db \<Rightarrow> storage_params \<Rightarrow> 'db harness option" where
  "harness_open P E db params =
     (case rebuild_indexes P E db of
        Inl _ \<Rightarrow> None
      | Inr ix \<Rightarrow> Some \<lparr>hn_db = db, hn_params = params, hn_indexes = ix\<rparr>)"

definition is_internal :: "status + 'a \<Rightarrow> bool" where
  "is_internal r = (case r of Inl e \<Rightarrow> st_code e = Internal | Inr _ \<Rightarrow> False)"

definition harness_apply ::
    "prost \<Rightarrow> ('db, 'tx) engine \<Rightarrow> op \<Rightarrow> 'db harness \<Rightarrow> ((status + op_outcome) \<times> 'db harness) option" where
  "harness_apply P E op h =
     (case apply_op P E op \<lparr>st_ix = hn_indexes h, st_tx = write_tx E (hn_db h), st_cyc = Cycle_new False\<rparr> of
        (result, s) \<Rightarrow>
          if is_internal result then None
          else if cy_dirty (st_cyc s)
          then (case tx_commit E (hn_db h) (st_tx s) of
              (Inl _, _) \<Rightarrow> None
            | (Inr _, db) \<Rightarrow> Some (result, h\<lparr>hn_db := db, hn_indexes := st_ix s\<rparr>))
          else Some (result, h\<lparr>hn_indexes := st_ix s\<rparr>))"

fun harness_run ::
    "prost \<Rightarrow> ('db, 'tx) engine \<Rightarrow> op list \<Rightarrow> 'db harness \<Rightarrow> ((status + op_outcome) list \<times> 'db harness) option" where
  "harness_run P E [] h = Some ([], h)"
| "harness_run P E (op # ops) h =
     (case harness_apply P E op h of
        None \<Rightarrow> None
      | Some (r, h) \<Rightarrow> map_option (\<lambda>(rs, h). (r # rs, h)) (harness_run P E ops h))"

definition harness_replay ::
    "prost \<Rightarrow> ('db, 'tx) engine \<Rightarrow> 'db \<Rightarrow> storage_params \<Rightarrow> op list \<Rightarrow> ((status + op_outcome) list \<times> 'db harness) option" where
  "harness_replay P E db params ops =
     (case harness_open P E db params of None \<Rightarrow> None | Some h \<Rightarrow> harness_run P E ops h)"

lemma harness_run_append:
  "harness_run P E (xs @ ys) h = (case harness_run P E xs h of None \<Rightarrow> None
     | Some (rs, h) \<Rightarrow> map_option (\<lambda>(rs', h). (rs @ rs', h)) (harness_run P E ys h))"
  by (induction xs arbitrary: h) (auto simp: option.map_comp comp_def split_def option.map_ident split: option.split)

lemma harness_run_length: "harness_run P E ops h = Some (rs, h') \<Longrightarrow> length rs = length ops"
  by (induction ops arbitrary: h rs) (auto split: option.splits)

definition commits_succeed :: "('db, 'tx) engine \<Rightarrow> bool" where
  "commits_succeed E \<longleftrightarrow> (\<forall>db t. \<exists>u db'. tx_commit E db t = (Inr u, db'))"

text \<open>Two harnesses over any engines that hold the same rows under the same indexes.\<close>

definition twins :: "('db \<Rightarrow> rows) \<Rightarrow> ('e \<Rightarrow> rows) \<Rightarrow> 'db harness \<Rightarrow> 'e harness \<Rightarrow> bool" where
  "twins dbv dbv' h h' \<longleftrightarrow> dbv (hn_db h) = dbv' (hn_db h') \<and> hn_indexes h = hn_indexes h'"

text \<open>States with the same rows and indexes, one of them in the middle of a cycle, behave alike.\<close>

lemma same_op:
  assumes "reliable_engine E txv dbv" and "reliable_engine E' txv' dbv'"
    and "txv (st_tx s) = txv' (st_tx s')" and "st_ix s = st_ix s'" and "st_cyc s' = Cycle_new b"
    and "apply_op P E op s = (r, t)" and "apply_op P E' op s' = (r', t')"
  shows "r' = r" "st_ix t' = st_ix t" "txv' (st_tx t') = txv (st_tx t)"
    "cy_dirty (st_cyc t) = (cy_dirty (st_cyc t') \<or> cy_dirty (st_cyc s))"
proof -
  have "plain (Cycle_new False) txv s = plain (st_cyc s) txv' s'"
    using assms(3-5) by (simp add: plain_def plain_cycle_def Cycle_new_def)
  then have "plain_result (Cycle_new False) txv (r, t) = plain_result (st_cyc s) txv' (r', t')"
    using reliable_engine.plain_op [OF assms(1), of P op "Cycle_new False" s]
      reliable_engine.plain_op [OF assms(2), of P op "st_cyc s" s'] assms(6,7) by simp
  then show "r' = r" "st_ix t' = st_ix t" "txv' (st_tx t') = txv (st_tx t)"
    "cy_dirty (st_cyc t) = (cy_dirty (st_cyc t') \<or> cy_dirty (st_cyc s))"
    by (auto simp: plain_result_def plain_def plain_cycle_def Cycle_new_def)
qed

lemma harness_apply_twins:
  assumes E: "reliable_engine E txv dbv" "reliable_engine E' txv' dbv'"
    and c: "commits_succeed E" "commits_succeed E'" and tw: "twins dbv dbv' h h'"
  shows "rel_option (rel_prod (=) (twins dbv dbv')) (harness_apply P E op h) (harness_apply P E' op h')"
proof -
  let ?s = "\<lparr>st_ix = hn_indexes h, st_tx = write_tx E (hn_db h), st_cyc = Cycle_new False\<rparr>"
    and ?s' = "\<lparr>st_ix = hn_indexes h', st_tx = write_tx E' (hn_db h'), st_cyc = Cycle_new False\<rparr>"
  note law = reliable_engine.axioms(1) [OF E(1)] reliable_engine.axioms(1) [OF E(2)]
  obtain r t r' t' where a: "apply_op P E op ?s = (r, t)" "apply_op P E' op ?s' = (r', t')" by fastforce
  have "txv (st_tx ?s) = txv' (st_tx ?s')" "st_ix ?s = st_ix ?s'" "st_cyc ?s' = Cycle_new False"
    using tw engine_laws.write_tx_view [OF law(1)] engine_laws.write_tx_view [OF law(2)] by (simp_all add: twins_def)
  note same = same_op [OF E this a]
  obtain u db1 u' db1' where k: "tx_commit E (hn_db h) (st_tx t) = (Inr u, db1)" "tx_commit E' (hn_db h') (st_tx t') = (Inr u', db1')"
    using c unfolding commits_succeed_def by metis
  have "dbv db1 = txv (st_tx t)" "dbv' db1' = txv' (st_tx t')"
    using engine_laws.commit_ok [OF law(1) k(1)] engine_laws.commit_ok [OF law(2) k(2)] by simp_all
  moreover have "cy_dirty (st_cyc t) = cy_dirty (st_cyc t')" using same(4) by (simp add: Cycle_new_def)
  moreover have "harness_apply P E op h = (if is_internal r then None
      else Some (r, if cy_dirty (st_cyc t) then h\<lparr>hn_db := db1, hn_indexes := st_ix t\<rparr> else h\<lparr>hn_indexes := st_ix t\<rparr>))"
    "harness_apply P E' op h' = (if is_internal r' then None
      else Some (r', if cy_dirty (st_cyc t') then h'\<lparr>hn_db := db1', hn_indexes := st_ix t'\<rparr> else h'\<lparr>hn_indexes := st_ix t'\<rparr>))"
    by (simp_all add: harness_apply_def a k)
  ultimately show ?thesis using same(1-3) tw by (simp add: twins_def)
qed

lemma harness_run_twins:
  assumes "reliable_engine E txv dbv" "reliable_engine E' txv' dbv'" "commits_succeed E" "commits_succeed E'"
    and "twins dbv dbv' h h'"
  shows "rel_option (rel_prod (=) (twins dbv dbv')) (harness_run P E ops h) (harness_run P E' ops h')"
  using assms(5)
proof (induction ops arbitrary: h h')
  case (Cons op ops)
  from harness_apply_twins [OF assms(1-4) Cons.prems, of P op] show ?case
  proof (cases rule: option.rel_cases)
    case (Some x y)
    then obtain r k k' where "harness_apply P E op h = Some (r, k)" "harness_apply P E' op h' = Some (r, k')" "twins dbv dbv' k k'"
      by (cases x; cases y) auto
    with Cons.IH [of k k'] show ?thesis
      by (cases "harness_run P E ops k"; cases "harness_run P E' ops k'") auto
  qed auto
qed simp

lemma ops_round_trip: "collect_results (map (\<lambda>op. Op_from_proto (Op_to_proto op)) ops) = Inr ops"
proof -
  have "Op_from_proto (Op_to_proto op) = Inr op" for op by (cases op) simp_all
  then show ?thesis by (induction ops) simp_all
qed

section \<open>The log of a server\<close>

text \<open>
  What a server that records its committed operations would write: the sweep of a turn if it was
  committed, then the stamped operations of the batch if it was.
\<close>

definition ops_of :: "command list \<Rightarrow> op list" where
  "ops_of rpcs = List.map_filter (\<lambda>cmd. case cmd of CmdOp op _ \<Rightarrow> Some op | _ \<Rightarrow> None) rpcs"

definition sweep_log :: "prost \<Rightarrow> ('db, 'tx) engine \<Rightarrow> storage_params \<Rightarrow> clock \<Rightarrow> 'db committer \<Rightarrow> op list" where
  "sweep_log P E params ck c =
     (if sweep_due params (ck_due ck) (co_ix c)
      then (case apply_op P E (sweep_op params (ck_sweep ck)) (begin_cycle E params (co_db c) (co_ix c)) of
          (Inl _, _) \<Rightarrow> []
        | (Inr _, s) \<Rightarrow>
            if fst (commit_if_dirty E (sp_persist_mode params) (co_db c) s) = CommitOk
            then [sweep_op params (ck_sweep ck)] else [])
      else [])"

definition rpc_log :: "prost \<Rightarrow> ('db, 'tx) engine \<Rightarrow> storage_params \<Rightarrow> clock \<Rightarrow> command list \<Rightarrow> 'db committer \<Rightarrow> op list" where
  "rpc_log P E params ck rpcs c =
     (case apply_commands P E (ck_rpc ck) rpcs
        \<lparr>b_st = begin_cycle E params (co_db c) (co_ix c), b_sent = [], b_parked = []\<rparr> of
        (Some _, _) \<Rightarrow> []
      | (None, b) \<Rightarrow>
          if fst (commit_if_dirty E (sp_persist_mode params) (co_db c) (b_st b)) = CommitOk
          then map (stamp (ck_rpc ck)) (ops_of rpcs) else [])"

definition turn_log :: "prost \<Rightarrow> ('db, 'tx) engine \<Rightarrow> storage_params \<Rightarrow> clock \<Rightarrow> command list \<Rightarrow> 'db committer \<Rightarrow> op list" where
  "turn_log P E params ck rpcs c =
     sweep_log P E params ck c @ rpc_log P E params ck rpcs (fst (sweep_turn P E params ck c))"

inductive logged_run ::
    "prost \<Rightarrow> ('db, 'tx) engine \<Rightarrow> storage_params \<Rightarrow> 'db committer \<Rightarrow> str set \<Rightarrow> op list \<Rightarrow> 'db committer \<Rightarrow> bool"
  for P E params c0 where
  start: "logged_run P E params c0 {} [] c0"
| step: "logged_run P E params c0 used log c \<Longrightarrow> turn P E params c ck rpcs replies c' \<Longrightarrow> clock_ok ck \<Longrightarrow>
    list_all cmd_ok rpcs \<Longrightarrow> distinct (concat (map cmd_ids rpcs)) \<Longrightarrow>
    set (concat (map cmd_ids rpcs)) \<inter> used = {} \<Longrightarrow>
    logged_run P E params c0 (used \<union> set (concat (map cmd_ids rpcs))) (log @ turn_log P E params ck rpcs c) c'"

lemma logged_run_run: "logged_run P E params c0 used log c \<Longrightarrow> run P E params c0 used c"
  by (induction rule: logged_run.induct) (blast intro: run.intros)+

text \<open>A harness that has caught up with a state in the middle of a cycle.\<close>

definition caught_up :: "('db \<Rightarrow> rows) \<Rightarrow> ('e \<Rightarrow> rows) \<Rightarrow> 'db st \<Rightarrow> 'e harness \<Rightarrow> bool" where
  "caught_up txv dbv' s h \<longleftrightarrow> dbv' (hn_db h) = txv (st_tx s) \<and> hn_indexes h = st_ix s"

lemma op_caught_up:
  assumes E: "reliable_storage P E txv dbv" "reliable_storage P E' txv' dbv'" and c: "commits_succeed E'"
    and h: "caught_up txv dbv' s h" and rep: "represents P (txv (st_tx s)) (st_ix s) A"
    and ok: "op_ok op" "unused A (op_ids op)" and now: "0 \<le> now" "i64_ok now"
    and a: "apply_op P E (stamp now op) s = (r, t)" and ni: "\<not> is_internal r"
  shows "\<exists>h'. harness_apply P E' (stamp now op) h = Some (r, h') \<and> caught_up txv dbv' t h'"
proof -
  let ?s' = "\<lparr>st_ix = hn_indexes h, st_tx = write_tx E' (hn_db h), st_cyc = Cycle_new False\<rparr>"
  note rel = reliable_storage.axioms(2) [OF E(1)] reliable_storage.axioms(2) [OF E(2)]
  note law = reliable_engine.axioms(1) [OF rel(2)] and st = reliable_storage.axioms(1) [OF E(2)]
  obtain r' t' where a': "apply_op P E' (stamp now op) ?s' = (r', t')" by fastforce
  have v: "txv (st_tx s) = txv' (st_tx ?s')" "st_ix s = st_ix ?s'" "st_cyc ?s' = Cycle_new False"
    using h engine_laws.write_tx_view [OF law] by (simp_all add: caught_up_def)
  note same = same_op [OF rel v a a']
  have rep': "storage.reps P txv' ?s' A" using rep v by (simp add: storage.reps_def [OF st])
  have q: "quiet ?s' t'"
  proof (cases r')
    case (Inr out)
    from storage.apply_op_refines [OF st rep' ok now a' [unfolded Inr]] show ?thesis
      by (auto simp: storage.refined_def [OF st])
  next
    case (Inl e)
    then have "r = Inl e" using same(1) by simp
    with ni have "st_code e \<noteq> Internal" by (simp add: is_internal_def)
    from apply_op_rejected [OF a' [unfolded Inl] this] show ?thesis by (simp add: quiet_refl)
  qed
  show ?thesis
  proof (cases "cy_dirty (st_cyc t')")
    case True
    obtain u db1 where k: "tx_commit E' (hn_db h) (st_tx t') = (Inr u, db1)" using c unfolding commits_succeed_def by metis
    with engine_laws.commit_ok [OF law k] same ni True show ?thesis
      by (auto simp: harness_apply_def a' caught_up_def)
  next
    case False
    with q have "st_tx t' = st_tx ?s'" by (simp add: quiet_def)
    with v h same ni False show ?thesis by (auto simp: harness_apply_def a' caught_up_def)
  qed
qed

lemma ops_of_simps [simp]:
  "ops_of [] = []" "ops_of (CmdOp op resp # rpcs) = op # ops_of rpcs"
  "ops_of (CmdPeekKeys state queue cursor limit resp # rpcs) = ops_of rpcs"
  "ops_of (CmdQueueDepths queue resp # rpcs) = ops_of rpcs"
  by (simp_all add: ops_of_def List.map_filter_simps)

lemma batch_caught_up:
  assumes E: "reliable_storage P E txv dbv" "reliable_storage P E' txv' dbv'" and c: "commits_succeed E'"
    and now: "0 \<le> now" "i64_ok now"
    and "caught_up txv dbv' (b_st b) h" and "represents P (txv (st_tx (b_st b))) (st_ix (b_st b)) A" and "batch_ok A rpcs"
    and "apply_commands P E now rpcs b = (None, b')"
  shows "\<exists>rs h'. harness_run P E' (map (stamp now) (ops_of rpcs)) h = Some (rs, h') \<and> caught_up txv dbv' (b_st b') h'"
  using assms(6-9)
proof (induction rpcs arbitrary: b h A)
  case (Cons cmd rpcs)
  note st = reliable_storage.axioms(1) [OF E(1)]
  obtain x t where a: "apply_command P E now cmd b = (x, t)" by fastforce
  with Cons.prems(4) obtain u where x: "x = Inr u" and go: "apply_commands P E now rpcs t = (None, b')"
    by (cases x) auto
  note ok = batch_ok_Cons [OF Cons.prems(3)]
  have rep: "storage.reps P txv (b_st b) A" using Cons.prems(2) by (simp add: storage.reps_def [OF st])
  from storage.apply_command_refines [OF st rep _ _ now a [unfolded x]] ok obtain es B where
    B: "arun A es B" "represents P (txv (st_tx (b_st t))) (st_ix (b_st t)) B" "enqueues_only (cmd_ids cmd) es"
    by (auto simp: storage.refined_def [OF st] storage.reps_def [OF st])
  have ok': "batch_ok B rpcs" using ok arun_ids [OF B(1,3)] by blast
  show ?case
  proof (cases cmd)
    case (CmdOp op resp)
    obtain r s where ap: "apply_op P E (stamp now op) (b_st b) = (r, s)" by fastforce
    have s: "b_st t = s" and ni: "\<not> is_internal r" using a x CmdOp ap
      by (auto simp: reject_def is_internal_def split: sum.splits if_splits)
    obtain h1 where h1: "harness_apply P E' (stamp now op) h = Some (r, h1)" "caught_up txv dbv' (b_st t) h1"
      using op_caught_up [OF E c Cons.prems(1,2) _ _ now ap ni] ok CmdOp s by auto
    from Cons.IH [OF h1(2) B(2) ok' go] h1(1) CmdOp show ?thesis by auto
  qed (use a x Cons.IH [OF _ B(2) ok' go] Cons.prems(1) in \<open>auto simp: caught_up_def\<close>)
qed simp

lemma begin_caught_up:
  assumes "reliable_storage P E txv dbv" and "dbv' (hn_db h) = dbv db" and "hn_indexes h = ix"
  shows "caught_up txv dbv' (begin_cycle E params db ix) h"
  using assms(2,3) engine_laws.write_tx_view [OF reliable_engine.axioms(1) [OF reliable_storage.axioms(2) [OF assms(1)]]]
  by (simp add: caught_up_def begin_cycle_def)

lemma sweep_caught_up:
  assumes E: "reliable_storage P E txv dbv" "reliable_storage P E' txv' dbv'" and c: "commits_succeed E'"
    and rep: "represents P (dbv (co_db cm)) (co_ix cm) A" and ck: "clock_ok ck"
    and h: "dbv' (hn_db h) = dbv (co_db cm)" "hn_indexes h = co_ix cm"
    and t: "sweep_turn P E params ck cm = (c1, r1)" "\<not> panicked r1"
  shows "\<exists>rs h'. harness_run P E' (sweep_log P E params ck cm) h = Some (rs, h')
    \<and> dbv' (hn_db h') = dbv (co_db c1) \<and> hn_indexes h' = co_ix c1"
proof (cases "sweep_due params (ck_due ck) (co_ix cm)")
  case False
  with t(1) h show ?thesis by (auto simp: sweep_turn_def sweep_log_def)
next
  case due: True
  let ?op = "sweep_op params (ck_sweep ck)" and ?s = "begin_cycle E params (co_db cm) (co_ix cm)"
  let ?r = "run_sweep_cycle P E params (ck_sweep ck) (co_db cm) (co_ix cm)"
  note st = reliable_storage.axioms(1) [OF E(1)]
  obtain f s where a: "apply_op P E ?op ?s = (f, s)" by fastforce
  obtain o1 db' where o: "commit_if_dirty E (sp_persist_mode params) (co_db cm) s = (o1, db')" by fastforce
  have c1: "co_db c1 = cr_db ?r" "co_ix c1 = cr_ix ?r" "\<not> cr_panicked ?r"
    using t due by (auto simp: sweep_turn_def Let_def panicked_def)
  have cu: "caught_up txv dbv' ?s h" by (rule begin_caught_up [OF E(1)]) (fact h)+
  have sync: "resync P E db any = co_ix cm" if "dbv db = dbv (co_db cm)" for db any
    by (rule reliable_storage.resync_exact [OF E(1), where A = A]) (simp add: that rep)
  have now: "0 \<le> ck_sweep ck" "i64_ok (ck_sweep ck)" using ck by (simp_all add: clock_ok_def)
  have op: "stamp (ck_sweep ck) ?op = ?op" "op_ok ?op" "op_ids ?op = []" by (simp_all add: sweep_op_def Let_def)
  show ?thesis
  proof (cases f)
    case (Inl e)
    with a due c1 h sync show ?thesis by (simp add: sweep_log_def run_sweep_cycle_def)
  next
    case (Inr out)
    have B: "storage.reps P txv ?s A" by (rule storage.begin_cycle_reps [OF st rep])
    show ?thesis
    proof (cases o1)
      case CommitOk
      from storage.apply_op_refines [OF st B op(2) _ now] a Inr op obtain es B' where
        q: "quiet ?s s" "storage.reps P txv s B'" by (auto simp: storage.refined_def [OF st] unused_def)
      have v: "dbv db' = txv (st_tx s)" by (rule storage.committed_rep(2) [OF st o [unfolded CommitOk] q])
      obtain h' where "harness_apply P E' ?op h = Some (f, h')" "caught_up txv dbv' s h'"
        using op_caught_up [OF E c cu _ op(2) _ now, of A f s] B a Inr op
        by (auto simp: storage.reps_def [OF st] unused_def is_internal_def)
      with v a Inr o CommitOk due c1 show ?thesis
        by (auto simp: sweep_log_def run_sweep_cycle_def Let_def caught_up_def)
    next
      case (CommitErr e)
      have v: "dbv db' = dbv (co_db cm)" by (rule storage.commit_views(2) [OF st o CommitErr])
      with a Inr o CommitErr due c1 h sync [OF v] show ?thesis by (simp add: sweep_log_def run_sweep_cycle_def Let_def)
    next
      case CommitPanic
      with a Inr o c1(3) show ?thesis by (simp add: run_sweep_cycle_def Let_def)
    qed
  qed
qed

lemma rpc_caught_up:
  assumes E: "reliable_storage P E txv dbv" "reliable_storage P E' txv' dbv'" and c: "commits_succeed E'"
    and rep: "represents P (dbv (co_db cm)) (co_ix cm) A" and ck: "clock_ok ck" and ok: "batch_ok A rpcs"
    and h: "dbv' (hn_db h) = dbv (co_db cm)" "hn_indexes h = co_ix cm"
    and t: "rpc_turn P E params ck rpcs cm = (c1, r1)" "\<not> panicked r1"
  shows "\<exists>rs h'. harness_run P E' (rpc_log P E params ck rpcs cm) h = Some (rs, h')
    \<and> dbv' (hn_db h') = dbv (co_db c1) \<and> hn_indexes h' = co_ix c1"
proof (cases "rpcs = []")
  case True
  with t(1) h show ?thesis by (auto simp: rpc_turn_def rpc_log_def)
next
  case False
  let ?s = "begin_cycle E params (co_db cm) (co_ix cm)"
  let ?r = "run_rpc_cycle P E params (ck_rpc ck) rpcs (co_db cm) (co_ix cm)"
  note st = reliable_storage.axioms(1) [OF E(1)]
  obtain f b where a: "apply_commands P E (ck_rpc ck) rpcs \<lparr>b_st = ?s, b_sent = [], b_parked = []\<rparr> = (f, b)" by fastforce
  obtain o1 db' where o: "commit_if_dirty E (sp_persist_mode params) (co_db cm) (b_st b) = (o1, db')" by fastforce
  have c1: "co_db c1 = cr_db ?r" "co_ix c1 = cr_ix ?r" "\<not> cr_panicked ?r"
    using t False by (auto simp: rpc_turn_def Let_def panicked_def)
  have cu: "caught_up txv dbv' ?s h" by (rule begin_caught_up [OF E(1)]) (fact h)+
  have sync: "resync P E db any = co_ix cm" if "dbv db = dbv (co_db cm)" for db any
    by (rule reliable_storage.resync_exact [OF E(1), where A = A]) (simp add: that rep)
  have now: "0 \<le> ck_rpc ck" "i64_ok (ck_rpc ck)" using ck by (simp_all add: clock_ok_def)
  have B: "storage.reps P txv ?s A" by (rule storage.begin_cycle_reps [OF st rep])
  show ?thesis
  proof (cases f)
    case (Some x)
    with a c1 h sync show ?thesis by (cases x) (simp add: rpc_log_def run_rpc_cycle_def)
  next
    case None
    show ?thesis
    proof (cases o1)
      case CommitOk
      from storage.apply_commands_refines [OF st _ ok now a [unfolded None]] B obtain es B' where
        q: "quiet ?s (b_st b)" "storage.reps P txv (b_st b) B'" by auto
      have v: "dbv db' = txv (st_tx (b_st b))" by (rule storage.committed_rep(2) [OF st o [unfolded CommitOk] q])
      obtain rs h' where "harness_run P E' (map (stamp (ck_rpc ck)) (ops_of rpcs)) h = Some (rs, h')" "caught_up txv dbv' (b_st b) h'"
        using batch_caught_up [OF E c now _ _ ok a [unfolded None]] cu B
        by (simp add: storage.reps_def [OF st]) blast
      with v a None o CommitOk c1 show ?thesis
        by (auto simp: rpc_log_def run_rpc_cycle_def Let_def caught_up_def)
    next
      case (CommitErr e)
      have v: "dbv db' = dbv (co_db cm)" by (rule storage.commit_views(2) [OF st o CommitErr])
      with a None o CommitErr c1 h sync [OF v] show ?thesis by (simp add: rpc_log_def run_rpc_cycle_def Let_def)
    next
      case CommitPanic
      with a None o c1(3) show ?thesis by (simp add: run_rpc_cycle_def Let_def)
    qed
  qed
qed

lemma logged_run_replays:
  assumes E: "reliable_storage P E txv dbv" "reliable_storage P E' txv' dbv'" and c: "commits_succeed E'"
    and rep: "represents P (dbv (co_db c0)) (co_ix c0) A0" and e: "a_jobs A0 = fmempty" "a_dead A0 = fmempty"
    and h: "dbv' (hn_db h) = dbv (co_db c0)" "hn_indexes h = co_ix c0"
    and r: "logged_run P E params c0 used log cm"
  shows "\<exists>rs h'. harness_run P E' log h = Some (rs, h') \<and> dbv' (hn_db h') = dbv (co_db cm) \<and> hn_indexes h' = co_ix cm"
  using r
proof (induction rule: logged_run.induct)
  case (step used log cm ck rpcs replies c')
  then obtain rs h1 where h1: "harness_run P E' log h = Some (rs, h1)" "dbv' (hn_db h1) = dbv (co_db cm)" "hn_indexes h1 = co_ix cm"
    by blast
  obtain A where A: "represents P (dbv (co_db cm)) (co_ix cm) A" "ids_within A used"
    using reliable_storage.run_represents [OF E(1) rep e logged_run_run [OF step.hyps(1)]] by blast
  from step.hyps(2) obtain c1 r1 r2 where t: "sweep_turn P E params ck cm = (c1, r1)" "\<not> panicked r1"
    "rpc_turn P E params ck rpcs c1 = (c', r2)" "\<not> panicked r2" by (auto elim: turnE)
  obtain es B where B: "arun A es B" "enqueues_only [] es" "represents P (dbv (co_db c1)) (co_ix c1) B"
    using reliable_storage.sweep_turn_refines [OF E(1) A(1) step.hyps(3) t(1,2)] by blast
  have "ids_within B used" using ids_within_after [OF A(2) arun_ids [OF B(1,2)]] by simp
  then have ok: "batch_ok B rpcs" using step.hyps(4-6) unfolding batch_ok_def ids_within_def unused_def by blast
  obtain rs2 h2 where h2: "harness_run P E' (sweep_log P E params ck cm) h1 = Some (rs2, h2)"
    "dbv' (hn_db h2) = dbv (co_db c1)" "hn_indexes h2 = co_ix c1"
    using sweep_caught_up [OF E c A(1) step.hyps(3) h1(2,3) t(1,2)] by blast
  obtain rs3 h3 where "harness_run P E' (rpc_log P E params ck rpcs c1) h2 = Some (rs3, h3)"
    "dbv' (hn_db h3) = dbv (co_db c')" "hn_indexes h3 = co_ix c'"
    using rpc_caught_up [OF E c B(3) step.hyps(3) ok h2(2,3) t(3,4)] by blast
  with h1(1) h2(1) t(1) show ?case by (simp add: turn_log_def harness_run_append)
qed (use h in simp)

end
