(* ===== verification/Replay_Properties.thy ===== *)
theory Replay_Properties
  imports Replay Example
begin

text \<open>
  The contract of replaying operations (\<open>src/storage/replay_tests.rs\<close>): a stream of operations does the
  same on every store, and the committed operations of a server rebuild its state.
\<close>

section \<open>Determinism\<close>

text \<open>
  Applying a stream of operations is deterministic and blind to the node. Two stores over any
  engines that read and commit, with any parameters, which hold the same rows give the same outcome to
  every operation of the stream, refusals included, and hold the same rows in every keyspace and the
  same indexes afterwards, also when one of them receives the operations through their protobuf form.
  When the rows stand for an abstract queue, opening the store for the replay succeeds.
\<close>

lemma replay_is_deterministic:
  assumes "reliable_storage P E txv dbv" and "reliable_storage P E' txv' dbv'"
    and "commits_succeed E" and "commits_succeed E'"
    and "represents P (dbv db) ix A" and "dbv' db' = dbv db"
    and "collect_results (map (\<lambda>op. Op_from_proto (Op_to_proto op)) ops) = Inr ops'"
  shows "harness_open P E db params \<noteq> None
    \<and> rel_option (\<lambda>(outcomes, h) (outcomes', h'). outcomes' = outcomes \<and> dbv' (hn_db h') = dbv (hn_db h) \<and> hn_indexes h' = hn_indexes h)
        (harness_replay P E db params ops) (harness_replay P E' db' params' ops')"
proof -
  have ops: "ops' = ops" using assms(7) ops_round_trip [of ops] by simp
  have ix: "rebuild_indexes P E db = Inr ix" "rebuild_indexes P E' db' = Inr ix"
    using reliable_storage.rebuild_exact [OF assms(1,5)]
      reliable_storage.rebuild_exact [OF assms(2), of db' ix A] assms(5,6) by simp_all
  let ?h = "\<lparr>hn_db = db, hn_params = params, hn_indexes = ix\<rparr>" and ?h' = "\<lparr>hn_db = db', hn_params = params', hn_indexes = ix\<rparr>"
  have "twins dbv dbv' ?h ?h'" using assms(6) by (simp add: twins_def)
  from harness_run_twins [OF reliable_storage.axioms(2) [OF assms(1)] reliable_storage.axioms(2) [OF assms(2)] assms(3,4) this]
  have "rel_option (rel_prod (=) (twins dbv dbv')) (harness_run P E ops ?h) (harness_run P E' ops ?h')" .
  then have "rel_option (\<lambda>(outcomes, h) (outcomes', h'). outcomes' = outcomes \<and> dbv' (hn_db h') = dbv (hn_db h) \<and> hn_indexes h' = hn_indexes h)
      (harness_run P E ops ?h) (harness_run P E' ops ?h')"
    by (rule option.rel_mono_strong) (auto simp: twins_def)
  then show ?thesis by (simp add: ops harness_replay_def harness_open_def ix)
qed

text \<open>A second engine, which counts its commits.\<close>

definition counting_engine :: "(rows \<times> nat, rows) engine" where
  "counting_engine = \<lparr>write_tx = fst, tx_get = tx_get mem_engine, tx_insert = tx_insert mem_engine,
     tx_remove = tx_remove mem_engine, tx_commit = (\<lambda>(_, n) t. (Inr (), (t, Suc n))),
     db_persist = (\<lambda>db mode. (Inr (), db)), snap_get = (\<lambda>(v, _). snap_get mem_engine v),
     snap_iter = (\<lambda>(v, _). snap_iter mem_engine v), snap_prefix = (\<lambda>(v, _). snap_prefix mem_engine v),
     snap_range_to = (\<lambda>(v, _). snap_range_to mem_engine v)\<rparr>"

lemma counting_reliable: "reliable_storage prost_ref counting_engine mem_view fst"
proof (intro reliable_storage.intro storage.intro reliable_engine.intro)
  show "engine_laws counting_engine mem_view fst"
    by standard (auto simp: counting_engine_def mem_engine_def mem_view_def collect_map_Inr fun_upd_def)
  then show "engine_laws counting_engine mem_view fst" .
  show "reliable_engine_axioms counting_engine"
    by standard (auto simp: counting_engine_def mem_engine_def collect_map_Inr)
qed (rule ref.prost_laws_axioms)

lemma engines_commit: "commits_succeed mem_engine" "commits_succeed counting_engine"
  by (simp_all add: commits_succeed_def mem_engine_def counting_engine_def split: prod.split)

lemma replay_is_deterministic_witness:
  "rel_option (\<lambda>(outcomes, h) (outcomes', h'). outcomes' = outcomes \<and> fst (hn_db h') = mem_view (hn_db h) \<and> hn_indexes h' = hn_indexes h)
     (harness_replay prost_ref mem_engine (rows_of prost_ref (demo (InFlight 100 1))) demo_params [OpAck ''j1'' 1, OpAck ''j1'' 1])
     (harness_replay prost_ref counting_engine (rows_of prost_ref (demo (InFlight 100 1)), 0)
        (demo_params\<lparr>sp_dead_letter_retention_ms := 0\<rparr>) [OpAck ''j1'' 1, OpAck ''j1'' 1])"
proof -
  let ?A = "demo (InFlight 100 1)"
  have rep: "represents prost_ref (mem_view (rows_of prost_ref ?A)) (index_of prost_ref ?A) ?A"
    using canonical_rep [OF demo_ok [OF demo_places(2)]] by (simp add: mem_view_def)
  show ?thesis
    by (rule conjunct2 [OF replay_is_deterministic [where dbv = mem_view and dbv' = fst, OF mem_reliable counting_reliable engines_commit rep]])
      (simp_all add: mem_view_def)
qed

section \<open>The log of a server\<close>

text \<open>
  C6: the state of a server is the replay of its committed operations. Take the operations a server
  has committed since it started on an empty database, in order and with the times it stamped on them:
  the sweeps and the batches whose commit succeeded. Applied one by one to another store that began
  with the same rows, over any engine and with any parameters, each is answered and they leave exactly
  the rows and the indexes of the server, although the server applied them in batches under one
  transaction each, rolled back those that failed to commit and rebuilt its indexes then.
\<close>

theorem committed_log_rebuilds_state:
  assumes "reliable_storage P E txv dbv" and "reliable_storage P E' txv' dbv'" and "commits_succeed E'"
    and "represents P (dbv (co_db c0)) (co_ix c0) A0" and "a_jobs A0 = fmempty" and "a_dead A0 = fmempty"
    and "dbv' db' = dbv (co_db c0)" and "logged_run P E params c0 used log c"
  shows "\<exists>outcomes h. harness_replay P E' db' params' log = Some (outcomes, h)
    \<and> length outcomes = length log \<and> dbv' (hn_db h) = dbv (co_db c) \<and> hn_indexes h = co_ix c"
proof -
  have "rebuild_indexes P E' db' = Inr (co_ix c0)"
    using reliable_storage.rebuild_exact [OF assms(2), of db' "co_ix c0" A0] assms(4,7) by simp
  then have o: "harness_open P E' db' params' = Some \<lparr>hn_db = db', hn_params = params', hn_indexes = co_ix c0\<rparr>"
    by (simp add: harness_open_def)
  obtain outcomes h where "harness_run P E' log \<lparr>hn_db = db', hn_params = params', hn_indexes = co_ix c0\<rparr> = Some (outcomes, h)"
    "dbv' (hn_db h) = dbv (co_db c)" "hn_indexes h = co_ix c"
    using logged_run_replays [OF assms(1-6) _ _ assms(8), of "\<lparr>hn_db = db', hn_params = params', hn_indexes = co_ix c0\<rparr>"] assms(7)
    by auto
  then show ?thesis using harness_run_length o by (fastforce simp: harness_replay_def)
qed

theorem committed_log_rebuilds_state_witness:
  "\<exists>log c. logged_run prost_ref mem_engine demo_params (demo_committer abs_empty) {''j2''} log c
     \<and> OpEnqueue [demo_pj] 10 \<in> set log
     \<and> (\<exists>outcomes h. harness_replay prost_ref counting_engine (co_db (demo_committer abs_empty), 0) demo_params log = Some (outcomes, h)
          \<and> fst (hn_db h) = mem_view (co_db c))"
proof -
  let ?c0 = "demo_committer abs_empty" and ?rpcs = "[CmdOp (OpEnqueue [demo_pj] 0) 1]"
  obtain replies c where t: "turn prost_ref mem_engine demo_params ?c0 demo_clock ?rpcs replies c"
    using mem_turn by blast
  let ?log = "[] @ turn_log prost_ref mem_engine demo_params demo_clock ?rpcs ?c0"
  have "clock_ok demo_clock" "list_all cmd_ok ?rpcs" "concat (map cmd_ids ?rpcs) = [''j2'']"
    using demo_pj_ok by (simp_all add: clock_ok_def demo_clock_def)
  then have r: "logged_run prost_ref mem_engine demo_params ?c0 ({} \<union> set (concat (map cmd_ids ?rpcs))) ?log c"
    by (intro logged_run.step [OF logged_run.start t]) simp_all
  have "OpEnqueue [demo_pj] 10 \<in> set ?log"
  proof -
    let ?c1 = "fst (sweep_turn prost_ref mem_engine demo_params demo_clock ?c0)"
    obtain rs s where "enqueue_loop prost_ref mem_engine 10 [] [demo_pj] (begin_cycle mem_engine demo_params (co_db ?c1) (co_ix ?c1)) = (Inr rs, s)"
      using reliable_storage.enqueue_total [OF mem_reliable] by metis
    then show ?thesis
      by (simp add: turn_log_def rpc_log_def demo_clock_def apply_enqueue_def wrap_def commit_if_dirty_def commit_and_persist_def
          mem_engine_def)
  qed
  moreover from committed_log_rebuilds_state [OF mem_reliable counting_reliable engines_commit(2) demo_committer_rep [OF abs_empty_ok] _ _ _ r]
  have "\<exists>outcomes h. harness_replay prost_ref counting_engine (co_db ?c0, 0) demo_params ?log = Some (outcomes, h) \<and> fst (hn_db h) = mem_view (co_db c)"
    by (fastforce simp: abs_empty_def mem_view_def)
  ultimately show ?thesis using r by auto
qed

end
