(* ===== verification/Announce.thy ===== *)
theory Announce
  imports Server_Loop
begin

text \<open>
  Which queues a cycle wakes. Every operation that puts an entry into the ready index also puts the
  entry's queue into \<open>cycle.new_ready\<close> (\<open>src/storage.rs\<close>), so that after the commit the committer wakes
  the reservations that wait for it.
\<close>

section \<open>Announcing new entries\<close>

definition is_ready :: "indexes \<Rightarrow> bytes \<Rightarrow> bool" where
  "is_ready ix k \<longleftrightarrow> fmlookup (ri_keys (ix_ready ix)) k \<noteq> None"

definition key_of_queues :: "str fset \<Rightarrow> bytes \<Rightarrow> bool" where
  "key_of_queues qs k \<longleftrightarrow> (\<exists>rk. k = ReadyKey_encode rk \<and> rk_queue rk |\<in>| qs \<and> length (rk_queue rk) < 65536)"

text \<open>
  \<open>announces qs s t\<close>: what is ready in \<open>t\<close> and was not in \<open>s\<close> belongs to a queue that \<open>t\<close> will wake, or to one
  of \<open>qs\<close>, which are still to be added.
\<close>

definition announces :: "str fset \<Rightarrow> 'tx st \<Rightarrow> 'tx st \<Rightarrow> bool" where
  "announces qs s t \<longleftrightarrow> cy_new_ready (st_cyc s) |\<subseteq>| cy_new_ready (st_cyc t) |\<union>| qs
     \<and> (\<forall>k. is_ready (st_ix t) k \<longrightarrow> is_ready (st_ix s) k \<or> key_of_queues (cy_new_ready (st_cyc t) |\<union>| qs) k)"

lemma announces_refl [simp]: "announces qs s s"
  by (auto simp: announces_def)

lemma announces_trans:
  assumes "announces {||} t u" and "announces qs s t"
  shows "announces qs s u"
proof -
  have "cy_new_ready (st_cyc t) |\<union>| qs |\<subseteq>| cy_new_ready (st_cyc u) |\<union>| qs" using assms(1) by (auto simp: announces_def)
  then have "key_of_queues (cy_new_ready (st_cyc t) |\<union>| qs) k \<Longrightarrow> key_of_queues (cy_new_ready (st_cyc u) |\<union>| qs) k" for k
    unfolding key_of_queues_def by blast
  moreover have "key_of_queues (cy_new_ready (st_cyc u)) k \<Longrightarrow> key_of_queues (cy_new_ready (st_cyc u) |\<union>| qs) k" for k
    unfolding key_of_queues_def by blast
  ultimately show ?thesis using assms unfolding announces_def by auto
qed

text \<open>Writes, timers and counters do not matter.\<close>

lemma announces_frame [simp]:
  "announces qs s (put E ks k v t) = announces qs s t" "announces qs s (del E ks k t) = announces qs s t"
  "announces qs s (on_scheduled f t) = announces qs s t" "announces qs s (on_leases f t) = announces qs s t"
  "announces qs s (on_dedup_timers f t) = announces qs s t" "announces qs s (on_dead_letter f t) = announces qs s t"
  "announces qs s (on_closing g t) = announces qs s t" "announces qs s (mark_dirty t) = announces qs s t"
  by (simp_all add: announces_def is_ready_def)

lemma announces_count [simp]:
  "(\<And>c. cy_new_ready (f c) = cy_new_ready c) \<Longrightarrow> announces qs s (on_cycle f t) = announces qs s t"
  by (simp add: announces_def)

lemma announces_new [simp]: "announces qs s (new_ready q t) = announces (finsert q qs) s t"
  by (simp add: announces_def)

lemma announces_insert [simp]:
  "rk_queue rk |\<in>| qs \<Longrightarrow> length (rk_queue rk) < 65536 \<Longrightarrow> announces qs s (on_ready (ri_ins (ReadyKey_encode rk) a) t) = announces qs s t"
  by (auto simp: announces_def is_ready_def key_of_queues_def split: if_splits)

lemma announces_more [simp]: "announces qs s t \<Longrightarrow> announces (finsert q qs) s t"
  unfolding announces_def key_of_queues_def by auto

lemma announces_fewer:
  "announces qs s t \<Longrightarrow> (\<And>k. fmlookup (ri_keys (f (ix_ready (st_ix t)))) k \<noteq> None \<Longrightarrow> is_ready (st_ix t) k) \<Longrightarrow>
     announces qs s (on_ready f t)"
  unfolding announces_def by (simp add: is_ready_def)

lemma announces_delete [simp]: "announces qs s t \<Longrightarrow> announces qs s (on_ready (ri_del k) t)"
  by (erule announces_fewer) (auto simp: is_ready_def split: if_splits)

lemma announces_pop [simp]:
  "ri_pop_front pre (ix_ready (st_ix t)) = Some ((k, a), rest) \<Longrightarrow> announces qs s t \<Longrightarrow> announces qs s (on_ready (\<lambda>_. rest) t)"
  by (erule announces_fewer) (auto simp: is_ready_def dest!: ri_pop_front_Some split: if_splits)

section \<open>The operations\<close>

text \<open>A queue name that was read back has a length that fits the two bytes of a key.\<close>

lemma prefixed_short: "kr_prefixed_str bs = Some (q, r) \<Longrightarrow> length q < 65536"
proof -
  assume "kr_prefixed_str bs = Some (q, r)"
  then obtain z where z: "q = take (from_be z) (drop 2 bs)" "z = take 2 bs" "length z = 2"
    by (auto simp: kr_prefixed_str_def kr_prefixed_def kr_take_def from_utf8_def bind_eq_Some_conv split: if_splits)
  have "from_be z < 256 ^ length z" by (rule from_be_less)
  with z show ?thesis by (simp add: min_less_iff_disj)
qed

lemma decoded_short [simp]:
  "JobValue_decode P b = Inr (q, j) \<Longrightarrow> length q < 65536"
  "Inflight_decode P b = Inr i \<Longrightarrow> length (if_queue i) < 65536"
  by (auto simp: JobValue_decode_def Inflight_decode_def Inflight_parse_def bind_eq_Some_conv dest: prefixed_short
      split: option.splits)

lemma leased_short [simp]: "leased P E jid a s = Inr i \<Longrightarrow> length (if_queue i) < 65536"
  by (auto simp: leased_def split: sum.splits option.splits if_splits)

named_theorems announced \<open>functions that announce the entries they make ready\<close>

lemma announced_settle [announced]:
  "apply_ack P E j a t = (r, u) \<Longrightarrow> announces qs s t \<Longrightarrow> announces qs s u"
  "apply_extend P E ext ms now t = (r', u) \<Longrightarrow> announces qs s t \<Longrightarrow> announces qs s u"
  by (auto simp: apply_ack_def apply_extend_def Let_def split: sum.splits)

lemma announced_store_dead [announced]:
  "maybe_store_dead_letter P E j m en t = (r, u) \<Longrightarrow> announces qs s t \<Longrightarrow> announces qs s u"
  by (auto simp: maybe_store_dead_letter_def Let_def split: sum.splits option.splits if_splits)

lemma announced_nack [announced]: "apply_nack P E req delay en now t = (r, u) \<Longrightarrow> announces qs s t \<Longrightarrow> announces qs s u"
  by (auto simp: apply_nack_def nack_dead_letter_def nack_retry_def Let_def announced split: sum.splits prod.splits if_splits)

lemma announced_drain_take [announced]: "drain_take P E ks out t = (r, u) \<Longrightarrow> announces qs s t \<Longrightarrow> announces qs s u"
  by (induction ks arbitrary: out t) (auto split: sum.splits option.splits)

lemma announces_requeue_one [simp]: "length (j_queue j) < 65536 \<Longrightarrow> announces qs s t \<Longrightarrow> announces qs s (requeue_one P E k j now t)"
  by (simp add: requeue_one_def Let_def split: option.split)

lemma announced_drain [announced]: "apply_drain P E q mx cap t = (r, u) \<Longrightarrow> announces qs s t \<Longrightarrow> announces qs s u"
  by (auto simp: apply_drain_def Let_def announced split: sum.splits prod.splits if_splits)

lemma announced_dj_kill [announced]:
  "dj_kill P E q state reason en now k j t = (r, u) \<Longrightarrow> announces qs s t \<Longrightarrow> announces qs s u"
  by (auto simp: dj_kill_def dj_drop_index_def Let_def announced split: sum.splits prod.splits if_splits)

lemma announced_dj [announced]:
  "dead_letter_jobs_loop P E q state reason en now out ks t = (r, u) \<Longrightarrow> announces qs s t \<Longrightarrow> announces qs s u"
proof (induction ks arbitrary: out t)
  case (Cons k ks)
  have "announces qs s (dj_drop_index state k t)" using Cons.prems(2) by (simp add: dj_drop_index_def)
  with Cons show ?case
    by (auto simp: Let_def split: sum.splits option.splits if_splits prod.splits dj_target.splits simp: announced)
qed simp

lemma announced_delete [announced]: "delete_loop E q out ks t = (r, u) \<Longrightarrow> announces qs s t \<Longrightarrow> announces qs s u"
  by (induction ks arbitrary: out t) (auto split: if_splits)

lemma announced_check_dedup [announced]: "check_dedup E req now t = (r, u) \<Longrightarrow> announces qs s t \<Longrightarrow> announces qs s u"
  by (auto simp: check_dedup_def Let_def split: sum.splits option.splits if_splits)

lemma announced_insert_job [announced]:
  "insert_job P E pj now stale t = (r, u) \<Longrightarrow> pj_ok pj \<Longrightarrow> announces qs s t \<Longrightarrow> announces qs s u"
  by (auto simp: insert_job_def insert_job_place_def insert_job_dedup_def pj_ok_def queue_ok_def Let_def split: option.splits if_splits)

lemma announced_enqueue [announced]:
  "enqueue_loop P E now out jobs t = (r, u) \<Longrightarrow> list_all pj_ok jobs \<Longrightarrow> announces qs s t \<Longrightarrow> announces qs s u"
  by (induction jobs arbitrary: out t)
    (auto simp: Let_def announced split: sum.splits prod.splits dedup_check.splits if_splits)

lemma announced_atomic [announced]:
  "atomic_loop P E now out jobs t = (r, u) \<Longrightarrow> list_all pj_ok jobs \<Longrightarrow> announces qs s t \<Longrightarrow> announces qs s u"
  by (induction jobs arbitrary: out t)
    (auto simp: Let_def announced split: sum.splits prod.splits dedup_check.splits if_splits)

lemma announced_reserve_entry [announced]: "reserve_entry P E le k a t = (r, u) \<Longrightarrow> announces qs s t \<Longrightarrow> announces qs s u"
  by (auto simp: reserve_entry_def reserve_lease_def reserve_purge_def Let_def split: sum.splits prod.splits option.splits)

lemma announced_reserve_queue [announced]:
  "reserve_queue P E pre le mx jobs t = (r, u) \<Longrightarrow> announces qs s t \<Longrightarrow> announces qs s u"
proof (induction P E pre le mx jobs t rule: reserve_queue.induct)
  case (1 P E pre le mx jobs t)
  show ?case
  proof (cases "ri_pop_front pre (ix_ready (st_ix t))")
    case None
    with 1 show ?thesis by (simp add: reserve_queue.simps [of P] split: if_splits)
  next
    case (Some x)
    then obtain k a rest where pop: "ri_pop_front pre (ix_ready (st_ix t)) = Some ((k, a), rest)" by (metis surj_pair)
    obtain x v where e: "reserve_entry P E le k a (on_ready (\<lambda>_. rest) t) = (x, v)" by fastforce
    have "announces qs s v" using announced_reserve_entry [OF e] pop 1(4) by simp
    with 1 pop e show ?thesis
      by (auto simp: reserve_queue.simps [of P _ _ _ _ _ t] split: if_splits sum.splits option.splits)
  qed
qed

lemma announced_reserve_queues [announced]:
  "reserve_queues P E le mx queues jobs t = (r, u) \<Longrightarrow> announces qs s t \<Longrightarrow> announces qs s u"
  by (induction queues arbitrary: jobs t) (auto simp: announced split: sum.splits prod.splits if_splits)

lemma announced_sweep_closing [simp]: "announces qs s (sweep_closing E now t) = announces qs s t"
proof -
  have "announces qs s (foldl (\<lambda>s (q, _). mark_dirty (del E Meta (closing_key q) s)) t xs) = announces qs s t" for xs :: "(str \<times> i64) list"
    by (induction xs arbitrary: t) (simp_all add: split_def)
  then show ?thesis by (simp add: sweep_closing_def Let_def)
qed

lemma announced_promote [announced]:
  assumes "promote_entry P E k t = (r, u)" and "announces qs s t"
  shows "announces qs s u"
proof (cases "\<exists>v j stored q job. tx_get E (st_tx t) Scheduled k = Inr v \<and> TimerKey_job_id k = Some j
    \<and> tx_get E (tx_remove E (st_tx t) Scheduled k) Jobs j = Inr (Some stored) \<and> JobValue_decode P stored = Inr (q, job)")
  case True
  then obtain v j stored q job where "tx_get E (st_tx t) Scheduled k = Inr v" "TimerKey_job_id k = Some j"
    "tx_get E (tx_remove E (st_tx t) Scheduled k) Jobs j = Inr (Some stored)" "JobValue_decode P stored = Inr (q, job)" by blast
  with assms show ?thesis by (auto simp: promote_entry_def Let_def)
next
  case False
  with assms show ?thesis
    by (auto simp: promote_entry_def Let_def split: sum.splits prod.splits option.splits)
qed

lemma announced_lease [announced]: "lease_entry P E now en k t = (r, u) \<Longrightarrow> announces qs s t \<Longrightarrow> announces qs s u"
  by (auto simp: lease_entry_def expire_dead_letter_def expire_redeliver_def announced Let_def
      split: sum.splits prod.splits option.splits if_splits)

lemma announced_dedup [announced]: "dedup_entry E now k q t = (r, u) \<Longrightarrow> announces qs s t \<Longrightarrow> announces qs s u"
  by (auto simp: dedup_entry_def Let_def split: sum.splits option.splits if_splits)

lemma announced_sweep_scheduled [announced]:
  "sweep_scheduled P E now n m t = (r, u) \<Longrightarrow> announces qs s t \<Longrightarrow> announces qs s u"
  by (induction n arbitrary: m t) (auto simp: announced split: sum.splits prod.splits option.splits)

lemma announced_sweep_leases [announced]:
  "sweep_leases P E now en n m t = (r, u) \<Longrightarrow> announces qs s t \<Longrightarrow> announces qs s u"
  by (induction n arbitrary: m t) (auto simp: announced split: sum.splits prod.splits option.splits)

lemma announced_sweep_dedup [announced]: "sweep_dedup E now n m t = (r, u) \<Longrightarrow> announces qs s t \<Longrightarrow> announces qs s u"
  by (induction n arbitrary: m t) (auto simp: announced split: sum.splits prod.splits option.splits)

lemma announced_sweep_retention [announced]:
  "sweep_retention E now n m t = (r, u) \<Longrightarrow> announces qs s t \<Longrightarrow> announces qs s u"
  by (induction n arbitrary: m t) (auto split: prod.splits option.splits)

lemma announced_sweep [announced]:
  "apply_sweep P E now budget cutoff en t = (r, u) \<Longrightarrow> announces qs s t \<Longrightarrow> announces qs s u"
  by (auto simp: apply_sweep_def announced split: sum.splits prod.splits option.splits if_splits)

lemma announced_purge_ready [announced]: "purge_ready E pre n m t = (r, u) \<Longrightarrow> announces qs s t \<Longrightarrow> announces qs s u"
  by (induction n arbitrary: m t)
    (auto simp: purge_ready_entry_def Let_def split: prod.splits option.splits)

lemma announced_purge_entry [simp]:
  "announces qs s (purge_scheduled_entry E k t) = announces qs s t"
  "announces qs s (purge_dead_letter_entry E k t) = announces qs s t"
  "announces qs s (purge_dedup_entry E k t) = announces qs s t"
  by (simp_all add: purge_scheduled_entry_def purge_dead_letter_entry_def purge_dedup_entry_def Let_def split: option.split)

lemma announced_purge_phase:
  "(\<And>k t. announces qs s (entry k t) = announces qs s t) \<Longrightarrow>
     announces qs s (snd (purge_phase index entry q mx ps)) = announces qs s (snd ps)"
proof -
  assume e: "\<And>k t. announces qs s (entry k t) = announces qs s t"
  have "announces qs s (foldl (\<lambda>s k. entry k s) t ks) = announces qs s t" for t ks
    by (induction ks arbitrary: t) (simp_all add: e)
  then show ?thesis by (simp add: purge_phase_def Let_def split: prod.split)
qed

lemma announced_purge [announced]:
  assumes "apply_purge_queue_chunk E q mx t = (r, u)" and "announces qs s t"
  shows "announces qs s u"
proof -
  let ?p1 = "purge_phase (\<lambda>s. ix_scheduled (st_ix s)) (purge_scheduled_entry E) q mx (purge_ready E (queue_prefix q) mx 0 t)"
  let ?p3 = "purge_phase (\<lambda>s. ix_dedup_timers (st_ix s)) (purge_dedup_entry E) q mx
      (purge_phase (\<lambda>s. ix_dead_letter (st_ix s)) (purge_dead_letter_entry E) q mx ?p1)"
  have "announces qs s (snd (purge_ready E (queue_prefix q) mx 0 t))"
    using announced_purge_ready [OF _ assms(2)] by (metis prod.collapse)
  then have "announces qs s (snd ?p3)" by (simp add: announced_purge_phase)
  with assms show ?thesis by (auto simp: apply_purge_queue_chunk_def Let_def split: if_splits prod.splits)
qed

text \<open>Requeueing reads the queue back from the record, which the representation relation bounds.\<close>

context storage
begin

lemma requeue_announces:
  assumes "reps t A" and "requeue_loop P E queue now out keys t = (Inr out', u)" and now: "0 \<le> now" "i64_ok now"
    and "announces qs s t"
  shows "announces qs s u"
  using assms(1,2,5)
proof (induction keys arbitrary: t A out)
  case (Cons key keys)
  show ?case
  proof (cases "DeadLetterKey_queue key = Some queue")
    case False
    with Cons.prems show ?thesis by (intro Cons.IH [OF Cons.prems(1)]) auto
  next
    case True
    then obtain r where r: "tx_get E (st_tx t) DeadLetter key = Inr r"
      using Cons.prems(2) by (cases "tx_get E (st_tx t) DeadLetter key") (auto simp: Let_def)
    show ?thesis
    proof (cases r)
      case None
      then have "on_dead_letter (ti_del key) t = t"
        using on_dead_letter_gone [OF Cons.prems(1)] get_view [OF r] by simp
      with True r None Cons.prems show ?thesis by (intro Cons.IH [OF Cons.prems(1)]) (auto simp: Let_def)
    next
      case (Some b)
      then have "fmlookup (txv (st_tx t) DeadLetter) key = Some b" using get_view [OF r] by simp
      then obtain jid d where d: "fmlookup (a_dead A) jid = Some d" "key = dead_key jid d"
        and b: "b = dlr_encode P (dd_record d)" and ok: "adead_ok jid d"
        by (rule dead_row [OF Cons.prems(1)])
      obtain j where j: "dl_job (dd_record d) = Some j" "length (j_queue j) < 65536"
        using ok by (auto simp: adead_ok_def queue_ok_def)
      from requeue_one_refines [OF Cons.prems(1) d(1) ok j(1) now, folded d(2)]
      show ?thesis
        by (rule Cons.IH) (use Cons.prems True r Some b adead_ok_decode [OF ok] j in \<open>auto simp: Let_def\<close>)
    qed
  qed
qed simp

lemma op_announces:
  assumes "reps s A" and "op_ok op" and "0 \<le> now" "i64_ok now" and "apply_op P E (stamp now op) s = (Inr out, t)"
  shows "announces {||} s t"
proof (cases "\<exists>q keys b. op = OpRequeueDeadLetters q keys b")
  case True
  with assms show ?thesis
    using requeue_announces [OF assms(1) _ assms(3,4) announces_refl]
    by (auto simp: wrap_def apply_requeue_dead_letters_def split: prod.splits sum.splits)
next
  case False
  with assms(2,5) show ?thesis
    by (cases op) (auto simp: wrap_def announced apply_enqueue_def apply_enqueue_atomic_def apply_reserve_def
        apply_dead_letter_jobs_def apply_delete_dead_letters_def apply_close_queue_def
        apply_open_queue_def apply_audit_append_def Let_def split: prod.splits sum.splits if_splits option.splits)
qed

section \<open>The cycles\<close>

lemma command_announces:
  assumes "reps (b_st b) A" and "cmd_ok cmd" and now: "0 \<le> now" "i64_ok now" and "apply_command P E now cmd b = (Inr u, b')"
  shows "announces {||} (b_st b) (b_st b')"
proof (cases cmd)
  case (CmdOp op resp)
  obtain r s' where a: "apply_op P E (stamp now op) (b_st b) = (r, s')" by fastforce
  show ?thesis
  proof (cases r)
    case (Inr out)
    with a assms(5) CmdOp have "b_st b' = s'" by auto
    with op_announces [OF assms(1) _ now a [unfolded Inr]] assms(2) CmdOp show ?thesis by simp
  next
    case (Inl e)
    with a assms(5) CmdOp have e: "st_code e \<noteq> Internal" and b': "b_st b' = s'"
      by (auto simp: reject_def split: if_splits)
    have "b_st b' = b_st b" using apply_op_rejected [OF a [unfolded Inl] e] b' by simp
    then show ?thesis by simp
  qed
qed (use assms(5) in auto)

lemma commands_announce:
  assumes "reps (b_st b) A" and "batch_ok A rpcs" and now: "0 \<le> now" "i64_ok now"
    and "apply_commands P E now rpcs b = (None, b')"
  shows "announces {||} (b_st b) (b_st b')"
  using assms(1,2,5)
proof (induction rpcs arbitrary: b A)
  case (Cons cmd rpcs)
  obtain x t where c: "apply_command P E now cmd b = (x, t)" by fastforce
  with Cons.prems(3) obtain u where x: "x = Inr u" and go: "apply_commands P E now rpcs t = (None, b')"
    by (cases x) auto
  note ok = batch_ok_Cons [OF Cons.prems(2)]
  from apply_command_refines [OF Cons.prems(1) _ _ now c [unfolded x]] ok obtain es B where
    1: "arun A es B" "reps (b_st t) B" "enqueues_only (cmd_ids cmd) es"
    unfolding refined_def by auto
  have "batch_ok B rpcs" using ok arun_ids [OF 1(1,3)] by blast
  from Cons.IH [OF 1(2) this go] show ?case
    using announces_trans command_announces [OF Cons.prems(1) _ now c [unfolded x]] ok by blast
qed simp

end

lemma begun_announces:
  assumes "announces {||} (begin_cycle E params db ix) s" and "is_ready (st_ix s) k" and "\<not> is_ready ix k"
  shows "\<exists>rk. k = ReadyKey_encode rk \<and> rk_queue rk \<in> set (sorted_list_of_fset (cy_new_ready (st_cyc s)))
    \<and> length (rk_queue rk) < 65536"
  using assms by (auto simp: announces_def begin_cycle_def key_of_queues_def)

context reliable_storage
begin

text \<open>What becomes ready in a cycle belongs to a queue that the cycle wakes once it is committed.\<close>

lemma rpc_cycle_announces:
  assumes rep: "represents P (dbv db) ix A" and ok: "batch_ok A rpcs" and now: "0 \<le> now" "i64_ok now"
    and r: "r = run_rpc_cycle P E params now rpcs db ix" and np: "\<not> cr_panicked r"
    and k: "is_ready (cr_ix r) k" "\<not> is_ready ix k"
  shows "\<exists>rk. k = ReadyKey_encode rk \<and> rk_queue rk \<in> set (cr_woken r) \<and> length (rk_queue rk) < 65536"
proof -
  let ?b = "\<lparr>b_st = begin_cycle E params db ix, b_sent = [], b_parked = []\<rparr>"
  obtain f b where c: "apply_commands P E now rpcs ?b = (f, b)" by fastforce
  obtain o1 db' where o: "commit_if_dirty E (sp_persist_mode params) db (b_st b) = (o1, db')" by fastforce
  have sync: "resync P E d any = ix" if "dbv d = dbv db" for d any
    by (rule resync_exact [where A = A]) (simp add: that rep)
  have reps: "reps (b_st ?b) A" using begin_cycle_reps [OF rep] by simp
  show ?thesis
  proof (cases f)
    case (Some x)
    with c r k sync show ?thesis by (cases x) (simp add: run_rpc_cycle_def)
  next
    case None
    have ann: "announces {||} (begin_cycle E params db ix) (b_st b)"
      using commands_announce [OF reps ok now c [unfolded None]] by simp
    from None c o r k np sync commit_views(2) [OF o] begun_announces [OF ann] show ?thesis
      by (cases o1) (simp_all add: run_rpc_cycle_def Let_def)
  qed
qed

lemma sweep_cycle_announces:
  assumes rep: "represents P (dbv db) ix A" and now: "0 \<le> now" "i64_ok now"
    and r: "r = run_sweep_cycle P E params now db ix" and np: "\<not> cr_panicked r"
    and k: "is_ready (cr_ix r) k" "\<not> is_ready ix k"
  shows "\<exists>rk. k = ReadyKey_encode rk \<and> rk_queue rk \<in> set (cr_woken r) \<and> length (rk_queue rk) < 65536"
proof -
  obtain f s where c: "apply_op P E (sweep_op params now) (begin_cycle E params db ix) = (f, s)" by fastforce
  obtain o1 db' where o: "commit_if_dirty E (sp_persist_mode params) db s = (o1, db')" by fastforce
  have sync: "resync P E d any = ix" if "dbv d = dbv db" for d any
    by (rule resync_exact [where A = A]) (simp add: that rep)
  show ?thesis
  proof (cases f)
    case (Inl e)
    with c r k sync show ?thesis by (simp add: run_sweep_cycle_def)
  next
    case (Inr out)
    have st: "stamp now (sweep_op params now) = sweep_op params now" "op_ok (sweep_op params now)"
      by (simp_all add: sweep_op_def Let_def)
    have ann: "announces {||} (begin_cycle E params db ix) s"
      by (rule op_announces [OF begin_cycle_reps [OF rep] st(2) now]) (use c Inr st(1) in simp)
    from Inr c o r k np sync commit_views(2) [OF o] begun_announces [OF ann] show ?thesis
      by (cases o1) (simp_all add: run_sweep_cycle_def Let_def)
  qed
qed

end

end
