(* ===== verification/Notifiers.thy ===== *)
theory Notifiers
  imports Sepp_Prelude "HOL-Library.Multiset"
begin

text \<open>
  The wake-up of waiting reservations: \<open>QueueNotifiers\<close>, \<open>JobWaiter\<close> and \<open>Armed\<close> of \<open>src/storage.rs\<close>. A map
  under a mutex holds one \<open>Notify\<close> per queue name; a waiter holds a reference to the one of each of its
  queues; the committer wakes a queue through the map. Past a number of names, entries that nobody
  holds are dropped from the map.

  \<open>Notify\<close> is tokio's, so it is a parameter with the laws of the locale \<open>notify_laws\<close>: \<open>notify_waiters\<close>
  completes every future that was enabled before.
\<close>

section \<open>Notify\<close>

record ('n, 'f) notify_ops =
  notify_new :: 'n
  notify_enable :: "'n \<Rightarrow> 'f \<times> 'n"
  notify_waiters :: "'n \<Rightarrow> 'n"
  notified_ready :: "'n \<Rightarrow> 'f \<Rightarrow> bool"

locale notify_laws =
  fixes N :: "('n, 'f) notify_ops"
    and enabled :: "'n \<Rightarrow> 'f \<Rightarrow> bool"
  assumes enable_new: "notify_enable N n = (f, n') \<Longrightarrow> enabled n' f \<and> \<not> notified_ready N n' f"
    and enable_keeps: "notify_enable N n = (f, n') \<Longrightarrow> enabled n g \<Longrightarrow>
      enabled n' g \<and> notified_ready N n' g = notified_ready N n g"
    and wake_all: "enabled n f \<Longrightarrow> enabled (notify_waiters N n) f \<and> notified_ready N (notify_waiters N n) f"

text \<open>The counter that tokio keeps: a future remembers how often the waiters had been woken before.\<close>

definition notify_ref :: "(nat, nat) notify_ops" where
  "notify_ref = \<lparr>notify_new = 0, notify_enable = (\<lambda>n. (n, n)), notify_waiters = Suc, notified_ready = (\<lambda>n f. f < n)\<rparr>"

definition enabled_ref :: "nat \<Rightarrow> nat \<Rightarrow> bool" where
  "enabled_ref n f \<longleftrightarrow> f \<le> n"

lemma notify_ref_laws: "notify_laws notify_ref enabled_ref"
  by standard (auto simp: notify_ref_def enabled_ref_def)

interpretation rnotify: notify_laws notify_ref enabled_ref
  by (rule notify_ref_laws)

section \<open>The map\<close>

definition NOTIFIER_PRUNE_THRESHOLD :: nat where
  "NOTIFIER_PRUNE_THRESHOLD = 4096"

text \<open>
  An \<open>Arc<Notify>\<close> is an address; \<open>nf_held\<close> has the references outside the map, one for each clone that a
  waiter holds.
\<close>

record 'n notifiers =
  nf_map :: "(str, nat) fmap"
  nf_cells :: "nat \<Rightarrow> 'n"
  nf_next :: nat
  nf_held :: "nat multiset"

definition notifiers_default :: "('n, 'f) notify_ops \<Rightarrow> 'n notifiers" where
  "notifiers_default N = \<lparr>nf_map = fmempty, nf_cells = (\<lambda>_. notify_new N), nf_next = 0, nf_held = {#}\<rparr>"

definition strong_count :: "'n notifiers \<Rightarrow> nat \<Rightarrow> nat" where
  "strong_count s a = length (filter (\<lambda>(_, b). b = a) (sorted_list_of_fmap (nf_map s))) + count (nf_held s) a"

definition prune :: "'n notifiers \<Rightarrow> (str, nat) fmap" where
  "prune s =
     (if fcard (fmdom (nf_map s)) \<ge> NOTIFIER_PRUNE_THRESHOLD
      then fmfilter (\<lambda>q. case fmlookup (nf_map s) q of Some a \<Rightarrow> strong_count s a > 1 | None \<Rightarrow> False) (nf_map s)
      else nf_map s)"

definition notifiers_get :: "('n, 'f) notify_ops \<Rightarrow> str \<Rightarrow> 'n notifiers \<Rightarrow> nat \<times> 'n notifiers" where
  "notifiers_get N queue s =
     (let m = prune s
      in case fmlookup m queue of
           Some a \<Rightarrow> (a, s\<lparr>nf_map := m, nf_held := add_mset a (nf_held s)\<rparr>)
         | None \<Rightarrow>
             (let a = nf_next s
              in (a, s\<lparr>nf_map := fmupd queue a m, nf_cells := (nf_cells s)(a := notify_new N), nf_next := a + 1,
                       nf_held := add_mset a (nf_held s)\<rparr>)))"

definition notifiers_wake :: "('n, 'f) notify_ops \<Rightarrow> str \<Rightarrow> 'n notifiers \<Rightarrow> 'n notifiers" where
  "notifiers_wake N queue s =
     (case fmlookup (nf_map s) queue of
        None \<Rightarrow> s
      | Some a \<Rightarrow> s\<lparr>nf_cells := (nf_cells s)(a := notify_waiters N (nf_cells s a))\<rparr>)"

section \<open>Waiters\<close>

text \<open>The references of a waiter with their queues, and the futures of its last \<open>arm\<close>.\<close>

record 'f job_waiter =
  wt_notifies :: "(str \<times> nat) list"
  wt_armed :: "'f list"

text \<open>Creating a waiter takes the mutex once per queue; arming one enables a future per reference.\<close>

definition waiter_get :: "('n, 'f) notify_ops \<Rightarrow> str \<Rightarrow> 'f job_waiter \<times> 'n notifiers \<Rightarrow> 'f job_waiter \<times> 'n notifiers" where
  "waiter_get N queue ws =
     (case ws of (w, s) \<Rightarrow>
        (case notifiers_get N queue s of (a, s) \<Rightarrow> (w\<lparr>wt_notifies := wt_notifies w @ [(queue, a)]\<rparr>, s)))"

definition Storage_job_waiter :: "('n, 'f) notify_ops \<Rightarrow> str list \<Rightarrow> 'n notifiers \<Rightarrow> 'f job_waiter \<times> 'n notifiers" where
  "Storage_job_waiter N queues s = fold (waiter_get N) queues (\<lparr>wt_notifies = [], wt_armed = []\<rparr>, s)"

definition waiter_enable :: "('n, 'f) notify_ops \<Rightarrow> str \<times> nat \<Rightarrow> 'f job_waiter \<times> 'n notifiers \<Rightarrow> 'f job_waiter \<times> 'n notifiers" where
  "waiter_enable N qa ws =
     (case ws of (w, s) \<Rightarrow>
        (case notify_enable N (nf_cells s (snd qa)) of
           (f, n) \<Rightarrow> (w\<lparr>wt_armed := wt_armed w @ [f]\<rparr>, s\<lparr>nf_cells := (nf_cells s)(snd qa := n)\<rparr>)))"

definition JobWaiter_arm :: "('n, 'f) notify_ops \<Rightarrow> 'f job_waiter \<times> 'n notifiers \<Rightarrow> 'f job_waiter \<times> 'n notifiers" where
  "JobWaiter_arm N ws = (case ws of (w, s) \<Rightarrow> fold (waiter_enable N) (wt_notifies w) (w\<lparr>wt_armed := []\<rparr>, s))"

fun Armed_poll :: "('n, 'f) notify_ops \<Rightarrow> 'n notifiers \<Rightarrow> ((str \<times> nat) \<times> 'f) list \<Rightarrow> bool" where
  "Armed_poll N s [] = False"
| "Armed_poll N s (((_, a), f) # waiters) = (if notified_ready N (nf_cells s a) f then True else Armed_poll N s waiters)"

definition armed_of :: "'f job_waiter \<Rightarrow> ((str \<times> nat) \<times> 'f) list" where
  "armed_of w = zip (wt_notifies w) (wt_armed w)"

definition waiter_drop :: "'f job_waiter \<times> 'n notifiers \<Rightarrow> 'f job_waiter \<times> 'n notifiers" where
  "waiter_drop ws = (case ws of (w, s) \<Rightarrow>
     (\<lparr>wt_notifies = [], wt_armed = []\<rparr>, s\<lparr>nf_held := nf_held s - mset (map snd (wt_notifies w))\<rparr>))"

section \<open>Interleavings\<close>

text \<open>
  Requests and the committer run in parallel. A step is one access: a new waiter, taking the mutex for
  one more queue, enabling one future, dropping a waiter, or a wake.
\<close>

inductive notify_step ::
    "('n, 'f) notify_ops \<Rightarrow> 'f job_waiter list \<times> 'n notifiers \<Rightarrow> 'f job_waiter list \<times> 'n notifiers \<Rightarrow> bool"
  for N where
  created: "notify_step N (ws, s) (ws @ [\<lparr>wt_notifies = [], wt_armed = []\<rparr>], s)"
| got: "i < length ws \<Longrightarrow> wt_armed (ws ! i) = [] \<Longrightarrow> waiter_get N q (ws ! i, s) = (w, s') \<Longrightarrow> notify_step N (ws, s) (ws[i := w], s')"
| disarmed: "i < length ws \<Longrightarrow> notify_step N (ws, s) (ws[i := (ws ! i)\<lparr>wt_armed := []\<rparr>], s)"
| enabled: "i < length ws \<Longrightarrow> length (wt_armed (ws ! i)) < length (wt_notifies (ws ! i)) \<Longrightarrow>
    waiter_enable N (wt_notifies (ws ! i) ! length (wt_armed (ws ! i))) (ws ! i, s) = (w, s') \<Longrightarrow> notify_step N (ws, s) (ws[i := w], s')"
| dropped: "i < length ws \<Longrightarrow> waiter_drop (ws ! i, s) = (w, s') \<Longrightarrow> notify_step N (ws, s) (ws[i := w], s')"
| woken: "notify_step N (ws, s) (ws, notifiers_wake N q s)"

inductive notify_reach :: "('n, 'f) notify_ops \<Rightarrow> 'f job_waiter list \<times> 'n notifiers \<Rightarrow> bool"
  for N where
  start: "notify_reach N ([], notifiers_default N)"
| step: "notify_reach N x \<Longrightarrow> notify_step N x y \<Longrightarrow> notify_reach N y"

definition refs_of :: "'f job_waiter list \<Rightarrow> nat multiset" where
  "refs_of ws = mset (concat (map (\<lambda>w. map snd (wt_notifies w)) ws))"

lemma refs_of_append [simp]: "refs_of (ws @ [w]) = refs_of ws + mset (map snd (wt_notifies w))"
  by (simp add: refs_of_def)

lemma refs_of_update:
  "i < length ws \<Longrightarrow> refs_of (ws[i := w]) + mset (map snd (wt_notifies (ws ! i))) = refs_of ws + mset (map snd (wt_notifies w))"
proof (induction ws arbitrary: i)
  case (Cons v ws)
  then show ?case by (cases i) (auto simp: refs_of_def ac_simps)
qed simp

lemma held_ref: "w \<in> set ws \<Longrightarrow> (q, a) \<in> set (wt_notifies w) \<Longrightarrow> a \<in># refs_of ws"
  by (force simp: refs_of_def)

text \<open>
  The invariant. The map has one address per queue; the references counted are those of the waiters;
  and every reference of a waiter is the one the map has for its queue, whatever has been pruned.
\<close>

definition map_ok :: "'n notifiers \<Rightarrow> bool" where
  "map_ok s \<longleftrightarrow> (\<forall>q a. fmlookup (nf_map s) q = Some a \<longrightarrow> a < nf_next s)
     \<and> (\<forall>q q' a. fmlookup (nf_map s) q = Some a \<longrightarrow> fmlookup (nf_map s) q' = Some a \<longrightarrow> q = q')"

definition waiter_ok :: "('n \<Rightarrow> 'f \<Rightarrow> bool) \<Rightarrow> 'n notifiers \<Rightarrow> 'f job_waiter \<Rightarrow> bool" where
  "waiter_ok en s w \<longleftrightarrow> (\<forall>q a. (q, a) \<in> set (wt_notifies w) \<longrightarrow> fmlookup (nf_map s) q = Some a)
     \<and> length (wt_armed w) \<le> length (wt_notifies w)
     \<and> (\<forall>q a f. ((q, a), f) \<in> set (armed_of w) \<longrightarrow> en (nf_cells s a) f)"

definition notify_ok :: "('n \<Rightarrow> 'f \<Rightarrow> bool) \<Rightarrow> 'f job_waiter list \<times> 'n notifiers \<Rightarrow> bool" where
  "notify_ok en x \<longleftrightarrow> (case x of (ws, s) \<Rightarrow> map_ok s \<and> nf_held s = refs_of ws \<and> (\<forall>w \<in> set ws. waiter_ok en s w))"

lemma armed_of_ref: "((q, a), f) \<in> set (armed_of w) \<Longrightarrow> (q, a) \<in> set (wt_notifies w)"
  by (auto simp: armed_of_def dest: set_zip_leftD)

lemma notify_ok_replace:
  assumes "notify_ok en (ws, s)" and "i < length ws" and "map_ok s'" and "waiter_ok en s' w'"
    and "nf_held s' + mset (map snd (wt_notifies (ws ! i))) = nf_held s + mset (map snd (wt_notifies w'))"
    and "\<And>w. w \<in> set ws \<Longrightarrow> waiter_ok en s w \<Longrightarrow> waiter_ok en s' w"
  shows "notify_ok en (ws[i := w'], s')"
proof -
  have "refs_of (ws[i := w']) + mset (map snd (wt_notifies (ws ! i))) = nf_held s' + mset (map snd (wt_notifies (ws ! i)))"
    using refs_of_update [OF assms(2), of w'] assms(1,5) by (simp add: notify_ok_def)
  moreover have "\<forall>w \<in> set (ws[i := w']). waiter_ok en s' w"
    using set_update_subset_insert [of ws i w'] assms(1,4,6) by (auto simp: notify_ok_def)
  ultimately show ?thesis using assms(3) by (simp add: notify_ok_def)
qed

lemma pruned: "fmlookup (prune s) q = Some a \<Longrightarrow> fmlookup (nf_map s) q = Some a"
  by (auto simp: prune_def split: if_splits)

lemma pruned_map_ok: "map_ok s \<Longrightarrow> map_ok (s\<lparr>nf_map := prune s\<rparr>)"
  unfolding map_ok_def using pruned by fastforce

text \<open>An entry that somebody holds is counted at least twice, so it is not pruned.\<close>

lemma held_kept:
  assumes "a \<in># nf_held s" and "fmlookup (nf_map s) q = Some a"
  shows "fmlookup (prune s) q = Some a"
proof -
  have "(q, a) \<in> set (filter (\<lambda>(_, b). b = a) (sorted_list_of_fmap (nf_map s)))"
    using assms(2) by (simp add: set_sorted_list_of_fmap)
  then have "0 < length (filter (\<lambda>(_, b). b = a) (sorted_list_of_fmap (nf_map s)))" by (metis length_pos_if_in_set)
  moreover have "0 < count (nf_held s) a" using assms(1) by simp
  ultimately have "1 < strong_count s a" unfolding strong_count_def by linarith
  with assms(2) show ?thesis by (simp add: prune_def)
qed

lemma refs_kept:
  assumes "notify_ok en (ws, s)" and "w \<in> set ws" and "(q, a) \<in> set (wt_notifies w)"
  shows "fmlookup (prune s) q = Some a"
  using assms held_ref [OF assms(2,3)] by (intro held_kept) (auto simp: notify_ok_def waiter_ok_def)

lemma get_facts:
  assumes "notifiers_get N q s = (a, s')" and "map_ok s"
  shows "map_ok s'" and "fmlookup (nf_map s') q = Some a" and "nf_held s' = add_mset a (nf_held s)"
    and "\<And>q' b. fmlookup (prune s) q' = Some b \<Longrightarrow> fmlookup (nf_map s') q' = Some b"
    and "\<And>b. b < nf_next s \<Longrightarrow> nf_cells s' b = nf_cells s b"
proof -
  have m: "map_ok (s\<lparr>nf_map := prune s\<rparr>)" by (rule pruned_map_ok [OF assms(2)])
  show "map_ok s'"
    using assms(1) m by (fastforce simp: notifiers_get_def Let_def map_ok_def split: option.splits if_splits)
  show "fmlookup (nf_map s') q = Some a" "nf_held s' = add_mset a (nf_held s)"
    "\<And>q' b. fmlookup (prune s) q' = Some b \<Longrightarrow> fmlookup (nf_map s') q' = Some b"
    "\<And>b. b < nf_next s \<Longrightarrow> nf_cells s' b = nf_cells s b"
    using assms(1) by (auto simp: notifiers_get_def Let_def split: option.splits)
qed

text \<open>The map stays small: past the threshold it has no more entries than there are references held.\<close>

lemma get_bounds_map:
  assumes "notifiers_get N q s = (a, s')" and "map_ok s"
  shows "fcard (fmdom (nf_map s')) \<le> max NOTIFIER_PRUNE_THRESHOLD (card (set_mset (nf_held s')))"
proof (cases "fcard (fmdom (nf_map s)) \<ge> NOTIFIER_PRUNE_THRESHOLD")
  case False
  then have "fcard (fmdom (nf_map s')) \<le> Suc (fcard (fmdom (nf_map s)))"
    using assms(1) by (auto simp: notifiers_get_def Let_def prune_def fcard_finsert_if split: option.splits)
  with False show ?thesis by simp
next
  case True
  note g = get_facts [OF assms]
  have held: "b \<in># nf_held s" if "fmlookup (prune s) q' = Some b" for q' b
  proof -
    have l: "fmlookup (nf_map s) q' = Some b" by (rule pruned [OF that])
    then have "1 < strong_count s b" using that True by (simp add: prune_def split: if_splits)
    moreover have "length (filter (\<lambda>(_, c). c = b) (sorted_list_of_fmap (nf_map s))) \<le> 1"
    proof -
      have "set (filter (\<lambda>(_, c). c = b) (sorted_list_of_fmap (nf_map s))) \<subseteq> {(q', b)}"
        using l assms(2) by (auto simp: set_sorted_list_of_fmap map_ok_def)
      then have "card (set (filter (\<lambda>(_, c). c = b) (sorted_list_of_fmap (nf_map s)))) \<le> 1"
        by (metis card_mono finite.emptyI finite.insertI is_singletonI is_singleton_altdef)
      moreover have "distinct (sorted_list_of_fmap (nf_map s))" using distinct_fst_sorted_list_of_fmap distinct_map by blast
      ultimately show ?thesis by (metis distinct_card distinct_filter)
    qed
    ultimately show ?thesis unfolding strong_count_def by (simp add: not_less_eq flip: count_greater_zero_iff)
  qed
  have "the (fmlookup (nf_map s') q') \<in># nf_held s'" if "q' |\<in>| fmdom (nf_map s')" for q'
    using that assms(1) held g(3) by (fastforce simp: notifiers_get_def Let_def fmlookup_dom_iff split: option.splits if_splits)
  then have "(\<lambda>q'. the (fmlookup (nf_map s') q')) ` fset (fmdom (nf_map s')) \<subseteq> set_mset (nf_held s')" by auto
  moreover have "inj_on (\<lambda>q'. the (fmlookup (nf_map s') q')) (fset (fmdom (nf_map s')))"
    using g(1) by (auto simp: inj_on_def map_ok_def fmlookup_dom_iff)
  ultimately have "card (fset (fmdom (nf_map s'))) \<le> card (set_mset (nf_held s'))"
    by (metis card_image card_mono finite_set_mset)
  then show ?thesis by (simp add: fcard.rep_eq)
qed

lemma zip_snoc: "length ys < length xs \<Longrightarrow> zip xs (ys @ [y]) = zip xs ys @ [(xs ! length ys, y)]"
proof (induction ys arbitrary: xs)
  case (Cons y ys)
  then show ?case by (cases xs) auto
qed (auto simp: neq_Nil_conv)

context notify_laws
begin

lemma wake_keeps:
  assumes "notify_ok enabled (ws, s)"
  shows "notify_ok enabled (ws, notifiers_wake N q s)"
proof (cases "fmlookup (nf_map s) q")
  case None
  with assms show ?thesis by (simp add: notifiers_wake_def)
next
  case (Some a)
  let ?s = "s\<lparr>nf_cells := (nf_cells s)(a := notify_waiters N (nf_cells s a))\<rparr>"
  have "waiter_ok enabled ?s w" if "waiter_ok enabled s w" for w
    using that wake_all unfolding waiter_ok_def by auto
  with assms Some show ?thesis by (auto simp: notifiers_wake_def notify_ok_def map_ok_def)
qed

lemma get_keeps:
  assumes ok: "notify_ok enabled (ws, s)" and i: "i < length ws" "wt_armed (ws ! i) = []"
    and g: "waiter_get N q (ws ! i, s) = (w, s')"
  shows "notify_ok enabled (ws[i := w], s')"
proof -
  obtain a where a: "notifiers_get N q s = (a, s')" and w: "w = (ws ! i)\<lparr>wt_notifies := wt_notifies (ws ! i) @ [(q, a)]\<rparr>"
    using g by (auto simp: waiter_get_def split: prod.splits)
  from ok have m: "map_ok s" by (simp add: notify_ok_def)
  note gf = get_facts [OF a m]
  have kept: "fmlookup (nf_map s') q' = Some b" if "v \<in> set ws" "(q', b) \<in> set (wt_notifies v)" for v q' b
    using refs_kept [OF ok that] gf(4) by simp
  have cells: "nf_cells s' b = nf_cells s b" if "v \<in> set ws" "(q', b) \<in> set (wt_notifies v)" for v q' b
  proof (rule gf(5))
    have "fmlookup (nf_map s) q' = Some b" using that ok unfolding notify_ok_def waiter_ok_def by blast
    with m show "b < nf_next s" by (simp add: map_ok_def)
  qed
  show ?thesis
  proof (rule notify_ok_replace [OF ok i(1) gf(1)])
    show "waiter_ok enabled s' w" using kept [of "ws ! i"] gf(2) i w by (auto simp: waiter_ok_def armed_of_def)
    fix v assume v: "v \<in> set ws" "waiter_ok enabled s v"
    show "waiter_ok enabled s' v"
      using v kept [OF v(1)] cells [OF v(1)] armed_of_ref [of _ _ _ v] unfolding waiter_ok_def by metis
  qed (use gf(3) w in simp)
qed

lemma enable_keeps_ok:
  assumes ok: "notify_ok enabled (ws, s)" and i: "i < length ws" "length (wt_armed (ws ! i)) < length (wt_notifies (ws ! i))"
    and e: "waiter_enable N (wt_notifies (ws ! i) ! length (wt_armed (ws ! i))) (ws ! i, s) = (w, s')"
  shows "notify_ok enabled (ws[i := w], s')"
proof -
  let ?k = "length (wt_armed (ws ! i))"
  obtain q a where qa: "wt_notifies (ws ! i) ! ?k = (q, a)" by fastforce
  obtain f n where f: "notify_enable N (nf_cells s a) = (f, n)" by fastforce
  have w: "w = (ws ! i)\<lparr>wt_armed := wt_armed (ws ! i) @ [f]\<rparr>" and s': "s' = s\<lparr>nf_cells := (nf_cells s)(a := n)\<rparr>"
    using e qa f by (simp_all add: waiter_enable_def)
  have armed: "armed_of w = armed_of (ws ! i) @ [((q, a), f)]"
    using zip_snoc [OF i(2)] qa by (simp add: w armed_of_def)
  have keep: "waiter_ok enabled s' v" if "waiter_ok enabled s v" for v
    using that enable_keeps [OF f] unfolding waiter_ok_def s' by auto
  show ?thesis
  proof (rule notify_ok_replace [OF ok i(1) _ _ _ keep])
    show "map_ok s'" using ok by (simp add: s' notify_ok_def map_ok_def)
    have "waiter_ok enabled s' (ws ! i)" using keep ok i(1) by (simp add: notify_ok_def)
    then show "waiter_ok enabled s' w"
      using enable_new [OF f] i(2) unfolding waiter_ok_def armed by (auto simp: w s')
  qed (simp_all add: w s')
qed

lemma step_keeps: "notify_step N x y \<Longrightarrow> notify_ok enabled x \<Longrightarrow> notify_ok enabled y"
proof (induction rule: notify_step.induct)
  case (created ws s)
  then show ?case by (auto simp: notify_ok_def waiter_ok_def armed_of_def)
next
  case (disarmed i ws s)
  then have "waiter_ok enabled s (ws ! i)" by (simp add: notify_ok_def)
  then show ?case
    by (intro notify_ok_replace [OF disarmed.prems disarmed.hyps])
      (use disarmed in \<open>auto simp: notify_ok_def waiter_ok_def armed_of_def\<close>)
next
  case (dropped i ws s w s')
  then have w: "w = \<lparr>wt_notifies = [], wt_armed = []\<rparr>" "s' = s\<lparr>nf_held := nf_held s - mset (map snd (wt_notifies (ws ! i)))\<rparr>"
    by (simp_all add: waiter_drop_def)
  have "mset (map snd (wt_notifies (ws ! i))) \<subseteq># nf_held s"
    using refs_of_update [OF dropped.hyps(1), of "\<lparr>wt_notifies = [], wt_armed = []\<rparr>"] dropped.prems
    by (simp add: notify_ok_def) (metis mset_subset_eq_add_right)
  then show ?case
    by (intro notify_ok_replace [OF dropped.prems dropped.hyps(1)])
      (use dropped.prems in \<open>auto simp: w notify_ok_def map_ok_def waiter_ok_def armed_of_def\<close>)
qed (rule get_keeps enable_keeps_ok wake_keeps; assumption)+

lemma reach_ok: "notify_reach N x \<Longrightarrow> notify_ok enabled x"
proof (induction rule: notify_reach.induct)
  case start
  then show ?case by (simp add: notify_ok_def map_ok_def notifiers_default_def refs_of_def)
qed (rule step_keeps)

section \<open>No wake-up is lost\<close>

lemma woken_stays:
  assumes "notify_ok enabled (ws, s)" and "w \<in> set ws" and "((q, a), f) \<in> set (armed_of w)" and "notified_ready N (nf_cells s a) f"
  shows "notified_ready N (nf_cells (notifiers_wake N q' s) a) f"
proof -
  have "enabled (nf_cells s a) f" using assms(1-3) by (auto simp: notify_ok_def waiter_ok_def)
  with assms(4) wake_all show ?thesis by (simp add: notifiers_wake_def split: option.split)
qed

lemma wake_reaches:
  assumes "notify_ok enabled (ws, s)" and "w \<in> set ws" and "((q, a), f) \<in> set (armed_of w)" and "q \<in> set qs"
  shows "notified_ready N (nf_cells (fold (notifiers_wake N) qs s) a) f"
proof -
  have stays: "notified_ready N (nf_cells (fold (notifiers_wake N) qs s) a) f"
    if "notify_ok enabled (ws, s)" "notified_ready N (nf_cells s a) f" for qs s
    using that by (induction qs arbitrary: s) (auto intro: wake_keeps woken_stays [OF _ assms(2,3)])
  show ?thesis
    using assms(1,4)
  proof (induction qs arbitrary: s)
    case (Cons q' qs)
    show ?case
    proof (cases "q' = q")
      case True
      have "fmlookup (nf_map s) q = Some a" "enabled (nf_cells s a) f"
        using Cons.prems(1) assms(2,3) armed_of_ref [OF assms(3)] by (auto simp: notify_ok_def waiter_ok_def)
      then have "notified_ready N (nf_cells (notifiers_wake N q s) a) f" using wake_all by (simp add: notifiers_wake_def)
      with True stays [OF wake_keeps [OF Cons.prems(1)]] show ?thesis by simp
    qed (use Cons wake_keeps in auto)
  qed simp
qed

end

lemma Armed_poll_iff: "Armed_poll N s xs \<longleftrightarrow> (\<exists>((q, a), f) \<in> set xs. notified_ready N (nf_cells s a) f)"
  by (induction N s xs rule: Armed_poll.induct) auto

text \<open>Creating and arming a waiter as the handle does are sequences of steps.\<close>

lemma job_waiter_steps:
  "notify_reach N (ws @ [w], s) \<Longrightarrow> wt_armed w = [] \<Longrightarrow> fold (waiter_get N) qs (w, s) = (w', s') \<Longrightarrow>
     notify_reach N (ws @ [w'], s') \<and> wt_armed w' = []
       \<and> map fst (wt_notifies w') = map fst (wt_notifies w) @ qs"
proof (induction qs arbitrary: w s)
  case (Cons q qs)
  obtain v t where g: "waiter_get N q (w, s) = (v, t)" by fastforce
  have "notify_step N (ws @ [w], s) ((ws @ [w])[length ws := v], t)"
    by (rule notify_step.got) (use Cons.prems g in simp_all)
  then have "notify_reach N (ws @ [v], t)" using notify_reach.step [OF Cons.prems(1)] by simp
  moreover have "wt_armed v = []" "map fst (wt_notifies v) = map fst (wt_notifies w) @ [q]"
    using g Cons.prems(2) by (auto simp: waiter_get_def split: prod.splits)
  ultimately show ?case using Cons.IH [of v t] Cons.prems(3) g by simp
qed simp

lemma arm_steps:
  "notify_reach N (ws[i := w], s) \<Longrightarrow> i < length ws \<Longrightarrow> wt_notifies w = before @ qas \<Longrightarrow> length (wt_armed w) = length before \<Longrightarrow>
     fold (waiter_enable N) qas (w, s) = (w', s') \<Longrightarrow>
     notify_reach N (ws[i := w'], s') \<and> wt_notifies w' = wt_notifies w \<and> length (wt_armed w') = length (wt_notifies w)"
proof (induction qas arbitrary: w s before)
  case (Cons qa qas)
  obtain v t where g: "waiter_enable N qa (w, s) = (v, t)" by fastforce
  have "notify_step N (ws[i := w], s) (ws[i := w, i := v], t)"
    by (rule notify_step.enabled) (use Cons.prems g in simp_all)
  then have r: "notify_reach N (ws[i := v], t)" using notify_reach.step [OF Cons.prems(1)] by simp
  have "wt_notifies v = (before @ [qa]) @ qas" "length (wt_armed v) = length (before @ [qa])" "wt_notifies v = wt_notifies w"
    using g Cons.prems(3,4) by (auto simp: waiter_enable_def split: prod.splits)
  with Cons.IH [OF r Cons.prems(2)] Cons.prems(5) g show ?case by simp
qed simp

end
