(* ===== verification/Wakeup_Properties.thy ===== *)
theory Wakeup_Properties
  imports Announce Notifiers Example
begin

text \<open>
  The property of the wake-up of waiting reservations: what the committer makes ready and what the
  notifiers deliver, together.
\<close>

text \<open>
  C28: no wake-up is lost. Whenever a committed cycle, a batch of well-formed commands or a sweep, makes an
  entry ready that was not ready before, every waiter that had armed itself for the entry's queue (the
  queue whose prefix the key has) is woken by the wakes that follow the commit, however many waiters
  come, go and arm themselves in between and whatever has been pruned from the map of notifiers. A
  reservation arms itself before it looks for jobs, so it cannot miss one: a waiter made and armed by
  the handle is armed for each of its queues. The map of notifiers stays bounded: past its threshold it
  has no more entries than references are held.
\<close>

theorem new_jobs_wake_their_waiters:
  assumes "reliable_storage P E txv dbv" and "represents P (dbv db) ix A" and "batch_ok A rpcs" and "0 \<le> now" and "i64_ok now"
    and "r \<in> {run_rpc_cycle P E params now rpcs db ix, run_sweep_cycle P E params now db ix}" and "\<not> cr_panicked r"
    and "is_ready (cr_ix r) k" and "\<not> is_ready ix k"
    and "notify_laws N enabled" and "notify_reach N (ws, s)"
  shows "(\<forall>w \<in> set ws. \<forall>q \<in> fst ` fst ` set (armed_of w). length q < 65536 \<longrightarrow> prefix (queue_prefix q) k \<longrightarrow>
        Armed_poll N (fold (notifiers_wake N) (cr_woken r) s) (armed_of w))
    \<and> (\<forall>qs w w' s1 s2. Storage_job_waiter N qs s = (w, s1) \<longrightarrow> JobWaiter_arm N (w, s1) = (w', s2) \<longrightarrow>
        notify_reach N (ws @ [w'], s2) \<and> map (fst \<circ> fst) (armed_of w') = qs)
    \<and> (\<forall>q a s'. notifiers_get N q s = (a, s') \<longrightarrow>
        fcard (fmdom (nf_map s')) \<le> max NOTIFIER_PRUNE_THRESHOLD (card (set_mset (nf_held s'))))"
proof (intro conjI allI impI ballI)
  have ok: "notify_ok enabled (ws, s)" by (rule notify_laws.reach_ok [OF assms(10,11)])
  obtain rk where rk: "k = ReadyKey_encode rk" "rk_queue rk \<in> set (cr_woken r)" "length (rk_queue rk) < 65536"
    using reliable_storage.rpc_cycle_announces [OF assms(1-5) _ assms(7-9)]
      reliable_storage.sweep_cycle_announces [OF assms(1,2,4,5) _ assms(7-9)] assms(6) by blast
  show "Armed_poll N (fold (notifiers_wake N) (cr_woken r) s) (armed_of w)"
    if w: "w \<in> set ws" "q \<in> fst ` fst ` set (armed_of w)" and q: "length q < 65536" "prefix (queue_prefix q) k" for w q
  proof -
    have "q = rk_queue rk" using q rk by (simp add: prefix_append_ready)
    with w(2) obtain a f where x: "((rk_queue rk, a), f) \<in> set (armed_of w)" by force
    then show ?thesis using notify_laws.wake_reaches [OF assms(10) ok w(1) x rk(2)] unfolding Armed_poll_iff by blast
  qed
  show "fcard (fmdom (nf_map s')) \<le> max NOTIFIER_PRUNE_THRESHOLD (card (set_mset (nf_held s')))"
    if "notifiers_get N q s = (a, s')" for q a s'
    by (rule get_bounds_map [OF that]) (use ok in \<open>simp add: notify_ok_def\<close>)
  fix qs w w' s1 s2
  assume g: "Storage_job_waiter N qs s = (w, s1)" and m: "JobWaiter_arm N (w, s1) = (w', s2)"
  have "notify_reach N (ws @ [\<lparr>wt_notifies = [], wt_armed = []\<rparr>], s)"
    using notify_reach.step [OF assms(11) notify_step.created] .
  from job_waiter_steps [OF this _ g [unfolded Storage_job_waiter_def]]
  have w: "notify_reach N (ws @ [w], s1)" "wt_armed w = []" "map fst (wt_notifies w) = qs" by simp_all
  then have "notify_reach N ((ws @ [w])[length ws := w\<lparr>wt_armed := []\<rparr>], s1)" by (cases w) simp
  from arm_steps [OF this, of "[]" "wt_notifies w" w' s2] m w
  have "notify_reach N (ws @ [w'], s2)" "wt_notifies w' = wt_notifies w" "length (wt_armed w') = length (wt_notifies w)"
    by (simp_all add: JobWaiter_arm_def)
  then show "notify_reach N (ws @ [w'], s2)" "map (fst \<circ> fst) (armed_of w') = qs"
    using w(3) by (simp_all add: armed_of_def flip: map_map)
qed

text \<open>A job is enqueued while one request waits for its queue.\<close>

definition demo_waiting :: "nat job_waiter \<times> nat notifiers" where
  "demo_waiting = JobWaiter_arm notify_ref (Storage_job_waiter notify_ref [''q''] (notifiers_default notify_ref))"

definition demo_plain_pj :: prepared_job where
  "demo_plain_pj = \<lparr>pj_id = ''j2'', pj_req = demo_req\<lparr>er_idempotency_key := None\<rparr>,
     pj_limits = \<lparr>jl_priority = 1, jl_max_attempts = 3, jl_dedup_window_ms = 1000, jl_max_queue_depth = None\<rparr>\<rparr>"

definition demo_enqueued :: "rows cycle_result" where
  "demo_enqueued = run_rpc_cycle prost_ref mem_engine demo_params 10 [CmdOp (OpEnqueue [demo_plain_pj] 0) 1]
     (co_db (demo_committer abs_empty)) (co_ix (demo_committer abs_empty))"

definition demo_ready_key :: bytes where
  "demo_ready_key = ReadyKey_encode \<lparr>rk_queue = ''q'', rk_priority = 1, rk_enqueued_at = 10, rk_job_id = ''j2''\<rparr>"

lemma demo_waiting_eq: "demo_waiting = (\<lparr>wt_notifies = [(''q'', 0)], wt_armed = [0]\<rparr>,
    \<lparr>nf_map = fmupd ''q'' 0 fmempty, nf_cells = (\<lambda>_. 0)(0 := 0), nf_next = 1, nf_held = {#0#}\<rparr>)"
  by (simp add: demo_waiting_def Storage_job_waiter_def JobWaiter_arm_def waiter_get_def waiter_enable_def notifiers_get_def
      prune_def NOTIFIER_PRUNE_THRESHOLD_def notifiers_default_def notify_ref_def)

lemma demo_enqueued_ready: "is_ready (cr_ix demo_enqueued) demo_ready_key"
proof -
  have commit: "commit_if_dirty mem_engine m db s = (CommitOk, if cy_dirty (st_cyc s) then st_tx s else db)" for m db s
    by (simp add: commit_if_dirty_def commit_and_persist_def mem_engine_def)
  show ?thesis
    by (simp add: demo_enqueued_def run_rpc_cycle_def commit apply_enqueue_def wrap_def Let_def is_closing_def check_dedup_def
        insert_job_def insert_job_place_def insert_job_dedup_def demo_plain_pj_def demo_req_def new_job_def begin_cycle_def
        demo_committer_def index_of_def abs_empty_def is_ready_def demo_ready_key_def)
qed

lemma demo_not_ready: "\<not> is_ready (co_ix (demo_committer abs_empty)) demo_ready_key"
  by (simp add: is_ready_def demo_committer_def index_of_def abs_empty_def)

lemma demo_batch_ok: "batch_ok abs_empty [CmdOp (OpEnqueue [demo_plain_pj] 0) 1]"
  by (simp add: batch_ok_def unused_def abs_empty_def demo_plain_pj_def demo_req_def pj_ok_def queue_ok_def custom_ok_def ascii_utf8 ascii_def)

theorem new_jobs_wake_their_waiters_witness:
  "Armed_poll notify_ref (fold (notifiers_wake notify_ref) (cr_woken demo_enqueued) (snd demo_waiting)) (armed_of (fst demo_waiting))"
proof -
  obtain w s1 where g: "Storage_job_waiter notify_ref [''q''] (notifiers_default notify_ref) = (w, s1)" by fastforce
  have m: "JobWaiter_arm notify_ref (w, s1) = (fst demo_waiting, snd demo_waiting)" using g by (simp add: demo_waiting_def)
  have np: "\<not> cr_panicked demo_enqueued" unfolding demo_enqueued_def by (rule mem_no_panic)
  note wakes = new_jobs_wake_their_waiters [where r = demo_enqueued and k = demo_ready_key and params = demo_params,
      OF mem_reliable demo_committer_rep [OF abs_empty_ok] demo_batch_ok, of 10,
      OF _ _ _ np demo_enqueued_ready demo_not_ready notify_ref_laws]
  have r: "notify_reach notify_ref ([] @ [fst demo_waiting], snd demo_waiting)"
    by (rule conjunct1 [OF wakes [THEN conjunct2, THEN conjunct1, rule_format, OF _ _ _ notify_reach.start g m]])
      (simp_all add: demo_enqueued_def i64_ok_def i64_min_def i64_max_def)
  show ?thesis
    by (rule wakes [THEN conjunct1, rule_format, OF _ _ _ r, where q = "''q''"])
      (simp_all add: demo_enqueued_def i64_ok_def i64_min_def i64_max_def demo_waiting_eq armed_of_def demo_ready_key_def prefix_append_ready)
qed

end
