(* ===== verification/Publish.thy ===== *)
theory Publish
  imports Metrics Server_Loop
begin

text \<open>
  The end of a turn of \<open>run_committer\<close> in \<open>src/storage.rs\<close>: after its cycles the committer hands the depths
  to the gauges and, at most every 250 milliseconds, the depths and totals to the admin interface.
  What a turn exports and publishes is recorded beside the run of \<open>Server_Loop\<close>.
\<close>

section \<open>Publishing\<close>

definition ADMIN_PUBLISH_INTERVAL :: nat where
  "ADMIN_PUBLISH_INTERVAL = 250 * 1000000"

record publisher =
  pu_metrics :: metrics
  pu_admin_stats :: admin_snapshot
  pu_last_published :: "nat option"

definition publisher_start :: "storage_params \<Rightarrow> publisher" where
  "publisher_start params = \<lparr>pu_metrics = Metrics_new (sp_metrics_enabled params), pu_admin_stats = admin_snapshot_default,
     pu_last_published = None\<rparr>"

text \<open>The monotonic clock is read for the time since the last snapshot and again after the new one.\<close>

definition publish_stats :: "storage_params \<Rightarrow> nat \<Rightarrow> i64 \<Rightarrow> nat \<Rightarrow> 'db committer \<Rightarrow> publisher \<Rightarrow> publisher" where
  "publish_stats params instant now instant' c p =
     (let p = (if is_enabled (pu_metrics p) then p\<lparr>pu_metrics := set_queue_depths (Indexes_snapshot (co_ix c)) (pu_metrics p)\<rparr> else p)
      in if sp_admin_enabled params
           \<and> (case pu_last_published p of None \<Rightarrow> True | Some at \<Rightarrow> instant - at \<ge> ADMIN_PUBLISH_INTERVAL)
         then p\<lparr>pu_admin_stats := \<lparr>sn_ts_ms = now, sn_depths = Indexes_snapshot (co_ix c), sn_totals = at_totals (co_totals c),
                  sn_command_queue_len = 0\<rparr>,
                pu_last_published := Some instant'\<rparr>
         else p)"

text \<open>The counters that a committed cycle adds to.\<close>

definition cycle_exports :: "metrics \<Rightarrow> 'db cycle_result option \<Rightarrow> 'f effect list" where
  "cycle_exports mt r =
     (case r of
        None \<Rightarrow> []
      | Some r \<Rightarrow> (case cr_metrics r of None \<Rightarrow> [] | Some m \<Rightarrow> flush_cycle mt m))"

inductive observed_run ::
    "prost \<Rightarrow> ('db, 'tx) engine \<Rightarrow> storage_params \<Rightarrow> 'db committer \<Rightarrow> str set \<Rightarrow> 'db committer \<times> publisher \<times> 'f effect list \<Rightarrow> bool"
  for P E params c0 where
  start: "co_totals c0 = admin_totals_default \<Longrightarrow> observed_run P E params c0 {} (c0, publisher_start params, [])"
| turn: "observed_run P E params c0 used (c, p, es) \<Longrightarrow>
    sweep_turn P E params ck c = (c1, r1) \<Longrightarrow> \<not> panicked r1 \<Longrightarrow>
    rpc_turn P E params ck rpcs c1 = (c2, r2) \<Longrightarrow> \<not> panicked r2 \<Longrightarrow>
    clock_ok ck \<Longrightarrow> list_all cmd_ok rpcs \<Longrightarrow> distinct (concat (map cmd_ids rpcs)) \<Longrightarrow>
    set (concat (map cmd_ids rpcs)) \<inter> used = {} \<Longrightarrow>
    observed_run P E params c0 (used \<union> set (concat (map cmd_ids rpcs)))
      (c2, publish_stats params instant now instant' c2 p, es @ cycle_exports (pu_metrics p) r1 @ cycle_exports (pu_metrics p) r2)"
| restart: "observed_run P E params c0 used (c, p, es) \<Longrightarrow> storage_open P E (co_db c) = (Inr ix, db) \<Longrightarrow>
    observed_run P E params c0 used (\<lparr>co_db = db, co_ix = ix, co_totals = admin_totals_default\<rparr>, publisher_start params, [])"

section \<open>Snapshots are states\<close>

lemma observed_run_run: "observed_run P E params c0 used (c, p, es) \<Longrightarrow> run P E params c0 used c"
proof (induction used "(c, p, es)" arbitrary: c p es rule: observed_run.induct)
  case (turn used c p es ck c1 r1 rpcs c2 r2 instant now instant')
  then show ?case by (blast intro: run.step turn.intros)
qed (auto intro: run.intros)

definition snapshot_of :: "'db committer \<Rightarrow> admin_snapshot \<Rightarrow> bool" where
  "snapshot_of c sn \<longleftrightarrow> sn_depths sn = Indexes_snapshot (co_ix c) \<and> sn_totals sn = at_totals (co_totals c)"

lemma publish_admin:
  "pu_admin_stats (publish_stats params instant now instant' c p) = pu_admin_stats p
     \<or> snapshot_of c (pu_admin_stats (publish_stats params instant now instant' c p))"
  by (simp add: publish_stats_def snapshot_of_def Let_def)

lemma publish_gauges:
  "is_enabled (pu_metrics p) \<Longrightarrow> mt_queue_depths (pu_metrics (publish_stats params instant now instant' c p)) = Indexes_snapshot (co_ix c)"
  by (simp add: publish_stats_def set_queue_depths_def is_enabled_def Let_def)

text \<open>The admin interface sees the state at the end of a turn, or nothing yet.\<close>

lemma snapshots_are_states:
  "observed_run P E params c0 used (c, p, es) \<Longrightarrow>
     pu_admin_stats p = admin_snapshot_default \<or> (\<exists>used' c'. run P E params c0 used' c' \<and> snapshot_of c' (pu_admin_stats p))"
proof (induction used "(c, p, es)" arbitrary: c p es rule: observed_run.induct)
  case (turn used c p es ck c1 r1 rpcs c2 r2 instant now instant')
  have "observed_run P E params c0 (used \<union> set (concat (map cmd_ids rpcs)))
      (c2, publish_stats params instant now instant' c2 p, es @ cycle_exports (pu_metrics p) r1 @ cycle_exports (pu_metrics p) r2)"
    by (rule observed_run.turn) (use turn in simp_all)
  then have "run P E params c0 (used \<union> set (concat (map cmd_ids rpcs))) c2" by (rule observed_run_run)
  with turn.hyps(2) publish_admin [of params instant now instant' c2 p] show ?case by metis
qed (simp_all add: publisher_start_def)

section \<open>Totals and counters\<close>

text \<open>What was added to a counter for a queue.\<close>

definition exported :: "instrument \<Rightarrow> str \<Rightarrow> 'f effect list \<Rightarrow> nat" where
  "exported i q es =
     sum_list (map (\<lambda>e. case e of CounterAdd j n at \<Rightarrow> if j = i \<and> (''queue'', q) \<in> set at then n else 0 | _ \<Rightarrow> 0) es)"

definition of_queue :: "str \<Rightarrow> (str \<times> nat) list \<Rightarrow> nat" where
  "of_queue q xs = sum_list (map (\<lambda>(q', n). if q' = q then n else 0) xs)"

lemma exported_append [simp]: "exported i q (es @ fs) = exported i q es + exported i q fs" "exported i q [] = 0"
  by (simp_all add: exported_def)

lemma exported_by_queue [simp]:
  "exported i q (map (\<lambda>(q', n). CounterAdd j n [(''queue'', q')]) xs) = (if j = i then of_queue q xs else 0)"
  by (induction xs) (auto simp: exported_def of_queue_def)

lemma exported_by_cause [simp]:
  "exported i q (map (\<lambda>((q', c), n). CounterAdd j n [(''queue'', q'), (''cause'', c)]) xs) =
     (if j = i then of_queue q (map (\<lambda>((q', _), n). (q', n)) xs) else 0)"
  by (induction xs) (auto simp: exported_def of_queue_def)

lemma exported_plain [simp]: "exported i q [CounterAdd j n []] = 0"
  by (simp add: exported_def)

lemma exported_add_by_queue [simp]:
  "exported i q (add_by_queue j counts) = (if j = i then of_queue q (sorted_list_of_fmap counts) else 0)"
  by (simp add: add_by_queue_def)

lemma fold_counter_entry:
  assumes "\<And>n t. get (add n t) = get t + (if pick then n else 0 :: nat)"
  shows "get (totals_entry (at_totals (fold_counter add now xs a)) q) =
     get (totals_entry (at_totals a) q) + (if pick then of_queue q xs else 0)"
  unfolding fold_counter_def
  by (induction xs arbitrary: a) (auto simp: totals_entry_def of_queue_def assms split_def)

lemma fold_totals_entry:
  assumes "\<And>n t. get (t\<lparr>qt_enqueued := qt_enqueued t + n\<rparr>) = get t + (if bq then n else 0 :: nat)"
    and "\<And>n t. get (t\<lparr>qt_reserved := qt_reserved t + n\<rparr>) = get t + (if br then n else 0)"
    and "\<And>n t. get (t\<lparr>qt_acked := qt_acked t + n\<rparr>) = get t + (if ba then n else 0)"
    and "\<And>n t. get (t\<lparr>qt_nacked := qt_nacked t + n\<rparr>) = get t + (if bn then n else 0)"
    and "\<And>n t. get (t\<lparr>qt_dead_lettered := qt_dead_lettered t + n\<rparr>) = get t + (if bd then n else 0)"
  shows "get (totals_entry (at_totals (fold_admin_totals now m a)) q) = get (totals_entry (at_totals a) q)
    + (if bq then of_queue q (sorted_list_of_fmap (cm_enqueued_by_queue m)) else 0)
    + (if br then of_queue q (sorted_list_of_fmap (cm_reserved_by_queue m)) else 0)
    + (if ba then of_queue q (sorted_list_of_fmap (cm_acked_by_queue m)) else 0)
    + (if bn then of_queue q (sorted_list_of_fmap (cm_nacked_by_queue m)) else 0)
    + (if bd then of_queue q (map (\<lambda>((q', _), n). (q', n)) (sorted_list_of_fmap (cm_dead_lettered_by_queue_cause m))) else 0)"
  unfolding fold_admin_totals_def Let_def
  by (simp only: fold_counter_entry [where get = get, OF assms(1)] fold_counter_entry [where get = get, OF assms(2)]
      fold_counter_entry [where get = get, OF assms(3)] fold_counter_entry [where get = get, OF assms(4)]
      fold_counter_entry [where get = get, OF assms(5)])

text \<open>The five counters that the admin interface shows as totals, with their instruments.\<close>

definition shown_totals :: "metrics \<Rightarrow> (instrument \<times> (queue_totals \<Rightarrow> nat)) set" where
  "shown_totals mt = {(mt_jobs_enqueued mt, qt_enqueued), (mt_jobs_reserved mt, qt_reserved), (mt_jobs_acked mt, qt_acked),
     (mt_jobs_nacked mt, qt_nacked), (mt_jobs_dead_lettered mt, qt_dead_lettered)}"

definition exporting :: "metrics \<Rightarrow> bool" where
  "exporting mt \<longleftrightarrow> (\<exists>depths. mt = (Metrics_new True)\<lparr>mt_queue_depths := depths\<rparr>)"

text \<open>A cycle adds to the totals of a queue exactly what it adds to the counters.\<close>

lemma exported_if [simp]: "exported i q (if c then [CounterAdd j n []] else []) = 0"
  by simp

lemma exporting_distinct:
  assumes "exporting mt"
  shows "mt_enabled mt" and "distinct [mt_jobs_enqueued mt, mt_jobs_reserved mt, mt_jobs_acked mt, mt_jobs_nacked mt,
    mt_jobs_dead_lettered mt, mt_jobs_deduplicated mt, mt_sweep_promotions mt, mt_sweep_lease_redeliveries mt, mt_sweep_dedup_expirations mt]"
  using assms unfolding exporting_def Metrics_new_def by force+

lemma flushed:
  assumes "exporting mt"
  shows "exported (mt_jobs_enqueued mt) q (flush_cycle mt m) = of_queue q (sorted_list_of_fmap (cm_enqueued_by_queue m))"
    and "exported (mt_jobs_reserved mt) q (flush_cycle mt m) = of_queue q (sorted_list_of_fmap (cm_reserved_by_queue m))"
    and "exported (mt_jobs_acked mt) q (flush_cycle mt m) = of_queue q (sorted_list_of_fmap (cm_acked_by_queue m))"
    and "exported (mt_jobs_nacked mt) q (flush_cycle mt m) = of_queue q (sorted_list_of_fmap (cm_nacked_by_queue m))"
    and "exported (mt_jobs_dead_lettered mt) q (flush_cycle mt m) =
      of_queue q (map (\<lambda>((q', _), n). (q', n)) (sorted_list_of_fmap (cm_dead_lettered_by_queue_cause m)))"
  using exporting_distinct [OF assms] exporting_distinct(2) [OF assms, THEN distinct_rev [THEN iffD2]]
  by (simp_all add: flush_cycle_def)

lemma fold_totals:
  shows "qt_enqueued (totals_entry (at_totals (fold_admin_totals now m a)) q) =
      qt_enqueued (totals_entry (at_totals a) q) + of_queue q (sorted_list_of_fmap (cm_enqueued_by_queue m))"
    and "qt_reserved (totals_entry (at_totals (fold_admin_totals now m a)) q) =
      qt_reserved (totals_entry (at_totals a) q) + of_queue q (sorted_list_of_fmap (cm_reserved_by_queue m))"
    and "qt_acked (totals_entry (at_totals (fold_admin_totals now m a)) q) =
      qt_acked (totals_entry (at_totals a) q) + of_queue q (sorted_list_of_fmap (cm_acked_by_queue m))"
    and "qt_nacked (totals_entry (at_totals (fold_admin_totals now m a)) q) =
      qt_nacked (totals_entry (at_totals a) q) + of_queue q (sorted_list_of_fmap (cm_nacked_by_queue m))"
    and "qt_dead_lettered (totals_entry (at_totals (fold_admin_totals now m a)) q) =
      qt_dead_lettered (totals_entry (at_totals a) q) + of_queue q (map (\<lambda>((q', _), n). (q', n)) (sorted_list_of_fmap (cm_dead_lettered_by_queue_cause m)))"
  subgoal by (subst fold_totals_entry [where bq = True and br = False and ba = False and bn = False and bd = False]; simp)
  subgoal by (subst fold_totals_entry [where bq = False and br = True and ba = False and bn = False and bd = False]; simp)
  subgoal by (subst fold_totals_entry [where bq = False and br = False and ba = True and bn = False and bd = False]; simp)
  subgoal by (subst fold_totals_entry [where bq = False and br = False and ba = False and bn = True and bd = False]; simp)
  subgoal by (subst fold_totals_entry [where bq = False and br = False and ba = False and bn = False and bd = True]; simp)
  done

lemma fold_flush:
  assumes "exporting mt" and "(i, get) \<in> shown_totals mt"
  shows "get (totals_entry (at_totals (fold_admin_totals now m a)) q) =
    get (totals_entry (at_totals a) q) + exported i q (flush_cycle mt m)"
  using assms(2) by (auto simp: shown_totals_def flushed [OF assms(1)] fold_totals)

text \<open>Forgetting a queue, purged or idle, only lowers its totals.\<close>

definition forgets_only :: "admin_totals \<Rightarrow> admin_totals \<Rightarrow> bool" where
  "forgets_only a b \<longleftrightarrow> (\<forall>q. totals_entry (at_totals b) q \<in> {totals_entry (at_totals a) q, queue_totals_default})"

lemma forget_purged_forgets: "forgets_only a (forget_purged qs a)"
proof -
  have "fmlookup (fold fmdrop qs m) q = (if q \<in> set qs then None else fmlookup m q)" for m :: "(str, queue_totals) fmap" and q
    by (induction qs arbitrary: m) auto
  then show ?thesis by (simp add: forgets_only_def forget_purged_def totals_entry_def)
qed

lemma evict_forgets: "forgets_only a (evict_idle_admin_totals ix now a)"
  by (simp add: forgets_only_def evict_idle_admin_totals_def totals_entry_def Let_def)

lemma forgets_le:
  assumes "forgets_only a b" and "(i, get) \<in> shown_totals mt"
  shows "get (totals_entry (at_totals b) q) \<le> get (totals_entry (at_totals a) q)"
proof -
  have "get queue_totals_default = 0" using assms(2) by (auto simp: shown_totals_def queue_totals_default_def)
  with assms(1) show ?thesis unfolding forgets_only_def by (metis insertE le0 le_refl singletonD)
qed

definition totals_covered :: "admin_totals \<Rightarrow> 'f effect list \<Rightarrow> bool" where
  "totals_covered a es \<longleftrightarrow>
     (\<forall>(i, get) \<in> shown_totals (Metrics_new True). \<forall>q. get (totals_entry (at_totals a) q) \<le> exported i q es)"

lemma exporting_new [simp]: "exporting (Metrics_new True)"
  by (auto simp: exporting_def Metrics_new_def)

lemma exporting_flush:
  assumes "exporting mt"
  shows "flush_cycle mt m = flush_cycle (Metrics_new True) m" and "shown_totals mt = shown_totals (Metrics_new True)"
  using assms by (auto simp: exporting_def flush_cycle_def shown_totals_def)

lemma totals_covered_flush:
  fixes es :: "'f effect list"
  assumes "totals_covered a es" and "forgets_only a b" and "exporting mt"
  shows "totals_covered (fold_admin_totals now m b) (es @ flush_cycle mt m)"
  unfolding totals_covered_def
proof clarify
  fix i get q assume g: "(i, get) \<in> shown_totals (Metrics_new True)"
  have "get (totals_entry (at_totals b) q) \<le> get (totals_entry (at_totals a) q)" by (rule forgets_le [OF assms(2) g])
  also have "\<dots> \<le> exported i q es" using assms(1) g by (auto simp: totals_covered_def)
  finally show "get (totals_entry (at_totals (fold_admin_totals now m b)) q) \<le> exported i q (es @ flush_cycle mt m)"
    using fold_flush [OF exporting_new g, of now m b q, where 'a = 'f] by (simp add: exporting_flush [OF assms(3)])
qed

lemma totals_covered_less:
  assumes "totals_covered a es" and "forgets_only a b"
  shows "totals_covered b (es @ fs)"
  unfolding totals_covered_def
proof clarify
  fix i get q assume g: "(i, get) \<in> shown_totals (Metrics_new True)"
  have "get (totals_entry (at_totals b) q) \<le> get (totals_entry (at_totals a) q)" by (rule forgets_le [OF assms(2) g])
  also have "\<dots> \<le> exported i q es" using assms(1) g by (auto simp: totals_covered_def)
  finally show "get (totals_entry (at_totals b) q) \<le> exported i q (es @ fs)" by simp
qed

lemma forgets_refl [simp]: "forgets_only a a"
  by (simp add: forgets_only_def)

lemma turns_covered:
  assumes "totals_covered (co_totals c) es" and "exporting mt"
  shows "sweep_turn P E params ck c = (c1, r1) \<Longrightarrow> totals_covered (co_totals c1) (es @ cycle_exports mt r1)"
    and "rpc_turn P E params ck rpcs c = (c1, r1) \<Longrightarrow> totals_covered (co_totals c1) (es @ cycle_exports mt r1)"
proof -
  have evict: "totals_covered (evict_idle_admin_totals ix now a) xs" if "totals_covered a xs" for ix now a and xs :: "'a effect list"
    using totals_covered_less [OF that evict_forgets, of _ _ "[]"] by simp
  have keep: "totals_covered (co_totals c) (es @ fs)" for fs by (rule totals_covered_less [OF assms(1)]) simp
  note flush = totals_covered_flush [OF assms(1) _ assms(2)]
  show "totals_covered (co_totals c1) (es @ cycle_exports mt r1)" if "sweep_turn P E params ck c = (c1, r1)"
    using that assms(1) keep by (auto simp: sweep_turn_def cycle_exports_def Let_def intro!: evict flush split: if_splits option.splits)
  show "totals_covered (co_totals c1) (es @ cycle_exports mt r1)" if "rpc_turn P E params ck rpcs c = (c1, r1)"
    using that assms(1) keep
    by (auto simp: rpc_turn_def cycle_exports_def Let_def intro!: flush forget_purged_forgets split: if_splits option.splits)
qed

lemma exporting_publish: "exporting (pu_metrics p) \<Longrightarrow> exporting (pu_metrics (publish_stats params instant now instant' c p))"
  by (auto simp: exporting_def publish_stats_def set_queue_depths_def Let_def)

lemma published_covered:
  assumes "totals_covered (a\<lparr>at_totals := sn_totals (pu_admin_stats p)\<rparr>) es" and "totals_covered (co_totals c) (es @ fs)"
  shows "totals_covered (a\<lparr>at_totals := sn_totals (pu_admin_stats (publish_stats params instant now instant' c p))\<rparr>) (es @ fs)"
proof -
  have "totals_covered (a\<lparr>at_totals := sn_totals (pu_admin_stats p)\<rparr>) (es @ fs)" by (rule totals_covered_less [OF assms(1)]) simp
  then show ?thesis
    using publish_admin [of params instant now instant' c p] assms(2) unfolding snapshot_of_def totals_covered_def by auto
qed

lemma observed_covered:
  assumes "observed_run P E params c0 used (c, p, es)" and "sp_metrics_enabled params"
  shows "exporting (pu_metrics p) \<and> totals_covered (co_totals c) es
    \<and> totals_covered (admin_totals_default\<lparr>at_totals := sn_totals (pu_admin_stats p)\<rparr>) es"
  using assms(1)
proof (induction used "(c, p, es)" arbitrary: c p es rule: observed_run.induct)
  case (turn used c p es ck c1 r1 rpcs c2 r2 instant now instant')
  then have "totals_covered (co_totals c1) (es @ cycle_exports (pu_metrics p) r1)" using turns_covered(1) by blast
  with turn have c2: "totals_covered (co_totals c2) (es @ cycle_exports (pu_metrics p) r1 @ cycle_exports (pu_metrics p) r2)"
    using turns_covered(2) by fastforce
  with turn show ?case using exporting_publish published_covered by blast
qed (simp_all add: assms(2) publisher_start_def totals_covered_def shown_totals_def admin_totals_default_def totals_entry_def
    queue_totals_default_def admin_snapshot_default_def)

end
