(* ===== verification/Stats.thy ===== *)
theory Stats
  imports Admin_Routes Publish
begin

text \<open>
  The statistics of the admin interface, \<open>src/admin/stats.rs\<close>: the frames built from the committer's
  snapshots, the rates and their history, the stream of events; the overview and the server
  information of \<open>src/admin/routes.rs\<close>; and the static files of \<open>src/admin/assets.rs\<close>.

  A float is the 64 bits of an \<open>f64\<close>; its arithmetic is a record of functions, since HOL has none.
\<close>

section \<open>Floats\<close>

record f64_ops =
  f64_of_u64 :: "u64 \<Rightarrow> 64 word"
  f64_secs :: "nat \<Rightarrow> 64 word"
  f64_max :: "64 word \<Rightarrow> 64 word \<Rightarrow> 64 word"
  f64_div :: "64 word \<Rightarrow> 64 word \<Rightarrow> 64 word"
  f64_mul :: "64 word \<Rightarrow> 64 word \<Rightarrow> 64 word"
  f64_round :: "64 word \<Rightarrow> 64 word"

text \<open>The literals \<open>0.001\<close> and \<open>100.0\<close>; \<open>0.0\<close> is the word 0.\<close>

definition f64_milli :: "64 word" where
  "f64_milli = 0x3F50624DD2F1A9FC"

definition f64_hundred :: "64 word" where
  "f64_hundred = 0x4059000000000000"

section \<open>Frames\<close>

record rate_sample =
  rs_ts_ms :: i64
  rs_enqueued :: "64 word"
  rs_acked :: "64 word"
  rs_nacked :: "64 word"
  rs_dead_lettered :: "64 word"

definition rate_sample_default :: rate_sample where
  "rate_sample_default = \<lparr>rs_ts_ms = 0, rs_enqueued = 0, rs_acked = 0, rs_nacked = 0, rs_dead_lettered = 0\<rparr>"

definition rate_sample_json :: "codec \<Rightarrow> rate_sample \<Rightarrow> json" where
  "rate_sample_json K s = JObject [(''ts_ms'', json_int K (rs_ts_ms s)), (''enqueued'', json_f64 (rs_enqueued s)),
     (''acked'', json_f64 (rs_acked s)), (''nacked'', json_f64 (rs_nacked s)), (''dead_lettered'', json_f64 (rs_dead_lettered s))]"

definition queue_names :: "queue_registry \<Rightarrow> admin_snapshot \<Rightarrow> str list" where
  "queue_names registry snapshot =
     (let depths = sn_depths snapshot
      in sorted_list_of_set (fmdom' (ds_ready depths) \<union> fmdom' (ds_scheduled depths) \<union> fmdom' (ds_inflight depths)
           \<union> fmdom' (ds_dead_letter depths) \<union> fmdom' (sn_totals snapshot) \<union> fmdom' (qr_declared registry)))"

definition depth_of :: "(str, u64) fmap \<Rightarrow> str \<Rightarrow> u64" where
  "depth_of m name = unwrap_or (fmlookup m name) 0"

definition frame_queue :: "codec \<Rightarrow> admin_snapshot \<Rightarrow> (str, rate_sample) fmap \<Rightarrow> str \<Rightarrow> json" where
  "frame_queue K snapshot rates name =
     (let depth = (\<lambda>m. json_int K (int (depth_of m name)));
          u64 = (\<lambda>n. json_int K (int n));
          totals = unwrap_or (fmlookup (sn_totals snapshot) name) queue_totals_default;
          r = unwrap_or (fmlookup rates name) rate_sample_default
      in JObject [
        (''ready'', depth (ds_ready (sn_depths snapshot))),
        (''scheduled'', depth (ds_scheduled (sn_depths snapshot))),
        (''inflight'', depth (ds_inflight (sn_depths snapshot))),
        (''dead_lettered'', depth (ds_dead_letter (sn_depths snapshot))),
        (''totals'', JObject [(''enqueued'', u64 (qt_enqueued totals)), (''reserved'', u64 (qt_reserved totals)),
           (''acked'', u64 (qt_acked totals)), (''nacked'', u64 (qt_nacked totals)),
           (''dead_lettered'', u64 (qt_dead_lettered totals))]),
        (''rates'', JObject [(''enqueued'', json_f64 (rs_enqueued r)), (''acked'', json_f64 (rs_acked r)),
           (''nacked'', json_f64 (rs_nacked r)), (''dead_lettered'', json_f64 (rs_dead_lettered r))])])"

definition build_frame ::
    "codec \<Rightarrow> queue_registry \<Rightarrow> usize \<Rightarrow> admin_snapshot \<Rightarrow> (str, rate_sample) fmap \<Rightarrow> u64 \<Rightarrow> json" where
  "build_frame K registry command_queue_depth snapshot rates seq =
     (let queues = map (\<lambda>name. (name, frame_queue K snapshot rates name)) (queue_names registry snapshot)
      in JObject [
        (''seq'', json_int K (int seq)),
        (''ts_ms'', json_int K (sn_ts_ms snapshot)),
        (''server'', JObject [(''command_queue_len'', json_int K (int command_queue_depth))]),
        (''queues'', JObject queues)])"

section \<open>The hub\<close>

datatype admin_event = EvStats str | EvConfig u64 | EvAudit str

text \<open>The parts of \<open>AdminState\<close> that change: the history, the latest frame, its number, and what was broadcast.\<close>

record admin_hub =
  ah_history :: "(str, rate_sample list) fmap"
  ah_latest_frame :: json
  ah_frame_seq :: u64
  ah_sent :: "admin_event list"

definition admin_hub_new :: admin_hub where
  "admin_hub_new = \<lparr>ah_history = fmempty, ah_latest_frame = JNull, ah_frame_seq = 0, ah_sent = []\<rparr>"

definition prime :: "codec \<Rightarrow> queue_registry \<Rightarrow> usize \<Rightarrow> admin_snapshot \<Rightarrow> admin_hub \<Rightarrow> admin_hub" where
  "prime K registry command_queue_depth snapshot h =
     h\<lparr>ah_latest_frame := build_frame K registry command_queue_depth snapshot fmempty (ah_frame_seq h)\<rparr>"

definition rate :: "f64_ops \<Rightarrow> 64 word \<Rightarrow> u64 \<Rightarrow> u64 option \<Rightarrow> 64 word" where
  "rate F dt cur prev =
     (case prev of
        Some p \<Rightarrow> f64_div F (f64_round F (f64_mul F (f64_div F (f64_of_u64 F (cur - p)) dt) f64_hundred)) f64_hundred
      | None \<Rightarrow> 0)"

definition sample_of :: "f64_ops \<Rightarrow> 64 word \<Rightarrow> admin_snapshot \<Rightarrow> (str, queue_totals) fmap \<Rightarrow> str \<Rightarrow> rate_sample" where
  "sample_of F dt snapshot prev name =
     (let cur = unwrap_or (fmlookup (sn_totals snapshot) name) queue_totals_default;
          was = fmlookup prev name
      in \<lparr>rs_ts_ms = sn_ts_ms snapshot,
          rs_enqueued = rate F dt (qt_enqueued cur) (map_option qt_enqueued was),
          rs_acked = rate F dt (qt_acked cur) (map_option qt_acked was),
          rs_nacked = rate F dt (qt_nacked cur) (map_option qt_nacked was),
          rs_dead_lettered = rate F dt (qt_dead_lettered cur) (map_option qt_dead_lettered was)\<rparr>)"

fun trim_ring :: "nat \<Rightarrow> 'a list \<Rightarrow> 'a list" where
  "trim_ring cap ring = (if length ring > cap then trim_ring cap (tl ring) else ring)"

declare trim_ring.simps [simp del]

definition push_sample :: "nat \<Rightarrow> str \<times> rate_sample \<Rightarrow> (str, rate_sample list) fmap \<Rightarrow> (str, rate_sample list) fmap" where
  "push_sample cap ns history =
     (case ns of (name, sample) \<Rightarrow>
        fmupd name (trim_ring cap (unwrap_or (fmlookup history name) [] @ [sample])) history)"

definition history_cap :: "config \<Rightarrow> nat" where
  "history_cap config = max (ad_stats_history_ms (cf_admin config) div 1000) 1"

text \<open>
  One turn of \<open>run_hub\<close>, with the time since the last one. The registry is loaded once for the rates and
  again for the frame. The sequence number does not reach the bound of its 64 bits: it grows by one
  a second.
\<close>

definition hub_tick ::
    "f64_ops \<Rightarrow> codec \<Rightarrow> config \<Rightarrow> queue_registry \<Rightarrow> queue_registry \<Rightarrow> usize \<Rightarrow> admin_snapshot \<Rightarrow> nat \<Rightarrow>
     (str, queue_totals) fmap \<times> admin_hub \<Rightarrow> (str, queue_totals) fmap \<times> admin_hub" where
  "hub_tick F K config registry registry' command_queue_depth snapshot elapsed ph =
     (case ph of (prev, h) \<Rightarrow>
        (let dt = f64_max F (f64_secs F elapsed) f64_milli;
             names = queue_names registry snapshot;
             rates = map (\<lambda>name. (name, sample_of F dt snapshot prev name)) names;
             history = fmfilter (\<lambda>name. name \<in> set names) (ah_history h);
             history = fold (push_sample (history_cap config)) rates history;
             seq = ah_frame_seq h + 1;
             frame = build_frame K registry' command_queue_depth snapshot (fmap_of_list rates) seq
         in (sn_totals snapshot,
             h\<lparr>ah_history := history, ah_frame_seq := seq, ah_latest_frame := frame,
               ah_sent := ah_sent h @ [EvStats (json_text K frame)]\<rparr>)))"

definition watch_reloads :: "u64 \<Rightarrow> admin_hub \<Rightarrow> admin_hub" where
  "watch_reloads seq h = h\<lparr>ah_sent := ah_sent h @ [EvConfig seq]\<rparr>"

section \<open>The stream of events\<close>

text \<open>What a subscriber of the broadcast channel receives: an event, or how many it missed.\<close>

datatype received = Received admin_event | Lagged u64

type_synonym sse = "string \<times> str"

definition sse_of :: "bool \<Rightarrow> received \<Rightarrow> sse option" where
  "sse_of is_admin event =
     (case event of
        Received (EvStats frame) \<Rightarrow> Some (''stats'', frame)
      | Received (EvConfig seq) \<Rightarrow> Some (''config'', show_nat seq)
      | Received (EvAudit entry) \<Rightarrow> if is_admin then Some (''audit'', entry) else None
      | Lagged n \<Rightarrow> Some (''lagged'', show_nat n))"

definition history_json :: "codec \<Rightarrow> (str, rate_sample list) fmap \<Rightarrow> json" where
  "history_json K history =
     JObject (map (\<lambda>(name, ring). (name, JArray (map (rate_sample_json K) ring))) (sorted_list_of_fmap history))"

definition events :: "codec \<Rightarrow> role \<Rightarrow> admin_hub \<Rightarrow> received list \<Rightarrow> sse list" where
  "events K role h rx =
     (let is_admin = role_rank role \<ge> role_rank Admin;
          hello = json_text K (JObject [(''history'', history_json K (ah_history h)), (''frame'', ah_latest_frame h)])
      in (''hello'', hello) # List.map_filter (sse_of is_admin) rx)"

section \<open>Overview and server information\<close>

definition overview ::
    "codec \<Rightarrow> string \<Rightarrow> i64 \<Rightarrow> i64 \<Rightarrow> config \<Rightarrow> config \<Rightarrow> usize \<Rightarrow> bool option \<Rightarrow> admin_hub \<Rightarrow> json" where
  "overview K version started_at_ms now config boot command_queue_depth history h =
     (let body = [
        (''server'', JObject [
           (''version'', JString version),
           (''started_at_ms'', json_int K started_at_ms),
           (''now_ms'', json_int K now),
           (''strict_queues'', JBool (sv_strict_queues (cf_server config))),
           (''dead_letter_retention_ms'', json_int K (int (sc_dead_letter_retention_ms (cf_storage boot)))),
           (''command_queue_len'', json_int K (int command_queue_depth))]),
        (''frame'', ah_latest_frame h)]
      in JObject (if unwrap_or history True then body @ [(''history'', history_json K (ah_history h))] else body))"

definition route_server_info :: "codec \<Rightarrow> (socket_addr \<Rightarrow> str) \<Rightarrow> string \<Rightarrow> i64 \<Rightarrow> config \<Rightarrow> config \<Rightarrow> json" where
  "route_server_info K show_addr version started_at_ms config boot =
     JObject [
       (''version'', JString version),
       (''started_at_ms'', json_int K started_at_ms),
       (''listen_addr'', JString (show_addr (sv_listen_addr (cf_server boot)))),
       (''tls'', JBool (sv_tls_enabled (cf_server boot))),
       (''auth_enforcing'', JBool (au_api_keys (cf_auth config) \<noteq> None)),
       (''strict_queues'', JBool (sv_strict_queues (cf_server config))),
       (''db_path'', JString (sv_db_path (cf_server boot)))]"

section \<open>Static files\<close>

datatype asset_reply =
    RedirectTemporary str
  | ApiNotFound json
  | AssetFile string string bytes
  | AssetsMissing string

text \<open>The part after the last dot, or the whole path: \<open>path.rsplit('.').next()\<close>.\<close>

definition mime_of :: "str \<Rightarrow> string" where
  "mime_of path =
     (let ext = rev (takeWhile (\<lambda>c. c \<noteq> CHR ''.'') (rev path))
      in if ext = ''html'' then ''text/html; charset=utf-8''
         else if ext = ''js'' then ''text/javascript''
         else if ext = ''css'' then ''text/css''
         else if ext = ''svg'' then ''image/svg+xml''
         else if ext = ''png'' then ''image/png''
         else if ext = ''ico'' then ''image/x-icon''
         else if ext = ''woff2'' then ''font/woff2''
         else if ext = ''json'' \<or> ext = ''map'' then ''application/json''
         else if ext = ''txt'' then ''text/plain; charset=utf-8''
         else ''application/octet-stream'')"

definition serve_asset :: "(str \<Rightarrow> bytes option) \<Rightarrow> str \<Rightarrow> asset_reply" where
  "serve_asset Assets path =
     (let not_found = ApiNotFound (JObject [(''error'', JString ''not found''), (''code'', JString ''not_found'')])
      in if path = ''/'' then RedirectTemporary ''/admin/''
         else if prefix ''/admin/api/'' path then not_found
         else case strip_prefix ''/admin'' path of
             None \<Rightarrow> not_found
           | Some rest \<Rightarrow>
               (let rel = dropWhile (\<lambda>c. c = CHR ''/'') rest
                in case (if rel = [] then None else Assets rel) of
                     Some file \<Rightarrow>
                       AssetFile (mime_of rel)
                         (if prefix ''assets/'' rel then ''public, max-age=31536000, immutable'' else ''no-cache'') file
                   | None \<Rightarrow>
                       (case Assets ''index.html'' of
                          Some file \<Rightarrow> AssetFile ''text/html; charset=utf-8'' ''no-cache'' file
                        | None \<Rightarrow> AssetsMissing ''admin UI assets missing'')))"

section \<open>Rings\<close>

lemma trim_ring_eq: "trim_ring cap ring = drop (length ring - cap) ring"
proof (induction cap ring rule: trim_ring.induct)
  case (1 cap ring)
  then show ?case by (cases ring) (auto simp: trim_ring.simps [of cap] drop_Cons' Suc_diff_le)
qed

lemma push_samples:
  "distinct names \<Longrightarrow> fmlookup (fold (push_sample cap) (map (\<lambda>n. (n, f n)) names) history) name =
     (if name \<in> set names then Some (trim_ring cap (unwrap_or (fmlookup history name) [] @ [f name])) else fmlookup history name)"
  by (induction names arbitrary: history) (auto simp: push_sample_def)

lemma queue_names_set:
  "set (queue_names registry snapshot) = fmdom' (ds_ready (sn_depths snapshot)) \<union> fmdom' (ds_scheduled (sn_depths snapshot))
     \<union> fmdom' (ds_inflight (sn_depths snapshot)) \<union> fmdom' (ds_dead_letter (sn_depths snapshot)) \<union> fmdom' (sn_totals snapshot)
     \<union> fmdom' (qr_declared registry)"
  "distinct (queue_names registry snapshot)"
  by (simp_all add: queue_names_def Let_def)

text \<open>A tick keeps, for every queue shown, the newest samples up to the bound, and forgets the others.\<close>

lemma hub_tick_history:
  assumes "hub_tick F K config registry registry' depth snapshot elapsed (prev, h) = (prev', h')"
  shows "fmlookup (ah_history h') name =
    (if name \<in> set (queue_names registry snapshot)
     then Some (let ring = unwrap_or (fmlookup (ah_history h) name) []
                    @ [sample_of F (f64_max F (f64_secs F elapsed) f64_milli) snapshot prev name]
                in drop (length ring - history_cap config) ring)
     else None)"
  using assms
  by (auto simp: hub_tick_def Let_def push_samples [OF queue_names_set(2)] trim_ring_eq)

lemma hub_tick_frame:
  assumes "hub_tick F K config registry registry' depth snapshot elapsed (prev, h) = (prev', h')"
  shows "ah_frame_seq h' = ah_frame_seq h + 1" and "ah_sent h' = ah_sent h @ [EvStats (json_text K (ah_latest_frame h'))]"
    and "\<exists>rates. ah_latest_frame h' = build_frame K registry' depth snapshot rates (ah_frame_seq h')"
  using assms by (auto simp: hub_tick_def Let_def)

section \<open>Frames show what the snapshot has\<close>

fun json_at :: "str list \<Rightarrow> json \<Rightarrow> json option" where
  "json_at [] j = Some j"
| "json_at (k # ks) (JObject kvs) = Option.bind (map_of kvs k) (json_at ks)"
| "json_at (k # ks) _ = None"

lemma frame_at:
  "json_at (''queues'' # name # ks) (build_frame K registry depth snapshot rates seq) =
     (if name \<in> set (queue_names registry snapshot) then json_at ks (frame_queue K snapshot rates name) else None)"
proof -
  have "map_of (map (\<lambda>n. (n, f n)) ns) name = (if name \<in> set ns then Some (f name) else None)" for f :: "str \<Rightarrow> json" and ns
    by (induction ns) auto
  then show ?thesis by (simp add: build_frame_def Let_def)
qed

lemma frame_depths:
  assumes "name \<in> set (queue_names registry snapshot)"
  shows "json_at [''queues'', name, ''ready''] (build_frame K registry depth snapshot rates seq) =
      Some (json_int K (int (depth_of (ds_ready (sn_depths snapshot)) name)))"
    and "json_at [''queues'', name, ''scheduled''] (build_frame K registry depth snapshot rates seq) =
      Some (json_int K (int (depth_of (ds_scheduled (sn_depths snapshot)) name)))"
    and "json_at [''queues'', name, ''inflight''] (build_frame K registry depth snapshot rates seq) =
      Some (json_int K (int (depth_of (ds_inflight (sn_depths snapshot)) name)))"
    and "json_at [''queues'', name, ''dead_lettered''] (build_frame K registry depth snapshot rates seq) =
      Some (json_int K (int (depth_of (ds_dead_letter (sn_depths snapshot)) name)))"
  using assms by (simp_all only: frame_at if_True) (simp_all add: frame_queue_def Let_def)

text \<open>The depths of a snapshot are the counters of the indexes.\<close>

lemma snapshot_depths:
  "depth_counts ix q = \<lparr>qd_ready = depth_of (ds_ready (Indexes_snapshot ix)) q, qd_scheduled = depth_of (ds_scheduled (Indexes_snapshot ix)) q,
     qd_inflight = depth_of (ds_inflight (Indexes_snapshot ix)) q, qd_dead_letter = depth_of (ds_dead_letter (Indexes_snapshot ix)) q\<rparr>"
  by (simp add: depth_counts_def depth_of_def unwrap_or_def Indexes_snapshot_def queue_count_def split: option.split)

lemma not_named:
  "q \<notin> set (queue_names registry snapshot) \<Longrightarrow> depth_of (ds_ready (sn_depths snapshot)) q = 0
     \<and> depth_of (ds_scheduled (sn_depths snapshot)) q = 0 \<and> depth_of (ds_inflight (sn_depths snapshot)) q = 0
     \<and> depth_of (ds_dead_letter (sn_depths snapshot)) q = 0"
  by (auto simp: queue_names_set depth_of_def unwrap_or_def fmlookup_dom'_iff split: option.split)

end
