(* ===== verification/Telemetry.thy ===== *)
theory Telemetry
  imports Queue_Server Config
begin

text \<open>
  Trace propagation, \<open>src/telemetry.rs\<close>: reading the parent of a span from a request, linking a span to
  the context stored with a job, and turning the current context into one that can be stored. The W3C
  propagator and the span contexts are OpenTelemetry's; they are a record of functions with the laws
  of the locale \<open>propagator_laws\<close>.
\<close>

section \<open>The propagator\<close>

text \<open>
  \<open>extract\<close> reads from a carrier, given by its look-up; \<open>inject\<close> returns the values it sets, in order.
\<close>

record 'c propagator =
  pg_extract :: "(str \<Rightarrow> str option) \<Rightarrow> 'c"
  pg_inject :: "'c \<Rightarrow> (str \<times> str) list"
  pg_is_valid :: "'c \<Rightarrow> bool"

text \<open>
  A valid context is injected as a \<open>traceparent\<close> and perhaps a \<open>tracestate\<close>, and what was injected is
  extracted again.
\<close>

locale propagator_laws =
  fixes G :: "'c propagator"
  assumes inject_parent: "pg_is_valid G cx \<Longrightarrow> \<exists>v. map_of (rev (pg_inject G cx)) ''traceparent'' = Some v"
    and inject_keys: "fst ` set (pg_inject G cx) \<subseteq> {''traceparent'', ''tracestate''}"
    and extract_inject: "pg_is_valid G cx \<Longrightarrow> pg_extract G (map_of (rev (pg_inject G cx))) = cx"

section \<open>Spans\<close>

record 'c span =
  sp_context :: 'c
  sp_parent :: "'c option"
  sp_links :: "'c list"

text \<open>A header of the request, with the text that \<open>to_str\<close> yields, if any; binary keys are no keys.\<close>

record metadata_entry =
  me_key :: str
  me_binary :: bool
  me_text :: "str option"

definition MetadataExtractor_get :: "metadata_entry list \<Rightarrow> str \<Rightarrow> str option" where
  "MetadataExtractor_get md key =
     Option.bind (find (\<lambda>e. \<not> me_binary e \<and> me_key e = key) md) me_text"

definition MetadataExtractor_keys :: "metadata_entry list \<Rightarrow> str list" where
  "MetadataExtractor_keys md = map me_key (filter (\<lambda>e. \<not> me_binary e) md)"

definition set_parent_from_metadata :: "'c propagator \<Rightarrow> bool \<Rightarrow> metadata_entry list \<Rightarrow> 'c span \<Rightarrow> 'c span" where
  "set_parent_from_metadata G tracing metadata span =
     (if \<not> tracing then span
      else (let parent = pg_extract G (MetadataExtractor_get metadata)
            in if pg_is_valid G parent then span\<lparr>sp_parent := Some parent\<rparr> else span))"

definition carrier_of :: "trace_context \<Rightarrow> (str, str) fmap" where
  "carrier_of tc =
     (let carrier = fmupd ''traceparent'' (tc_traceparent tc) fmempty
      in case tc_tracestate tc of Some ts \<Rightarrow> fmupd ''tracestate'' ts carrier | None \<Rightarrow> carrier)"

definition link_from_proto :: "'c propagator \<Rightarrow> bool \<Rightarrow> trace_context option \<Rightarrow> 'c span \<Rightarrow> 'c span" where
  "link_from_proto G tracing trace_context span =
     (if \<not> tracing then span
      else case trace_context of
          None \<Rightarrow> span
        | Some tc \<Rightarrow>
            (let cx = pg_extract G (fmlookup (carrier_of tc))
             in if pg_is_valid G cx then span\<lparr>sp_links := sp_links span @ [cx]\<rparr> else span))"

definition MapInjector_set :: "str \<times> str \<Rightarrow> (str, str) fmap \<Rightarrow> (str, str) fmap" where
  "MapInjector_set kv carrier = fmupd (fst kv) (snd kv) carrier"

definition current_trace_context :: "'c propagator \<Rightarrow> bool \<Rightarrow> 'c span \<Rightarrow> trace_context option" where
  "current_trace_context G tracing span =
     (if \<not> tracing then None
      else (let cx = sp_context span
            in if \<not> pg_is_valid G cx then None
               else (let carrier = fold MapInjector_set (pg_inject G cx) fmempty
                     in case fmlookup carrier ''traceparent'' of
                          None \<Rightarrow> None
                        | Some parent \<Rightarrow> Some \<lparr>tc_traceparent = parent, tc_tracestate = fmlookup carrier ''tracestate''\<rparr>)))"

section \<open>Delivering a job\<close>

text \<open>
  The span of a delivery in \<open>reserve\<close> links to the context the job was stored with, and the worker gets
  the context of the delivery. With tracing off the job is handed out as it is.
\<close>

definition deliver :: "'c propagator \<Rightarrow> bool \<Rightarrow> 'c span \<Rightarrow> job \<Rightarrow> 'c span \<times> job" where
  "deliver G tracing span job =
     (if \<not> tracing then (span, job)
      else (let span = link_from_proto G tracing (j_trace_context job) span
            in (span, delivered (\<lambda>_. current_trace_context G tracing span) job)))"

section \<open>Setting tracing up\<close>

text \<open>
  The filter comes from the environment, or else from the configuration; either may not parse. Tracing
  is on exactly when the exporter was built.
\<close>

datatype log_layers = PlainLogs log_format | TracedLogs log_format str str "64 word"

definition telemetry_init ::
    "'flt option \<Rightarrow> (str \<Rightarrow> 'e + 'flt) \<Rightarrow> (str \<Rightarrow> 'e option) \<Rightarrow> logging_config \<Rightarrow> tracing_config \<Rightarrow> 'e + ('flt \<times> log_layers \<times> bool)" where
  "telemetry_init from_env parse_filter exporter logging cfg =
     (case (case from_env of Some f \<Rightarrow> Inr f | None \<Rightarrow> parse_filter (lg_level logging)) of
        Inl e \<Rightarrow> Inl e
      | Inr flt \<Rightarrow>
          if \<not> tr_enabled cfg then Inr (flt, PlainLogs (lg_format logging), False)
          else (case exporter (tr_otlp_endpoint cfg) of
                  Some e \<Rightarrow> Inl e
                | None \<Rightarrow> Inr (flt, TracedLogs (lg_format logging) (tr_otlp_endpoint cfg) (tr_service_name cfg) (tr_sample_ratio cfg), True)))"

section \<open>Contexts survive storage\<close>

lemma injected: "fmlookup (fold MapInjector_set kvs m) k = (case map_of (rev kvs) k of Some v \<Rightarrow> Some v | None \<Rightarrow> fmlookup m k)"
  by (induction kvs arbitrary: m) (auto simp: MapInjector_set_def map_add_def split: option.split)

context propagator_laws
begin

lemma carrier_is_injected:
  assumes "current_trace_context G True span = Some tc"
  shows "fmlookup (carrier_of tc) = map_of (rev (pg_inject G (sp_context span)))"
proof
  fix k
  let ?m = "map_of (rev (pg_inject G (sp_context span)))"
  have other: "?m k = None" if "k \<noteq> ''traceparent''" "k \<noteq> ''tracestate''"
    using that inject_keys [of "sp_context span"] by (auto simp: map_of_eq_None_iff)
  obtain p where p: "?m ''traceparent'' = Some p" and tc: "tc = \<lparr>tc_traceparent = p, tc_tracestate = ?m ''tracestate''\<rparr>"
    using assms by (auto simp: current_trace_context_def injected Let_def split: if_splits option.splits)
  have "fmlookup (carrier_of tc) k = (if k = ''traceparent'' then Some p else if k = ''tracestate'' then ?m ''tracestate'' else None)"
    by (simp add: tc carrier_of_def Let_def split: option.split)
  also have "\<dots> = ?m k" using p other by metis
  finally show "fmlookup (carrier_of tc) k = ?m k" .
qed

text \<open>
  A context that was stored with a job and is read back later links to the span that was current when
  it was stored.
\<close>

lemma trace_context_round_trip:
  assumes "pg_is_valid G (sp_context span)"
  shows "\<exists>tc. current_trace_context G True span = Some tc
    \<and> sp_links (link_from_proto G True (Some tc) span') = sp_links span' @ [sp_context span]"
proof -
  obtain tc where tc: "current_trace_context G True span = Some tc"
    using assms inject_parent [OF assms] by (auto simp: current_trace_context_def injected Let_def)
  from carrier_is_injected [OF this] extract_inject [OF assms] assms tc show ?thesis
    by (intro exI [of _ tc]) (simp add: link_from_proto_def)
qed

text \<open>A delivered job carries the context of its delivery, whose span links to what stored it.\<close>

lemma delivery_links:
  assumes "pg_is_valid G (sp_context stored)" and "pg_is_valid G (sp_context span)"
    and "j_trace_context job = current_trace_context G True stored" and "deliver G True span job = (span', job')"
  shows "sp_links span' = sp_links span @ [sp_context stored]"
    and "j_trace_context job' = current_trace_context G True span" and "job'\<lparr>j_trace_context := j_trace_context job\<rparr> = job"
proof -
  have keep: "current_trace_context G True (link_from_proto G True x span) = current_trace_context G True span" for x
    by (simp add: current_trace_context_def link_from_proto_def Let_def split: option.split)
  have s: "span' = link_from_proto G True (j_trace_context job) span"
    and j: "job' = delivered (\<lambda>_. current_trace_context G True span) job"
    using assms(4) keep by (simp_all add: deliver_def Let_def)
  show "sp_links span' = sp_links span @ [sp_context stored]"
    using trace_context_round_trip [OF assms(1), of span] assms(3) s by force
  show "j_trace_context job' = current_trace_context G True span" "job'\<lparr>j_trace_context := j_trace_context job\<rparr> = job"
    using trace_context_round_trip [OF assms(2), of span] j by (auto simp: delivered_def)
qed

end

text \<open>With tracing off nothing is read and nothing changes.\<close>

lemma tracing_off:
  "set_parent_from_metadata G False md span = span" "link_from_proto G False tc span = span"
  "current_trace_context G False span = None" "deliver G False span job = (span, job)"
  by (simp_all add: set_parent_from_metadata_def link_from_proto_def current_trace_context_def deliver_def)

section \<open>A propagator\<close>

text \<open>Contexts that are the two header values; valid ones have a parent.\<close>

definition propagator_ref :: "(str option \<times> str option) propagator" where
  "propagator_ref = \<lparr>pg_extract = (\<lambda>get. (get ''traceparent'', get ''tracestate'')),
     pg_inject = (\<lambda>(p, s). (case p of Some v \<Rightarrow> [(''traceparent'', v)] | None \<Rightarrow> []) @ (case s of Some v \<Rightarrow> [(''tracestate'', v)] | None \<Rightarrow> [])),
     pg_is_valid = (\<lambda>(p, s). p \<noteq> None)\<rparr>"

interpretation rpg: propagator_laws propagator_ref
  by standard (auto simp: propagator_ref_def split: option.splits)

end
