(* ===== verification/Instrumented.thy ===== *)
theory Instrumented
  imports Telemetry Metrics
begin

text \<open>
  The handlers of \<open>src/queue_server.rs\<close> that settle leases and drain dead letters, as they are called: with
  their span, its parent from the request and its link to the job's trace, and counted by the metrics.
  \<open>Queue_Server\<close> has what they answer.
\<close>

section \<open>Spans of requests\<close>

datatype field_value = FStr str | FNum int | FBool bool

record 'c rpc_span =
  rs_name :: string
  rs_fields :: "(string \<times> field_value) list"
  rs_span :: "'c span"

text \<open>What surrounds a request: the tracer, the metrics, the headers, and how long it took.\<close>

record ('c, 'f) rpc_env =
  re_propagator :: "'c propagator"
  re_tracing :: bool
  re_context :: 'c
  re_metadata :: "metadata_entry list"
  re_show :: "status \<Rightarrow> str"
  re_millis :: "nat \<Rightarrow> 'f"
  re_metrics :: metrics
  re_elapsed :: nat

definition open_span :: "('c, 'f) rpc_env \<Rightarrow> string \<Rightarrow> (string \<times> field_value) list \<Rightarrow> 'c rpc_span" where
  "open_span env name flds =
     \<lparr>rs_name = name, rs_fields = (''otel.kind'', FStr ''server'') # flds,
      rs_span = set_parent_from_metadata (re_propagator env) (re_tracing env) (re_metadata env)
        \<lparr>sp_context = re_context env, sp_parent = None, sp_links = []\<rparr>\<rparr>"

definition record_field :: "string \<Rightarrow> field_value \<Rightarrow> 'c rpc_span \<Rightarrow> 'c rpc_span" where
  "record_field name v sp = sp\<lparr>rs_fields := rs_fields sp @ [(name, v)]\<rparr>"

definition link_span :: "('c, 'f) rpc_env \<Rightarrow> trace_context option \<Rightarrow> 'c rpc_span \<Rightarrow> 'c rpc_span" where
  "link_span env tc sp = sp\<lparr>rs_span := link_from_proto (re_propagator env) (re_tracing env) tc (rs_span sp)\<rparr>"

record ('c, 'f, 'a) rpc_done =
  rd_result :: "status + 'a"
  rd_span :: "'c rpc_span"
  rd_effects :: "'f effect list"

definition close_rpc :: "('c, 'f) rpc_env \<Rightarrow> string \<Rightarrow> 'c rpc_span \<Rightarrow> status + 'a \<Rightarrow> ('c, 'f, 'a) rpc_done" where
  "close_rpc env method sp result =
     \<lparr>rd_result = result, rd_span = sp,
      rd_effects = observe (re_show env) (re_millis env) (re_metrics env) method (re_elapsed env) result\<rparr>"

section \<open>The handlers\<close>

definition worker_field :: "str option \<Rightarrow> string \<times> field_value" where
  "worker_field worker_id = (''worker_id'', FStr (unwrap_or worker_id ''<none>''))"

definition rpc_ack :: "('c, 'f) rpc_env \<Rightarrow> ('db, 's) channel \<Rightarrow> ack_request \<Rightarrow> 's \<Rightarrow> ('c, 'f, str) rpc_done \<times> 's" where
  "rpc_ack env ch req s =
     (let sp = open_span env ''sepp.ack'' [(''job_id'', FStr (ack_job_id req)), (''attempt'', FNum (uint (ack_attempt req))),
          worker_field (ack_worker_id req)]
      in case checked (ack_request_check req) (storage_ack ch (ack_job_id req) (ack_attempt req)) s of
           (Inl e, s) \<Rightarrow> (close_rpc env ''ack'' sp (Inl e), s)
         | (Inr out, s) \<Rightarrow>
             (let sp = record_field ''queue'' (FStr (ao_queue out)) sp;
                  sp = link_span env (ao_trace_context out) sp
              in (close_rpc env ''ack'' sp (Inr (ack_job_id req)), s)))"

definition rpc_nack ::
    "('c, 'f) rpc_env \<Rightarrow> prost \<Rightarrow> ('db, 'tx) engine \<Rightarrow> (str \<Rightarrow> u32 \<Rightarrow> u64) \<Rightarrow> ('db, 's) channel \<Rightarrow> queue_server \<Rightarrow> nack_request \<Rightarrow> 's
       \<Rightarrow> ('c, 'f, str \<times> bool) rpc_done \<times> 's" where
  "rpc_nack env P E jitter ch srv req s =
     (let sp = open_span env ''sepp.nack'' [(''job_id'', FStr (nack_job_id req)), (''attempt'', FNum (uint (nack_attempt req))),
          worker_field (nack_worker_id req), (''reason'', FStr (unwrap_or (nack_reason req) ''<none>'')),
          (''retry'', FStr (nack_strategy_label req))]
      in case checked (nack_request_check req) (storage_nack P E jitter ch (qs_handle srv) req) s of
           (Inl e, s) \<Rightarrow> (close_rpc env ''nack'' sp (Inl e), s)
         | (Inr out, s) \<Rightarrow>
             (let sp = record_field ''queue'' (FStr (no_queue out)) sp;
                  sp = record_field ''dead_lettered'' (FBool (no_dead_lettered out)) sp;
                  sp = record_field ''retry_delay_ms'' (FNum (int (no_delay_ms out))) sp;
                  sp = link_span env (no_trace_context out) sp
              in (close_rpc env ''nack'' sp (Inr (nack_job_id req, no_dead_lettered out)), s)))"

definition rpc_extend ::
    "('c, 'f) rpc_env \<Rightarrow> prost \<Rightarrow> ('db, 'tx) engine \<Rightarrow> ('db, 's) channel \<Rightarrow> queue_server \<Rightarrow> extend_request \<Rightarrow> 's
       \<Rightarrow> ('c, 'f, str \<times> timestamp) rpc_done \<times> 's" where
  "rpc_extend env P E ch srv req s =
     (let sp = open_span env ''sepp.extend'' ([(''job_id'', FStr (ext_job_id req)), (''attempt'', FNum (uint (ext_attempt req))),
          worker_field (ext_worker_id req)]
          @ (case ext_lease_duration req of Some d \<Rightarrow> [(''lease_duration_ms'', FNum (int (duration_to_millis P d)))] | None \<Rightarrow> []))
      in case checked (extend_request_check req) (storage_extend P E ch (qs_handle srv) req) s of
           (Inl e, s) \<Rightarrow> (close_rpc env ''extend'' sp (Inl e), s)
         | (Inr out, s) \<Rightarrow>
             (let sp = record_field ''queue'' (FStr (eo_queue out)) sp;
                  sp = record_field ''lease_expires_at'' (FNum (eo_lease_expires_at out)) sp;
                  sp = link_span env (eo_trace_context out) sp
              in (close_rpc env ''extend'' sp (Inr (ext_job_id req, millis_to_timestamp P (eo_lease_expires_at out))), s)))"

definition rpc_drain_dead_letters ::
    "('c, 'f) rpc_env \<Rightarrow> ('db, 's) channel \<Rightarrow> queue_server \<Rightarrow> drain_request \<Rightarrow> 's
       \<Rightarrow> ('c, 'f, dead_letter_record list) rpc_done \<times> 's" where
  "rpc_drain_dead_letters env ch srv req s =
     (let sp = open_span env ''sepp.drain_dead_letters'' [(''queue'', FStr (unwrap_or (dr_queue req) ''<all>''))];
          mx = unat (min (max (unwrap_or (dr_max req) 1) 1) (lc_max_reserve_batch (cf_limits (qs_config srv))))
      in case checked (drain_dead_letters_request_check req) (storage_drain_dead_letters ch (qs_handle srv) (dr_queue req) mx) s of
           (Inl e, s) \<Rightarrow> (close_rpc env ''drain_dead_letters'' sp (Inl e), s)
         | (Inr records, s) \<Rightarrow>
             (let sp = record_field ''max'' (FNum (int mx)) sp;
                  sp = record_field ''drained'' (FNum (int (length records))) sp
              in (close_rpc env ''drain_dead_letters'' sp (Inr records), s)))"

section \<open>Observing changes nothing\<close>

text \<open>The handlers answer what \<open>Queue_Server\<close> says, whatever is traced and counted.\<close>

lemma rpc_results:
  "map_prod rd_result id (rpc_ack env ch areq s) = serve_ack ch areq s"
  "map_prod rd_result id (rpc_nack env P E jitter ch srv nreq s) = serve_nack P E jitter ch srv nreq s"
  "map_prod rd_result id (rpc_extend env P E ch srv ereq s) = serve_extend P E ch srv ereq s"
  "map_prod rd_result id (rpc_drain_dead_letters env ch srv dreq s) = serve_drain_dead_letters ch srv dreq s"
  by (simp_all add: rpc_ack_def serve_ack_def rpc_nack_def serve_nack_def rpc_extend_def serve_extend_def
      rpc_drain_dead_letters_def serve_drain_dead_letters_def close_rpc_def checked_def respond_with_def Let_def
      split: sum.split prod.split)

text \<open>A request is counted once, under its method and the outcome the caller sees.\<close>

definition request_counts :: "'f effect list \<Rightarrow> attributes list" where
  "request_counts es = List.map_filter (\<lambda>e. case e of
     CounterAdd i n at \<Rightarrow> if i = U64Counter ''sepp.requests'' \<and> n = 1 then Some at else None | _ \<Rightarrow> None) es"

lemma request_counted:
  assumes "re_metrics env = Metrics_new True"
  shows "request_counts (rd_effects (close_rpc env method sp result)) =
    [[(''method'', method), (''outcome'', case result of Inr _ \<Rightarrow> ''ok'' | Inl _ \<Rightarrow> ''error'')]]"
  using assms by (simp add: close_rpc_def observe_def observe_failure_def request_counts_def List.map_filter_simps Metrics_new_def
      split: sum.split)

end
