(* ===== verification/Startup.thy ===== *)
theory Startup
  imports Config_Watch Stats
begin

text \<open>
  Starting the program: \<open>main\<close> and \<open>load_tls_identity\<close> of \<open>src/main.rs\<close>, and \<open>spawn\<close> and \<open>tls_config\<close> of
  \<open>src/admin/mod.rs\<close>. What the host offers (files, sockets, exporters, the database, the file watcher) is
  a record of functions that may fail; \<open>None\<close> is a panic.
\<close>

section \<open>The host\<close>

datatype 'e startup_error =
    LoadError load_error
  | TelemetryError 'e
  | MetricsError 'e
  | StorageError 'e
  | ReadingFile string str 'e
  | ParsingFile string str 'e
  | TlsError 'e
  | Binding socket_addr 'e

record 'e host =
  ho_disk :: config_disk
  ho_telemetry :: "logging_config \<Rightarrow> tracing_config \<Rightarrow> 'e option"
  ho_metrics :: "'e metrics_setup"
  ho_open :: "config \<Rightarrow> 'e option"
  ho_read :: "str \<Rightarrow> 'e + bytes"
  ho_tls_config :: "bytes \<times> bytes \<Rightarrow> 'e option"
  ho_bind :: "socket_addr \<Rightarrow> 'e + socket_addr"
  ho_watch :: "str \<Rightarrow> 'e option"
  ho_pem_file_iter :: "str \<Rightarrow> 'e + ('e + bytes) list"
  ho_key_from_pem_file :: "str \<Rightarrow> 'e + bytes"
  ho_protocol_versions :: "'e option"
  ho_single_cert :: "bytes list \<Rightarrow> bytes \<Rightarrow> 'e option"
  ho_admin_stats :: admin_snapshot
  ho_command_queue_depth :: usize

datatype startup_warning =
    AuthWithoutTls
  | WatcherNotStarted
  | HotReloadDisabled
  | DefaultAdminKey
  | AdminKeysWithoutTls

text \<open>A step that may panic or fail, and the rest of the program after it.\<close>

definition after :: "('e + 'a) option \<Rightarrow> ('a \<Rightarrow> ('e + 'b) option) \<Rightarrow> ('e + 'b) option" where
  "after step rest = (case step of None \<Rightarrow> None | Some (Inl e) \<Rightarrow> Some (Inl e) | Some (Inr x) \<Rightarrow> rest x)"

definition step_or :: "('x \<Rightarrow> 'y) \<Rightarrow> 'x option \<Rightarrow> ('y + unit) option" where
  "step_or f failed = Some (case failed of Some e \<Rightarrow> Inl (f e) | None \<Rightarrow> Inr ())"

section \<open>TLS identities\<close>

definition load_tls_identity :: "'e host \<Rightarrow> config \<Rightarrow> ('e startup_error + bytes \<times> bytes) option" where
  "load_tls_identity ho config =
     (case sv_tls_cert_path (cf_server config) of
        None \<Rightarrow> None
      | Some cert_path \<Rightarrow>
          (case sv_tls_key_path (cf_server config) of
             None \<Rightarrow> None
           | Some key_path \<Rightarrow>
               after (Some (map_err (ReadingFile ''server.tls_cert_path'' cert_path) (ho_read ho cert_path))) (\<lambda>cert.
               after (Some (map_err (ReadingFile ''server.tls_key_path'' key_path) (ho_read ho key_path))) (\<lambda>key.
               Some (Inr (cert, key))))))"

record rustls_config =
  rc_certs :: "bytes list"
  rc_key :: bytes
  rc_alpn :: "string list"

definition admin_tls_config :: "'e host \<Rightarrow> admin_config \<Rightarrow> ('e startup_error + rustls_config) option" where
  "admin_tls_config ho admin =
     (case ad_tls_cert_path admin of
        None \<Rightarrow> None
      | Some cert_path \<Rightarrow>
          (case ad_tls_key_path admin of
             None \<Rightarrow> None
           | Some key_path \<Rightarrow>
               after (Some (map_err (ReadingFile ''admin.tls_cert_path'' cert_path) (ho_pem_file_iter ho cert_path))) (\<lambda>pems.
               after (Some (map_err (ParsingFile ''admin.tls_cert_path'' cert_path) (collect_results pems))) (\<lambda>certs.
               after (Some (map_err (ReadingFile ''admin.tls_key_path'' key_path) (ho_key_from_pem_file ho key_path))) (\<lambda>key.
               after (step_or TlsError (ho_protocol_versions ho)) (\<lambda>_.
               after (step_or TlsError (ho_single_cert ho certs key)) (\<lambda>_.
               Some (Inr \<lparr>rc_certs = certs, rc_key = key, rc_alpn = [''h2'', ''http/1.1'']\<rparr>))))))))"

section \<open>The admin server\<close>

record admin_started =
  as_addr :: socket_addr
  as_tls :: "rustls_config option"
  as_hub :: admin_hub
  as_warnings :: "startup_warning list"

definition admin_spawn ::
    "'e host \<Rightarrow> codec \<Rightarrow> config \<Rightarrow> queue_registry \<Rightarrow> usize \<Rightarrow> admin_snapshot \<Rightarrow> socket_addr \<Rightarrow>
     ('e startup_error + admin_started) option" where
  "admin_spawn ho K boot registry command_queue_depth stats addr =
     after (if ad_tls_enabled (cf_admin boot) then map_option (map_sum id Some) (admin_tls_config ho (cf_admin boot)) else Some (Inr None)) (\<lambda>tls.
     let hub = prime K registry command_queue_depth stats admin_hub_new in
     after (Some (map_err (Binding addr) (ho_bind ho addr))) (\<lambda>local_addr.
     Some (Inr \<lparr>as_addr = local_addr, as_tls = tls, as_hub = hub,
       as_warnings = (if ad_keys (cf_admin boot) \<noteq> None \<and> tls = None \<and> \<not> is_loopback (sa_ip local_addr)
         then [AdminKeysWithoutTls] else [])\<rparr>)))"

section \<open>The program\<close>

datatype cli_command = RunServer | ConfigExample

record started =
  sd_config :: config
  sd_registry :: queue_registry
  sd_interceptor :: api_key_policy
  sd_addr :: socket_addr
  sd_identity :: "(bytes \<times> bytes) option"
  sd_max_decoding_message_size :: u64
  sd_watched :: "str option"
  sd_admin :: "admin_started option"
  sd_warnings :: "startup_warning list"

datatype main_result = PrintedExample | Serving started

definition watch_config :: "'e host \<Rightarrow> str \<Rightarrow> str option \<times> startup_warning list" where
  "watch_config ho watch_path =
     (if cd_exists (ho_disk ho) watch_path
      then (case ho_watch ho watch_path of None \<Rightarrow> (Some watch_path, []) | Some _ \<Rightarrow> (None, [WatcherNotStarted]))
      else (None, [HotReloadDisabled]))"

definition admin_warnings :: "config \<Rightarrow> startup_warning list" where
  "admin_warnings config =
     (case ad_keys (cf_admin config) of
        Some keys \<Rightarrow> if list_ex (\<lambda>k. adk_key k = ''admin'') keys then [DefaultAdminKey] else []
      | None \<Rightarrow> [])"

definition main_run ::
    "(64 word \<Rightarrow> bool) \<Rightarrow> 'e host \<Rightarrow> codec \<Rightarrow> cli_command \<Rightarrow> str option \<Rightarrow> ('e startup_error + main_result) option" where
  "main_run ratio_ok ho K command config_path =
     (if command = ConfigExample then Some (Inr PrintedExample)
      else
        after (Some (map_err LoadError (Config_load ratio_ok (ho_disk ho) config_path))) (\<lambda>config.
        after (step_or TelemetryError (ho_telemetry ho (cf_logging config) (cf_tracing config))) (\<lambda>_.
        after (Some (map_err MetricsError (metrics_init (ho_metrics ho) (cf_metrics config)))) (\<lambda>_.
        let registry = from_config config; interceptor = to_policy (au_api_keys (cf_auth config)) in
        after (step_or StorageError (ho_open ho config)) (\<lambda>_.
        after (if sv_tls_enabled (cf_server config)
               then after (load_tls_identity ho config) (\<lambda>identity.
                 after (step_or TlsError (ho_tls_config ho identity)) (\<lambda>_. Some (Inr (Some identity))))
               else Some (Inr None)) (\<lambda>identity.
        let plaintext = (if is_enforcing interceptor \<and> identity = None then [AuthWithoutTls] else []);
            addr = sv_listen_addr (cf_server config) in
        after (Some (map_err (Binding addr) (ho_bind ho addr))) (\<lambda>local_addr.
        let watch_path = unwrap_or config_path DEFAULT_CONFIG_PATH;
            watched = watch_config ho watch_path in
        after (if ad_enabled (cf_admin config)
               then map_option (map_sum id Some)
                 (admin_spawn ho K config registry (ho_command_queue_depth ho) (ho_admin_stats ho) (ad_listen_addr (cf_admin config)))
               else Some (Inr None)) (\<lambda>admin.
        Some (Inr (Serving \<lparr>sd_config = config, sd_registry = registry, sd_interceptor = interceptor, sd_addr = local_addr,
          sd_identity = identity, sd_max_decoding_message_size = lc_max_message_bytes (cf_limits config),
          sd_watched = fst watched, sd_admin = admin,
          sd_warnings = plaintext @ snd watched
            @ (case admin of Some a \<Rightarrow> admin_warnings config @ as_warnings a | None \<Rightarrow> [])\<rparr>))))))))))"

section \<open>Lemmas\<close>

lemma after_Some [simp]: "after (Some (Inr x)) rest = rest x" "after (Some (Inl e)) rest = Some (Inl e)" "after None rest = None"
  by (simp_all add: after_def)

lemma after_result: "after step rest = Some (Inr y) \<longleftrightarrow> (\<exists>x. step = Some (Inr x) \<and> rest x = Some (Inr y))"
  by (auto simp: after_def split: option.splits sum.splits)

text \<open>\<open>returns step\<close>: the step ends, with a result or an error.\<close>

definition returns :: "'a option \<Rightarrow> bool" where
  "returns step \<longleftrightarrow> step \<noteq> None"

lemma returns_intros [intro!, simp]:
  "returns (Some x)" "returns (step_or f e)"
  by (auto simp: returns_def step_or_def)

lemma returns_after [intro!]: "returns step \<Longrightarrow> (\<And>x. returns (rest x)) \<Longrightarrow> returns (after step rest)"
  by (auto simp: returns_def after_def split: option.splits sum.splits)

lemma step_or_ok [simp]: "step_or f e = Some (Inr ()) \<longleftrightarrow> e = None"
  by (auto simp: step_or_def split: option.splits)

text \<open>The two \<open>expect\<close>s on the paths never fail, since they come after the test that both are set.\<close>

lemma load_tls_identity_returns: "sv_tls_enabled (cf_server config) \<Longrightarrow> returns (load_tls_identity ho config)"
  by (auto simp: load_tls_identity_def sv_tls_enabled_def)

lemma admin_tls_config_returns: "ad_tls_enabled admin \<Longrightarrow> returns (admin_tls_config ho admin)"
  by (auto simp: admin_tls_config_def ad_tls_enabled_def)

lemma returns_map [simp]: "returns (map_option f x) = returns x"
  by (simp add: returns_def)

lemma admin_spawn_returns: "returns (admin_spawn ho K boot registry depth stats addr)"
  unfolding admin_spawn_def Let_def using admin_tls_config_returns by (intro returns_after) auto

text \<open>Starting the program ends with an error or a running server, never in a panic.\<close>

lemma main_run_returns: "returns (main_run ratio_ok ho K command config_path)"
proof (cases "command = ConfigExample")
  case False
  then show ?thesis
    unfolding main_run_def Let_def using load_tls_identity_returns admin_spawn_returns
    by (simp only: if_False) (intro returns_after; auto)
qed (simp add: main_run_def)

text \<open>
  A server that runs has a valid configuration from the file, the registry and the keys of that
  configuration, and its TLS identity exactly when TLS is configured; keys without TLS are warned of.
\<close>

lemma main_run_serving:
  assumes "main_run ratio_ok ho K command config_path = Some (Inr (Serving sd))"
  shows "Config_load ratio_ok (ho_disk ho) config_path = Inr (sd_config sd)"
    and "sd_registry sd = from_config (sd_config sd)" and "sd_interceptor sd = to_policy (au_api_keys (cf_auth (sd_config sd)))"
    and "sd_identity sd \<noteq> None \<longleftrightarrow> sv_tls_enabled (cf_server (sd_config sd))"
    and "sd_admin sd \<noteq> None \<longleftrightarrow> ad_enabled (cf_admin (sd_config sd))"
    and "ho_open ho (sd_config sd) = None"
    and "config_validate ratio_ok (sd_config sd) = Inr ()"
proof -
  have c: "command \<noteq> ConfigExample" using assms by (auto simp: main_run_def)
  have load: "map_err LoadError x = Inr y \<longleftrightarrow> x = Inr y" for x :: "load_error + config" and y by (cases x) (simp_all add: map_err_def)
  have some: "map_option (map_sum id Some) x = Some (Inr y) \<Longrightarrow> y \<noteq> None" for x :: "('a startup_error + admin_started) option" and y
    by (cases x; cases "the x") auto
  note run = assms [unfolded main_run_def Let_def if_not_P [OF c] after_result option.inject sum.inject main_result.inject]
  then show 1: "Config_load ratio_ok (ho_disk ho) config_path = Inr (sd_config sd)"
    and "sd_registry sd = from_config (sd_config sd)" and "sd_interceptor sd = to_policy (au_api_keys (cf_auth (sd_config sd)))"
    and "ho_open ho (sd_config sd) = None"
    by (auto simp: load)
  from run show "sd_identity sd \<noteq> None \<longleftrightarrow> sv_tls_enabled (cf_server (sd_config sd))" by (auto simp: after_result split: if_splits)
  from run show "sd_admin sd \<noteq> None \<longleftrightarrow> ad_enabled (cf_admin (sd_config sd))" using some by (fastforce split: if_splits)
  from 1 show "config_validate ratio_ok (sd_config sd) = Inr ()" by (rule Config_load_valid)
qed

end
