(* ===== verification/Peek.thy ===== *)
theory Peek
  imports Index
begin

text \<open>
  The paged listing of the indexes (\<open>peek_keys\<close> of \<open>src/storage.rs\<close>): walking the pages lists every
  key of a queue in a given state exactly once, in order, and ends, although a page examines only a
  bounded number of keys and may come back short.
\<close>

section \<open>Keys of a queue\<close>

definition timer_of :: "indexes \<Rightarrow> peek_state \<Rightarrow> timer_index" where
  "timer_of ix st = (case st of PeekScheduled \<Rightarrow> ix_scheduled ix | PeekInflight \<Rightarrow> ix_leases ix | _ \<Rightarrow> ix_dead_letter ix)"

definition index_keys :: "indexes \<Rightarrow> peek_state \<Rightarrow> bytes list" where
  "index_keys ix st = (case st of
     PeekReady \<Rightarrow> map fst (sorted_list_of_fmap (ri_keys (ix_ready ix)))
   | _ \<Rightarrow> map fst (sorted_list_of_fmap (ti_keys (timer_of ix st))))"

definition own_of :: "indexes \<Rightarrow> peek_state \<Rightarrow> str \<Rightarrow> bytes \<Rightarrow> bool" where
  "own_of ix st q = (case st of
     PeekReady \<Rightarrow> prefix (queue_prefix q) | _ \<Rightarrow> (\<lambda>k. fmlookup (ti_keys (timer_of ix st)) k = Some q))"

definition state_keys :: "indexes \<Rightarrow> peek_state \<Rightarrow> str \<Rightarrow> bytes list" where
  "state_keys ix st q = filter (own_of ix st q) (index_keys ix st)"

definition after :: "bytes option \<Rightarrow> bytes \<Rightarrow> bool" where
  "after cursor k = (case cursor of Some c \<Rightarrow> c < k | None \<Rightarrow> True)"

lemma index_keys_sorted: "sorted_wrt (<) (index_keys ix st)"
  by (cases st) (simp_all add: index_keys_def strict_sorted_iff sorted_fst_sorted_list_of_fmap distinct_fst_sorted_list_of_fmap
      del: map_fst_sorted_list_of_fmap)

text \<open>Splitting a strictly sorted list at one of its elements.\<close>

lemma filter_after_split:
  assumes "sorted_wrt (<) (ys @ zs)" and "ys \<noteq> []"
  shows "filter (\<lambda>k. last ys < k) (ys @ zs) = (zs :: bytes list)"
proof -
  have z: "k \<in> set zs \<Longrightarrow> last ys < k" for k using assms by (simp add: sorted_wrt_append)
  have "\<not> last ys < k" if "k \<in> set ys" for k
  proof -
    obtain us where us: "ys = us @ [last ys]" using assms(2) by (metis append_butlast_last_id)
    then have "k = last ys \<or> k \<in> set us" using that by (metis Un_iff empty_iff empty_set insert_iff list.simps(15) set_append)
    moreover have "sorted_wrt (<) (us @ [last ys])" using assms(1) us by (metis sorted_wrt_append)
    ultimately show ?thesis by (auto simp: sorted_wrt_append)
  qed
  with z show ?thesis by (simp add: filter_empty_conv filter_id_conv)
qed

section \<open>One page\<close>

text \<open>A page cuts off an initial segment \<open>ys\<close> of the keys above the cursor.\<close>

definition page_of :: "(bytes \<Rightarrow> bool) \<Rightarrow> bytes list \<Rightarrow> peek_page \<Rightarrow> bool" where
  "page_of own xs p \<longleftrightarrow> (\<exists>ys zs. xs = ys @ zs \<and> pp_keys p = filter own ys
     \<and> (pp_next_cursor p = None \<and> filter own zs = [] \<or> ys \<noteq> [] \<and> pp_next_cursor p = Some (last ys)))"

lemma peek_scan_page:
  assumes "length keys < limit"
  shows "\<exists>ys zs. xs = ys @ zs \<and> pp_keys (peek_scan q limit examined keys lst xs) = keys @ map fst (filter (\<lambda>(_, owner). owner = q) ys)
    \<and> length (pp_keys (peek_scan q limit examined keys lst xs)) \<le> limit
    \<and> (pp_next_cursor (peek_scan q limit examined keys lst xs) = None \<and> zs = []
       \<or> pp_next_cursor (peek_scan q limit examined keys lst xs) = (if ys = [] then lst else Some (fst (last ys)))
         \<and> (ys = [] \<longrightarrow> examined = PEEK_EXAMINE_CAP))"
  using assms
proof (induction xs arbitrary: examined keys lst)
  case (Cons x xs)
  obtain k owner where x: "x = (k, owner)" by fastforce
  let ?keys = "if owner = q then keys @ [k] else keys"
  show ?case
  proof (cases "examined = PEEK_EXAMINE_CAP \<or> owner = q \<and> length (keys @ [k]) = limit")
    case True
    then show ?thesis
      using Cons.prems x by (cases "examined = PEEK_EXAMINE_CAP") (force intro: exI [of _ "[]"] exI [of _ "[x]"])+
  next
    case False
    then have len: "length ?keys < limit" using Cons.prems by auto
    have step: "peek_scan q limit examined keys lst (x # xs) = peek_scan q limit (examined + 1) ?keys (Some k) xs"
      using False x by auto
    obtain ys zs where yz: "xs = ys @ zs"
      "pp_keys (peek_scan q limit (examined + 1) ?keys (Some k) xs) = ?keys @ map fst (filter (\<lambda>(_, owner). owner = q) ys)"
      "length (pp_keys (peek_scan q limit (examined + 1) ?keys (Some k) xs)) \<le> limit"
      "pp_next_cursor (peek_scan q limit (examined + 1) ?keys (Some k) xs) = None \<and> zs = []
       \<or> pp_next_cursor (peek_scan q limit (examined + 1) ?keys (Some k) xs) = (if ys = [] then Some k else Some (fst (last ys)))"
      using Cons.IH [OF len, of "examined + 1" "Some k"] by blast
    show ?thesis
      unfolding step by (rule exI [of _ "x # ys"], rule exI [of _ zs]) (use yz x in auto)
  qed
qed simp

lemma peek_scan_page_of:
  assumes "1 \<le> limit" and own: "\<And>k owner. (k, owner) \<in> set xs \<Longrightarrow> own k \<longleftrightarrow> owner = q"
  shows "page_of own (map fst xs) (peek_scan q limit 0 [] None xs) \<and> length (pp_keys (peek_scan q limit 0 [] None xs)) \<le> limit"
proof -
  let ?p = "peek_scan q limit 0 [] None xs"
  have "length ([] :: bytes list) < limit" using assms(1) by simp
  from peek_scan_page [OF this, of xs q 0 None] obtain ys zs where yz: "xs = ys @ zs"
    "pp_keys ?p = [] @ map fst (filter (\<lambda>(_, owner). owner = q) ys)" "length (pp_keys ?p) \<le> limit"
    "pp_next_cursor ?p = None \<and> zs = [] \<or> ys \<noteq> [] \<and> pp_next_cursor ?p = Some (fst (last ys))"
    unfolding PEEK_EXAMINE_CAP_def by (metis zero_neq_numeral)
  have "filter own (map fst ys) = map fst (filter (\<lambda>(_, owner). owner = q) ys)"
    unfolding filter_map by (rule arg_cong [where f = "map fst"], rule filter_cong) (use own yz(1) in fastforce)+
  moreover have "ys \<noteq> [] \<Longrightarrow> fst (last ys) = last (map fst ys)" by (simp add: last_map)
  ultimately have "page_of own (map fst xs) ?p"
    unfolding page_of_def using yz by (intro exI [of _ "map fst ys"] exI [of _ "map fst zs"]) auto
  with yz(3) show ?thesis by simp
qed

lemma timer_page:
  assumes "1 \<le> limit"
  shows "page_of (\<lambda>k. fmlookup M k = Some q) (filter (after cursor) (map fst (sorted_list_of_fmap M)))
      (peek_scan q limit 0 [] None (filter (\<lambda>(k, _). after cursor k) (sorted_list_of_fmap M)))
    \<and> length (pp_keys (peek_scan q limit 0 [] None (filter (\<lambda>(k, _). after cursor k) (sorted_list_of_fmap M)))) \<le> limit"
proof -
  have "filter (after cursor) (map fst (sorted_list_of_fmap M)) = map fst (filter (\<lambda>(k, _). after cursor k) (sorted_list_of_fmap M))"
    by (simp add: filter_map comp_def case_prod_unfold del: map_fst_sorted_list_of_fmap)
  then show ?thesis
    using peek_scan_page_of [OF assms, of "filter (\<lambda>(k, _). after cursor k) (sorted_list_of_fmap M)" "\<lambda>k. fmlookup M k = Some q" q]
    by (simp add: set_sorted_list_of_fmap del: map_fst_sorted_list_of_fmap)
qed

text \<open>The keys of a queue are contiguous, so the ready index needs no ownership test.\<close>

lemma takeWhile_prefix:
  assumes "sorted_wrt (<) ks" and "\<forall>k \<in> set ks. pre \<le> k"
  shows "takeWhile (prefix pre) ks = filter (prefix pre) (ks :: bytes list)"
  using assms
proof (induction ks)
  case (Cons k ks)
  show ?case
  proof (cases "prefix pre k")
    case False
    have "\<not> prefix pre k'" if "k' \<in> set ks" for k'
    proof
      assume "prefix pre k'"
      then obtain r where "k' = pre @ r" by (auto simp: prefix_def)
      moreover have "k \<le> k'" "pre \<le> k" using Cons.prems that by auto
      ultimately have "prefix pre k" by (auto intro: between_prefix)
      with False show False by contradiction
    qed
    with False show ?thesis by (auto simp: filter_empty_conv)
  qed (use Cons in simp)
qed simp

definition cursor_in :: "str \<Rightarrow> peek_state \<Rightarrow> bytes option \<Rightarrow> bool" where
  "cursor_in q st cursor \<longleftrightarrow> (st = PeekReady \<longrightarrow> pred_option (prefix (queue_prefix q)) cursor)"

lemma filter_split:
  assumes "filter p xs = a @ b" and "a \<noteq> []"
  shows "\<exists>ys zs. xs = ys @ zs \<and> filter p ys = a \<and> filter p zs = b \<and> ys \<noteq> [] \<and> last ys = last a"
  using assms
proof (induction xs arbitrary: a)
  case (Cons x xs)
  show ?case
  proof (cases "p x \<and> a = [x]")
    case True
    with Cons.prems show ?thesis by (intro exI [of _ "[x]"] exI [of _ xs]) auto
  next
    case False
    define a' where "a' = (if p x then tl a else a)"
    have "filter p xs = a' @ b" "a' \<noteq> []" "last a' = last a" "p x \<Longrightarrow> a = x # a'"
      using Cons.prems False by (auto simp: a'_def Cons_eq_append_conv neq_Nil_conv split: if_splits)
    with Cons.IH [of a'] obtain ys zs where "xs = ys @ zs" "filter p ys = a'" "filter p zs = b" "ys \<noteq> []" "last ys = last a"
      by auto
    with \<open>p x \<Longrightarrow> a = x # a'\<close> show ?thesis
      by (intro exI [of _ "x # ys"] exI [of _ zs]) (auto simp: a'_def)
  qed
qed simp

lemma ready_page:
  assumes "1 \<le> limit" and "cursor_in q PeekReady cursor"
  shows "page_of (prefix (queue_prefix q)) (filter (after cursor) (index_keys ix PeekReady)) (peek_ready ix q cursor limit)
    \<and> length (pp_keys (peek_ready ix q cursor limit)) \<le> limit
    \<and> pred_option (prefix (queue_prefix q)) (pp_next_cursor (peek_ready ix q cursor limit))"
proof -
  let ?pre = "queue_prefix q" and ?K = "index_keys ix PeekReady"
  define from' where "from' = (case cursor of Some c \<Rightarrow> (\<lambda>k. c < k) | None \<Rightarrow> (\<lambda>k. ?pre \<le> k))"
  define range' where "range' = takeWhile (prefix ?pre) (filter from' ?K)"
  have "\<forall>k \<in> set (filter from' ?K). ?pre \<le> k"
    using assms(2) by (cases cursor) (auto simp: from'_def cursor_in_def dest!: prefix_imp_le)
  then have "range' = filter (prefix ?pre) (filter from' ?K)"
    unfolding range'_def by (intro takeWhile_prefix sorted_wrt_filter index_keys_sorted)
  also have "\<dots> = filter (prefix ?pre) (filter (after cursor) ?K)"
    by (auto simp: from'_def after_def intro!: filter_cong dest: prefix_imp_le split: option.splits)
  finally have r: "range' = filter (prefix ?pre) (filter (after cursor) ?K)" .
  have p: "pp_keys (peek_ready ix q cursor limit) = take limit range'"
    "pp_next_cursor (peek_ready ix q cursor limit) =
      (if length (take limit range') = limit \<and> drop limit range' \<noteq> [] \<and> take limit range' \<noteq> [] then Some (last (take limit range')) else None)"
    unfolding peek_ready_def Let_def range'_def from'_def by (simp_all add: index_keys_def del: map_fst_sorted_list_of_fmap)
  show ?thesis
  proof (cases "drop limit range' = []")
    case True
    then have "take limit range' = range'" by (simp add: take_all_iff drop_eq_Nil2)
    moreover from this True p r have "page_of (prefix ?pre) (filter (after cursor) ?K) (peek_ready ix q cursor limit)"
      unfolding page_of_def by (intro exI [of _ "filter (after cursor) ?K"] exI [of _ "[]"]) simp
    ultimately show ?thesis using True p by simp
  next
    case False
    then have keys: "take limit range' \<noteq> []" "length (take limit range') = limit" using assms(1) by auto
    obtain ys zs where yz: "filter (after cursor) ?K = ys @ zs" "filter (prefix ?pre) ys = take limit range'" "ys \<noteq> []"
      "last ys = last (take limit range')"
      using filter_split [of "prefix ?pre" _ "take limit range'" "drop limit range'"] r keys(1) by (metis append_take_drop_id)
    have "last (take limit range') \<in> set range'" using keys(1) by (meson in_set_takeD last_in_set)
    then have "prefix ?pre (last (take limit range'))" using r by simp
    with False p yz keys show ?thesis by (auto simp: page_of_def)
  qed
qed

lemma peek_keys_page:
  assumes "cursor_in q st cursor"
  shows "page_of (own_of ix st q) (filter (after cursor) (index_keys ix st)) (peek_keys ix st q cursor limit)
    \<and> length (pp_keys (peek_keys ix st q cursor limit)) \<le> clamp_nat 1 PEEK_LIMIT_MAX limit
    \<and> cursor_in q st (pp_next_cursor (peek_keys ix st q cursor limit))"
proof -
  let ?l = "clamp_nat 1 PEEK_LIMIT_MAX limit"
  have l: "1 \<le> ?l" by (simp add: clamp_nat_def)
  have own: "own_of ix PeekReady q = prefix (queue_prefix q)" by (simp add: own_of_def)
  show ?thesis
  proof (cases st)
    case PeekReady
    with ready_page [OF l, of q cursor ix] assms own show ?thesis by (simp add: peek_keys_def cursor_in_def Let_def)
  qed (use timer_page [OF l, of _ q cursor] in
      \<open>simp_all add: peek_keys_def cursor_in_def index_keys_def own_of_def timer_of_def after_def Let_def
        del: map_fst_sorted_list_of_fmap\<close>)
qed

lemma peek_keys_length: "length (pp_keys (peek_keys ix st q cursor limit)) \<le> clamp_nat 1 PEEK_LIMIT_MAX limit"
proof (cases st)
  case PeekReady
  then show ?thesis by (simp add: peek_keys_def peek_ready_def Let_def)
qed (use timer_page [of "clamp_nat 1 PEEK_LIMIT_MAX limit" _ q cursor] in
    \<open>simp_all add: peek_keys_def after_def clamp_nat_def Let_def del: map_fst_sorted_list_of_fmap\<close>)

section \<open>Walking the pages\<close>

text \<open>A client that follows the cursors, for at most \<open>n\<close> pages.\<close>

fun walk :: "indexes \<Rightarrow> peek_state \<Rightarrow> str \<Rightarrow> nat \<Rightarrow> nat \<Rightarrow> bytes option \<Rightarrow> bytes list option" where
  "walk ix st q limit 0 cursor = None"
| "walk ix st q limit (Suc n) cursor =
     (let page = peek_keys ix st q cursor limit
      in case pp_next_cursor page of
           None \<Rightarrow> Some (pp_keys page)
         | Some c \<Rightarrow> map_option ((@) (pp_keys page)) (walk ix st q limit n (Some c)))"

lemma walk_complete:
  assumes "cursor_in q st cursor" and "length (filter (after cursor) (index_keys ix st)) < n"
  shows "walk ix st q limit n cursor = Some (filter (own_of ix st q) (filter (after cursor) (index_keys ix st)))"
  using assms
proof (induction n arbitrary: cursor)
  case (Suc n)
  let ?K = "index_keys ix st" and ?p = "peek_keys ix st q cursor limit"
  note page = peek_keys_page [OF Suc.prems(1), of ix limit]
  then obtain ys zs where yz: "filter (after cursor) ?K = ys @ zs" "pp_keys ?p = filter (own_of ix st q) ys"
    "pp_next_cursor ?p = None \<and> filter (own_of ix st q) zs = [] \<or> ys \<noteq> [] \<and> pp_next_cursor ?p = Some (last ys)"
    unfolding page_of_def by blast
  show ?case
  proof (cases "pp_next_cursor ?p")
    case None
    with yz show ?thesis by (auto simp: Let_def)
  next
    case (Some c)
    with yz(3) have c: "ys \<noteq> []" "c = last ys" by auto
    have "last ys \<in> set (filter (after cursor) ?K)" using c(1) yz(1) by simp
    then have "filter (after (Some c)) ?K = filter (\<lambda>k. last ys < k) (filter (after cursor) ?K)"
      by (auto simp: c after_def intro!: filter_cong split: option.splits)
    also have "\<dots> = zs"
      unfolding yz(1) by (rule filter_after_split [OF _ c(1)]) (metis yz(1) index_keys_sorted sorted_wrt_filter)
    finally have rest: "filter (after (Some c)) ?K = zs" .
    have "walk ix st q limit n (Some c) = Some (filter (own_of ix st q) zs)"
      using Suc.IH [of "Some c"] rest page Some Suc.prems(2) yz(1) c(1) by (auto simp: Suc_less_eq2 neq_Nil_conv)
    with Some yz show ?thesis by (simp add: Let_def)
  qed
qed simp

text \<open>
  C39: walking the pages of a listing shows every key of the queue in the given state exactly once, in
  key order, and comes to an end after at most one page more than there are keys in the index,
  whatever the page size. No page is longer than the size asked for, cut to the range from 1 to 100.
\<close>

theorem peek_walk_lists_all:
  "walk ix st q limit (Suc (length (index_keys ix st))) None = Some (state_keys ix st q)
   \<and> distinct (state_keys ix st q) \<and> sorted (state_keys ix st q)
   \<and> (\<forall>cursor. length (pp_keys (peek_keys ix st q cursor limit)) \<le> clamp_nat 1 PEEK_LIMIT_MAX limit)"
proof -
  have start: "cursor_in q st None" by (simp add: cursor_in_def)
  have all: "filter (after None) (index_keys ix st) = index_keys ix st" by (simp add: after_def)
  have "sorted_wrt (<) (state_keys ix st q)" unfolding state_keys_def by (intro sorted_wrt_filter index_keys_sorted)
  then have "distinct (state_keys ix st q) \<and> sorted (state_keys ix st q)" by (simp add: strict_sorted_iff)
  moreover have "walk ix st q limit (Suc (length (index_keys ix st))) None = Some (state_keys ix st q)"
    using walk_complete [OF start, of ix "Suc (length (index_keys ix st))" limit] by (simp add: all state_keys_def del: walk.simps)
  ultimately show ?thesis using peek_keys_length by blast
qed

end
